(* ===== verification/Cerios_Base.thy ===== *)
theory Cerios_Base
  imports Main "HOL-Library.Word"
begin

text \<open>
  The vocabulary the component theories share: bytes and machine integers, the ways a C++
  function can end other than by returning, sequencing of such results, and the
  little-endian image of a plain-old-data value.
\<close>

unbundle bit_operations_syntax

named_theorems byte_simps "facts that evaluate byte-level encoders and decoders"

type_synonym byte = "8 word"
type_synonym bytes = "8 word list"

section \<open>Results\<close>

text \<open>
  A C++ call returns, throws, runs into undefined behaviour, or never returns. The last
  three are values of \<open>fault\<close>. \<open>UB\<close> names the rule of the language that is broken, or what
  ends the program.
\<close>

datatype exn =
    VarIntTooBig
  | PacketTooLarge nat
  | OutOfRange
  | InvalidArgument
  | SystemError
  | LengthError
  | RuntimeError string
  | BadOption string
  | ConnectionFailed string
  | DBSelectionFailed string
  | BadQuery string
  | BadParamCount string
  | TypeLookupFailed string
  | BadConversion string
  | MutexFailed string
  | BadInsertPolicy string
  | BadIndex
  | BadFieldName string
  | UseQueryError string
  | ObjectNotInitialized string
  | FileException string
  | ParseException string string nat

datatype ub_kind =
    OutOfBounds
  | NullDeref
  | UseAfterFree
  | InvalidIterator
  | EmptyFront
  | AssertFailed
  | NotRepresentable
  | DoubleFree
  | BadShift
  | Terminated

datatype fault = Throw exn | UB ub_kind | Diverge

type_synonym 'a res = "fault + 'a"

definition rbind :: "'a res \<Rightarrow> ('a \<Rightarrow> 'b res) \<Rightarrow> 'b res" where
  "rbind m f = (case m of Inl e \<Rightarrow> Inl e | Inr x \<Rightarrow> f x)"

lemma rbind_Inr [simp]: "rbind (Inr x) f = f x"
  by (simp add: rbind_def)

lemma rbind_Inl [simp]: "rbind (Inl e) f = Inl e"
  by (simp add: rbind_def)

lemma rbind_eq_Inr_iff: "rbind m f = Inr y \<longleftrightarrow> (\<exists>x. m = Inr x \<and> f x = Inr y)"
  by (cases m) auto

lemma rbind_eq_Inl_iff:
  "rbind m f = Inl e \<longleftrightarrow> m = Inl e \<or> (\<exists>x. m = Inr x \<and> f x = Inl e)"
  by (cases m) auto

lemma rbind_assoc: "rbind (rbind m f) g = rbind m (\<lambda>x. rbind (f x) g)"
  by (cases m) auto

lemma rbind_split: "P (rbind m f) \<longleftrightarrow>
    (\<forall>e. m = Inl e \<longrightarrow> P (Inl e)) \<and> (\<forall>x. m = Inr x \<longrightarrow> P (f x))"
  by (cases m) auto

section \<open>Machine integers\<close>

text \<open>
  A signed 32-bit integer is a \<open>32 word\<close> read by \<open>sint\<close>. Converting it to
  \<open>std::size_t\<close> sign-extends it to 64 bits, which is what the comparisons between
  a container size and an \<open>int32_t\<close> do.
\<close>

type_synonym int32 = "32 word"
type_synonym size_t = "64 word"

definition to_size_t :: "int32 \<Rightarrow> size_t" where
  "to_size_t i = scast i"

definition size_of :: "'a list \<Rightarrow> size_t" where
  "size_of xs = of_nat (length xs)"

definition size_int32 :: "'a list \<Rightarrow> int32" where
  "size_int32 xs = of_nat (length xs)"

section \<open>Little-endian images\<close>

text \<open>
  The build targets x86-64, so the bytes of an object of integer type, least significant
  byte first, are its value in base 256. \<open>le_bytes n w\<close> is the image of the low
  \<open>n\<close> bytes of \<open>w\<close>; \<open>le_word bs\<close> is the value such an image stands for.
\<close>

primrec le_bytes :: "nat \<Rightarrow> 'a::len word \<Rightarrow> bytes" where
  "le_bytes 0 w = []"
| "le_bytes (Suc n) w = ucast w # le_bytes n (drop_bit 8 w)"

primrec le_word :: "bytes \<Rightarrow> 'a::len word" where
  "le_word [] = 0"
| "le_word (b # bs) = ucast b OR push_bit 8 (le_word bs)"

lemma length_le_bytes [simp]: "length (le_bytes n w) = n"
  by (induction n arbitrary: w) simp_all

lemma le_bytes_eq_Nil_iff [simp]: "le_bytes n w = [] \<longleftrightarrow> n = 0"
  by (cases n) simp_all

lemma le_word_step:
  fixes w :: "'a::len word"
  shows "ucast (ucast w :: byte) OR push_bit 8 (take_bit (8 * n) (drop_bit 8 w))
    = take_bit (8 * Suc n) w"
proof (rule bit_eqI)
  fix k
  show "bit (ucast (ucast w :: byte) OR push_bit 8 (take_bit (8 * n) (drop_bit 8 w))) k
      = bit (take_bit (8 * Suc n) w) k"
    by (cases "k < 8") (auto simp: bit_simps not_less dest: bit_imp_le_length)
qed

lemma le_word_le_bytes: "le_word (le_bytes n w) = take_bit (8 * n) (w :: 'a::len word)"
proof (induction n arbitrary: w)
  case 0
  show ?case by simp
next
  case (Suc n)
  then show ?case by (simp add: le_word_step del: mult_Suc_right)
qed

lemma le_word_pod [simp]:
  "le_word (le_bytes 1 w) = (w :: 8 word)"
  "le_word (le_bytes 2 v) = (v :: 16 word)"
  "le_word (le_bytes 4 u) = (u :: 32 word)"
  "le_word (le_bytes 8 t) = (t :: 64 word)"
  by (simp_all add: le_word_le_bytes take_bit_word_eq_self)

section \<open>Strings\<close>

text \<open>
  A \<open>std::string\<close> is a list of \<open>char\<close>, one per byte. Copying between a string and
  a byte vector keeps the bytes.
\<close>

definition char_of_byte :: "byte \<Rightarrow> char" where
  "char_of_byte b = char_of (unat b)"

definition byte_of_char :: "char \<Rightarrow> byte" where
  "byte_of_char c = of_nat (of_char c)"

definition str_of :: "bytes \<Rightarrow> string" where
  "str_of bs = map char_of_byte bs"

definition bytes_of :: "string \<Rightarrow> bytes" where
  "bytes_of s = map byte_of_char s"

lemma char_of_byte_of_char [simp]: "char_of_byte (byte_of_char c) = c"
  by (simp add: char_of_byte_def byte_of_char_def unat_of_nat)

lemma byte_of_char_of_byte [simp]: "byte_of_char (char_of_byte b) = b"
proof -
  have "unat b < 2 ^ LENGTH(8)" by (rule unsigned_less)
  then have "unat b < 256" by simp
  then show ?thesis
    by (simp add: char_of_byte_def byte_of_char_def)
qed

lemma length_str_of [simp]: "length (str_of bs) = length bs"
  by (simp add: str_of_def)

lemma length_bytes_of [simp]: "length (bytes_of s) = length s"
  by (simp add: bytes_of_def)

lemma str_of_bytes_of [simp]: "str_of (bytes_of s) = s"
  by (induction s) (simp_all add: str_of_def bytes_of_def)

lemma bytes_of_eq_Nil_iff [simp]: "bytes_of s = [] \<longleftrightarrow> s = []"
  by (simp add: bytes_of_def)

lemma str_of_eq_Nil_iff [simp]: "str_of bs = [] \<longleftrightarrow> bs = []"
  by (simp add: str_of_def)

lemma bytes_of_str_of [simp]: "bytes_of (str_of bs) = bs"
  by (induction bs) (simp_all add: str_of_def bytes_of_def)

lemma str_of_append [simp]: "str_of (xs @ ys) = str_of xs @ str_of ys"
  by (simp add: str_of_def)

lemma bytes_of_append [simp]: "bytes_of (s @ t) = bytes_of s @ bytes_of t"
  by (simp add: bytes_of_def)

lemma str_of_drop: "str_of (drop n bs) = drop n (str_of bs)"
  by (simp add: str_of_def drop_map)

lemma str_of_take: "str_of (take n bs) = take n (str_of bs)"
  by (simp add: str_of_def take_map)

end
