(* ===== verification/Bit_Fields.thy ===== *)
theory Bit_Fields
  imports Cerios_Base
begin

text \<open>
  \<open>Bitfield.hpp\<close> and the union \<open>Position\<close> of \<open>Packet.hpp\<close>: bit fields as
  templates over an index and a width, views into one storage word.

  The storage of a union is a \<open>64 word\<close>; a field whose minimum type is narrower sees
  its low bits. The code shifts \<open>value & Mask\<close> at the promoted type of \<open>value\<close>, which
  for every use in the repository is 32 bits wide. Left shifts of signed values wrap, as
  the compilers the project files name implement them; a shift by 32 or more places is not
  defined by the language, so what the target does there is the parameter \<open>ovs\<close>.
\<close>

section \<open>Operand types\<close>

text \<open>The type of the right-hand side after the integral promotions.\<close>

datatype operand = Signed32 "32 word" | Unsigned32 "32 word" | Unsigned64 "64 word"

type_synonym oversize_shift = "32 word \<Rightarrow> nat \<Rightarrow> 32 word"

definition shl32 :: "oversize_shift \<Rightarrow> 32 word \<Rightarrow> nat \<Rightarrow> 32 word" where
  "shl32 ovs v n = (if n < 32 then push_bit n v else ovs v n)"

text \<open>x86-64 uses the low five bits of the shift count.\<close>

definition x86_oversize :: oversize_shift where
  "x86_oversize v n = push_bit (n mod 32) v"

definition min_width :: "nat \<Rightarrow> nat" where
  "min_width LastBit =
     (if LastBit = 0 then 0 else if LastBit \<le> 8 then 8 else if LastBit \<le> 16 then 16
      else if LastBit \<le> 32 then 32 else if LastBit \<le> 64 then 64 else 0)"

section \<open>Fields of any width\<close>

definition field_bits :: "oversize_shift \<Rightarrow> nat \<Rightarrow> nat \<Rightarrow> operand \<Rightarrow> 64 word" where
  "field_bits ovs index bits value = (case value of
       Signed32 v \<Rightarrow> scast (shl32 ovs (v AND mask bits) index)
     | Unsigned32 v \<Rightarrow> ucast (shl32 ovs (v AND mask bits) index)
     | Unsigned64 v \<Rightarrow> push_bit index (v AND mask bits))"

definition store_low :: "nat \<Rightarrow> 64 word \<Rightarrow> 64 word \<Rightarrow> 64 word" where
  "store_low w new raw = (raw AND NOT (mask w)) OR take_bit w new"

definition bf_assign :: "oversize_shift \<Rightarrow> nat \<Rightarrow> nat \<Rightarrow> operand \<Rightarrow> 64 word \<Rightarrow> 64 word" where
  "bf_assign ovs index bits value raw =
     (let w = min_width (index + bits); stored = take_bit w raw
      in store_low w ((stored AND NOT (push_bit index (mask bits))) OR field_bits ovs index bits value) raw)"

definition bf_get :: "nat \<Rightarrow> nat \<Rightarrow> 64 word \<Rightarrow> 64 word" where
  "bf_get index bits raw = drop_bit index (take_bit (min_width (index + bits)) raw) AND mask bits"

definition bf_bool :: "oversize_shift \<Rightarrow> nat \<Rightarrow> nat \<Rightarrow> 64 word \<Rightarrow> bool" where
  "bf_bool ovs index bits raw =
     (take_bit (min_width (index + bits)) raw AND scast (shl32 ovs (mask bits) index) \<noteq> 0)"

text \<open>\<open>*this + 1\<close>: the field's type \<open>T\<close>, promoted.\<close>

definition bf_plus :: "nat \<Rightarrow> nat \<Rightarrow> 64 word \<Rightarrow> 64 word \<Rightarrow> operand" where
  "bf_plus index bits d raw =
     (let w = min_width (index + bits); v = bf_get index bits raw
      in if w \<le> 16 then Signed32 (ucast v + ucast d)
         else if w = 32 then Unsigned32 (ucast v + ucast d)
         else Unsigned64 (v + d))"

definition bf_pre_inc :: "oversize_shift \<Rightarrow> nat \<Rightarrow> nat \<Rightarrow> 64 word \<Rightarrow> 64 word" where
  "bf_pre_inc ovs index bits raw = bf_assign ovs index bits (bf_plus index bits 1 raw) raw"

definition bf_pre_dec :: "oversize_shift \<Rightarrow> nat \<Rightarrow> nat \<Rightarrow> 64 word \<Rightarrow> 64 word" where
  "bf_pre_dec ovs index bits raw = bf_assign ovs index bits (bf_plus index bits (- 1) raw) raw"

definition bf_post_inc :: "oversize_shift \<Rightarrow> nat \<Rightarrow> nat \<Rightarrow> 64 word \<Rightarrow> 64 word \<times> 64 word" where
  "bf_post_inc ovs index bits raw = (let r = bf_get index bits raw in (r, bf_pre_inc ovs index bits raw))"

text \<open>The postfix decrement calls the prefix increment, as the source does.\<close>

definition bf_post_dec :: "oversize_shift \<Rightarrow> nat \<Rightarrow> nat \<Rightarrow> 64 word \<Rightarrow> 64 word \<times> 64 word" where
  "bf_post_dec ovs index bits raw = (let r = bf_get index bits raw in (r, bf_pre_inc ovs index bits raw))"

section \<open>One-bit fields\<close>

definition flag_assign :: "oversize_shift \<Rightarrow> nat \<Rightarrow> bool \<Rightarrow> 64 word \<Rightarrow> 64 word" where
  "flag_assign ovs index value raw =
     (let w = min_width (index + 1); stored = take_bit w raw
      in store_low w ((stored AND scast (NOT (shl32 ovs 1 index)))
           OR scast (shl32 ovs (of_bool value) index)) raw)"

definition flag_get :: "oversize_shift \<Rightarrow> nat \<Rightarrow> 64 word \<Rightarrow> bool" where
  "flag_get ovs index raw =
     (take_bit (min_width (index + 1)) raw AND scast (shl32 ovs 1 index) \<noteq> 0)"

section \<open>Positions\<close>

type_synonym position = "64 word"

definition set_x :: "oversize_shift \<Rightarrow> 32 word \<Rightarrow> position \<Rightarrow> position" where
  "set_x ovs x p = bf_assign ovs 0 26 (Signed32 x) p"

definition set_y :: "oversize_shift \<Rightarrow> 32 word \<Rightarrow> position \<Rightarrow> position" where
  "set_y ovs y p = bf_assign ovs 26 12 (Signed32 y) p"

definition set_z :: "oversize_shift \<Rightarrow> 32 word \<Rightarrow> position \<Rightarrow> position" where
  "set_z ovs z p = bf_assign ovs 38 26 (Signed32 z) p"

text \<open>The storage \<open>raw\<close> is not initialised before the fields are assigned.\<close>

definition Position_xyz ::
  "oversize_shift \<Rightarrow> position \<Rightarrow> 32 word \<Rightarrow> 16 word \<Rightarrow> 32 word \<Rightarrow> position" where
  "Position_xyz ovs raw x y z = set_z ovs z (set_y ovs (scast y) (set_x ovs x raw))"

definition Position_default :: "oversize_shift \<Rightarrow> position \<Rightarrow> position" where
  "Position_default ovs raw = set_z ovs 0 (set_y ovs 64 (set_x ovs 0 raw))"

definition getX :: "position \<Rightarrow> 32 word" where "getX p = ucast (bf_get 0 26 p)"
definition getY :: "position \<Rightarrow> 16 word" where "getY p = ucast (bf_get 26 12 p)"
definition getZ :: "position \<Rightarrow> 32 word" where "getZ p = ucast (bf_get 38 26 p)"


section \<open>Laws\<close>

lemma bit_store_low:
  "bit (store_low w new raw) n \<longleftrightarrow> (if n < w then bit new n else bit raw n)"
  by (cases "n < 64")
    (auto simp: store_low_def bit_simps dest: bit_imp_le_length)

lemma bit_bf_assign:
  "bit (bf_assign ovs index bits value raw) n \<longleftrightarrow>
    (if n < min_width (index + bits)
     then (bit raw n \<and> \<not> (index \<le> n \<and> n < index + bits)) \<or> bit (field_bits ovs index bits value) n
     else bit raw n)"
  by (cases "n < 64")
    (auto simp: bf_assign_def Let_def bit_store_low bit_simps dest: bit_imp_le_length)

lemma bit_field_bits_signed:
  assumes "index < 32"
  shows "bit (field_bits ovs index bits (Signed32 v)) n \<longleftrightarrow>
    n < 64 \<and> index \<le> min n 31 \<and> min n 31 < index + bits \<and> bit v (min n 31 - index)"
proof -
  consider "n < 31" | "n = 31" | "31 < n" by linarith
  then show ?thesis
  proof cases
    case 1
    with assms show ?thesis
      by (auto simp: field_bits_def shl32_def bit_simps min_def dest: bit_imp_le_length)
  next
    case 2
    with assms show ?thesis
      by (auto simp: field_bits_def shl32_def bit_simps min_def dest: bit_imp_le_length)
  next
    case 3
  with assms show ?thesis
      by (auto simp: field_bits_def shl32_def bit_simps min_def)
  qed
qed

lemma min_width_ge: "0 < k \<Longrightarrow> k \<le> 64 \<Longrightarrow> k \<le> min_width k"
  by (simp add: min_width_def)

lemma bit_bf_get:
  assumes "0 < bits" and "index + bits \<le> 64"
  shows "bit (bf_get index bits raw) n \<longleftrightarrow> n < bits \<and> bit raw (index + n)"
  using assms min_width_ge [of "index + bits"]
  by (auto simp: bf_get_def bit_simps add.commute dest: bit_imp_le_length)

text \<open>
  Where the field ends below bit 32, reading it after an assignment gives the assigned value
  reduced to the field's width, and every other bit of the storage keeps its value.
\<close>

lemma bf_get_assign:
  assumes "0 < bits" and "index + bits < 32"
  shows "bf_get index bits (bf_assign ovs index bits (Signed32 v) raw) = ucast (v AND mask bits)"
proof (rule bit_eqI)
  fix n
  have "index + bits \<le> min_width (index + bits)" using assms by (simp add: min_width_ge)
  with assms show "bit (bf_get index bits (bf_assign ovs index bits (Signed32 v) raw)) n
      = bit (ucast (v AND mask bits) :: 64 word) n"
    by (cases "n < bits")
      (auto simp: bit_bf_get bit_bf_assign bit_field_bits_signed bit_simps)
qed

lemma bf_get_assign_unsigned:
  assumes "0 < bits" and "index + bits < 32"
  shows "bf_get index bits (bf_assign ovs index bits (Unsigned32 v) raw) = ucast (v AND mask bits)"
proof (rule bit_eqI)
  fix n
  have "index + bits \<le> min_width (index + bits)" using assms by (simp add: min_width_ge)
  with assms show "bit (bf_get index bits (bf_assign ovs index bits (Unsigned32 v) raw)) n
      = bit (ucast (v AND mask bits) :: 64 word) n"
    by (cases "n < bits")
      (auto simp: bit_bf_get bit_bf_assign field_bits_def shl32_def bit_simps)
qed

lemma bf_assign_frame:
  assumes "index + bits < 32" and "n < index \<or> index + bits \<le> n"
  shows "bit (bf_assign ovs index bits (Signed32 v) raw) n = bit raw n"
  using assms
  by (auto simp: bit_bf_assign bit_field_bits_signed min_width_def min_def split: if_splits)

lemma bit_flag_assign:
  assumes "index < 8"
  shows "bit (flag_assign ovs index value raw) n = (if n = index then value else bit raw n)"
  using assms
  by (cases "n < 8")
    (auto simp: flag_assign_def Let_def bit_store_low bit_simps shl32_def min_width_def
      dest: bit_imp_le_length)

lemma bit_set_x: "bit (set_x ovs x p) n \<longleftrightarrow> (if n < 26 then bit x n else bit p n)"
proof -
  have "min_width (0 + 26) = 32" by (simp add: min_width_def)
  then show ?thesis
    by (auto simp: set_x_def bit_bf_assign bit_field_bits_signed min_def)
qed

lemma bit_set_y:
  "bit (set_y ovs y p) n \<longleftrightarrow>
    (if n < 26 then bit p n else if n < 38 then n < 64 \<and> bit y (min n 31 - 26)
     else n < 64 \<and> (bit p n \<or> bit y 5))"
proof -
  have "min_width (26 + 12) = 64" by (simp add: min_width_def)
  then show ?thesis
    by (auto simp: set_y_def bit_bf_assign bit_field_bits_signed min_def dest: bit_imp_le_length)
qed

lemma bit_set_z_zero:
  assumes "ovs 0 38 = 0"
  shows "bit (set_z ovs 0 p) n \<longleftrightarrow> n < 38 \<and> bit p n"
proof -
  have "min_width (38 + 26) = 64" by (simp add: min_width_def)
  with assms show ?thesis
    by (auto simp: set_z_def bit_bf_assign field_bits_def shl32_def dest: bit_imp_le_length)
qed

lemma bf_get_below: "0 < bits \<Longrightarrow> index + bits \<le> 64 \<Longrightarrow> bf_get index bits raw = bf_get index bits raw AND mask bits"
  by (rule bit_eqI) (auto simp: bit_bf_get bit_simps dest: bit_imp_le_length)

lemma ucast_plus_1: "(ucast (v :: 64 word) :: 32 word) + 1 = ucast (v + 1)"
proof -
  have "take_bit 32 (take_bit 64 v + 1) = take_bit 32 (take_bit 64 (v + 1))" for v :: int
  proof -
    have "take_bit 32 (take_bit 64 v + 1) = take_bit 32 (take_bit 32 (take_bit 64 v) + take_bit 32 1)"
      by (simp only: take_bit_add)
    also have "\<dots> = take_bit 32 (take_bit 32 v + take_bit 32 1)" by simp
    also have "\<dots> = take_bit 32 (v + 1)" by (simp only: take_bit_add)
    finally show ?thesis by simp
  qed
  then show ?thesis by transfer simp
qed

lemma ucast_plus_mask:
  fixes v :: "64 word"
  assumes "bits < 32"
  shows "ucast (((ucast v :: 32 word) + 1) AND mask bits) = (v + 1) AND mask bits"
  unfolding ucast_plus_1
  using assms by (intro bit_eqI) (auto simp: bit_simps)

section \<open>Properties\<close>

text \<open>Constructing a position stores \<open>x\<close> modulo 2^26, but of \<open>y\<close> only the low six
  bits survive (the shift by 26 happens at 32 bits), sign-extended into the twelve bits
  of the field, whatever the memory held before; with \<open>z = 0\<close> the z field reads 0.\<close>

theorem position_fields:
  assumes "ovs 0 38 = 0"
  shows "getX (Position_xyz ovs raw x y 0) = x AND mask 26 \<and>
    getY (Position_xyz ovs raw x y 0) = signed_take_bit 5 y AND mask 12 \<and>
    getZ (Position_xyz ovs raw x y 0) = 0"
proof (intro conjI bit_eqI)
  fix n
  note bits = Position_xyz_def bit_set_z_zero [where ovs = ovs, OF assms] bit_set_y bit_set_x bit_bf_get
  show "bit (getX (Position_xyz ovs raw x y 0)) n = bit (x AND mask 26) n"
    by (auto simp: getX_def bits bit_simps)
  show "bit (getY (Position_xyz ovs raw x y 0)) n = bit (signed_take_bit 5 y AND mask 12) n"
    by (auto simp: getY_def bits bit_simps min_def)
  show "bit (getZ (Position_xyz ovs raw x y 0)) n = bit (0 :: 32 word) n"
    by (auto simp: getZ_def bits bit_simps)
qed

theorem position_fields_witness:
  "x86_oversize 0 38 = 0 \<and> getX (Position_xyz x86_oversize 77 5 64 0) = 5 \<and>
   getY (Position_xyz x86_oversize 77 5 64 0) = 0 \<and> getZ (Position_xyz x86_oversize 77 5 64 0) = 0"
proof -
  have h: "x86_oversize 0 38 = 0" by (simp add: x86_oversize_def)
  show ?thesis using h position_fields [of x86_oversize 77 5 64, OF h]
    by (simp add: mask_eq_exp_minus_1 signed_take_bit_def)
qed


text \<open>The postfix decrement of a bit field returns the old value and leaves the field one
  higher, not one lower, modulo the field's width.\<close>

theorem post_dec_increments:
  assumes "0 < bits" and "index + bits < 32"
  shows "fst (bf_post_dec ovs index bits raw) = bf_get index bits raw \<and>
    bf_get index bits (snd (bf_post_dec ovs index bits raw)) =
      (bf_get index bits raw + 1) AND mask bits"
  using assms
  by (simp add: bf_post_dec_def bf_pre_inc_def bf_plus_def Let_def min_width_def
      bf_get_assign bf_get_assign_unsigned ucast_plus_mask)

theorem post_dec_increments_witness:
  "bf_get 0 3 (snd (bf_post_dec x86_oversize 0 3 2)) = 3"
  using post_dec_increments [of 3 0 x86_oversize 2]
  by (simp add: bf_get_def min_width_def mask_eq_exp_minus_1)

end
