(* ===== verification/Codec.thy ===== *)
theory Codec
  imports Cerios_Base
begin

text \<open>
  The contract the formats of bytes and of characters share: a decoder that inverts an encoder and hands back
  what follows. Its consequences (unambiguous concatenation, decoding of
  sequences, nesting of two formats) are proved once here and used at every format.
\<close>

text \<open>Decode \<open>n\<close> values one after the other.\<close>

fun dec_seq :: "('b list \<Rightarrow> ('v \<times> 'b list) res) \<Rightarrow> nat \<Rightarrow> 'b list \<Rightarrow> ('v list \<times> 'b list) res" where
  "dec_seq dec 0 bs = Inr ([], bs)"
| "dec_seq dec (Suc n) bs =
     rbind (dec bs) (\<lambda>(v, bs'). rbind (dec_seq dec n bs') (\<lambda>(vs, bs''). Inr (v # vs, bs'')))"

text \<open>Two formats in sequence.\<close>

definition enc_pair :: "('v \<Rightarrow> 'b list) \<Rightarrow> ('w \<Rightarrow> 'b list) \<Rightarrow> 'v \<times> 'w \<Rightarrow> 'b list" where
  "enc_pair e f vw = e (fst vw) @ f (snd vw)"

definition dec_pair ::
  "('b list \<Rightarrow> ('v \<times> 'b list) res) \<Rightarrow> ('b list \<Rightarrow> ('w \<times> 'b list) res) \<Rightarrow> 'b list \<Rightarrow> (('v \<times> 'w) \<times> 'b list) res"
where
  "dec_pair d g bs = rbind (d bs) (\<lambda>(v, bs'). rbind (g bs') (\<lambda>(w, bs''). Inr ((v, w), bs'')))"

locale codec =
  fixes enc :: "'v \<Rightarrow> 'b list"
    and dec :: "'b list \<Rightarrow> ('v \<times> 'b list) res"
    and ok :: "'v \<Rightarrow> bool"
  assumes dec_enc: "ok v \<Longrightarrow> dec (enc v @ rest) = Inr (v, rest)"
begin

lemma dec_enc_Nil: "ok v \<Longrightarrow> dec (enc v) = Inr (v, [])"
  using dec_enc [of v "[]"] by simp

lemma enc_append_inject:
  assumes "ok v" and "ok w" and "enc v @ r = enc w @ s"
  shows "v = w \<and> r = s"
proof -
  have "Inr (v, r) = (Inr (w, s) :: ('v \<times> 'b list) res)"
    using dec_enc [OF assms(1), of r] dec_enc [OF assms(2), of s] unfolding assms(3) by simp
  then show ?thesis by simp
qed

lemma enc_inject: "ok v \<Longrightarrow> ok w \<Longrightarrow> enc v = enc w \<longleftrightarrow> v = w"
  using enc_append_inject [of v w "[]" "[]"] by auto

lemma dec_seq_concat:
  "(\<forall>v \<in> set vs. ok v) \<Longrightarrow>
    dec_seq dec (length vs) (concat (map enc vs) @ rest) = Inr (vs, rest)"
  by (induction vs) (simp_all add: dec_enc)

lemma concat_enc_inject:
  assumes "\<forall>v \<in> set vs. ok v" and "\<forall>w \<in> set ws. ok w" and "length vs = length ws"
    and "concat (map enc vs) @ r = concat (map enc ws) @ s"
  shows "vs = ws \<and> r = s"
proof -
  have "Inr (vs, r) = (Inr (ws, s) :: ('v list \<times> 'b list) res)"
    using dec_seq_concat [OF assms(1), of r] dec_seq_concat [OF assms(2), of s]
    unfolding assms(3,4) by simp
  then show ?thesis by simp
qed

end

locale codec_pair = l: codec enc1 dec1 ok1 + r: codec enc2 dec2 ok2
  for enc1 :: "'v \<Rightarrow> 'b list" and dec1 ok1 and enc2 :: "'w \<Rightarrow> 'b list" and dec2 ok2
begin

lemma pair_law:
  "ok1 (fst vw) \<and> ok2 (snd vw) \<Longrightarrow>
    dec_pair dec1 dec2 (enc_pair enc1 enc2 vw @ rest) = Inr (vw, rest)"
  by (simp add: dec_pair_def enc_pair_def l.dec_enc r.dec_enc)

end

sublocale codec_pair \<subseteq> pair: codec "enc_pair enc1 enc2" "dec_pair dec1 dec2"
    "\<lambda>vw. ok1 (fst vw) \<and> ok2 (snd vw)"
  by unfold_locales (rule pair_law)

text \<open>A format whose encodings all have the same length.\<close>

locale fixed_codec = codec enc dec ok
  for enc :: "'v \<Rightarrow> 'b list" and dec ok +
  fixes width :: nat
  assumes length_enc: "length (enc v) = width"
begin

lemma length_concat_enc: "length (concat (map enc vs)) = width * length vs"
  by (induction vs) (simp_all add: length_enc)

end

end
