(* ===== verification/VarInt.thy ===== *)
theory VarInt
  imports Codec
begin

text \<open>
  The VarInts of \<open>MCPacket/Packet.cpp\<close>: the appending writer, the writer in front of a buffer,
  the size, the reader, and the framing of a packet by its length, with their bounds and round
  trips.
\<close>

section \<open>Writing\<close>

function leb128 :: "'a::len word \<Rightarrow> bytes" where
  "leb128 input =
     (if input AND (- 128) \<noteq> 0
      then ucast ((input AND 127) OR 128) # leb128 (drop_bit 7 input)
      else [ucast input])"
  by pat_completeness auto
termination
proof (relation "measure unat")
  show "wf (measure unat)" by simp
next
  fix input :: "'a word"
  assume "input AND (- 128) \<noteq> 0"
  then have "unat input \<noteq> 0" by (auto simp: unat_eq_0)
  then show "(drop_bit 7 input, input) \<in> measure unat"
    by (simp add: unat_drop_bit_eq drop_bit_eq_div [of _ "unat input"])
qed

declare leb128.simps [simp del]

definition write_varint :: "32 word \<Rightarrow> bytes" where
  "write_varint input = leb128 input"

definition write_varlong :: "64 word \<Rightarrow> bytes" where
  "write_varlong input = leb128 input"

lemma word_127_eq_mask: "(127 :: 'a::len word) = mask 7"
  by (simp add: mask_eq_exp_minus_1)

lemma word_128_eq_exp: "(128 :: 'a::len word) = 2 ^ 7"
  by simp

lemma word_minus_128_eq_not_mask: "(- 128 :: 'a::len word) = NOT (mask 7)"
  using minus_exp_eq_not_mask [of 7, where ?'a = "'a word"] by simp

lemma and_minus_128_eq_0_iff:
  "input AND (- 128) = 0 \<longleftrightarrow> drop_bit 7 (input :: 'a::len word) = 0"
proof -
  have "input AND (- 128) = 0 \<longleftrightarrow> (\<forall>n. bit input n \<longrightarrow> n < 7)"
    by (auto simp: word_minus_128_eq_not_mask bit_eq_iff bit_simps dest: bit_imp_le_length)
  moreover have "drop_bit 7 input = 0 \<longleftrightarrow> (\<forall>n. \<not> bit input (7 + n))"
    by (auto simp add: bit_eq_iff bit_simps) (meson bit_imp_le_length le_add2 order_le_less_trans)
  ultimately show ?thesis
    by (metis add.commute le_add_diff_inverse2 not_less not_add_less1)
qed

section \<open>Reading\<close>

text \<open>
  The shift \<open>value << n\<close> of an \<open>int\<close> that is not negative: C++ before 2020 defines it when \<open>n\<close> is
  smaller than the width and the product fits in an \<open>unsigned int\<close>.
\<close>

definition int_shift_left :: "int32 \<Rightarrow> nat \<Rightarrow> int32 res" where
  "int_shift_left v n =
     (if n < 32 \<and> uint v * 2 ^ n < 2 ^ 32 then Inr (push_bit n v) else Inl (UB BadShift))"

fun read_varint_loop :: "bytes \<Rightarrow> nat \<Rightarrow> int32 \<Rightarrow> (int32 \<times> nat) res" where
  "read_varint_loop [] numByte intOut = Inr (intOut, 0)"
| "read_varint_loop (byte # rest) numByte intOut =
     rbind (int_shift_left (ucast (byte AND 127)) (numByte * 7)) (\<lambda>group.
     (let intOut' = intOut OR group;
          numByte' = Suc numByte
      in if numByte' > 5 then Inl (Throw VarIntTooBig)
         else if byte AND 128 = 128 then read_varint_loop rest numByte' intOut'
         else Inr (intOut', numByte')))"

definition read_varint :: "bytes \<Rightarrow> bool \<Rightarrow> (int32 \<times> nat \<times> bytes) res" where
  "read_varint buffer consume =
     (if buffer = [] then Inr (0, 0, buffer)
      else rbind (read_varint_loop buffer 0 0) (\<lambda>(intOut, numByte).
        Inr (intOut, numByte, if consume then drop numByte buffer else buffer)))"

lemma seven_bits: "uint ((b :: byte) AND 127) < 128"
  "uint (ucast (b AND 127) :: int32) = uint (b AND 127)"
proof -
  have "unat (b AND 127) \<le> unat (127 :: byte)" using word_and_le1 [of b 127] by (simp only: word_le_nat_alt)
  then have "unat (b AND 127) < 128" by simp
  then have "int (unat (b AND 127)) < 128" by (simp only: of_nat_less_numeral_iff)
  then show lt: "uint (b AND 127) < 128" by (simp only: uint_nat)
  have "take_bit 32 (uint (b AND 127)) = uint (b AND 127)"
    using lt by (intro take_bit_int_eq_self) simp_all
  then show "uint (ucast (b AND 127) :: int32) = uint (b AND 127)"
    by (simp only: unsigned_ucast_eq) simp
qed

lemma uint_less_exp_iff: "uint (w :: 'a::len word) < 2 ^ n \<longleftrightarrow> drop_bit n w = 0"
proof -
  have "drop_bit n w = 0 \<longleftrightarrow> unat w div 2 ^ n = 0"
    using unat_eq_0 [of "drop_bit n w"] by (simp only: unat_drop_bit_eq drop_bit_eq_div [of _ "unat w"])
  also have "\<dots> \<longleftrightarrow> unat w < 2 ^ n" by (auto simp: div_eq_0_iff)
  also have "\<dots> \<longleftrightarrow> uint w < 2 ^ n" by (simp only: uint_nat of_nat_less_iff of_nat_power of_nat_numeral flip: of_nat_less_iff [where ?'a = int])
  finally show ?thesis by simp
qed

lemma seven_bits_fit: "uint (b AND 127) < 16 \<longleftrightarrow> (b :: byte) AND 0x70 = 0"
proof -
  have m: "(0x70 :: byte) = push_bit 4 (mask 3)" by (simp add: mask_eq_exp_minus_1 push_bit_eq_mult)
  have "drop_bit 4 (b AND 127) = drop_bit 4 (b AND 0x70)"
    unfolding m word_127_eq_mask by (rule bit_eqI) (auto simp: bit_simps)
  then have "drop_bit 4 (b AND 127) = 0 \<longleftrightarrow> drop_bit 4 (b AND 0x70) = 0" by (rule arg_cong)
  moreover have "b AND 0x70 = 0" if "drop_bit 4 (b AND 0x70) = 0"
  proof (rule bit_eqI)
    fix n
    have "\<not> bit (drop_bit 4 (b AND 0x70)) (n - 4)" using that by simp
    then show "bit (b AND 0x70) n = bit 0 n" unfolding m by (simp add: bit_simps)
  qed
  moreover have "drop_bit 4 (b AND 0x70) = 0" if "b AND 0x70 = 0" using that by (simp only: drop_bit_of_0)
  moreover have "uint (b AND 127) < 16 \<longleftrightarrow> drop_bit 4 (b AND 127) = 0"
    using uint_less_exp_iff [of "b AND 127" 4] by (simp del: drop_bit_and)
  ultimately show ?thesis by blast
qed

lemma shift_fits:
  assumes "n < 32" and "drop_bit (32 - n) w = 0"
  shows "int_shift_left w n = Inr (push_bit n w)"
proof -
  have "uint w * 2 ^ n < 2 ^ (32 - n) * 2 ^ n" using assms(2) by (simp add: uint_less_exp_iff)
  also have "\<dots> = (2 :: int) ^ 32" using assms(1) by (simp flip: power_add)
  finally show ?thesis using assms(1) by (simp add: int_shift_left_def)
qed

lemma shift_zero [simp]: "int_shift_left v 0 = Inr v"
  using uint_bounded [of v] by (simp add: int_shift_left_def)

lemma shift_group [simp]:
  "int_shift_left (ucast (b AND 127)) 7 = Inr (push_bit 7 (ucast (b AND 127)))"
  "int_shift_left (ucast (b AND 127)) 14 = Inr (push_bit 14 (ucast (b AND 127)))"
  "int_shift_left (ucast (b AND 127)) 21 = Inr (push_bit 21 (ucast (b AND 127)))"
  "int_shift_left (ucast (b AND 127)) 28 = (if (b :: byte) AND 0x70 = 0
     then Inr (push_bit 28 (ucast (b AND 127))) else Inl (UB BadShift))"
  "int_shift_left v 35 = Inl (UB BadShift)"
  using seven_bits [of b] seven_bits_fit [of b] by (simp_all add: int_shift_left_def)

lemma shift_group_fits:
  assumes "k < 4"
  shows "int_shift_left (ucast ((b :: byte) AND 127)) (k * 7) = Inr (push_bit (k * 7) (ucast (b AND 127)))"
proof -
  from assms consider "k = 0" | "k = 1" | "k = 2" | "k = 3" by linarith
  then show ?thesis by cases simp_all
qed

lemma continuation_byte:
  "(ucast ((w AND 127) OR 128) :: byte) AND 128 = 128"
  "ucast ((ucast ((w AND 127) OR 128) :: byte) AND 127) = (w AND 127 :: 32 word)"
  by (rule bit_eqI, force simp add: word_127_eq_mask word_128_eq_exp bit_simps simp del: power_numeral)+


lemma high_bits_clear:
  assumes "drop_bit 7 (w :: int32) = 0" and "7 \<le> n"
  shows "\<not> bit w n"
proof -
  from assms(1) have "\<not> bit (drop_bit 7 w) (n - 7)" by simp
  with assms(2) show ?thesis by (simp add: bit_simps)
qed

lemma and_127_id: "drop_bit 7 w = 0 \<Longrightarrow> w AND 127 = (w :: int32)"
  by (rule bit_eqI, auto simp: word_127_eq_mask bit_simps) (meson high_bits_clear not_less)

lemma last_byte:
  assumes "drop_bit 7 (w :: int32) = 0"
  shows "(ucast w :: byte) AND 128 \<noteq> 128" "ucast ((ucast w :: byte) AND 127) = w"
proof -
  have "\<not> bit ((ucast w :: byte) AND 128) 7"
    by (simp add: bit_simps high_bits_clear [OF assms])
  moreover have "bit (128 :: byte) 7" by (simp add: bit_simps)
  ultimately show "(ucast w :: byte) AND 128 \<noteq> 128" by metis
  show "ucast ((ucast w :: byte) AND 127) = w"
  proof (rule bit_eqI)
    fix n
    show "bit (ucast ((ucast w :: byte) AND 127) :: int32) n = bit w n"
      using high_bits_clear [OF assms, of n]
      by (cases "n < 7") (auto simp add: word_127_eq_mask bit_simps dest: bit_imp_le_length)
  qed
qed

lemma sign_bit_int32: "bit (w :: int32) 31 \<longleftrightarrow> sint w < 0"
  using bit_last_iff [of w] by simp

lemma varint_split:
  "(acc OR push_bit m (w AND 127)) OR push_bit (7 + m) (drop_bit 7 w)
    = acc OR push_bit m (w :: 32 word)"
proof (rule bit_eqI)
  fix n
  show "bit ((acc OR push_bit m (w AND 127)) OR push_bit (7 + m) (drop_bit 7 w)) n
      = bit (acc OR push_bit m w) n"
    by (cases "n < m + 7")
      (auto simp add: word_127_eq_mask bit_simps dest: bit_imp_le_length)
qed

lemma leb128_not_Nil [simp]: "leb128 w \<noteq> []"
  by (subst leb128.simps) simp

lemma read_varint_loop_leb128:
  assumes "k < 5" and "drop_bit (32 - 7 * k) w = 0"
  shows "read_varint_loop (leb128 w @ rest) k acc
    = Inr (acc OR push_bit (7 * k) w, k + length (leb128 w))"
  using assms
proof (induction w arbitrary: k acc rule: leb128.induct)
  case (1 w)
  show ?case
  proof (cases "drop_bit 7 w = 0")
    case True
    then show ?thesis
      using last_byte [OF True] 1(2) shift_fits [of "k * 7" w] 1(3)
      by (simp add: leb128.simps [of w] and_minus_128_eq_0_iff mult.commute)
  next
    case False
    have k4: "k < 4"
    proof (rule ccontr)
      assume "\<not> k < 4"
      with 1(2) have "k = 4" by simp
      with 1(3) have "drop_bit 3 (drop_bit 4 w) = 0" by simp
      with False show False by simp
    qed
    have "drop_bit (32 - 7 * Suc k) (drop_bit 7 w) = 0"
      using 1(3) k4 by simp
    then have "read_varint_loop (leb128 (drop_bit 7 w) @ rest) (Suc k) acc'
        = Inr (acc' OR push_bit (7 * Suc k) (drop_bit 7 w),
            Suc k + length (leb128 (drop_bit 7 w)))" for acc'
      using 1(1) k4 False by (simp add: and_minus_128_eq_0_iff)
    then show ?thesis
      using False k4 shift_group_fits [OF k4, of "ucast ((w AND 127) OR 128)"]
      by (simp add: leb128.simps [of w] and_minus_128_eq_0_iff continuation_byte
          mult.commute varint_split [unfolded push_bit_and])
  qed
qed

lemma read_write_varint [byte_simps]:
  "read_varint (write_varint v @ rest) True = Inr (v, length (write_varint v), rest)"
  using read_varint_loop_leb128 [of 0 v rest 0]
  by (simp add: read_varint_def write_varint_def)


lemma read_write_varint_only [byte_simps]:
  "read_varint (write_varint v) True = Inr (v, length (write_varint v), [])"
  using read_write_varint [of v "[]"] by simp

text \<open>The variable-length integers are a self-delimiting format.\<close>

definition dec_varint :: "bytes \<Rightarrow> (int32 \<times> bytes) res" where
  "dec_varint buffer = rbind (read_varint buffer True) (\<lambda>(v, _, rest). Inr (v, rest))"

interpretation varint: codec write_varint dec_varint "\<lambda>_. True"
  by unfold_locales (simp add: dec_varint_def read_write_varint)

text \<open>
  The buffers that do not start with a number of 32 bits: four bytes with the continuation bit,
  and a fifth byte that carries bits above the 32nd or is continued by a sixth.
\<close>

definition overlong :: "bytes \<Rightarrow> bool" where
  "overlong buffer \<longleftrightarrow> 5 \<le> length buffer \<and> list_all (\<lambda>b. b AND 128 = 128) (take 4 buffer) \<and>
     (buffer ! 4 AND 0x70 \<noteq> 0 \<or> buffer ! 4 AND 128 = 128 \<and> 6 \<le> length buffer)"

lemma read_varint_loop_Inl_iff: "read_varint_loop buf 0 0 = Inl e \<longleftrightarrow> e = UB BadShift \<and> overlong buf"
proof -
  consider "buf = []" | a where "buf = [a]" | a b where "buf = [a, b]" | a b c where "buf = [a, b, c]"
    | a b c d where "buf = [a, b, c, d]" | a b c d f where "buf = [a, b, c, d, f]"
    | a b c d f g rest where "buf = a # b # c # d # f # g # rest"
    by (metis list.exhaust)
  then show ?thesis
    by cases (auto simp: overlong_def Let_def)
qed

lemma read_varint_loop_Inr:
  assumes "read_varint_loop buf k acc = Inr (v, n)" and "n \<noteq> 0"
  shows "k < n \<and> n \<le> k + length buf \<and> n \<le> 5"
  using assms
proof (induction buf arbitrary: k acc)
  case Nil
  then show ?case by simp
next
  case (Cons b buf)
  from Cons.prems show ?case
    by (auto simp: Let_def rbind_eq_Inr_iff split: if_splits dest!: Cons.IH)
qed

lemma read_varint_error_iff:
  "read_varint buf consume = Inl e \<longleftrightarrow> e = UB BadShift \<and> overlong buf"
  using read_varint_loop_Inl_iff [of buf e]
  by (cases "buf = []") (auto simp: read_varint_def rbind_eq_Inl_iff overlong_def split: prod.splits)

lemma read_varint_bounds:
  assumes "read_varint buf consume = Inr (v, n, rest)"
  shows "n \<le> 5" "n \<le> length buf" "rest = (if consume then drop n buf else buf)"
proof -
  from assms have "n \<le> 5 \<and> n \<le> length buf"
    by (cases "n = 0")
      (auto simp: read_varint_def rbind_eq_Inr_iff split: if_splits dest: read_varint_loop_Inr)
  then show "n \<le> 5" "n \<le> length buf" by simp_all
  from assms show "rest = (if consume then drop n buf else buf)"
    by (auto simp: read_varint_def rbind_eq_Inr_iff split: if_splits)
qed

section \<open>Sizes\<close>

function get_varint_size_loop :: "64 word \<Rightarrow> nat \<Rightarrow> nat" where
  "get_varint_size_loop input bytes =
     (if bytes < 5
      then if input AND scast (push_bit (bytes * 7) (- 1 :: int32)) = 0 then bytes
           else get_varint_size_loop input (Suc bytes)
      else 5)"
  by pat_completeness auto
termination
  by (relation "measure (\<lambda>(input, bytes). 5 - bytes)") auto

declare get_varint_size_loop.simps [simp del]

definition get_varint_size :: "64 word \<Rightarrow> nat" where
  "get_varint_size input = get_varint_size_loop input 1"

lemma and_size_mask_eq_0_iff:
  assumes "m < 32"
  shows "input AND scast (NOT (mask m) :: int32) = 0 \<longleftrightarrow> unat (input :: 64 word) < 2 ^ m"
proof -
  have "(scast (NOT (mask m) :: int32) :: 64 word) = NOT (mask m)"
    using assms by (intro bit_eqI) (auto simp: bit_simps)
  moreover have "input AND NOT (mask m) = 0 \<longleftrightarrow> take_bit m input = input"
    by (auto simp: bit_eq_iff bit_simps)
  moreover have "take_bit m input = input \<longleftrightarrow> unat input < 2 ^ m"
    by (metis take_bit_nat_eq_self take_bit_nat_less_exp unsigned_take_bit_eq word_unat_eq_iff)
  ultimately show ?thesis by simp
qed

lemma get_varint_size_eq:
  "get_varint_size input =
    (if unat input < 2 ^ 7 then 1 else if unat input < 2 ^ 14 then 2
     else if unat input < 2 ^ 21 then 3 else if unat input < 2 ^ 28 then 4 else 5)"
  by (simp add: get_varint_size_def get_varint_size_loop.simps and_size_mask_eq_0_iff)

lemma length_leb128:
  "length (leb128 w) = (if unat w < 128 then 1 else Suc (length (leb128 (drop_bit 7 w))))"
proof -
  have "drop_bit 7 w = 0 \<longleftrightarrow> unat w < 128"
    using unat_eq_0 [of "drop_bit 7 w"]
    by (simp add: unat_drop_bit_eq drop_bit_eq_div [of _ "unat w"] div_eq_0_iff)
  then show ?thesis by (subst leb128.simps) (simp add: and_minus_128_eq_0_iff)
qed

lemma length_write_varint:
  "length (write_varint v) =
    (if unat v < 2 ^ 7 then 1 else if unat v < 2 ^ 14 then 2
     else if unat v < 2 ^ 21 then 3 else if unat v < 2 ^ 28 then 4 else 5)"
proof -
  have bound: "unat v < 2 ^ 32" using unsigned_less [of v] by simp
  have step: "unat (drop_bit n v) < 128 \<longleftrightarrow> unat v < 128 * 2 ^ n" for n
    by (simp add: unat_drop_bit_eq drop_bit_eq_div [of _ "unat v"] div_less_iff_less_mult)
  show ?thesis
    using bound by (simp add: write_varint_def length_leb128 step)
qed


section \<open>Prepending\<close>

partial_function (option) varint_front_loop :: "int32 \<Rightarrow> bytes \<Rightarrow> bytes option" where
  "varint_front_loop input bytes =
     (if input AND (- 128) \<noteq> 0
      then varint_front_loop (signed_drop_bit 7 input)
             (bytes @ [ucast ((input AND 127) OR 128)])
      else Some (bytes @ [ucast (input AND 127)]))"

definition write_varint_front :: "bytes \<Rightarrow> int32 \<Rightarrow> bytes res" where
  "write_varint_front buffer input =
     (case varint_front_loop input [] of
        None \<Rightarrow> Inl Diverge
      | Some bytes \<Rightarrow> Inr (bytes @ buffer))"

definition MAX_LENGTH_BYTES :: nat where
  "MAX_LENGTH_BYTES = 3"

definition write_buffer_length_front :: "bytes \<Rightarrow> bytes res" where
  "write_buffer_length_front buffer =
     (if get_varint_size (size_of buffer) > MAX_LENGTH_BYTES
      then Inl (Throw (PacketTooLarge (get_varint_size (size_of buffer))))
      else write_varint_front buffer (size_int32 buffer))"

lemma signed_drop_bit_nonneg:
  "0 \<le> sint w \<Longrightarrow> signed_drop_bit n w = drop_bit n (w :: int32)"
  by (rule bit_eqI)
    (auto simp: bit_simps sign_bit_int32 not_less dest: bit_imp_le_length)

lemma varint_front_loop_nonneg:
  "0 \<le> sint input \<Longrightarrow> varint_front_loop input bs = Some (bs @ leb128 input)"
proof (induction input arbitrary: bs rule: leb128.induct)
  case (1 w)
  show ?case
  proof (cases "drop_bit 7 w = 0")
    case True
    then show ?thesis
      by (simp add: varint_front_loop.simps [of w] leb128.simps [of w] and_minus_128_eq_0_iff
          and_127_id)
  next
    case False
    have "0 \<le> sint (drop_bit 7 w)"
      using 1(2) signed_drop_bit_nonneg [OF 1(2), of 7]
      by (metis drop_bit_nonnegative_int_iff sint_signed_drop_bit_eq)
    with False 1 show ?thesis
      by (simp add: varint_front_loop.simps [of w] leb128.simps [of w] and_minus_128_eq_0_iff
          signed_drop_bit_nonneg)
  qed
qed

lemma varint_front_loop_negative:
  assumes "sint input < 0"
  shows "varint_front_loop input bs = None"
proof (rule ccontr)
  assume "varint_front_loop input bs \<noteq> None"
  then obtain r where "varint_front_loop input bs = Some r" by auto
  then have "0 \<le> sint input"
  proof (rule varint_front_loop.raw_induct [rotated])
    fix f :: "int32 \<Rightarrow> bytes \<Rightarrow> bytes option" and input bs r
    assume IH: "\<And>input bs r. f input bs = Some r \<Longrightarrow> 0 \<le> sint input"
      and eq: "(if input AND (- 128) \<noteq> 0
        then f (signed_drop_bit 7 input) (bs @ [ucast ((input AND 127) OR 128)])
        else Some (bs @ [ucast (input AND 127)])) = Some r"
    show "0 \<le> sint input"
    proof (cases "drop_bit 7 input = 0")
      case True
      then have "\<not> bit input 31" by (rule high_bits_clear) simp
      then show ?thesis by (simp add: sign_bit_int32 not_less)
    next
      case False
      with eq have "f (signed_drop_bit 7 input) (bs @ [ucast ((input AND 127) OR 128)]) = Some r"
        by (simp add: and_minus_128_eq_0_iff)
      then have "0 \<le> sint (signed_drop_bit 7 input)" by (rule IH)
      then show ?thesis by (simp add: sint_signed_drop_bit_eq)
    qed
  qed
  with assms show False by simp
qed

lemma write_varint_front_spec:
  "write_varint_front buffer input =
    (if 0 \<le> sint input then Inr (write_varint input @ buffer) else Inl Diverge)"
  by (simp add: write_varint_front_def varint_front_loop_nonneg varint_front_loop_negative
      write_varint_def)

lemma sint_size_int32:
  assumes "length xs < 2 ^ 31"
  shows "sint (size_int32 xs) = int (length xs)" "unat (size_int32 xs) = length xs"
proof -
  show u: "unat (size_int32 xs) = length xs"
    using assms by (simp add: size_int32_def unat_of_nat take_bit_nat_eq_self)
  then show "sint (size_int32 xs) = int (length xs)"
    using assms by (simp add: sint_uint uint_nat signed_take_bit_int_eq_self)
qed

lemma unat_size_of: "length xs < 2 ^ 64 \<Longrightarrow> unat (size_of xs) = length xs"
  by (simp add: size_of_def unat_of_nat take_bit_nat_eq_self)

lemma write_buffer_length_front_spec:
  assumes "length buffer < 2 ^ 64"
  shows "write_buffer_length_front buffer =
    (if length buffer < 2 ^ 21 then Inr (write_varint (size_int32 buffer) @ buffer)
     else Inl (Throw (PacketTooLarge (if length buffer < 2 ^ 28 then 4 else 5))))"
  using assms
  by (simp add: write_buffer_length_front_def get_varint_size_eq unat_size_of
      MAX_LENGTH_BYTES_def write_varint_front_spec sint_size_int32)

lemma read_framed:
  assumes "length payload < 2 ^ 21"
    and "write_buffer_length_front payload = Inr wire"
  shows "read_varint (wire @ more) True =
    Inr (size_int32 payload, length wire - length payload, payload @ more)"
  using assms by (auto simp: write_buffer_length_front_spec read_write_varint)

text \<open>A truncated encoding: every byte has its continuation bit set.\<close>

lemma read_varint_loop_partial:
  assumes "\<forall>b\<in>set buf. b AND 128 = 128" and "k + length buf \<le> 4"
  shows "\<exists>v. read_varint_loop buf k acc = Inr (v, 0)"
  using assms
proof (induction buf arbitrary: k acc)
  case (Cons b buf)
  then have "k < 4" by simp
  with Cons show ?case by (simp add: shift_group_fits Let_def)
qed simp

lemma leb128_continuation:
  "k < length (leb128 w) \<Longrightarrow> b \<in> set (take k (leb128 (w :: int32))) \<Longrightarrow> b AND 128 = 128"
proof (induction w arbitrary: k rule: leb128.induct)
  case (1 w)
  then show ?case
    by (cases k)
      (auto simp: leb128.simps [of w] continuation_byte split: if_splits)
qed

lemma read_varint_partial:
  assumes "k < length (write_varint v)"
  shows "\<exists>w. read_varint (take k (write_varint v)) consume = Inr (w, 0, take k (write_varint v))"
proof -
  have "k \<le> 4" using assms by (simp add: length_write_varint split: if_splits)
  then have "\<exists>w. read_varint_loop (take k (write_varint v)) 0 0 = Inr (w, 0)"
    using assms leb128_continuation [of k v]
    by (intro read_varint_loop_partial) (auto simp: write_varint_def)
  then show ?thesis by (auto simp: read_varint_def)
qed

section \<open>Properties\<close>


text \<open>A proper prefix of an encoding is neither an error nor a number: the reader reports
  length 0 and consumes nothing, which is how the receive loop knows to wait for more.\<close>
theorem varint_prefix_waits:
  assumes "k < length (write_varint v)"
  shows "\<exists>w. read_varint (take k (write_varint v)) True = Inr (w, 0, take k (write_varint v))"
  using assms by (rule read_varint_partial)

theorem varint_prefix_waits_witness:
  "\<exists>w. read_varint (take 2 (write_varint 25565)) True = Inr (w, 0, take 2 (write_varint 25565))"
  by (rule varint_prefix_waits) (simp add: length_write_varint)

text \<open>C27: when reading succeeds it consumes at most five bytes, all of them in the buffer. It fails
  exactly when four bytes with the continuation bit are followed by a fifth that has one of the
  bits 4 to 6, or by a fifth with the continuation bit and a sixth byte; and then it fails by
  a left shift of an int that C++ does not define, which comes before the check that would throw
  "VarInt too big": that check is never reached.\<close>
theorem read_varint_outcome:
  "if 5 \<le> length buffer \<and> list_all (\<lambda>b. b AND 128 = 128) (take 4 buffer) \<and>
      (buffer ! 4 AND 0x70 \<noteq> 0 \<or> buffer ! 4 AND 128 = 128 \<and> 6 \<le> length buffer)
   then read_varint buffer True = Inl (UB BadShift)
   else \<exists>v n. read_varint buffer True = Inr (v, n, drop n buffer) \<and> n \<le> 5 \<and> n \<le> length buffer"
proof (cases "read_varint buffer True")
  case (Inl e)
  then show ?thesis using read_varint_error_iff [of buffer True e] by (simp add: overlong_def)
next
  case (Inr r)
  obtain v n rest where r: "r = (v, n, rest)" by (cases r) auto
  have "\<not> overlong buffer" using Inr read_varint_error_iff [of buffer True "UB BadShift"] by auto
  then show ?thesis
    using Inr r read_varint_bounds [of buffer True v n rest] by (simp add: overlong_def)
qed

theorem read_varint_outcome_witness:
  "read_varint [0xFF, 0xFF, 0xFF, 0xFF, 0xFF, 0] True = Inl (UB BadShift) \<and>
   (\<exists>v n. read_varint [0xFF, 0xFF, 0xFF, 0xFF, 0x0F, 1] True = Inr (v, n, drop n [0xFF, 0xFF, 0xFF, 0xFF, 0x0F, 1]) \<and> n \<le> 5)"
  using read_varint_outcome [of "[0xFF, 0xFF, 0xFF, 0xFF, 0xFF, 0]"]
    read_varint_outcome [of "[0xFF, 0xFF, 0xFF, 0xFF, 0x0F, 1]"]
  by auto



text \<open>Prepending a number agrees with appending it when the number is not negative, and
  never returns when it is: the loop shifts a signed integer, whose sign bit stays set.\<close>
theorem varint_front_spec:
  "write_varint_front buffer input =
    (if sint input < 0 then Inl Diverge else Inr (write_varint input @ buffer))"
  by (simp add: write_varint_front_spec not_less)

end
