(* ===== verification/Packet_Base.thy ===== *)
theory Packet_Base
  imports VarInt Bit_Fields
begin

text \<open>
  The base class \<open>Packet\<close> of \<open>MCPacket/Packet.hpp\<close> and \<open>Packet.cpp\<close>: its
  fields, the readers and writers its subclasses use, framing, and the constructor that
  takes a packet out of a receive buffer. The record is extended by the subclasses, so the
  operations are stated on the scheme.
\<close>

section \<open>Enumerations\<close>

datatype side = CLIENT_BOUND | SERVER_BOUND | BI_DIRECTIONAL

text \<open>
  \<open>ClientState\<close> is an enum over \<open>int\<close>, and the handshake packet stores any 32-bit
  value in one, so the values the enumeration does not name are kept.
\<close>

datatype client_state = HANDSHAKE | STATUS | LOGIN | PLAY | Other_State int32

definition client_state_of :: "int32 \<Rightarrow> client_state" where
  "client_state_of i =
     (if i = 0 then HANDSHAKE else if i = 1 then STATUS else if i = 2 then LOGIN
      else if i = 3 then PLAY else Other_State i)"

section \<open>State of a packet\<close>

record packet =
  packetId :: int32
  rawPayload :: bytes
  compressed :: bool

definition new_base :: "int32 \<Rightarrow> packet" where
  "new_base i = \<lparr>packetId = i, rawPayload = [], compressed = False\<rparr>"

text \<open>The copying constructor starts uncompressed whatever its argument was.\<close>

definition copy_base :: "'a packet_scheme \<Rightarrow> packet" where
  "copy_base q = \<lparr>packetId = packetId q, rawPayload = rawPayload q, compressed = False\<rparr>"

definition resetBuffer :: "'a packet_scheme \<Rightarrow> 'a packet_scheme" where
  "resetBuffer p = p\<lparr>compressed := False, rawPayload := []\<rparr>"

definition getData :: "'a packet_scheme \<Rightarrow> bytes" where
  "getData p = rawPayload p"

definition getID :: "'a packet_scheme \<Rightarrow> int32" where
  "getID p = packetId p"

section \<open>Writers\<close>

definition writeVarIntToBuffer :: "int32 \<Rightarrow> 'a packet_scheme \<Rightarrow> 'a packet_scheme" where
  "writeVarIntToBuffer v p = p\<lparr>rawPayload := rawPayload p @ write_varint v\<rparr>"

definition writeVarLongToBuffer :: "64 word \<Rightarrow> 'a packet_scheme \<Rightarrow> 'a packet_scheme" where
  "writeVarLongToBuffer v p = p\<lparr>rawPayload := rawPayload p @ write_varlong v\<rparr>"

definition writePODToBuffer :: "'w::len word \<Rightarrow> 'a packet_scheme \<Rightarrow> 'a packet_scheme" where
  "writePODToBuffer w p = p\<lparr>rawPayload := rawPayload p @ le_bytes (LENGTH('w) div 8) w\<rparr>"

text \<open>\<open>std::copy(s.data(), s.data() + s.size(), std::back_inserter(rawPayload))\<close>\<close>

definition writeBytes :: "bytes \<Rightarrow> 'a packet_scheme \<Rightarrow> 'a packet_scheme" where
  "writeBytes bs p = p\<lparr>rawPayload := rawPayload p @ bs\<rparr>"

definition writeString :: "string \<Rightarrow> 'a packet_scheme \<Rightarrow> 'a packet_scheme" where
  "writeString s p = writeBytes (bytes_of s) (writeVarIntToBuffer (size_int32 s) p)"

definition serializePacket_base :: "'a packet_scheme \<Rightarrow> 'a packet_scheme" where
  "serializePacket_base p = writeVarIntToBuffer (packetId p) (resetBuffer p)"

definition framePacket :: "'a packet_scheme \<Rightarrow> 'a packet_scheme res" where
  "framePacket p = rbind (write_buffer_length_front (rawPayload p)) (\<lambda>bs. Inr (p\<lparr>rawPayload := bs\<rparr>))"

section \<open>Readers\<close>

text \<open>
  \<open>readPODFromBuffer\<close> on the payload: too few bytes give the default and consume nothing.
\<close>

definition readPOD :: "'w::len word \<Rightarrow> bool \<Rightarrow> bytes \<Rightarrow> 'w word \<times> bytes" where
  "readPOD defaultReturn consumeData payload =
     (let n = LENGTH('w) div 8
      in if length payload < n then (defaultReturn, payload)
         else (le_word (take n payload), if consumeData then drop n payload else payload))"

text \<open>
  The range \<open>[begin, begin + n)\<close> of a buffer, for a signed \<open>n\<close>: outside the buffer it
  is undefined behaviour.
\<close>

definition read_range :: "bytes \<Rightarrow> int32 \<Rightarrow> (bytes \<times> bytes) res" where
  "read_range payload n =
     (if 0 \<le> sint n \<and> nat (sint n) \<le> length payload
      then Inr (take (nat (sint n)) payload, drop (nat (sint n)) payload)
      else Inl (UB OutOfBounds))"

text \<open>
  The guard \<open>rawPayload.size() >= n\<close> compares at \<open>std::size_t\<close>.
\<close>

definition size_at_least :: "bytes \<Rightarrow> int32 \<Rightarrow> bool" where
  "size_at_least payload n \<longleftrightarrow> to_size_t n \<le> size_of payload"

section \<open>Taking a packet out of a receive buffer\<close>

definition Packet_from_buffer :: "size_t \<Rightarrow> bytes \<Rightarrow> bool \<Rightarrow> (packet \<times> bytes) res" where
  "Packet_from_buffer len buffer consumeData =
     rbind (read_varint buffer False) (\<lambda>(pid, idSize, _).
       if unat len < idSize \<or> length buffer < unat len then Inl (UB OutOfBounds)
       else Inr (\<lparr>packetId = pid, rawPayload = drop idSize (take (unat len) buffer),
                   compressed = False\<rparr>,
                 if consumeData then drop (unat len) buffer else buffer))"

section \<open>Facts\<close>

lemmas packet_write_defs = resetBuffer_def writeVarIntToBuffer_def writePODToBuffer_def
  writeBytes_def writeString_def serializePacket_base_def

lemma uint_to_size_t:
  "uint (to_size_t n) = (if 0 \<le> sint n then sint n else sint n + 2 ^ 64)"
proof -
  have lo: "- (2 ^ 31) \<le> sint n" and hi: "sint n < 2 ^ 31"
    using sint_ge [of n] sint_lt [of n] by simp_all
  have conv: "uint (to_size_t n) = sint n mod 2 ^ 64"
    unfolding to_size_t_def scast_eq uint_word_of_int_eq take_bit_eq_mod by simp
  show ?thesis
  proof (cases "0 \<le> sint n")
    case True
    with hi have "sint n mod 2 ^ 64 = sint n" by (intro mod_pos_pos_trivial) simp_all
    with conv True show ?thesis by simp
  next
    case False
    have "sint n mod 2 ^ 64 = (sint n + 2 ^ 64) mod 2 ^ 64" by simp
    also have "\<dots> = sint n + 2 ^ 64"
      using False lo by (intro mod_pos_pos_trivial) simp_all
    finally show ?thesis using conv False by simp
  qed
qed

lemma size_at_least_iff:
  assumes "length payload < 2 ^ 63"
  shows "size_at_least payload n \<longleftrightarrow> 0 \<le> sint n \<and> sint n \<le> int (length payload)"
proof -
  have "uint (size_of payload) = int (length payload)"
    using assms by (simp add: size_of_def unsigned_of_nat take_bit_nat_eq_self)
  moreover have "- (2 ^ 31) \<le> sint n" using sint_ge [of n] by simp
  ultimately show ?thesis
    using assms by (simp add: size_at_least_def word_le_def uint_to_size_t)
qed

section \<open>Formats\<close>

lemma readPOD_le_bytes:
  assumes "8 * (LENGTH('w::len) div 8) = LENGTH('w)"
  shows "readPOD d True (le_bytes (LENGTH('w) div 8) (w :: 'w word) @ rest) = (w, rest)"
  using assms by (simp add: readPOD_def Let_def le_word_le_bytes take_bit_word_eq_self)

interpretation pod8: fixed_codec "le_bytes 1 :: 8 word \<Rightarrow> bytes" "\<lambda>bs. Inr (readPOD d True bs)"
    "\<lambda>_. True" 1 for d :: "8 word"
  using readPOD_le_bytes [where ?'w = 8, of d] by unfold_locales simp_all

interpretation pod16: fixed_codec "le_bytes 2 :: 16 word \<Rightarrow> bytes" "\<lambda>bs. Inr (readPOD d True bs)"
    "\<lambda>_. True" 2 for d :: "16 word"
  using readPOD_le_bytes [where ?'w = 16, of d] by unfold_locales simp_all

interpretation pod32: fixed_codec "le_bytes 4 :: 32 word \<Rightarrow> bytes" "\<lambda>bs. Inr (readPOD d True bs)"
    "\<lambda>_. True" 4 for d :: "32 word"
  using readPOD_le_bytes [where ?'w = 32, of d] by unfold_locales simp_all

interpretation pod64: fixed_codec "le_bytes 8 :: 64 word \<Rightarrow> bytes" "\<lambda>bs. Inr (readPOD d True bs)"
    "\<lambda>_. True" 8 for d :: "64 word"
  using readPOD_le_bytes [where ?'w = 64, of d] by unfold_locales simp_all

lemma readPOD_simps [byte_simps]:
  fixes w8 d8 :: "8 word" and w16 d16 :: "16 word" and w32 d32 :: "32 word" and w64 d64 :: "64 word"
  shows "readPOD d8 True (w8 # rest) = (w8, rest)"
  "readPOD d16 True (le_bytes 2 w16 @ rest) = (w16, rest)"
  "readPOD d32 True (le_bytes 4 w32 @ rest) = (w32, rest)"
  "readPOD d64 True (le_bytes 8 w64 @ rest) = (w64, rest)"
  using pod8.dec_enc [of d8 w8 rest] pod16.dec_enc [of d16 w16 rest]
    pod32.dec_enc [of d32 w32 rest] pod64.dec_enc [of d64 w64 rest] by simp_all

text \<open>A length-prefixed string, and the guarded way most packets read one.\<close>

definition enc_string :: "string \<Rightarrow> bytes" where
  "enc_string s = write_varint (size_int32 s) @ bytes_of s"

definition read_guarded :: "string \<Rightarrow> bytes \<Rightarrow> int32 \<Rightarrow> (string \<times> bytes) res" where
  "read_guarded old payload n =
     (if size_at_least payload n
      then rbind (read_range payload n) (\<lambda>(bs, rest). Inr (str_of bs, rest))
      else Inr (old, payload))"

definition dec_string :: "bytes \<Rightarrow> (string \<times> bytes) res" where
  "dec_string bs = rbind (read_varint bs True) (\<lambda>(n, _, rest). read_guarded [] rest n)"

definition fits_int32 :: "'a list \<Rightarrow> bool" where
  "fits_int32 xs \<longleftrightarrow> length xs < 2 ^ 31"

lemma read_range_size [byte_simps]:
  "fits_int32 s \<Longrightarrow> read_range (bytes_of s @ rest) (size_int32 s) = Inr (bytes_of s, rest)"
  "fits_int32 bs \<Longrightarrow> read_range (bs @ rest) (size_int32 bs) = Inr (bs, rest)"
  by (simp_all add: read_range_def fits_int32_def sint_size_int32)

lemma read_range_UB_iff:
  "read_range payload n = Inl e \<longleftrightarrow>
    e = UB OutOfBounds \<and> \<not> (0 \<le> sint n \<and> sint n \<le> int (length payload))"
  by (auto simp: read_range_def)

lemma size_at_least_append [byte_simps]:
  "length payload < 2 ^ 63 \<Longrightarrow> fits_int32 xs \<Longrightarrow> length xs \<le> length payload \<Longrightarrow>
    size_at_least payload (size_int32 xs)"
  by (simp add: size_at_least_iff fits_int32_def sint_size_int32)

text \<open>The guard keeps a range inside the buffer: a guarded read never fails.\<close>

lemma read_guarded_defined:
  "length payload < 2 ^ 63 \<Longrightarrow> \<exists>s rest. read_guarded old payload n = Inr (s, rest)"
  by (auto simp: read_guarded_def size_at_least_iff read_range_def)

lemma read_guarded_string [byte_simps]:
  "fits_int32 s \<Longrightarrow> length (bytes_of s @ rest) < 2 ^ 63 \<Longrightarrow>
    read_guarded old (bytes_of s @ rest) (size_int32 s) = Inr (s, rest)"
  by (simp add: read_guarded_def byte_simps)

text \<open>
  A length-prefixed range read without a guard, as the handshake and the encryption response
  read theirs, and two of them in a row.
\<close>

definition enc_blob :: "bytes \<Rightarrow> bytes" where
  "enc_blob bs = write_varint (size_int32 bs) @ bs"

definition dec_blob :: "bytes \<Rightarrow> (bytes \<times> bytes) res" where
  "dec_blob bs = rbind (read_varint bs True) (\<lambda>(n, _, rest). read_range rest n)"

interpretation blob: codec enc_blob dec_blob fits_int32
  by unfold_locales (simp add: enc_blob_def dec_blob_def byte_simps)

interpretation blobs: codec_pair enc_blob dec_blob fits_int32 enc_blob dec_blob fits_int32
  by unfold_locales

end
