(* ===== verification/Packets.thy ===== *)
theory Packets
  imports Packet_Base
begin

text \<open>
  The thirteen packet classes of \<open>MCPacket\<close>. Each has its record, the constructor that
  parses it out of a generic packet, the constructor for a new packet and its serialiser.

  Members a constructor does not set have indeterminate values; they, the clock and the
  random engine come from the record \<open>cpp_env\<close>. Floating-point members are their IEEE
  bit patterns, which is all that the code reads or writes of them.
\<close>

record cpp_env =
  time_null :: "64 word"
  keep_alive_rng :: int32
  oversize :: oversize_shift
  junk8 :: "string \<Rightarrow> byte"
  junk16 :: "string \<Rightarrow> 16 word"
  junk32 :: "string \<Rightarrow> 32 word"
  junk64 :: "string \<Rightarrow> 64 word"

section \<open>Handshake\<close>

record handshake_packet = packet +
  protocolVersion :: int32
  serverAddress :: string
  serverPort :: "16 word"
  requestedNextState :: client_state

definition HandshakePacket_parse :: "'a packet_scheme \<Rightarrow> handshake_packet res" where
  "HandshakePacket_parse q =
     rbind (read_varint (rawPayload q) True) (\<lambda>(version, _, buf).
     rbind (read_varint buf True) (\<lambda>(stringLength, _, buf).
     rbind (read_range buf stringLength) (\<lambda>(address, buf).
     let (port, buf) = readPOD 25565 True buf in
     rbind (read_varint buf True) (\<lambda>(next, _, buf).
       Inr \<lparr>packetId = packetId q, rawPayload = [], compressed = False,
            protocolVersion = version, serverAddress = str_of address, serverPort = port,
            requestedNextState = client_state_of next\<rparr>))))"

definition HandshakePacket_new :: "cpp_env \<Rightarrow> handshake_packet" where
  "HandshakePacket_new env = packet.extend (new_base 0)
     \<lparr>protocolVersion = junk32 env ''protocolVersion'', serverAddress = [],
      serverPort = junk16 env ''serverPort'',
      requestedNextState = client_state_of (junk32 env ''requestedNextState'')\<rparr>"

section \<open>Status\<close>

record server_status_packet = packet +
  jsonEncodedServerStatus :: string

definition ServerStatusPacket_parse :: "'a packet_scheme \<Rightarrow> server_status_packet res" where
  "ServerStatusPacket_parse q =
     Inr (resetBuffer (packet.extend (copy_base q) \<lparr>jsonEncodedServerStatus = []\<rparr>))"

definition ServerStatusPacket_new :: "server_status_packet" where
  "ServerStatusPacket_new = packet.extend (new_base 0) \<lparr>jsonEncodedServerStatus = []\<rparr>"

definition ServerStatusPacket_serialize :: "server_status_packet \<Rightarrow> server_status_packet" where
  "ServerStatusPacket_serialize p =
     writeString (jsonEncodedServerStatus p) (serializePacket_base p)"

record ping_packet = packet +
  unixEpoch :: "64 word"

definition PingPacket_parse :: "cpp_env \<Rightarrow> 'a packet_scheme \<Rightarrow> ping_packet res" where
  "PingPacket_parse env q =
     (let (epoch, buf) = readPOD (time_null env) True (rawPayload q)
      in Inr (resetBuffer (packet.extend (copy_base q) \<lparr>unixEpoch = epoch\<rparr>)))"

definition PingPacket_new :: "cpp_env \<Rightarrow> ping_packet" where
  "PingPacket_new env = packet.extend (new_base 1) \<lparr>unixEpoch = time_null env\<rparr>"

definition PingPacket_serialize :: "ping_packet \<Rightarrow> ping_packet" where
  "PingPacket_serialize p = writePODToBuffer (unixEpoch p) (serializePacket_base p)"

section \<open>Login\<close>

record login_start_packet = packet +
  playerName :: string

definition LoginStartPacket_parse :: "'a packet_scheme \<Rightarrow> login_start_packet res" where
  "LoginStartPacket_parse q =
     rbind (read_varint (rawPayload q) True) (\<lambda>(stringLength, _, buf).
     rbind (read_guarded [] buf stringLength) (\<lambda>(name, _).
       Inr (resetBuffer (packet.extend (copy_base q) \<lparr>playerName = name\<rparr>))))"

definition LoginStartPacket_new :: login_start_packet where
  "LoginStartPacket_new = packet.extend (new_base 0) \<lparr>playerName = []\<rparr>"

definition LoginStartPacket_serialize :: "login_start_packet \<Rightarrow> login_start_packet" where
  "LoginStartPacket_serialize p = writeString (playerName p) (serializePacket_base p)"

record encryption_packet = packet +
  serverId :: string
  publickKey :: string
  clearVerifyToken :: bytes
  clearSharedSecret :: bytes
  sealedVerifyToken :: bytes
  sealedSharedSecret :: bytes

text \<open>\<open>clearVerifyToken\<close> is an array of four bytes that no constructor sets.\<close>

definition junk_token :: "cpp_env \<Rightarrow> bytes" where
  "junk_token env = map (junk8 env) [''token0'', ''token1'', ''token2'', ''token3'']"

definition EncryptionPacket_parse ::
  "cpp_env \<Rightarrow> side \<Rightarrow> 'a packet_scheme \<Rightarrow> encryption_packet res" where
  "EncryptionPacket_parse env side q =
     (let p = packet.extend (copy_base q)
        \<lparr>serverId = [], publickKey = [], clearVerifyToken = junk_token env,
         clearSharedSecret = [], sealedVerifyToken = [], sealedSharedSecret = []\<rparr>
      in if side = CLIENT_BOUND then
           rbind (read_varint (rawPayload q) True) (\<lambda>(stringLength, _, buf).
           rbind (read_guarded [] buf stringLength) (\<lambda>(sid, _).
             Inr ((resetBuffer p)\<lparr>serverId := sid\<rparr>)))
         else
           rbind (read_varint (rawPayload q) True) (\<lambda>(sharedSecretLength, _, buf).
           rbind (read_range buf sharedSecretLength) (\<lambda>(secret, buf).
           rbind (read_varint buf True) (\<lambda>(verifyTokenLength, _, buf).
           rbind (read_range buf verifyTokenLength) (\<lambda>(token, _).
             Inr (p\<lparr>rawPayload := [], sealedSharedSecret := secret,
                    sealedVerifyToken := token\<rparr>))))))"

definition EncryptionPacket_new :: "cpp_env \<Rightarrow> encryption_packet" where
  "EncryptionPacket_new env = packet.extend (new_base 1)
     \<lparr>serverId = [], publickKey = [], clearVerifyToken = junk_token env,
      clearSharedSecret = [], sealedVerifyToken = [], sealedSharedSecret = []\<rparr>"

definition EncryptionPacket_serialize :: "side \<Rightarrow> encryption_packet \<Rightarrow> encryption_packet" where
  "EncryptionPacket_serialize sideSending p =
     (let p = serializePacket_base p
      in if sideSending = CLIENT_BOUND then
           let p = writeVarIntToBuffer (size_int32 (serverId p)) p;
               p = (if length (serverId p) > 0 then writeBytes (bytes_of (serverId p)) p else p);
               p = writeVarIntToBuffer (size_int32 (publickKey p)) p;
               p = writeBytes (bytes_of (publickKey p)) p;
               p = writeVarIntToBuffer (size_int32 (clearVerifyToken p)) p
           in writeBytes (clearVerifyToken p) p
         else p)"

record login_success_packet = packet +
  uuid :: string
  username :: string

text \<open>
  The second guard subtracts the length of the uuid, which has been erased already, at
  \<open>std::size_t\<close>: the difference wraps around.
\<close>

definition LoginSuccessPacket_parse :: "'a packet_scheme \<Rightarrow> login_success_packet res" where
  "LoginSuccessPacket_parse q =
     rbind (read_varint (rawPayload q) True) (\<lambda>(uuidLength, _, buf).
     rbind (read_guarded [] buf uuidLength) (\<lambda>(uu, buf).
     rbind (read_varint buf True) (\<lambda>(usernameLength, _, buf).
     rbind (if to_size_t usernameLength \<le> size_of buf - to_size_t uuidLength
            then rbind (read_range buf usernameLength) (\<lambda>(bs, _). Inr (str_of bs))
            else Inr []) (\<lambda>name.
       Inr (resetBuffer (packet.extend (copy_base q) \<lparr>uuid = uu, username = name\<rparr>))))))"

definition LoginSuccessPacket_new :: login_success_packet where
  "LoginSuccessPacket_new = packet.extend (new_base 2) \<lparr>uuid = [], username = []\<rparr>"

definition LoginSuccessPacket_serialize :: "login_success_packet \<Rightarrow> login_success_packet" where
  "LoginSuccessPacket_serialize p =
     writeString (username p) (writeString (uuid p) (serializePacket_base p))"

record set_compression_packet = packet +
  compressionThreshold :: int32

definition SetCompressionPacket_parse :: "'a packet_scheme \<Rightarrow> set_compression_packet res" where
  "SetCompressionPacket_parse q =
     rbind (read_varint (rawPayload q) True) (\<lambda>(t, _, _).
       Inr (resetBuffer (packet.extend (copy_base q) \<lparr>compressionThreshold = t\<rparr>)))"

definition SetCompressionPacket_new :: set_compression_packet where
  "SetCompressionPacket_new = packet.extend (new_base 1) \<lparr>compressionThreshold = - 1\<rparr>"

definition SetCompressionPacket_serialize :: "set_compression_packet \<Rightarrow> set_compression_packet" where
  "SetCompressionPacket_serialize p =
     writeVarIntToBuffer (compressionThreshold p) (serializePacket_base p)"

section \<open>Play\<close>

record keep_alive_packet = packet +
  keepAliveId :: int32

definition KeepAlivePacket_parse :: "'a packet_scheme \<Rightarrow> keep_alive_packet res" where
  "KeepAlivePacket_parse q =
     rbind (read_varint (rawPayload q) False) (\<lambda>(i, _, _).
       Inr (resetBuffer (packet.extend (copy_base q) \<lparr>keepAliveId = i\<rparr>)))"

definition KeepAlivePacket_new :: "cpp_env \<Rightarrow> keep_alive_packet" where
  "KeepAlivePacket_new env = packet.extend (new_base 0) \<lparr>keepAliveId = keep_alive_rng env\<rparr>"

definition KeepAlivePacket_serialize :: "keep_alive_packet \<Rightarrow> keep_alive_packet" where
  "KeepAlivePacket_serialize p = writeVarIntToBuffer (keepAliveId p) (serializePacket_base p)"

text \<open>A \<open>bool\<close> on the wire is one byte, copied as it is.\<close>

record join_game_packet = packet +
  playerEntityId :: "32 word"
  gamemode :: "8 word"
  dimensionId :: "8 word"
  difficulty :: "8 word"
  maxPlayersOnPlayerList :: "8 word"
  levelType :: string
  reducedDebugInfo :: byte

definition JoinGamePacket_parse :: "'a packet_scheme \<Rightarrow> join_game_packet res" where
  "JoinGamePacket_parse q =
     (let (entity, buf) = readPOD 0 True (rawPayload q);
          (mode, buf) = readPOD 0 True buf;
          (dim, buf) = readPOD 0 True buf;
          (diff, buf) = readPOD 0 True buf;
          (maxp, buf) = readPOD 255 True buf
      in rbind (read_varint buf True) (\<lambda>(levelTypeStringLength, _, buf).
         rbind (read_guarded [] buf levelTypeStringLength) (\<lambda>(level, buf).
         let (reduced, _) = readPOD 0 True buf
         in Inr (resetBuffer (packet.extend (copy_base q)
              \<lparr>playerEntityId = entity, gamemode = mode, dimensionId = dim, difficulty = diff,
               maxPlayersOnPlayerList = maxp, levelType = level, reducedDebugInfo = reduced\<rparr>)))))"

definition JoinGamePacket_new :: join_game_packet where
  "JoinGamePacket_new = packet.extend (new_base 1)
     \<lparr>playerEntityId = 0, gamemode = 0, dimensionId = 0, difficulty = 0,
      maxPlayersOnPlayerList = 255, levelType = ''default'', reducedDebugInfo = 0\<rparr>"

definition JoinGamePacket_serialize :: "join_game_packet \<Rightarrow> join_game_packet" where
  "JoinGamePacket_serialize p =
     writePODToBuffer (reducedDebugInfo p)
      (writeString (levelType p)
       (writePODToBuffer (maxPlayersOnPlayerList p)
        (writePODToBuffer (difficulty p)
         (writePODToBuffer (dimensionId p)
          (writePODToBuffer (gamemode p)
           (writePODToBuffer (playerEntityId p) (serializePacket_base p)))))))"

definition MC_CHAT_MAX_TEXT_LENGTH :: nat where
  "MC_CHAT_MAX_TEXT_LENGTH = 100"

definition ChatType_NORMAL :: byte where "ChatType_NORMAL = 0"
definition ChatType_SYSTEM :: byte where "ChatType_SYSTEM = 1"
definition ChatType_ABOVE_HOTBAR :: byte where "ChatType_ABOVE_HOTBAR = 2"

record chat_message_packet = packet +
  jsonChatData :: string
  chatPosition :: byte

text \<open>The value \<open>readPODFromBuffer\<close> returns for the chat position is not used.\<close>

definition ChatMessagePacket_parse ::
  "cpp_env \<Rightarrow> side \<Rightarrow> 'a packet_scheme \<Rightarrow> chat_message_packet res" where
  "ChatMessagePacket_parse env side q =
     rbind (read_varint (rawPayload q) True) (\<lambda>(jsonChatDataLength, _, buf).
     rbind (read_guarded [] buf jsonChatDataLength) (\<lambda>(json, buf).
     let position = junk8 env ''chatPosition'';
         (_, buf) = (if side = CLIENT_BOUND then readPOD position True buf else (position, buf))
     in Inr (resetBuffer (packet.extend (copy_base q)
          \<lparr>jsonChatData = json, chatPosition = position\<rparr>))))"

definition ChatMessagePacket_new :: "cpp_env \<Rightarrow> side \<Rightarrow> chat_message_packet" where
  "ChatMessagePacket_new env side = packet.extend (new_base (if side = SERVER_BOUND then 1 else 2))
     \<lparr>jsonChatData = [], chatPosition = junk8 env ''chatPosition''\<rparr>"

definition ChatMessagePacket_serialize :: "side \<Rightarrow> chat_message_packet \<Rightarrow> chat_message_packet" where
  "ChatMessagePacket_serialize sideFrom p =
     (let p = writeString (jsonChatData p) (serializePacket_base p)
      in if sideFrom = CLIENT_BOUND then writePODToBuffer (chatPosition p) p else p)"

record spawn_position_packet = packet +
  spawnPosition :: position

definition SpawnPositionPacket_parse ::
  "cpp_env \<Rightarrow> 'a packet_scheme \<Rightarrow> spawn_position_packet res" where
  "SpawnPositionPacket_parse env q =
     (let spawn = Position_default (oversize env) (junk64 env ''spawnPosition'');
          (_, buf) = readPOD spawn True (rawPayload q)
      in Inr (resetBuffer (packet.extend (copy_base q) \<lparr>spawnPosition = spawn\<rparr>)))"

definition SpawnPositionPacket_new :: "cpp_env \<Rightarrow> spawn_position_packet" where
  "SpawnPositionPacket_new env = packet.extend (new_base 5)
     \<lparr>spawnPosition = Position_default (oversize env) (junk64 env ''spawnPosition'')\<rparr>"

definition SpawnPositionPacket_serialize :: "spawn_position_packet \<Rightarrow> spawn_position_packet" where
  "SpawnPositionPacket_serialize p = writePODToBuffer (spawnPosition p) (serializePacket_base p)"

text \<open>A one-bit field of a union over one byte.\<close>

definition flag8 :: "oversize_shift \<Rightarrow> nat \<Rightarrow> bool \<Rightarrow> byte \<Rightarrow> byte" where
  "flag8 ovs index value b = ucast (flag_assign ovs index value (ucast b))"

record position_look_packet = packet +
  look_x :: "64 word"
  look_y :: "64 word"
  look_z :: "64 word"
  yaw :: "32 word"
  pitch :: "32 word"
  relativeFlags :: byte

definition PlayerPositionAndLookPacket_parse ::
  "cpp_env \<Rightarrow> 'a packet_scheme \<Rightarrow> position_look_packet res" where
  "PlayerPositionAndLookPacket_parse env q =
     (let x = junk64 env ''x''; y = junk64 env ''y''; z = junk64 env ''z'';
          yw = junk32 env ''yaw''; pt = junk32 env ''pitch''; fl = junk8 env ''flags'';
          (_, buf) = readPOD x True (rawPayload q);
          (_, buf) = readPOD y True buf;
          (_, buf) = readPOD z True buf;
          (_, buf) = readPOD yw True buf;
          (_, buf) = readPOD pt True buf;
          (_, buf) = readPOD fl True buf
      in Inr (resetBuffer (packet.extend (copy_base q)
           \<lparr>look_x = x, look_y = y, look_z = z, yaw = yw, pitch = pt, relativeFlags = fl\<rparr>)))"

text \<open>\<open>yaw\<close> starts at 270.0, whose single-precision pattern is \<open>0x43870000\<close>.\<close>

definition PlayerPositionAndLookPacket_new :: "cpp_env \<Rightarrow> position_look_packet" where
  "PlayerPositionAndLookPacket_new env = packet.extend (new_base 8)
     \<lparr>look_x = 0, look_y = 0, look_z = 0, yaw = 0x43870000, pitch = 0,
      relativeFlags = flag8 (oversize env) 2 True (flag8 (oversize env) 1 True
        (flag8 (oversize env) 0 True (junk8 env ''flags'')))\<rparr>"

definition PlayerPositionAndLookPacket_serialize :: "position_look_packet \<Rightarrow> position_look_packet" where
  "PlayerPositionAndLookPacket_serialize p =
     writePODToBuffer (relativeFlags p) (writePODToBuffer (pitch p) (writePODToBuffer (yaw p)
       (writePODToBuffer (look_z p) (writePODToBuffer (look_y p) (writePODToBuffer (look_x p)
         (serializePacket_base p))))))"

record abilities_packet = packet +
  abilities :: byte
  flyingSpeed :: "32 word"
  walkingSpeed :: "32 word"

definition PlayerAbilitiesPacket_parse ::
  "cpp_env \<Rightarrow> 'a packet_scheme \<Rightarrow> abilities_packet res" where
  "PlayerAbilitiesPacket_parse env q =
     (let ab = junk8 env ''abilities''; fs = junk32 env ''flyingSpeed'';
          ws = junk32 env ''walkingSpeed'';
          (_, buf) = readPOD ab True (rawPayload q);
          (_, buf) = readPOD fs True buf;
          (_, buf) = readPOD ws True buf
      in Inr (resetBuffer (packet.extend (copy_base q)
           \<lparr>abilities = ab, flyingSpeed = fs, walkingSpeed = ws\<rparr>)))"

text \<open>The speeds start at 2.0 and 1.0.\<close>

definition PlayerAbilitiesPacket_new :: "cpp_env \<Rightarrow> abilities_packet" where
  "PlayerAbilitiesPacket_new env = packet.extend (new_base 0x39)
     \<lparr>abilities = flag8 (oversize env) 1 True (flag8 (oversize env) 2 True
        (flag8 (oversize env) 3 True (junk8 env ''abilities''))),
      flyingSpeed = 0x40000000, walkingSpeed = 0x3F800000\<rparr>"

definition PlayerAbilitiesPacket_serialize :: "abilities_packet \<Rightarrow> abilities_packet" where
  "PlayerAbilitiesPacket_serialize p =
     writePODToBuffer (walkingSpeed p) (writePODToBuffer (flyingSpeed p)
       (writePODToBuffer (abilities p) (serializePacket_base p)))"

end
