(* ===== verification/Compression.thy ===== *)
theory Compression
  imports Packet_Base
begin

text \<open>
  \<open>Packet::compressData\<close> and the inflating loop of \<open>Packet::parsePacket\<close>. The zlib
  library is not part of the repository: one call of \<open>deflate\<close> is a function of the
  stream state, the remaining input and the room in the output, and \<open>inflate\<close> is the
  sequence of codes its successive calls return.
\<close>

datatype zcode = Z_OK | Z_STREAM_END | Z_STREAM_ERROR | Z_BUF_ERROR | Z_DATA_ERROR

section \<open>Deflating\<close>

text \<open>
  A call consumes some bytes of the input, produces some bytes and returns a code.
\<close>

type_synonym 'z deflate = "'z \<Rightarrow> bytes \<Rightarrow> nat \<Rightarrow> 'z \<times> nat \<times> bytes \<times> zcode"

record 'z deflate_state =
  zstream :: 'z
  avail_in :: bytes
  avail_out :: nat
  next_out :: nat
  offset :: nat
  compressedSize :: nat
  out_buffer :: bytes

text \<open>Writing into the output vector, which is never enlarged.\<close>

definition put_bytes :: "bytes \<Rightarrow> nat \<Rightarrow> bytes \<Rightarrow> bytes res" where
  "put_bytes buf pos bs =
     (if bs = [] then Inr buf
      else if pos + length bs \<le> length buf
      then Inr (take pos buf @ bs @ drop (pos + length bs) buf)
      else Inl (UB OutOfBounds))"

text \<open>One pass through the body of the loop, with the code \<open>deflate\<close> returned.\<close>

definition deflate_step ::
  "'z deflate \<Rightarrow> nat \<Rightarrow> 'z deflate_state \<Rightarrow> ('z deflate_state \<times> zcode) res" where
  "deflate_step deflate inflatedSize s =
     (let s = (if avail_in s \<noteq> [] \<and> avail_out s = 0
               then s\<lparr>avail_out := inflatedSize, next_out := offset s\<rparr> else s);
          (z, consumed, out, returnCode) = deflate (zstream s) (avail_in s) (avail_out s)
      in rbind (put_bytes (out_buffer s) (next_out s) out) (\<lambda>buf.
         let s = s\<lparr>zstream := z, avail_in := drop consumed (avail_in s),
                   avail_out := avail_out s - length out, next_out := next_out s + length out,
                   compressedSize := compressedSize s + length out, out_buffer := buf\<rparr>;
             s = (if avail_in s \<noteq> [] \<and> avail_out s = 0
                  then s\<lparr>offset := offset s + inflatedSize\<rparr> else s)
         in Inr (s, returnCode)))"

partial_function (option) deflate_loop ::
  "'z deflate \<Rightarrow> nat \<Rightarrow> 'z deflate_state \<Rightarrow> 'z deflate_state res option" where
  "deflate_loop deflate inflatedSize s =
     (case deflate_step deflate inflatedSize s of
        Inl e \<Rightarrow> Some (Inl e)
      | Inr (s', returnCode) \<Rightarrow>
          if returnCode \<noteq> Z_STREAM_ERROR \<and> avail_in s' \<noteq> [] \<and> returnCode \<noteq> Z_STREAM_END
          then deflate_loop deflate inflatedSize s'
          else Some (Inr s'))"

text \<open>\<open>std::vector::resize\<close>\<close>

definition resize :: "nat \<Rightarrow> bytes \<Rightarrow> bytes" where
  "resize n bs = take n bs @ replicate (n - length bs) 0"

text \<open>\<open>z0\<close> is the stream \<open>deflateInit\<close> sets up, \<open>None\<close> if it fails.\<close>

definition compressData :: "'z option \<Rightarrow> 'z deflate \<Rightarrow> bytes \<Rightarrow> bytes res" where
  "compressData z0 deflate data =
     (case z0 of
        None \<Rightarrow> Inr data
      | Some z \<Rightarrow>
         (let inflatedSize = length data in
          case deflate_loop deflate inflatedSize
                 \<lparr>zstream = z, avail_in = data, avail_out = 0, next_out = 0, offset = 0,
                  compressedSize = 0, out_buffer = replicate inflatedSize 0\<rparr> of
            None \<Rightarrow> Inl Diverge
          | Some r \<Rightarrow> rbind r (\<lambda>s.
              write_varint_front (resize (compressedSize s) (out_buffer s)) (size_int32 data))))"

definition compressPacket ::
  "'z option \<Rightarrow> 'z deflate \<Rightarrow> 'a packet_scheme \<Rightarrow> 'a packet_scheme res" where
  "compressPacket z0 deflate p =
     (if compressed p then Inr p
      else rbind (compressData z0 deflate (rawPayload p)) (\<lambda>bs.
        Inr (p\<lparr>rawPayload := bs, compressed := True\<rparr>)))"

definition compressIfLargerThan ::
  "'z option \<Rightarrow> 'z deflate \<Rightarrow> size_t \<Rightarrow> 'a packet_scheme \<Rightarrow> 'a packet_scheme res" where
  "compressIfLargerThan z0 deflate lengthBytes p =
     (if size_of (rawPayload p) > lengthBytes then compressPacket z0 deflate p else Inr p)"

section \<open>Inflating\<close>

text \<open>
  The loop of \<open>parsePacket\<close>: \<open>inflatedData\<close> is set to 0 before it and never changed,
  and \<open>rc n\<close> is the code of the n-th call of \<open>inflate\<close>. The result says whether the
  loop left by its condition (True) or by the stream-error return (False).
\<close>

partial_function (option) inflate_loop ::
  "(nat \<Rightarrow> zcode) \<Rightarrow> nat \<Rightarrow> nat \<Rightarrow> nat \<Rightarrow> bool option" where
  "inflate_loop rc n inflatedData inflatedPacketLength =
     (if rc n = Z_STREAM_ERROR then Some False
      else if inflatedData < inflatedPacketLength
      then inflate_loop rc (Suc n) inflatedData inflatedPacketLength
      else Some True)"

lemma inflate_loop_never_completes:
  assumes "inflate_loop rc n inflatedData len = Some r" and "inflatedData < len"
  shows "\<not> r"
  using assms(2)
proof (rule inflate_loop.raw_induct [OF _ assms(1), where P = "\<lambda>rc n d l r. d < l \<longrightarrow> \<not> r", THEN mp, rotated])
  fix f :: "(nat \<Rightarrow> zcode) \<Rightarrow> nat \<Rightarrow> nat \<Rightarrow> nat \<Rightarrow> bool option" and rc n d l r
  assume IH: "\<And>rc n d l r. f rc n d l = Some r \<Longrightarrow> d < l \<longrightarrow> \<not> r"
    and eq: "(if rc n = Z_STREAM_ERROR then Some False
      else if d < l then f rc (Suc n) d l else Some True) = Some r"
  show "d < l \<longrightarrow> \<not> r"
    using eq IH [of rc "Suc n" d l r] by (auto split: if_splits)
qed

lemma inflate_loop_diverges:
  assumes "\<And>n. rc n \<noteq> Z_STREAM_ERROR" and "inflatedData < len"
  shows "inflate_loop rc n inflatedData len = None"
proof (rule ccontr)
  assume "inflate_loop rc n inflatedData len \<noteq> None"
  then obtain r where r: "inflate_loop rc n inflatedData len = Some r" by auto
  have "(\<forall>n. rc n \<noteq> Z_STREAM_ERROR) \<and> inflatedData < len \<longrightarrow> False"
  proof (rule inflate_loop.raw_induct [OF _ r,
        where P = "\<lambda>rc n d l r. (\<forall>n. rc n \<noteq> Z_STREAM_ERROR) \<and> d < l \<longrightarrow> False"])
    fix f :: "(nat \<Rightarrow> zcode) \<Rightarrow> nat \<Rightarrow> nat \<Rightarrow> nat \<Rightarrow> bool option" and rc n d l r
    assume IH: "\<And>rc n d l r. f rc n d l = Some r \<Longrightarrow>
        (\<forall>n. rc n \<noteq> Z_STREAM_ERROR) \<and> d < l \<longrightarrow> False"
      and eq: "(if rc n = Z_STREAM_ERROR then Some False
        else if d < l then f rc (Suc n) d l else Some True) = Some r"
    show "(\<forall>n. rc n \<noteq> Z_STREAM_ERROR) \<and> d < l \<longrightarrow> False"
      using eq IH [of rc "Suc n" d l r] by (auto split: if_splits)
  qed
  with assms show False by blast
qed

section \<open>Properties\<close>

lemma deflate_loop_stop:
  assumes "deflate_step deflate n s = Inr (s', rc)"
    and "rc = Z_STREAM_ERROR \<or> avail_in s' = [] \<or> rc = Z_STREAM_END"
  shows "deflate_loop deflate n s = Some (Inr s')"
  using assms by (auto simp: deflate_loop.simps [of deflate n s])

lemma deflate_loop_continue:
  assumes "deflate_step deflate n s = Inr (s', rc)"
    and "rc \<noteq> Z_STREAM_ERROR" "avail_in s' \<noteq> []" "rc \<noteq> Z_STREAM_END"
  shows "deflate_loop deflate n s = deflate_loop deflate n s'"
  using assms by (simp add: deflate_loop.simps [of deflate n s])

lemma deflate_loop_fault:
  "deflate_step deflate n s = Inl e \<Longrightarrow> deflate_loop deflate n s = Some (Inl e)"
  by (simp add: deflate_loop.simps [of deflate n s])

text \<open>When the first call of deflate consumes all the input, compressData stops there and
  yields the input's length followed by what that call produced, whether or not the
  compressed stream had ended.\<close>

theorem compressData_one_call:
  assumes "data \<noteq> []" and "fits_int32 data"
    and "deflate z data (length data) = (z', length data, out, rc)"
    and "length out \<le> length data"
  shows "compressData (Some z) deflate data = Inr (write_varint (size_int32 data) @ out)"
proof -
  let ?s = "\<lparr>zstream = z, avail_in = data, avail_out = 0, next_out = 0, offset = 0,
    compressedSize = 0, out_buffer = replicate (length data) 0\<rparr>"
  let ?buf = "out @ replicate (length data - length out) (0 :: byte)"
  have buf: "put_bytes (replicate (length data) 0) 0 out = Inr ?buf"
    using assms(4) by (auto simp: put_bytes_def)
  have "\<exists>s'. deflate_step deflate (length data) ?s = Inr (s', rc) \<and> avail_in s' = [] \<and>
      compressedSize s' = length out \<and> out_buffer s' = ?buf"
    using assms(1,3) buf by (auto simp: deflate_step_def Let_def)
  then obtain s' where s': "deflate_step deflate (length data) ?s = Inr (s', rc)"
    "avail_in s' = []" "compressedSize s' = length out" "out_buffer s' = ?buf" by blast
  have "deflate_loop deflate (length data) ?s = Some (Inr s')"
    using s' by (intro deflate_loop_stop [OF s'(1)]) simp
  moreover have "0 \<le> sint (size_int32 data)"
    using assms(2) by (simp add: fits_int32_def sint_size_int32)
  ultimately show ?thesis
    using s' by (simp add: compressData_def Let_def write_varint_front_spec resize_def)
qed

definition store_deflate :: "unit deflate" where
  "store_deflate z bs room = (z, length bs, take room bs, Z_OK)"

theorem compressData_one_call_witness:
  "compressData (Some ()) store_deflate [7, 8] = Inr (write_varint 2 @ [7, 8])"
  using compressData_one_call [of "[7, 8]" store_deflate "()" "()" "[7, 8]" Z_OK]
  by (simp add: fits_int32_def store_deflate_def size_int32_def)

text \<open>When the first call of deflate fills the output before it has consumed the input, the
  next bytes it produces are written past the end of the output vector.\<close>

theorem compressData_overflow:
  assumes "deflate z data (length data) = (z1, consumed, out1, Z_OK)"
    and "consumed < length data" and "length out1 = length data"
    and "deflate z1 (drop consumed data) (length data) = (z2, consumed2, out2, rc2)"
    and "out2 \<noteq> []"
  shows "compressData (Some z) deflate data = Inl (UB OutOfBounds)"
proof -
  let ?s = "\<lparr>zstream = z, avail_in = data, avail_out = 0, next_out = 0, offset = 0,
    compressedSize = 0, out_buffer = replicate (length data) 0\<rparr>"
  let ?s1 = "\<lparr>zstream = z1, avail_in = drop consumed data, avail_out = 0,
    next_out = length data, offset = length data, compressedSize = length data,
    out_buffer = out1\<rparr>"
  from assms(2) have ne: "data \<noteq> []" "drop consumed data \<noteq> []" by auto
  have "put_bytes (replicate (length data) 0) 0 out1 = Inr out1"
    using assms(3) ne by (auto simp: put_bytes_def)
  then have "deflate_step deflate (length data) ?s = Inr (?s1, Z_OK)"
    using assms(1,3) ne by (simp add: deflate_step_def Let_def)
  then have "deflate_loop deflate (length data) ?s = deflate_loop deflate (length data) ?s1"
    by (rule deflate_loop_continue) (use ne in simp_all)
  also have "\<dots> = Some (Inl (UB OutOfBounds))"
  proof (rule deflate_loop_fault)
    have "put_bytes out1 (length data) out2 = Inl (UB OutOfBounds)"
      using assms(3,5) by (simp add: put_bytes_def)
    then show "deflate_step deflate (length data) ?s1 = Inl (UB OutOfBounds)"
      using assms(4) ne by (simp add: deflate_step_def Let_def)
  qed
  finally show ?thesis by (simp add: compressData_def Let_def)
qed

definition doubling_deflate :: "unit deflate" where
  "doubling_deflate z bs room =
     (let n = length bs div 2 in (z, n, concat (map (\<lambda>b. [b, b]) (take n bs)), Z_OK))"

theorem compressData_overflow_witness:
  "compressData (Some ()) doubling_deflate [1, 2, 3, 4] = Inl (UB OutOfBounds)"
  by (rule compressData_overflow [of doubling_deflate "()" "[1, 2, 3, 4]" "()" 2 "[1, 1, 2, 2]" "()"
      1 "[3, 3]" Z_OK])
    (simp_all add: doubling_deflate_def)

end
