(* ===== verification/Registry.thy ===== *)
theory Registry
  imports Packets Compression
begin

text \<open>
  Packets behind the base-class pointer: the dynamic type, the virtual serialiser, the
  registry of packet classes and the two factory functions of \<open>Packet.hpp\<close>.
\<close>

section \<open>Packets of any class\<close>

datatype any_packet =
    P_Handshake handshake_packet
  | P_ServerStatus server_status_packet
  | P_Ping ping_packet
  | P_LoginStart login_start_packet
  | P_Encryption encryption_packet
  | P_LoginSuccess login_success_packet
  | P_SetCompression set_compression_packet
  | P_KeepAlive keep_alive_packet
  | P_JoinGame join_game_packet
  | P_ChatMessage chat_message_packet
  | P_SpawnPosition spawn_position_packet
  | P_PositionAndLook position_look_packet
  | P_Abilities abilities_packet

text \<open>The base-class part of an object, and storing a base-class part into it.\<close>

fun base_of :: "any_packet \<Rightarrow> packet" where
  "base_of (P_Handshake p) = packet.truncate p"
| "base_of (P_ServerStatus p) = packet.truncate p"
| "base_of (P_Ping p) = packet.truncate p"
| "base_of (P_LoginStart p) = packet.truncate p"
| "base_of (P_Encryption p) = packet.truncate p"
| "base_of (P_LoginSuccess p) = packet.truncate p"
| "base_of (P_SetCompression p) = packet.truncate p"
| "base_of (P_KeepAlive p) = packet.truncate p"
| "base_of (P_JoinGame p) = packet.truncate p"
| "base_of (P_ChatMessage p) = packet.truncate p"
| "base_of (P_SpawnPosition p) = packet.truncate p"
| "base_of (P_PositionAndLook p) = packet.truncate p"
| "base_of (P_Abilities p) = packet.truncate p"

definition put_base :: "packet \<Rightarrow> 'a packet_scheme \<Rightarrow> 'a packet_scheme" where
  "put_base b p = p\<lparr>packetId := packetId b, rawPayload := rawPayload b, compressed := compressed b\<rparr>"

fun set_base :: "packet \<Rightarrow> any_packet \<Rightarrow> any_packet" where
  "set_base b (P_Handshake p) = P_Handshake (put_base b p)"
| "set_base b (P_ServerStatus p) = P_ServerStatus (put_base b p)"
| "set_base b (P_Ping p) = P_Ping (put_base b p)"
| "set_base b (P_LoginStart p) = P_LoginStart (put_base b p)"
| "set_base b (P_Encryption p) = P_Encryption (put_base b p)"
| "set_base b (P_LoginSuccess p) = P_LoginSuccess (put_base b p)"
| "set_base b (P_SetCompression p) = P_SetCompression (put_base b p)"
| "set_base b (P_KeepAlive p) = P_KeepAlive (put_base b p)"
| "set_base b (P_JoinGame p) = P_JoinGame (put_base b p)"
| "set_base b (P_ChatMessage p) = P_ChatMessage (put_base b p)"
| "set_base b (P_SpawnPosition p) = P_SpawnPosition (put_base b p)"
| "set_base b (P_PositionAndLook p) = P_PositionAndLook (put_base b p)"
| "set_base b (P_Abilities p) = P_Abilities (put_base b p)"

section \<open>The virtual serialiser\<close>

text \<open>\<open>HandshakePacket\<close> does not override it, so the base version writes only the id.\<close>

fun serializePacket :: "side \<Rightarrow> any_packet \<Rightarrow> any_packet" where
  "serializePacket sd (P_Handshake p) = P_Handshake (serializePacket_base p)"
| "serializePacket sd (P_ServerStatus p) = P_ServerStatus (ServerStatusPacket_serialize p)"
| "serializePacket sd (P_Ping p) = P_Ping (PingPacket_serialize p)"
| "serializePacket sd (P_LoginStart p) = P_LoginStart (LoginStartPacket_serialize p)"
| "serializePacket sd (P_Encryption p) = P_Encryption (EncryptionPacket_serialize sd p)"
| "serializePacket sd (P_LoginSuccess p) = P_LoginSuccess (LoginSuccessPacket_serialize p)"
| "serializePacket sd (P_SetCompression p) = P_SetCompression (SetCompressionPacket_serialize p)"
| "serializePacket sd (P_KeepAlive p) = P_KeepAlive (KeepAlivePacket_serialize p)"
| "serializePacket sd (P_JoinGame p) = P_JoinGame (JoinGamePacket_serialize p)"
| "serializePacket sd (P_ChatMessage p) = P_ChatMessage (ChatMessagePacket_serialize sd p)"
| "serializePacket sd (P_SpawnPosition p) = P_SpawnPosition (SpawnPositionPacket_serialize p)"
| "serializePacket sd (P_PositionAndLook p) = P_PositionAndLook (PlayerPositionAndLookPacket_serialize p)"
| "serializePacket sd (P_Abilities p) = P_Abilities (PlayerAbilitiesPacket_serialize p)"

definition serializeToBuffer :: "side \<Rightarrow> any_packet \<Rightarrow> bytes \<Rightarrow> any_packet \<times> bytes" where
  "serializeToBuffer sd p buffer =
     (let p = serializePacket sd p in (p, buffer @ rawPayload (base_of p)))"

section \<open>Classes and the registry\<close>

datatype packet_class =
    HandshakePacket
  | ServerStatusPacket
  | PingPacket
  | LoginStartPacket
  | EncryptionPacket
  | LoginSuccessPacket
  | SetCompressionPacket
  | KeepAlivePacket
  | JoinGamePacket
  | ChatMessagePacket
  | SpawnPositionPacket
  | PlayerPositionAndLookPacket
  | PlayerAbilitiesPacket

text \<open>The static \<open>newPacket\<close> and \<open>parsePacket\<close> of the classes.\<close>

fun class_new :: "cpp_env \<Rightarrow> side \<Rightarrow> packet_class \<Rightarrow> any_packet" where
  "class_new env sd HandshakePacket = P_Handshake (HandshakePacket_new env)"
| "class_new env sd ServerStatusPacket = P_ServerStatus ServerStatusPacket_new"
| "class_new env sd PingPacket = P_Ping (PingPacket_new env)"
| "class_new env sd LoginStartPacket = P_LoginStart LoginStartPacket_new"
| "class_new env sd EncryptionPacket = P_Encryption (EncryptionPacket_new env)"
| "class_new env sd LoginSuccessPacket = P_LoginSuccess LoginSuccessPacket_new"
| "class_new env sd SetCompressionPacket = P_SetCompression SetCompressionPacket_new"
| "class_new env sd KeepAlivePacket = P_KeepAlive (KeepAlivePacket_new env)"
| "class_new env sd JoinGamePacket = P_JoinGame JoinGamePacket_new"
| "class_new env sd ChatMessagePacket = P_ChatMessage (ChatMessagePacket_new env sd)"
| "class_new env sd SpawnPositionPacket = P_SpawnPosition (SpawnPositionPacket_new env)"
| "class_new env sd PlayerPositionAndLookPacket = P_PositionAndLook (PlayerPositionAndLookPacket_new env)"
| "class_new env sd PlayerAbilitiesPacket = P_Abilities (PlayerAbilitiesPacket_new env)"

definition rmap :: "('a \<Rightarrow> 'b) \<Rightarrow> 'a res \<Rightarrow> 'b res" where
  "rmap f m = rbind m (\<lambda>x. Inr (f x))"

fun class_parse :: "cpp_env \<Rightarrow> side \<Rightarrow> packet_class \<Rightarrow> packet \<Rightarrow> any_packet res" where
  "class_parse env sd HandshakePacket q = rmap P_Handshake (HandshakePacket_parse q)"
| "class_parse env sd ServerStatusPacket q = rmap P_ServerStatus (ServerStatusPacket_parse q)"
| "class_parse env sd PingPacket q = rmap P_Ping (PingPacket_parse env q)"
| "class_parse env sd LoginStartPacket q = rmap P_LoginStart (LoginStartPacket_parse q)"
| "class_parse env sd EncryptionPacket q = rmap P_Encryption (EncryptionPacket_parse env sd q)"
| "class_parse env sd LoginSuccessPacket q = rmap P_LoginSuccess (LoginSuccessPacket_parse q)"
| "class_parse env sd SetCompressionPacket q = rmap P_SetCompression (SetCompressionPacket_parse q)"
| "class_parse env sd KeepAlivePacket q = rmap P_KeepAlive (KeepAlivePacket_parse q)"
| "class_parse env sd JoinGamePacket q = rmap P_JoinGame (JoinGamePacket_parse q)"
| "class_parse env sd ChatMessagePacket q = rmap P_ChatMessage (ChatMessagePacket_parse env sd q)"
| "class_parse env sd SpawnPositionPacket q = rmap P_SpawnPosition (SpawnPositionPacket_parse env q)"
| "class_parse env sd PlayerPositionAndLookPacket q = rmap P_PositionAndLook (PlayerPositionAndLookPacket_parse env q)"
| "class_parse env sd PlayerAbilitiesPacket q = rmap P_Abilities (PlayerAbilitiesPacket_parse env q)"

type_synonym registry_key = "side \<times> client_state \<times> int32"
type_synonym packet_registry = "registry_key \<rightharpoonup> packet_class"

definition registrate ::
  "side \<Rightarrow> client_state \<Rightarrow> int32 \<Rightarrow> packet_class \<Rightarrow> packet_registry \<Rightarrow> packet_registry" where
  "registrate sd state pid c r = r((sd, state, pid) \<mapsto> c)"

text \<open>The static registrars of \<open>Packet.cpp\<close>, in the order of the file.\<close>

definition registrations :: "(side \<times> client_state \<times> int32 \<times> packet_class) list" where
  "registrations =
    [(SERVER_BOUND, HANDSHAKE, 0x00, HandshakePacket),
     (BI_DIRECTIONAL, STATUS, 0x00, ServerStatusPacket),
     (BI_DIRECTIONAL, STATUS, 0x01, PingPacket),
     (SERVER_BOUND, LOGIN, 0x00, LoginStartPacket),
     (BI_DIRECTIONAL, LOGIN, 0x01, EncryptionPacket),
     (CLIENT_BOUND, LOGIN, 0x02, LoginSuccessPacket),
     (CLIENT_BOUND, LOGIN, 0x03, SetCompressionPacket),
     (BI_DIRECTIONAL, PLAY, 0x00, KeepAlivePacket),
     (CLIENT_BOUND, PLAY, 0x01, JoinGamePacket),
     (CLIENT_BOUND, PLAY, 0x02, ChatMessagePacket),
     (SERVER_BOUND, PLAY, 0x01, ChatMessagePacket),
     (CLIENT_BOUND, PLAY, 0x05, SpawnPositionPacket),
     (CLIENT_BOUND, PLAY, 0x08, PlayerPositionAndLookPacket),
     (CLIENT_BOUND, PLAY, 0x39, PlayerAbilitiesPacket),
     (CLIENT_BOUND, PLAY, 0x46, SetCompressionPacket)]"

definition registry :: packet_registry where
  "registry = foldl (\<lambda>r (sd, state, i, c). registrate sd state i c r) Map.empty registrations"

definition find_class :: "side \<Rightarrow> client_state \<Rightarrow> int32 \<Rightarrow> packet_class option" where
  "find_class sd state pid =
     (case registry (sd, state, pid) of
        None \<Rightarrow> registry (BI_DIRECTIONAL, state, pid)
      | Some c \<Rightarrow> Some c)"

section \<open>Factories\<close>

definition instantiateNew :: "cpp_env \<Rightarrow> side \<Rightarrow> client_state \<Rightarrow> int32 \<Rightarrow> any_packet option" where
  "instantiateNew env sd state pid =
     (case find_class sd state pid of
        None \<Rightarrow> None
      | Some c \<Rightarrow> Some (class_new env sd c))"

definition newPacket :: "cpp_env \<Rightarrow> side \<Rightarrow> client_state \<Rightarrow> int32 \<Rightarrow> any_packet option" where
  "newPacket env sd state pid = instantiateNew env sd state pid"

definition instantiateFromData ::
  "cpp_env \<Rightarrow> side \<Rightarrow> client_state \<Rightarrow> packet \<Rightarrow> any_packet option res" where
  "instantiateFromData env sd state q =
     (case find_class sd state (packetId q) of
        None \<Rightarrow> Inr None
      | Some c \<Rightarrow> rmap Some (class_parse env sd c q))"

text \<open>
  What inflating does: whether \<open>inflateInit\<close> succeeds, the codes of the calls, and the
  output vector the loop leaves behind.
\<close>

record inflate_env =
  inflate_init_ok :: bool
  inflate_rc :: "nat \<Rightarrow> zcode"
  inflated_buffer :: bytes

definition consume_front :: "bool \<Rightarrow> size_t \<Rightarrow> bytes \<Rightarrow> bytes res" where
  "consume_front consumeData len buffer =
     (if \<not> consumeData then Inr buffer
      else if unat len \<le> length buffer then Inr (drop (unat len) buffer)
      else Inl (UB OutOfBounds))"

definition parse_plain ::
  "cpp_env \<Rightarrow> side \<Rightarrow> size_t \<Rightarrow> bytes \<Rightarrow> client_state \<Rightarrow> bool \<Rightarrow> (any_packet option \<times> bytes) res" where
  "parse_plain env sd len buffer state consumeData =
     rbind (Packet_from_buffer len buffer consumeData) (\<lambda>(q, buffer).
     rbind (instantiateFromData env sd state q) (\<lambda>p. Inr (p, buffer)))"

definition parse_inflated ::
  "cpp_env \<Rightarrow> inflate_env \<Rightarrow> side \<Rightarrow> size_t \<Rightarrow> bytes \<Rightarrow> client_state \<Rightarrow> bool \<Rightarrow> int32
    \<Rightarrow> (any_packet option \<times> bytes) res" where
  "parse_inflated env zenv sd len buffer state consumeData inflatedPacketLength =
     (let fail = rmap (\<lambda>buf. (None, buf)) (consume_front consumeData len buffer)
      in if \<not> inflate_init_ok zenv then fail
         else case inflate_loop (inflate_rc zenv) 0 0 (nat (sint inflatedPacketLength)) of
             None \<Rightarrow> Inl Diverge
           | Some False \<Rightarrow> fail
           | Some True \<Rightarrow>
               rbind (consume_front consumeData len buffer) (\<lambda>buf.
               if size_of (inflated_buffer zenv) \<noteq> to_size_t inflatedPacketLength
               then Inr (None, buf)
               else rbind (Packet_from_buffer (to_size_t inflatedPacketLength)
                             (inflated_buffer zenv) consumeData) (\<lambda>(q, _).
                    rmap (\<lambda>p. (p, buf)) (instantiateFromData env sd state q))))"

definition parsePacket ::
  "cpp_env \<Rightarrow> inflate_env \<Rightarrow> side \<Rightarrow> size_t \<Rightarrow> bytes \<Rightarrow> client_state \<Rightarrow> bool \<Rightarrow> bool
    \<Rightarrow> (any_packet option \<times> bytes) res" where
  "parsePacket env zenv sd len buffer state isCompressed consumeData =
     (if buffer = [] then Inr (None, buffer)
      else if isCompressed then
        rbind (read_varint buffer False) (\<lambda>(inflatedPacketLength, _, _).
          if 0 < sint inflatedPacketLength
          then parse_inflated env zenv sd len buffer state consumeData inflatedPacketLength
          else parse_plain env sd len buffer state consumeData)
      else parse_plain env sd len buffer state consumeData)"

section \<open>Facts\<close>

lemma rmap_simps [simp]: "rmap f (Inr x) = Inr (f x)" "rmap f (Inl e) = Inl e"
  by (simp_all add: rmap_def)

lemma rmap_eq_Inr_iff: "rmap f m = Inr y \<longleftrightarrow> (\<exists>x. m = Inr x \<and> y = f x)"
  by (cases m) auto

lemma rmap_eq_Inl_iff [simp]: "rmap f m = Inl e \<longleftrightarrow> m = Inl e"
  by (cases m) auto

fun class_of :: "any_packet \<Rightarrow> packet_class" where
  "class_of (P_Handshake p) = HandshakePacket"
| "class_of (P_ServerStatus p) = ServerStatusPacket"
| "class_of (P_Ping p) = PingPacket"
| "class_of (P_LoginStart p) = LoginStartPacket"
| "class_of (P_Encryption p) = EncryptionPacket"
| "class_of (P_LoginSuccess p) = LoginSuccessPacket"
| "class_of (P_SetCompression p) = SetCompressionPacket"
| "class_of (P_KeepAlive p) = KeepAlivePacket"
| "class_of (P_JoinGame p) = JoinGamePacket"
| "class_of (P_ChatMessage p) = ChatMessagePacket"
| "class_of (P_SpawnPosition p) = SpawnPositionPacket"
| "class_of (P_PositionAndLook p) = PlayerPositionAndLookPacket"
| "class_of (P_Abilities p) = PlayerAbilitiesPacket"

lemmas serialize_defs = ServerStatusPacket_serialize_def PingPacket_serialize_def
  LoginStartPacket_serialize_def EncryptionPacket_serialize_def LoginSuccessPacket_serialize_def
  SetCompressionPacket_serialize_def KeepAlivePacket_serialize_def JoinGamePacket_serialize_def
  ChatMessagePacket_serialize_def SpawnPositionPacket_serialize_def
  PlayerPositionAndLookPacket_serialize_def PlayerAbilitiesPacket_serialize_def

lemmas parse_defs = HandshakePacket_parse_def ServerStatusPacket_parse_def PingPacket_parse_def
  LoginStartPacket_parse_def EncryptionPacket_parse_def LoginSuccessPacket_parse_def
  SetCompressionPacket_parse_def KeepAlivePacket_parse_def JoinGamePacket_parse_def
  ChatMessagePacket_parse_def SpawnPositionPacket_parse_def
  PlayerPositionAndLookPacket_parse_def PlayerAbilitiesPacket_parse_def

lemmas new_defs = HandshakePacket_new_def ServerStatusPacket_new_def PingPacket_new_def
  LoginStartPacket_new_def EncryptionPacket_new_def LoginSuccessPacket_new_def
  SetCompressionPacket_new_def KeepAlivePacket_new_def JoinGamePacket_new_def
  ChatMessagePacket_new_def SpawnPositionPacket_new_def
  PlayerPositionAndLookPacket_new_def PlayerAbilitiesPacket_new_def new_base_def

lemmas packet_record_defs = packet.defs handshake_packet.defs server_status_packet.defs
  ping_packet.defs login_start_packet.defs encryption_packet.defs login_success_packet.defs
  set_compression_packet.defs keep_alive_packet.defs join_game_packet.defs
  chat_message_packet.defs spawn_position_packet.defs position_look_packet.defs
  abilities_packet.defs

text \<open>
  Every serialiser starts from an empty payload and writes the packet id first; the rest
  is the body the parsing constructors see.
\<close>

definition serialized_body :: "side \<Rightarrow> any_packet \<Rightarrow> bytes" where
  "serialized_body sd p =
     drop (length (write_varint (packetId (base_of p)))) (rawPayload (base_of (serializePacket sd p)))"

lemma serialize_payload:
  "rawPayload (base_of (serializePacket sd p))
    = write_varint (packetId (base_of p)) @ serialized_body sd p"
  by (cases p)
    (auto simp: serialized_body_def serialize_defs packet_write_defs packet_record_defs Let_def)

lemma serialize_base_fields:
  "packetId (base_of (serializePacket sd p)) = packetId (base_of p)"
  "compressed (base_of (serializePacket sd p)) = False"
  "class_of (serializePacket sd p) = class_of p"
  by (cases p; auto simp: serialize_defs packet_write_defs packet_record_defs Let_def)+

lemma le_bytes_8 [simp]: "le_bytes (Suc 0) (w :: byte) = [w]"
  by simp

lemma serialized_body_simps [byte_simps]:
  "serialized_body sd (P_Handshake h) = []"
  "serialized_body sd (P_ServerStatus a) = enc_string (jsonEncodedServerStatus a)"
  "serialized_body sd (P_Ping b) = le_bytes 8 (unixEpoch b)"
  "serialized_body sd (P_LoginStart c) = enc_string (playerName c)"
  "serialized_body sd (P_LoginSuccess d) = enc_string (uuid d) @ enc_string (username d)"
  "serialized_body sd (P_SetCompression e) = write_varint (compressionThreshold e)"
  "serialized_body sd (P_KeepAlive f) = write_varint (keepAliveId f)"
  "serialized_body sd (P_JoinGame g) = le_bytes 4 (playerEntityId g) @
     [gamemode g, dimensionId g, difficulty g, maxPlayersOnPlayerList g] @
     enc_string (levelType g) @ [reducedDebugInfo g]"
  by (simp_all add: serialized_body_def serialize_defs packet_write_defs packet_record_defs
      Let_def enc_string_def)

lemma registry_eq:
  "registry = [(SERVER_BOUND, HANDSHAKE, 0x00) \<mapsto> HandshakePacket,
     (BI_DIRECTIONAL, STATUS, 0x00) \<mapsto> ServerStatusPacket,
     (BI_DIRECTIONAL, STATUS, 0x01) \<mapsto> PingPacket,
     (SERVER_BOUND, LOGIN, 0x00) \<mapsto> LoginStartPacket,
     (BI_DIRECTIONAL, LOGIN, 0x01) \<mapsto> EncryptionPacket,
     (CLIENT_BOUND, LOGIN, 0x02) \<mapsto> LoginSuccessPacket,
     (CLIENT_BOUND, LOGIN, 0x03) \<mapsto> SetCompressionPacket,
     (BI_DIRECTIONAL, PLAY, 0x00) \<mapsto> KeepAlivePacket,
     (CLIENT_BOUND, PLAY, 0x01) \<mapsto> JoinGamePacket,
     (CLIENT_BOUND, PLAY, 0x02) \<mapsto> ChatMessagePacket,
     (SERVER_BOUND, PLAY, 0x01) \<mapsto> ChatMessagePacket,
     (CLIENT_BOUND, PLAY, 0x05) \<mapsto> SpawnPositionPacket,
     (CLIENT_BOUND, PLAY, 0x08) \<mapsto> PlayerPositionAndLookPacket,
     (CLIENT_BOUND, PLAY, 0x39) \<mapsto> PlayerAbilitiesPacket,
     (CLIENT_BOUND, PLAY, 0x46) \<mapsto> SetCompressionPacket]"
  by (simp add: registry_def registrations_def registrate_def)

text \<open>What the gateway, which parses what clients send, can find.\<close>

lemma find_class_server_bound [simp]:
  "find_class SERVER_BOUND HANDSHAKE i = (if i = 0 then Some HandshakePacket else None)"
  "find_class SERVER_BOUND STATUS i =
    (if i = 0 then Some ServerStatusPacket else if i = 1 then Some PingPacket else None)"
  "find_class SERVER_BOUND LOGIN i =
    (if i = 0 then Some LoginStartPacket else if i = 1 then Some EncryptionPacket else None)"
  "find_class SERVER_BOUND PLAY i =
    (if i = 0 then Some KeepAlivePacket else if i = 1 then Some ChatMessagePacket else None)"
  "find_class SERVER_BOUND (Other_State s) i = None"
  by (simp_all add: find_class_def registry_eq)

section \<open>Properties\<close>

text \<open>The id a class writes is the id it is registered under, for every class but
  SetCompressionPacket, which always writes 1 and is registered under 3 and 0x46.\<close>

theorem registered_id_iff:
  assumes "find_class sd state i = Some c"
  shows "packetId (base_of (class_new env sd c)) = i \<longleftrightarrow> c \<noteq> SetCompressionPacket"
  using assms
  by (cases sd; cases state)
    (auto simp: find_class_def registry_eq new_defs packet_record_defs split: if_splits)

theorem registered_id_iff_witness:
  "find_class CLIENT_BOUND LOGIN 3 = Some SetCompressionPacket \<and>
   (\<forall>env. packetId (base_of (class_new env CLIENT_BOUND SetCompressionPacket)) \<noteq> 3)"
proof -
  have h: "find_class CLIENT_BOUND LOGIN 3 = Some SetCompressionPacket"
    by (simp add: find_class_def registry_eq)
  show ?thesis using h registered_id_iff [OF h] by simp
qed

end
