(* ===== verification/Packet_Facts.thy ===== *)
theory Packet_Facts
  imports Registry
begin

text \<open>
  What the parsing constructors do with what the serialisers write, which constructors can
  run into undefined behaviour on hostile input, and what the compressed path of
  \<open>parsePacket\<close> can return.
\<close>

section \<open>Round trips\<close>

text \<open>A packet as a parsing constructor leaves it: nothing in the payload.\<close>

definition received :: "any_packet \<Rightarrow> any_packet" where
  "received p = set_base \<lparr>packetId = packetId (base_of p), rawPayload = [], compressed = False\<rparr> p"

definition incoming :: "side \<Rightarrow> any_packet \<Rightarrow> packet" where
  "incoming sd p =
     \<lparr>packetId = packetId (base_of p), rawPayload = serialized_body sd p, compressed = False\<rparr>"

text \<open>The packets whose parsing constructor recovers every field the serialiser wrote.\<close>

fun recoverable :: "any_packet \<Rightarrow> bool" where
  "recoverable (P_Ping p) = True"
| "recoverable (P_LoginStart p) = fits_int32 (playerName p)"
| "recoverable (P_LoginSuccess p) = (fits_int32 (uuid p) \<and> fits_int32 (username p) \<and>
     (uuid p = [] \<or> length (username p) < length (uuid p)))"
| "recoverable (P_SetCompression p) = True"
| "recoverable (P_KeepAlive p) = True"
| "recoverable (P_JoinGame p) = fits_int32 (levelType p)"
| "recoverable _ = False"

lemma read_string [byte_simps]:
  "read_varint (enc_string s @ rest) True =
    Inr (size_int32 s, length (write_varint (size_int32 s)), bytes_of s @ rest)"
  "read_varint (enc_string s) True =
    Inr (size_int32 s, length (write_varint (size_int32 s)), bytes_of s)"
  by (simp_all add: enc_string_def byte_simps)

lemma read_guarded_string_only [byte_simps]:
  "fits_int32 s \<Longrightarrow> read_guarded old (bytes_of s) (size_int32 s) = Inr (s, [])"
  using read_guarded_string [of s "[]" old] by (simp add: fits_int32_def)

lemma read_range_only [byte_simps]:
  "fits_int32 s \<Longrightarrow> read_range (bytes_of s) (size_int32 s) = Inr (bytes_of s, [])"
  using read_range_size(1) [of s "[]"] by simp

lemma readPOD_only [byte_simps]:
  fixes w64 d64 :: "64 word" and w8 d8 :: byte
  shows "readPOD d64 True (le_bytes 8 w64) = (w64, [])"
    and "readPOD d8 True [w8] = (w8, [])"
  using readPOD_simps(4) [of d64 w64 "[]"] readPOD_simps(1) [of d8 w8 "[]"] by simp_all

lemma enc_string_length: "length (enc_string s) \<le> length s + 5"
  by (simp add: enc_string_def length_write_varint)

lemma parse_ping: "PingPacket_parse env (incoming sd (P_Ping p)) =
    Inr (put_base \<lparr>packetId = packetId p, rawPayload = [], compressed = False\<rparr> p)"
  by (simp add: incoming_def parse_defs byte_simps packet_record_defs resetBuffer_def copy_base_def
      put_base_def)

lemma parse_login_start:
  "fits_int32 (playerName p) \<Longrightarrow> LoginStartPacket_parse (incoming sd (P_LoginStart p)) =
    Inr (put_base \<lparr>packetId = packetId p, rawPayload = [], compressed = False\<rparr> p)"
  by (simp add: incoming_def parse_defs byte_simps packet_record_defs resetBuffer_def copy_base_def
      put_base_def)

lemma parse_set_compression: "SetCompressionPacket_parse (incoming sd (P_SetCompression p)) =
    Inr (put_base \<lparr>packetId = packetId p, rawPayload = [], compressed = False\<rparr> p)"
  by (simp add: incoming_def parse_defs byte_simps packet_record_defs resetBuffer_def copy_base_def
      put_base_def)

lemma read_write_varint_keep: "read_varint (write_varint v) False =
    Inr (v, length (write_varint v), write_varint v)"
  using read_varint_loop_leb128 [of 0 v "[]" 0] by (simp add: read_varint_def write_varint_def)

lemma parse_keep_alive: "KeepAlivePacket_parse (incoming sd (P_KeepAlive p)) =
    Inr (put_base \<lparr>packetId = packetId p, rawPayload = [], compressed = False\<rparr> p)"
  by (simp add: incoming_def parse_defs byte_simps packet_record_defs resetBuffer_def copy_base_def
      put_base_def read_write_varint_keep)

lemma parse_join_game:
  "fits_int32 (levelType p) \<Longrightarrow> JoinGamePacket_parse (incoming sd (P_JoinGame p)) =
    Inr (put_base \<lparr>packetId = packetId p, rawPayload = [], compressed = False\<rparr> p)"
  by (simp add: incoming_def parse_defs byte_simps packet_record_defs resetBuffer_def copy_base_def
      put_base_def fits_int32_def)

text \<open>The guard on the user name, at 64 bits.\<close>

lemma to_size_t_size_int32:
  "fits_int32 xs \<Longrightarrow> to_size_t (size_int32 xs) = of_nat (length xs)"
  by (simp add: fits_int32_def word_uint_eq_iff uint_to_size_t sint_size_int32 unsigned_of_nat
      take_bit_nat_eq_self)

lemma wrapped_guard_iff:
  assumes "n < 2 ^ 31" and "u < 2 ^ 31"
  shows "(of_nat n :: size_t) \<le> of_nat n - of_nat u \<longleftrightarrow> u = 0 \<or> n < u"
proof (cases "u \<le> n")
  case True
  then have "(of_nat n - of_nat u :: size_t) = of_nat (n - u)" by (simp add: of_nat_diff)
  moreover have "unat (of_nat n :: size_t) = n" "unat (of_nat (n - u) :: size_t) = n - u"
    using assms by (simp_all add: unat_of_nat take_bit_nat_eq_self)
  ultimately show ?thesis using True by (simp add: word_le_nat_alt) arith
next
  case False
  have lt: "uint (of_nat n :: size_t) = int n" "uint (of_nat u :: size_t) = int u"
    using assms by (simp_all add: unsigned_of_nat take_bit_nat_eq_self)
  have "uint (of_nat n - of_nat u :: size_t) = (int n - int u) mod 2 ^ 64"
    unfolding uint_word_ariths lt by simp
  also have "\<dots> = (int n - int u + 2 ^ 64) mod 2 ^ 64" by (simp only: mod_add_self2)
  also have "\<dots> = int n - int u + 2 ^ 64"
    using False assms by (intro mod_pos_pos_trivial) auto
  finally have "uint (of_nat n :: size_t) \<le> uint (of_nat n - of_nat u :: size_t)"
    using lt(1) assms by simp
  then show ?thesis using False by (simp add: word_le_def)
qed

lemma parse_login_success:
  assumes "fits_int32 (uuid p)" and "fits_int32 (username p)"
  shows "LoginSuccessPacket_parse (incoming sd (P_LoginSuccess p)) =
    Inr (put_base \<lparr>packetId = packetId p, rawPayload = [], compressed = False\<rparr>
      (p\<lparr>username := (if uuid p = [] \<or> length (username p) < length (uuid p)
                     then username p else [])\<rparr>))"
proof -
  have len: "length (bytes_of (uuid p) @ enc_string (username p)) < 2 ^ 63"
    using assms enc_string_length [of "username p"] by (simp add: fits_int32_def)
  have guard: "to_size_t (size_int32 (username p))
      \<le> size_of (bytes_of (username p)) - to_size_t (size_int32 (uuid p))
    \<longleftrightarrow> uuid p = [] \<or> length (username p) < length (uuid p)"
    using assms wrapped_guard_iff [of "length (username p)" "length (uuid p)"]
    by (simp add: to_size_t_size_int32 size_of_def fits_int32_def)
  show ?thesis
    using assms len guard
    by (simp add: incoming_def LoginSuccessPacket_parse_def byte_simps packet_record_defs
        resetBuffer_def copy_base_def put_base_def)
qed

lemma class_parse_recoverable:
  assumes "recoverable p"
  shows "class_parse env sd' (class_of p) (incoming sd p) = Inr (received p)"
  using assms
  by (cases p)
    (simp_all add: received_def parse_ping parse_login_start parse_set_compression
      parse_keep_alive parse_join_game parse_login_success packet_record_defs)

section \<open>From the receive buffer\<close>

lemma read_varint_peek:
  "read_varint (write_varint v @ rest) False =
    Inr (v, length (write_varint v), write_varint v @ rest)"
  using read_write_varint [of v rest] 
  by (auto simp: read_varint_def rbind_eq_Inr_iff split: if_splits)

lemma Packet_from_buffer_serialized:
  assumes "payload = rawPayload (base_of (serializePacket sd p))" and "length payload < 2 ^ 64"
  shows "Packet_from_buffer (size_of payload) (payload @ rest) True = Inr (incoming sd p, rest)"
  using assms
  by (simp add: Packet_from_buffer_def serialize_payload read_varint_peek unat_size_of incoming_def)

lemma parsePacket_serialized:
  assumes "payload = rawPayload (base_of (serializePacket sd p))" and "length payload < 2 ^ 64"
  shows "parsePacket env zenv sd' (size_of payload) (payload @ rest) state False True =
    rbind (instantiateFromData env sd' state (incoming sd p)) (\<lambda>r. Inr (r, rest))"
proof -
  have "payload \<noteq> []"
    using assms(1) by (simp add: serialize_payload write_varint_def)
  then show ?thesis
    using Packet_from_buffer_serialized [OF assms]
    by (simp add: parsePacket_def parse_plain_def)
qed

lemma incoming_id: "packetId (incoming sd p) = packetId (base_of p)"
  by (simp add: incoming_def)

lemma parsePacket_recoverable:
  assumes "recoverable p"
    and "payload = rawPayload (base_of (serializePacket sd p))" and "length payload < 2 ^ 64"
    and "find_class sd' state (packetId (base_of p)) = Some (class_of p)"
  shows "parsePacket env zenv sd' (size_of payload) (payload @ rest) state False True =
    Inr (Some (received p), rest)"
  using assms(1,4)
  by (simp add: parsePacket_serialized [OF assms(2,3)] instantiateFromData_def
      class_parse_recoverable incoming_id)

section \<open>Safety of the parsing constructors\<close>

text \<open>
  The classes that guard their reads; the encryption packet is guarded on the client side only.
\<close>

fun guarded_class :: "side \<Rightarrow> packet_class \<Rightarrow> bool" where
  "guarded_class sd HandshakePacket = False"
| "guarded_class sd EncryptionPacket = (sd = CLIENT_BOUND)"
| "guarded_class sd LoginSuccessPacket = False"
| "guarded_class sd _ = True"

lemma read_guarded_not_Inl:
  "length payload < 2 ^ 63 \<Longrightarrow> read_guarded old payload n \<noteq> Inl e"
  using read_guarded_defined [of payload old n] by auto

lemma read_varint_InlD: "read_varint buf c = Inl e \<Longrightarrow> e = UB BadShift"
  by (simp add: read_varint_error_iff)

lemma read_varint_length: "read_varint buf c = Inr (v, n, rest) \<Longrightarrow> length rest \<le> length buf"
  by (drule read_varint_bounds(3)) simp

lemma guarded_after_varint:
  assumes "read_varint buf c = Inr (v, n, rest)" and "read_guarded old rest k = Inl e"
    and "length buf < 2 ^ 63"
  shows P
  using read_guarded_not_Inl [of rest old k e] read_varint_length [OF assms(1)] assms(2,3) by simp

lemma readPOD_length: "readPOD d c buf = (v, rest) \<Longrightarrow> length rest \<le> length buf"
  by (auto simp: readPOD_def Let_def split: if_splits)

lemma guarded_parse_error:
  assumes "guarded_class sd c" and "length (rawPayload q) < 2 ^ 63"
    and "class_parse env sd c q = Inl e"
  shows "e = UB BadShift"
proof (cases c)
  case JoinGamePacket
  obtain a b1 where 1: "readPOD (0 :: 32 word) True (rawPayload q) = (a, b1)" by fastforce
  obtain b b2 where 2: "readPOD (0 :: byte) True b1 = (b, b2)" by fastforce
  obtain d b3 where 3: "readPOD (0 :: byte) True b2 = (d, b3)" by fastforce
  obtain f b4 where 4: "readPOD (0 :: byte) True b3 = (f, b4)" by fastforce
  obtain g b5 where 5: "readPOD (255 :: byte) True b4 = (g, b5)" by fastforce
  have "length b5 < 2 ^ 63"
    using assms(2) readPOD_length [OF 1] readPOD_length [OF 2] readPOD_length [OF 3]
      readPOD_length [OF 4] readPOD_length [OF 5] by linarith
  then show ?thesis
    using assms(3) JoinGamePacket
    by (auto simp: parse_defs 1 2 3 4 5 rbind_eq_Inl_iff read_guarded_not_Inl Let_def
        split: prod.splits dest!: read_varint_InlD elim: guarded_after_varint)
next
  case ChatMessagePacket
  then show ?thesis
    using assms(2,3)
    by (auto simp: parse_defs rbind_eq_Inl_iff read_guarded_not_Inl Let_def
        split: prod.splits if_splits dest: read_varint_InlD elim: guarded_after_varint)
qed (use assms in \<open>auto simp: parse_defs rbind_eq_Inl_iff read_guarded_not_Inl Let_def
      split: prod.splits dest: read_varint_InlD elim: guarded_after_varint\<close>)

section \<open>Properties\<close>

text \<open>C2: a keep-alive, ping, login-start, set-compression, join-game or login-success packet
  that is serialised and found again in a receive buffer, whatever bytes follow it, comes back
  with every field and leaves exactly those bytes, provided that compression is off and that the
  receiving side, in its state, has the packet's class registered under the packet's id. A set-compression packet of
  its own constructor does not meet this: its id is 0x01, and its class is registered under 0x03
  in the login state and 0x46 in the play state. The texts must have lengths that fit in an int,
  and for login-success the user name must be shorter than the uuid, or the uuid empty.\<close>

theorem packet_roundtrip:
  assumes "recoverable p"
    and "payload = rawPayload (base_of (serializePacket sd p))" and "length payload < 2 ^ 64"
    and "find_class sd' state (packetId (base_of p)) = Some (class_of p)"
  shows "parsePacket env zenv sd' (size_of payload) (payload @ rest) state False True =
    Inr (Some (received p), rest)"
  using assms by (rule parsePacket_recoverable)

definition example_env :: cpp_env where
  "example_env = \<lparr>time_null = 5, keep_alive_rng = 42, oversize = x86_oversize,
     junk8 = (\<lambda>_. 0xAA), junk16 = (\<lambda>_. 0xBBBB), junk32 = (\<lambda>_. 0xCCCC), junk64 = (\<lambda>_. 0xDDDD)\<rparr>"

definition example_inflate :: inflate_env where
  "example_inflate = \<lparr>inflate_init_ok = True, inflate_rc = (\<lambda>_. Z_DATA_ERROR), inflated_buffer = []\<rparr>"

theorem packet_roundtrip_witness:
  "parsePacket example_env example_inflate SERVER_BOUND 3 [0, 1, 0x41, 9] LOGIN False True =
    Inr (Some (received (P_LoginStart (LoginStartPacket_new\<lparr>playerName := ''A''\<rparr>))), [9])"
proof -
  let ?p = "P_LoginStart (LoginStartPacket_new\<lparr>playerName := ''A''\<rparr>)"
  have payload: "rawPayload (base_of (serializePacket SERVER_BOUND ?p)) = [0, 1, 0x41]"
    by (simp add: serialize_defs packet_write_defs new_defs packet_record_defs write_varint_def
        leb128.simps size_int32_def bytes_of_def byte_of_char_def)
  have "recoverable ?p" by (simp add: fits_int32_def new_defs packet_record_defs)
  moreover have "find_class SERVER_BOUND LOGIN (packetId (base_of ?p)) = Some (class_of ?p)"
    by (simp add: new_defs packet_record_defs)
  ultimately show ?thesis
    using packet_roundtrip [of ?p "[0, 1, 0x41]" SERVER_BOUND SERVER_BOUND LOGIN example_env
        example_inflate "[9]"] payload
    by (simp add: size_of_def)
qed

text \<open>Parsing a serialised login-success packet always gives back the uuid, and gives back the
  user name exactly when the uuid is empty or longer than the name; otherwise the name
  comes back empty.\<close>

theorem login_success_username_iff:
  assumes "fits_int32 (uuid p)" and "fits_int32 (username p)"
  shows "\<exists>r. LoginSuccessPacket_parse (incoming sd (P_LoginSuccess p)) = Inr r \<and>
    uuid r = uuid p \<and>
    (username r = username p \<longleftrightarrow> uuid p = [] \<or> length (username p) < length (uuid p))"
  using assms by (auto simp: parse_login_success put_base_def)

theorem login_success_username_iff_witness:
  "\<exists>r. LoginSuccessPacket_parse (incoming CLIENT_BOUND
      (P_LoginSuccess (LoginSuccessPacket_new\<lparr>uuid := ''ab'', username := ''Steve''\<rparr>))) = Inr r \<and>
    uuid r = ''ab'' \<and> username r \<noteq> ''Steve''"
  using login_success_username_iff [of "LoginSuccessPacket_new\<lparr>uuid := ''ab'', username := ''Steve''\<rparr>"
      CLIENT_BOUND]
  by (simp add: fits_int32_def)

text \<open>C21: whatever bytes arrive, parsing a packet of a guarded class never reads outside the payload:
  the only way it fails is the undefined shift of a VarInt that is too long. The classes without the guard are the
  handshake, the encryption response and login-success.\<close>

theorem guarded_parse_safe:
  assumes "guarded_class sd c" and "length (rawPayload q) < 2 ^ 63"
    and "class_parse env sd c q = Inl e"
  shows "e = UB BadShift"
  using assms by (rule guarded_parse_error)

theorem guarded_parse_safe_witness:
  "class_parse example_env SERVER_BOUND LoginStartPacket
      \<lparr>packetId = 0, rawPayload = replicate 6 0xFF, compressed = False\<rparr> = Inl (UB BadShift)"
proof -
  let ?q = "\<lparr>packetId = 0, rawPayload = replicate 6 0xFF, compressed = False\<rparr>"
  have overlong: "read_varint (replicate 6 0xFF) True = Inl (UB BadShift)"
    by (simp add: read_varint_error_iff overlong_def list_all_iff)
  have run: "\<exists>e. class_parse example_env SERVER_BOUND LoginStartPacket ?q = Inl e"
    using overlong by (simp add: parse_defs Let_def)
  then show ?thesis using guarded_parse_safe [of SERVER_BOUND LoginStartPacket ?q example_env]
    by auto
qed

text \<open>An encryption response whose announced shared-secret length is negative or exceeds the
  bytes that follow makes the constructor read outside the payload.\<close>

theorem encryption_response_overread:
  assumes "rawPayload q = write_varint n @ buf"
    and "\<not> (0 \<le> sint n \<and> sint n \<le> int (length buf))"
  shows "class_parse env SERVER_BOUND EncryptionPacket q = Inl (UB OutOfBounds)"
  using assms by (auto simp: parse_defs byte_simps Let_def read_range_def)

theorem encryption_response_overread_witness:
  "class_parse example_env SERVER_BOUND EncryptionPacket
     \<lparr>packetId = 1, rawPayload = [100, 1, 2], compressed = False\<rparr> = Inl (UB OutOfBounds)"
  using encryption_response_overread
      [of "\<lparr>packetId = 1, rawPayload = [100, 1, 2], compressed = False\<rparr>" 100 "[1, 2]" example_env]
  by (simp add: write_varint_def leb128.simps)

lemma parse_encryption_response:
  "EncryptionPacket_parse env SERVER_BOUND q =
    rmap (\<lambda>((secret, token), _). packet.extend (new_base (packetId q))
        \<lparr>serverId = [], publickKey = [], clearVerifyToken = junk_token env,
         clearSharedSecret = [], sealedVerifyToken = token, sealedSharedSecret = secret\<rparr>)
      (dec_pair dec_blob dec_blob (rawPayload q))"
  by (auto simp: parse_defs new_base_def copy_base_def packet_record_defs dec_pair_def dec_blob_def
      Let_def rmap_def rbind_def split: sum.split prod.split)

text \<open>An encryption response whose payload is the two sealed fields, each behind its length,
  is taken apart into exactly those fields, whatever trails them; the base part keeps the id and
  an empty payload.\<close>

theorem encryption_response_roundtrip:
  assumes "fits_int32 secret" and "fits_int32 token"
    and "rawPayload q = enc_pair enc_blob enc_blob (secret, token) @ trailing"
  shows "\<exists>r. EncryptionPacket_parse env SERVER_BOUND q = Inr r \<and>
    sealedSharedSecret r = secret \<and> sealedVerifyToken r = token \<and>
    packetId r = packetId q \<and> rawPayload r = []"
  using assms blobs.pair.dec_enc [of "(secret, token)" trailing]
  by (simp add: parse_encryption_response packet_record_defs new_base_def)

theorem encryption_response_roundtrip_witness:
  "\<exists>r. EncryptionPacket_parse example_env SERVER_BOUND
      \<lparr>packetId = 1, rawPayload = [2, 7, 8, 1, 9, 0xFF], compressed = False\<rparr> = Inr r \<and>
    sealedSharedSecret r = [7, 8] \<and> sealedVerifyToken r = [9]"
proof -
  have "[2, 7, 8, 1, 9, 0xFF] = enc_pair enc_blob enc_blob ([7, 8], [9]) @ [0xFF]"
    by (simp add: enc_pair_def enc_blob_def size_int32_def write_varint_def leb128.simps)
  then show ?thesis
    using encryption_response_roundtrip [of "[7, 8]" "[9]"
        "\<lparr>packetId = 1, rawPayload = [2, 7, 8, 1, 9, 0xFF], compressed = False\<rparr>" "[0xFF]" example_env]
    by (auto simp: fits_int32_def)
qed

text \<open>The parsing constructors of the spawn-position, position-and-look and abilities packets
  ignore what was received: payloads that differ in every byte give the same object.\<close>

theorem play_packets_ignore_payload:
  assumes "c \<in> {SpawnPositionPacket, PlayerPositionAndLookPacket, PlayerAbilitiesPacket}"
    and "packetId q = packetId q'"
  shows "class_parse env sd c q = class_parse env sd c q'"
  using assms
  by (auto simp: parse_defs Let_def copy_base_def packet_record_defs resetBuffer_def
      split: prod.splits)

theorem play_packets_ignore_payload_witness:
  "class_parse example_env CLIENT_BOUND SpawnPositionPacket
      \<lparr>packetId = 5, rawPayload = [1, 2, 3, 4, 5, 6, 7, 8], compressed = False\<rparr> =
   class_parse example_env CLIENT_BOUND SpawnPositionPacket
      \<lparr>packetId = 5, rawPayload = [9, 9, 9, 9, 9, 9, 9, 9], compressed = False\<rparr>"
  by (rule play_packets_ignore_payload) simp_all

text \<open>With compression on, a packet that announces a positive inflated length is never
  delivered: whatever inflate does, parsePacket fails, loops forever or returns no packet.\<close>

theorem compressed_never_parses:
  assumes "read_varint buffer False = Inr (len, k, buf)" and "0 < sint len"
    and "parsePacket env zenv sd n buffer state True consume = Inr (r, rest)"
  shows "r = None"
  using assms inflate_loop_never_completes [of "inflate_rc zenv" 0 0 "nat (sint len)"]
  by (auto simp: parsePacket_def parse_inflated_def rmap_eq_Inr_iff Let_def
      split: if_splits option.splits bool.splits)

theorem compressed_never_parses_witness:
  "fst (projr (parsePacket example_env
      (example_inflate\<lparr>inflate_rc := (\<lambda>_. Z_STREAM_ERROR)\<rparr>) SERVER_BOUND 2 [5, 7] PLAY True True))
   = None"
proof -
  let ?z = "example_inflate\<lparr>inflate_rc := (\<lambda>_. Z_STREAM_ERROR)\<rparr>"
  have len: "read_varint [5, 7] False = Inr (5, 1, [5, 7])"
    by (simp add: read_varint_def Let_def)
  have run: "parsePacket example_env ?z SERVER_BOUND 2 [5, 7] PLAY True True = Inr (None, [])"
    by (simp add: parsePacket_def len parse_inflated_def example_inflate_def inflate_loop.simps
        consume_front_def)
  show ?thesis using compressed_never_parses [OF len _ run] run by simp
qed

text \<open>With compression on, a packet sent below the threshold (data length 0) is always taken to
  have packet id 0, and its real id becomes the first byte of the payload.\<close>

theorem uncompressed_marker_is_read_as_id:
  assumes "0 < unat n" and "unat n \<le> Suc (length buf)"
  shows "parsePacket env zenv sd n (0 # buf) state True True =
    rbind (instantiateFromData env sd state
      \<lparr>packetId = 0, rawPayload = take (unat n - 1) buf, compressed = False\<rparr>)
      (\<lambda>p. Inr (p, drop (unat n - 1) buf))"
proof -
  obtain m where "unat n = Suc m" using assms(1) by (cases "unat n") auto
  with assms show ?thesis
    by (simp add: parsePacket_def parse_plain_def Packet_from_buffer_def read_varint_def Let_def)
qed

theorem uncompressed_marker_is_read_as_id_witness:
  "parsePacket example_env example_inflate SERVER_BOUND 3 [0, 1, 42, 7] LOGIN True True =
    rbind (instantiateFromData example_env SERVER_BOUND LOGIN
      \<lparr>packetId = 0, rawPayload = [1, 42], compressed = False\<rparr>) (\<lambda>p. Inr (p, [7]))"
  using uncompressed_marker_is_read_as_id [of 3 "[1, 42, 7]" example_env example_inflate
      SERVER_BOUND LOGIN] by simp

end
