(* ===== verification/Internal_Comms.thy ===== *)
theory Internal_Comms
  imports VarInt
begin

text \<open>
  The datagrams gateway and game nodes exchange (\<open>InternalComms/InternalComms.cpp\<close> and
  \<open>InternalCommsPriv.hpp\<close>): a packed header of 46 bytes followed by the payload. Bytes
  of the header that \<open>newPacket\<close> does not set are indeterminate and passed as \<open>junk\<close>.
\<close>

datatype message_id = ACK | NAK | ACCEPT_CLIENT | MC_PACKET | Other_Message byte

fun message_byte :: "message_id \<Rightarrow> byte" where
  "message_byte ACK = 0"
| "message_byte NAK = 1"
| "message_byte ACCEPT_CLIENT = 2"
| "message_byte MC_PACKET = 3"
| "message_byte (Other_Message b) = b"

definition message_of_byte :: "byte \<Rightarrow> message_id" where
  "message_of_byte b =
     (if b = 0 then ACK else if b = 1 then NAK else if b = 2 then ACCEPT_CLIENT
      else if b = 3 then MC_PACKET else Other_Message b)"

record message_header =
  hdr_id :: byte
  hdr_packetNumber :: byte
  hdr_playerUUID :: bytes
  hdr_payloadLength :: size_t

record comms_packet =
  packetHeader :: message_header
  comms_payload :: bytes

definition UUID_SIZE :: nat where "UUID_SIZE = 36"
definition HEADER_SIZE :: nat where "HEADER_SIZE = 46"

definition header_bytes :: "message_header \<Rightarrow> bytes" where
  "header_bytes h = hdr_id h # hdr_packetNumber h # hdr_playerUUID h @ le_bytes 8 (hdr_payloadLength h)"

definition header_of_bytes :: "bytes \<Rightarrow> message_header" where
  "header_of_bytes bs =
     \<lparr>hdr_id = bs ! 0, hdr_packetNumber = bs ! 1,
      hdr_playerUUID = take UUID_SIZE (drop 2 bs),
      hdr_payloadLength = le_word (take 8 (drop (2 + UUID_SIZE) bs))\<rparr>"

section \<open>Making a packet\<close>

definition newPacket_full :: "message_header \<Rightarrow> message_id \<Rightarrow> string \<Rightarrow> bytes \<Rightarrow> comms_packet" where
  "newPacket_full junk messageType playerId payload =
     (let header = junk\<lparr>hdr_id := message_byte messageType\<rparr>;
          header = (if length playerId > UUID_SIZE
                    then header\<lparr>hdr_playerUUID := bytes_of (take UUID_SIZE playerId)\<rparr>
                    else if playerId \<noteq> []
                    then header\<lparr>hdr_playerUUID :=
                           bytes_of playerId @ drop (length playerId) (hdr_playerUUID header)\<rparr>
                    else header);
          header = header\<lparr>hdr_payloadLength := size_of payload\<rparr>
      in \<lparr>packetHeader = header, comms_payload = payload\<rparr>)"

definition newPacket_id :: "message_header \<Rightarrow> message_id \<Rightarrow> string \<Rightarrow> comms_packet" where
  "newPacket_id junk messageType playerId = newPacket_full junk messageType playerId []"

definition newPacket_payload :: "message_header \<Rightarrow> message_id \<Rightarrow> bytes \<Rightarrow> comms_packet" where
  "newPacket_payload junk messageType payload = newPacket_full junk messageType [] payload"

definition newPacket_empty :: "message_header \<Rightarrow> message_id \<Rightarrow> comms_packet" where
  "newPacket_empty junk messageType = newPacket_payload junk messageType []"

section \<open>The wire\<close>

definition serializeData :: "comms_packet \<Rightarrow> bytes \<Rightarrow> bytes res" where
  "serializeData p outputBuffer =
     (let out = outputBuffer @ header_bytes (packetHeader p);
          n = unat (hdr_payloadLength (packetHeader p))
      in if n > 0 then
           (if n \<le> length (comms_payload p) then Inr (out @ take n (comms_payload p))
            else Inl (UB OutOfBounds))
         else Inr out)"

text \<open>
  The header is copied before any size is checked, and the size check adds at
  \<open>std::size_t\<close>.
\<close>

definition fromData :: "bytes \<Rightarrow> bool \<Rightarrow> (comms_packet option \<times> bytes) res" where
  "fromData rawData consume =
     (if length rawData < HEADER_SIZE then Inl (UB OutOfBounds)
      else
        let header = header_of_bytes (take HEADER_SIZE rawData);
            n = unat (hdr_payloadLength header)
        in if size_of rawData < of_nat HEADER_SIZE + hdr_payloadLength header
           then Inr (None, rawData)
           else if length rawData < HEADER_SIZE + n then Inl (UB OutOfBounds)
           else Inr (Some \<lparr>packetHeader = header, comms_payload = take n (drop HEADER_SIZE rawData)\<rparr>,
                     if consume then drop (HEADER_SIZE + n) rawData else rawData))"

section \<open>Accessors\<close>

definition getMessageID :: "comms_packet \<Rightarrow> message_id" where
  "getMessageID p = message_of_byte (hdr_id (packetHeader p))"

definition getPlayerID :: "comms_packet \<Rightarrow> string" where
  "getPlayerID p = str_of (hdr_playerUUID (packetHeader p))"

definition getPayload :: "comms_packet \<Rightarrow> bytes" where
  "getPayload p = comms_payload p"

definition setPacketNumber :: "byte \<Rightarrow> comms_packet \<Rightarrow> comms_packet" where
  "setPacketNumber n p = p\<lparr>packetHeader := (packetHeader p)\<lparr>hdr_packetNumber := n\<rparr>\<rparr>"

definition getPacketNumber :: "comms_packet \<Rightarrow> byte" where
  "getPacketNumber p = hdr_packetNumber (packetHeader p)"

section \<open>Facts\<close>

definition header_ok :: "message_header \<Rightarrow> bool" where
  "header_ok h \<longleftrightarrow> length (hdr_playerUUID h) = UUID_SIZE"

definition comms_ok :: "comms_packet \<Rightarrow> bool" where
  "comms_ok p \<longleftrightarrow> header_ok (packetHeader p) \<and>
     unat (hdr_payloadLength (packetHeader p)) = length (comms_payload p) \<and>
     length (comms_payload p) < 2 ^ 63"

lemma message_of_byte_of: "message_of_byte (message_byte m) = m \<or> (\<exists>b. m = Other_Message b \<and> b < 4)"
proof (cases m)
  case (Other_Message b)
  have "b < 4" if "b = 0 \<or> b = 1 \<or> b = 2 \<or> b = 3" using that by auto
  then show ?thesis using Other_Message by (auto simp: message_of_byte_def)
qed (simp_all add: message_of_byte_def)

lemma length_header_bytes: "header_ok h \<Longrightarrow> length (header_bytes h) = HEADER_SIZE"
  by (simp add: header_ok_def header_bytes_def UUID_SIZE_def HEADER_SIZE_def)

lemma header_of_header_bytes:
  assumes "header_ok h"
  shows "header_of_bytes (header_bytes h) = h"
  using assms by (simp add: header_of_bytes_def header_bytes_def header_ok_def)

lemma header_of_bytes_ok: "length bs = HEADER_SIZE \<Longrightarrow> header_ok (header_of_bytes bs)"
  by (simp add: header_ok_def header_of_bytes_def UUID_SIZE_def HEADER_SIZE_def)

definition dec_header :: "bytes \<Rightarrow> (message_header \<times> bytes) res" where
  "dec_header bs =
     (if length bs < HEADER_SIZE then Inl (UB OutOfBounds)
      else Inr (header_of_bytes (take HEADER_SIZE bs), drop HEADER_SIZE bs))"

interpretation header: codec header_bytes dec_header header_ok
  by unfold_locales
    (simp add: dec_header_def length_header_bytes header_of_header_bytes)

definition enc_comms :: "comms_packet \<Rightarrow> bytes" where
  "enc_comms p = header_bytes (packetHeader p) @ comms_payload p"

lemma serializeData_ok:
  "comms_ok p \<Longrightarrow> serializeData p out = Inr (out @ enc_comms p)"
  by (auto simp: serializeData_def comms_ok_def enc_comms_def Let_def)

lemma fromData_enc_comms:
  assumes "comms_ok p" and "length rest < 2 ^ 62"
  shows "fromData (enc_comms p @ rest) True = Inr (Some p, rest)"
proof -
  let ?h = "packetHeader p" and ?raw = "enc_comms p @ rest"
  have h: "header_ok ?h" and n: "unat (hdr_payloadLength ?h) = length (comms_payload p)"
    and bound: "length (comms_payload p) < 2 ^ 63"
    using assms(1) by (simp_all add: comms_ok_def)
  have len: "length (header_bytes ?h) = HEADER_SIZE" by (rule length_header_bytes [OF h])
  then have raw: "length ?raw = HEADER_SIZE + length (comms_payload p) + length rest"
    by (simp add: enc_comms_def)
  have sum: "unat (of_nat HEADER_SIZE + hdr_payloadLength ?h) = HEADER_SIZE + length (comms_payload p)"
    using bound n by (simp add: unat_word_ariths HEADER_SIZE_def)
  have size: "unat (size_of ?raw) = length ?raw"
    using raw bound assms(2) by (intro unat_size_of) (simp add: HEADER_SIZE_def)
  have "\<not> size_of ?raw < of_nat HEADER_SIZE + hdr_payloadLength ?h"
    using sum size raw by (simp add: word_less_nat_alt)
  moreover have "take HEADER_SIZE ?raw = header_bytes ?h" "drop HEADER_SIZE ?raw = comms_payload p @ rest"
    using len by (simp_all add: enc_comms_def)
  moreover have "drop (HEADER_SIZE + length (comms_payload p)) ?raw = rest"
    using len by (simp add: enc_comms_def)
  ultimately show ?thesis
    using raw n by (simp add: fromData_def Let_def header_of_header_bytes [OF h])
qed

lemma newPacket_full_ok:
  assumes "header_ok junk" and "length payload < 2 ^ 63"
  shows "comms_ok (newPacket_full junk m playerId payload)"
  using assms by (auto simp: newPacket_full_def comms_ok_def header_ok_def Let_def unat_size_of)

section \<open>Properties\<close>

text \<open>C10: a packet made by newPacket, serialised behind other output and received in front of
  other bytes, is read back as the same packet, and the bytes behind it are left.\<close>

theorem comms_roundtrip:
  assumes "header_ok junk" and "length payload < 2 ^ 63" and "length rest < 2 ^ 62"
  shows "\<exists>wire. serializeData (newPacket_full junk m playerId payload) [] = Inr wire \<and>
    fromData (wire @ rest) True = Inr (Some (newPacket_full junk m playerId payload), rest)"
  using newPacket_full_ok [OF assms(1,2), of m playerId] assms(3)
  by (simp add: serializeData_ok fromData_enc_comms)

definition example_header :: message_header where
  "example_header = \<lparr>hdr_id = 9, hdr_packetNumber = 9, hdr_playerUUID = bytes_of (replicate 36 CHR '' ''),
     hdr_payloadLength = 0\<rparr>"

theorem comms_roundtrip_witness:
  "\<exists>wire. serializeData (newPacket_full example_header MC_PACKET ''abc'' [1, 2]) [] = Inr wire \<and>
    fromData (wire @ [7]) True =
      Inr (Some (newPacket_full example_header MC_PACKET ''abc'' [1, 2]), [7])"
  by (rule comms_roundtrip) (simp_all add: example_header_def header_ok_def UUID_SIZE_def)

text \<open>The player id read back is the first 36 characters of the id the packet was made with,
  followed, when the id is shorter, by whatever the header's memory held.\<close>

theorem player_id_truncated_or_padded:
  assumes "header_ok junk"
  shows "getPlayerID (newPacket_full junk m playerId payload) =
    take UUID_SIZE playerId @ str_of (drop (length playerId) (hdr_playerUUID junk))"
  using assms
  by (auto simp: getPlayerID_def newPacket_full_def Let_def header_ok_def)

theorem player_id_truncated_or_padded_witness:
  "getPlayerID (newPacket_full example_header ACK ''bob'' []) = ''bob'' @ replicate 33 CHR '' ''"
  using player_id_truncated_or_padded [of example_header ACK "''bob''" "[]"]
  by (simp add: example_header_def header_ok_def UUID_SIZE_def str_of_drop)

text \<open>C37: what fromData does with any datagram of fewer than 2^63 bytes: fewer than 46 bytes are an
  out-of-bounds read; a payload length that wraps the sum around is one too; a truncated
  payload gives no packet; otherwise the packet has exactly the announced payload.\<close>

theorem fromData_cases:
  assumes "length raw < 2 ^ 63"
    and "n = unat (hdr_payloadLength (header_of_bytes (take HEADER_SIZE raw)))"
  shows "fromData raw consume =
    (if length raw < HEADER_SIZE \<or> 2 ^ 64 \<le> HEADER_SIZE + n then Inl (UB OutOfBounds)
     else if length raw < HEADER_SIZE + n then Inr (None, raw)
     else Inr (Some \<lparr>packetHeader = header_of_bytes (take HEADER_SIZE raw),
                     comms_payload = take n (drop HEADER_SIZE raw)\<rparr>,
               if consume then drop (HEADER_SIZE + n) raw else raw))"
proof (cases "length raw < HEADER_SIZE")
  case True
  then show ?thesis by (simp add: fromData_def)
next
  case False
  let ?h = "header_of_bytes (take HEADER_SIZE raw)"
  have size: "unat (size_of raw) = length raw" using assms(1) by (simp add: unat_size_of)
  have n: "n < 2 ^ 64" using unsigned_less [of "hdr_payloadLength ?h"] assms(2) by simp
  have sum: "unat (of_nat HEADER_SIZE + hdr_payloadLength ?h) = (HEADER_SIZE + n) mod 2 ^ 64"
    by (simp add: unat_word_ariths HEADER_SIZE_def assms(2))
  show ?thesis
  proof (cases "2 ^ 64 \<le> HEADER_SIZE + n")
    case True
    then have "(HEADER_SIZE + n) mod 2 ^ 64 = HEADER_SIZE + n - 2 ^ 64"
      using n by (simp add: mod_if HEADER_SIZE_def)
    then have "\<not> size_of raw < of_nat HEADER_SIZE + hdr_payloadLength ?h"
      using False n size sum by (simp add: word_less_nat_alt HEADER_SIZE_def)
    then show ?thesis
      using True False assms by (auto simp: fromData_def Let_def)
  next
    case no_wrap: False
    then have "size_of raw < of_nat HEADER_SIZE + hdr_payloadLength ?h \<longleftrightarrow> length raw < HEADER_SIZE + n"
      using size sum by (simp add: word_less_nat_alt)
    with no_wrap False assms(2) show ?thesis by (auto simp: fromData_def Let_def)
  qed
qed

theorem fromData_cases_witness:
  "fromData (replicate 46 0xFF) False = Inl (UB OutOfBounds)"
proof -
  let ?raw = "replicate 46 (0xFF :: byte)"
  have len: "length ?raw < 2 ^ 63" by simp
  have "le_word (replicate 8 0xFF) = (- 1 :: 64 word)" by code_simp
  then have "hdr_payloadLength (header_of_bytes (take HEADER_SIZE ?raw)) = - 1"
    by (simp add: header_of_bytes_def HEADER_SIZE_def UUID_SIZE_def)
  then have "unat (hdr_payloadLength (header_of_bytes (take HEADER_SIZE ?raw))) = 2 ^ 64 - 1"
    by (simp add: unsigned_minus_1_eq_mask mask_eq_exp_minus_1)
  then show ?thesis
    using fromData_cases [OF len refl, of False] by (simp add: HEADER_SIZE_def)
qed

end
