(* ===== verification/Gateway_Text.thy ===== *)
theory Gateway_Text
  imports Cerios_Base
begin

text \<open>
  The text routines of the gateway: the two hexadecimal printers, the formatting of player
  ids, the signed hexadecimal digest sent to the session server, the scan of its HTTP
  answer, and the console's string comparison.
\<close>

section \<open>Hexadecimal\<close>

definition hexmap :: string where "hexmap = ''0123456789abcdef''"

definition hexStr :: "bytes \<Rightarrow> string" where
  "hexStr data = concat (map (\<lambda>b.
     [hexmap ! unat (drop_bit 4 (b AND 0xF0)), hexmap ! unat (b AND 0x0F)]) data)"

text \<open>An \<open>int\<close> streamed with \<open>std::hex\<close>, padded by \<open>setw(2)\<close> and \<open>setfill('0')\<close>.\<close>

definition stream_digit :: "bool \<Rightarrow> nat \<Rightarrow> char" where
  "stream_digit use_uppercase d =
     (if d < 10 then char_of (48 + d) else if use_uppercase then char_of (55 + d) else char_of (87 + d))"

fun stream_hex :: "bool \<Rightarrow> nat \<Rightarrow> string" where
  "stream_hex up n = (if n < 16 then [stream_digit up n]
     else stream_hex up (n div 16) @ [stream_digit up (n mod 16)])"

declare stream_hex.simps [simp del]

definition pad2 :: "string \<Rightarrow> string" where
  "pad2 s = replicate (2 - length s) CHR ''0'' @ s"

fun make_hex_string :: "bool \<Rightarrow> bool \<Rightarrow> bytes \<Rightarrow> string" where
  "make_hex_string use_uppercase insert_spaces [] = []"
| "make_hex_string use_uppercase insert_spaces (b # bs) =
     pad2 (stream_hex use_uppercase (unat b)) @
     (if insert_spaces \<and> bs \<noteq> [] then '' '' else []) @
     make_hex_string use_uppercase insert_spaces bs"

section \<open>Player ids\<close>

definition is_xdigit :: "char \<Rightarrow> bool" where
  "is_xdigit c = (let n = of_char c :: nat in
     (48 \<le> n \<and> n \<le> 57) \<or> (65 \<le> n \<and> n \<le> 70) \<or> (97 \<le> n \<and> n \<le> 102))"

text \<open>
  The regular expression matches five groups of 8, 4, 4, 4 and 12 hexadecimal digits and
  nothing else.
\<close>

definition uuid_match :: "string \<Rightarrow> bool" where
  "uuid_match s \<longleftrightarrow> length s = 32 \<and> list_all is_xdigit s"

definition formatUUID :: "string \<Rightarrow> string" where
  "formatUUID userid =
     (if userid = [] then userid
      else if uuid_match userid then
        take 8 userid @ ''-'' @ take 4 (drop 8 userid) @ ''-'' @ take 4 (drop 12 userid) @ ''-'' @
        take 4 (drop 16 userid) @ ''-'' @ drop 20 userid
      else userid)"

text \<open>
  The id of a player who connects from the machine itself. The exception for a digest that is too
  short is thrown with \<open>new\<close>: what flies is a pointer, which no handler of the program catches, so
  the program ends.
\<close>

definition loopback_userid :: "(string \<Rightarrow> bytes) \<Rightarrow> string \<Rightarrow> string res" where
  "loopback_userid SHA256 requestedUsername =
     (let userid = take 32 (make_hex_string True False (SHA256 requestedUsername))
      in if length userid \<noteq> 32 then Inl (UB Terminated)
         else Inr (formatUUID userid))"

section \<open>The session digest\<close>

text \<open>The loop runs from the last byte to the first; here over the reversed bytes.\<close>

fun negate_bytes :: "bytes \<Rightarrow> bool \<Rightarrow> bytes" where
  "negate_bytes [] carry = []"
| "negate_bytes (b # bs) carry =
     (let b' = NOT b
      in if carry then (b' + 1) # negate_bytes bs (b' = 0xFF)
         else b' # negate_bytes bs False)"

definition negate_digest :: "bytes \<Rightarrow> bytes" where
  "negate_digest digest = rev (negate_bytes (rev digest) True)"

fun strip_zeros :: "string \<Rightarrow> string res" where
  "strip_zeros [] = Inl (UB EmptyFront)"
| "strip_zeros (c # cs) = (if c = CHR ''0'' then strip_zeros cs else Inr (c # cs))"

definition session_digest :: "bytes \<Rightarrow> string res" where
  "session_digest shaDigest =
     (let negativeHash = (shaDigest ! 0 AND 0x80 = 0x80);
          shaDigest = (if negativeHash then negate_digest shaDigest else shaDigest)
      in rbind (strip_zeros (hexStr shaDigest)) (\<lambda>hashString.
           Inr (if negativeHash then CHR ''-'' # hashString else hashString)))"

section \<open>The HTTP answer\<close>

definition trim :: "string \<Rightarrow> string" where
  "trim str = (if str = [] then str
     else rev (dropWhile (\<lambda>c. c = CHR '' '') (rev (dropWhile (\<lambda>c. c = CHR '' '') str))))"

definition getline :: "string \<Rightarrow> (string \<times> string) option" where
  "getline stream = (if stream = [] then None
     else Some (takeWhile (\<lambda>c. c \<noteq> CHR 0x0A) stream, drop 1 (dropWhile (\<lambda>c. c \<noteq> CHR 0x0A) stream)))"

definition is_space :: "char \<Rightarrow> bool" where
  "is_space c \<longleftrightarrow> c \<in> {CHR '' '', CHR 0x09, CHR 0x0A, CHR 0x0B, CHR 0x0C, CHR 0x0D}"

definition is_digit :: "char \<Rightarrow> bool" where
  "is_digit c \<longleftrightarrow> 48 \<le> (of_char c :: nat) \<and> of_char c \<le> (57 :: nat)"

text \<open>
  The expression \<open>(\S+) (\d+) ([\S| ]+)\<close>: each repetition is greedy and the separators
  are single blanks, so a match starting at a position takes the maximal runs. The result is
  the second group of the leftmost match.
\<close>

definition status_match_at :: "string \<Rightarrow> string option" where
  "status_match_at s =
     (let word = takeWhile (\<lambda>c. \<not> is_space c) s; r1 = dropWhile (\<lambda>c. \<not> is_space c) s;
          digits = takeWhile is_digit (drop 1 r1); r2 = dropWhile is_digit (drop 1 r1)
      in if word \<noteq> [] \<and> take 1 r1 = '' '' \<and> digits \<noteq> [] \<and> take 1 r2 = '' '' \<and>
            drop 1 r2 \<noteq> [] \<and> (\<not> is_space (hd (drop 1 r2)) \<or> hd (drop 1 r2) = CHR '' '')
         then Some digits else None)"

fun status_search :: "string \<Rightarrow> string option" where
  "status_search [] = None"
| "status_search (c # cs) =
     (case status_match_at (c # cs) of Some d \<Rightarrow> Some d | None \<Rightarrow> status_search cs)"

definition digit_value :: "char \<Rightarrow> nat" where
  "digit_value c = of_char c - 48"

definition decimal :: "string \<Rightarrow> nat" where
  "decimal s = foldl (\<lambda>n c. 10 * n + digit_value c) 0 s"

text \<open>\<open>std::stoi\<close> on a string of digits.\<close>

definition stoi_digits :: "string \<Rightarrow> nat res" where
  "stoi_digits s = (if decimal s < 2 ^ 31 then Inr (decimal s) else Inl (Throw OutOfRange))"

text \<open>\<open>std::stoul\<close>: leading white space, an optional sign, then digits.\<close>

definition stoul :: "string \<Rightarrow> size_t res" where
  "stoul s =
     (let t = dropWhile is_space s;
          neg = (take 1 t = ''-'');
          u = (if take 1 t = ''-'' \<or> take 1 t = ''+'' then drop 1 t else t);
          digits = takeWhile is_digit u
      in if digits = [] then Inl (Throw InvalidArgument)
         else if decimal digits \<ge> 2 ^ 64 then Inl (Throw OutOfRange)
         else Inr (if neg then - of_nat (decimal digits) else of_nat (decimal digits)))"

fun contains :: "string \<Rightarrow> string \<Rightarrow> bool" where
  "contains pat [] \<longleftrightarrow> pat = []"
| "contains pat (c # cs) \<longleftrightarrow> take (length pat) (c # cs) = pat \<or> contains pat cs"

datatype http_header = Rejected | Fields "string \<rightharpoonup> string" string

lemma getline_shorter: "getline s = Some (l, r) \<Longrightarrow> length r < length s"
proof -
  assume "getline s = Some (l, r)"
  then have "s \<noteq> []" and r: "r = drop 1 (dropWhile (\<lambda>c. c \<noteq> CHR 0x0A) s)"
    by (auto simp: getline_def split: if_splits)
  moreover have "length (dropWhile (\<lambda>c. c \<noteq> CHR 0x0A) s) \<le> length s"
    by (rule length_dropWhile_le)
  ultimately show ?thesis by (cases "dropWhile (\<lambda>c. c \<noteq> CHR 0x0A) s") auto
qed

text \<open>
  The loop over the header lines; it returns the collected fields and the unread rest of the
  stream, or stops at a status line that is not 200.
\<close>

function header_lines :: "string \<Rightarrow> (string \<rightharpoonup> string) \<Rightarrow> http_header res" where
  "header_lines stream fields =
     (case getline stream of
        None \<Rightarrow> Inr (Fields fields stream)
      | Some (line, rest) \<Rightarrow>
          if line = [CHR 0x0D] then Inr (Fields fields rest)
          else if CHR '':'' \<in> set line then
            (let name = takeWhile (\<lambda>c. c \<noteq> CHR '':'') line;
                 value' = drop 1 (dropWhile (\<lambda>c. c \<noteq> CHR '':'') line)
             in header_lines rest (fields(trim name \<mapsto> trim value')))
          else if contains ''HTTP'' line then
            (case status_search line of
               None \<Rightarrow> header_lines rest fields
             | Some digits \<Rightarrow>
                 (case stoi_digits digits of
                    Inl e \<Rightarrow> Inl e
                  | Inr code \<Rightarrow> if code \<noteq> 200 then Inr Rejected else header_lines rest fields))
          else header_lines rest fields)"
  by pat_completeness auto
termination
  by (relation "measure (\<lambda>(stream, fields). length stream)") (auto dest: getline_shorter)

declare header_lines.simps [simp del]

definition content_length :: "(string \<rightharpoonup> string) \<Rightarrow> size_t res" where
  "content_length fields = stoul (case fields ''Content-Length'' of None \<Rightarrow> [] | Some v \<Rightarrow> v)"

section \<open>The console\<close>

definition tolower :: "char \<Rightarrow> char" where
  "tolower c = (let n = of_char c :: nat in if 65 \<le> n \<and> n \<le> 90 then char_of (n + 32) else c)"

definition string_compare_pred :: "char \<Rightarrow> char \<Rightarrow> bool" where
  "string_compare_pred a b \<longleftrightarrow> tolower a = tolower b"

text \<open>\<open>std::lexicographical_compare\<close> with a given ordering.\<close>

fun lexicographical_compare :: "('a \<Rightarrow> 'a \<Rightarrow> bool) \<Rightarrow> 'a list \<Rightarrow> 'a list \<Rightarrow> bool" where
  "lexicographical_compare lt as [] = False"
| "lexicographical_compare lt [] (b # bs) = True"
| "lexicographical_compare lt (a # as) (b # bs) =
     (if lt a b then True else if lt b a then False
      else lexicographical_compare lt as bs)"

definition string_compare :: "string \<Rightarrow> string \<Rightarrow> bool" where
  "string_compare a b = lexicographical_compare string_compare_pred a b"

section \<open>Facts about hexadecimal\<close>

lemma high_nibble: "unat (drop_bit 4 (b :: byte)) = unat b div 16"
  by (simp add: unat_drop_bit_eq drop_bit_eq_div [of _ "unat b"])

lemma low_nibble: "unat (b AND 0x0F :: byte) = unat b mod 16"
proof -
  have mask: "(0x0F :: byte) = mask 4" by (simp add: mask_eq_exp_minus_1)
  show ?thesis
    unfolding mask take_bit_eq_mask [symmetric] unsigned_take_bit_eq
    by (simp add: take_bit_eq_mod)
qed

lemma byte_less: "unat (b :: byte) < 256"
  using unsigned_less [of b] by simp

lemma nibbles_less: "unat (b :: byte) div 16 < 16" "unat b mod 16 < 16"
  using byte_less [of b] by simp_all

lemma hexmap_stream_digit: "d < 16 \<Longrightarrow> hexmap ! d = stream_digit False d"
proof -
  have "list_all (\<lambda>d. hexmap ! d = stream_digit False d) [0..<16]" by code_simp
  then show "d < 16 \<Longrightarrow> hexmap ! d = stream_digit False d" by (simp add: list_all_iff)
qed

lemma hexStr_simps [simp]:
  "hexStr [] = []"
  "hexStr (b # bs) = stream_digit False (unat b div 16) # stream_digit False (unat b mod 16) # hexStr bs"
  using nibbles_less [of b]
  by (simp_all add: hexStr_def high_nibble low_nibble hexmap_stream_digit)

lemma stream_digit_0: "stream_digit up 0 = CHR ''0''"
  by (cases up; code_simp)

lemma pad2_stream_hex:
  assumes "n < 256"
  shows "pad2 (stream_hex up n) = [stream_digit up (n div 16), stream_digit up (n mod 16)]"
proof (cases "n < 16")
  case True
  then show ?thesis
    by (simp add: pad2_def stream_hex.simps [of up n] stream_digit_0)
next
  case False
  with assms have "n div 16 < 16" by simp
  with False show ?thesis
    by (simp add: pad2_def stream_hex.simps [of up n] stream_hex.simps [of up "n div 16"])
qed

lemma make_hex_string_cons:
  "make_hex_string up False (b # bs) =
    stream_digit up (unat b div 16) # stream_digit up (unat b mod 16) # make_hex_string up False bs"
  by (simp add: pad2_stream_hex byte_less)

declare make_hex_string.simps(2) [simp del]

lemma length_make_hex_string [simp]: "length (make_hex_string up False bs) = 2 * length bs"
  by (induction bs) (simp_all add: make_hex_string_cons)

lemma length_hexStr [simp]: "length (hexStr bs) = 2 * length bs"
  by (induction bs) simp_all

lemma stream_digit_xdigit: "d < 16 \<Longrightarrow> is_xdigit (stream_digit up d)"
  by (auto simp: is_xdigit_def stream_digit_def Let_def)

lemma make_hex_string_xdigit: "list_all is_xdigit (make_hex_string up False bs)"
  by (induction bs) (simp_all add: make_hex_string_cons stream_digit_xdigit nibbles_less)

lemma length_formatUUID:
  "length (formatUUID s) = (if uuid_match s then 36 else length s)"
  by (simp add: formatUUID_def uuid_match_def)

lemma formatUUID_idem: "formatUUID (formatUUID s) = formatUUID s"
proof (cases "uuid_match s")
  case True
  then have "\<not> uuid_match (formatUUID s)"
    using length_formatUUID [of s] by (simp add: uuid_match_def)
  moreover have "formatUUID s \<noteq> []"
    using True length_formatUUID [of s] by auto
  ultimately show ?thesis by (simp add: formatUUID_def [of "formatUUID s"])
next
  case False
  then have "formatUUID s = s" by (simp add: formatUUID_def)
  then show ?thesis by simp
qed

lemma make_hex_eq_hexStr: "make_hex_string False False bs = hexStr bs"
  by (induction bs) (simp_all add: make_hex_string_cons)

lemma list_all_take: "list_all P xs \<Longrightarrow> list_all P (take n xs)"
  by (meson list_all_iff in_set_takeD)

lemma loopback_userid_ok:
  assumes "length (SHA256 name) = 32"
  shows "\<exists>i. loopback_userid SHA256 name = Inr i \<and> length i = 36 \<and>
    i = formatUUID (take 32 (make_hex_string True False (SHA256 name)))"
  using assms list_all_take [OF make_hex_string_xdigit [of True "SHA256 name"], of 32]
  by (simp add: loopback_userid_def length_formatUUID uuid_match_def)

lemma take_drop_split5:
  "take 8 s @ take 4 (drop 8 s) @ take 4 (drop 12 s) @ take 4 (drop 16 s) @ drop 20 s = s"
proof -
  have split: "take n (drop k s) @ drop (k + n) s = drop k s" for n k
    by (metis add.commute append_take_drop_id drop_drop)
  have "take 4 (drop 16 s) @ drop 20 s = drop 16 s" using split [of 4 16] by simp
  moreover have "take 4 (drop 12 s) @ drop 16 s = drop 12 s" using split [of 4 12] by simp
  moreover have "take 4 (drop 8 s) @ drop 12 s = drop 8 s" using split [of 4 8] by simp
  ultimately show ?thesis by simp
qed

section \<open>Facts about the digest\<close>

text \<open>The number an array of bytes stands for, most significant byte first.\<close>

fun le_value :: "bytes \<Rightarrow> nat" where
  "le_value [] = 0"
| "le_value (b # bs) = unat b + 256 * le_value bs"

definition be_value :: "bytes \<Rightarrow> nat" where
  "be_value bs = le_value (rev bs)"

text \<open>Its reading as a two's-complement number, as Java's \<open>BigInteger\<close> reads it.\<close>

definition signed_be :: "bytes \<Rightarrow> int" where
  "signed_be bs = (if 128 \<le> unat (bs ! 0) then int (be_value bs) - 256 ^ length bs
     else int (be_value bs))"

definition xdigit_value :: "char \<Rightarrow> nat" where
  "xdigit_value c = (let n = of_char c in if n \<le> 57 then n - 48 else n - 87)"

definition hex_value :: "string \<Rightarrow> nat" where
  "hex_value s = foldl (\<lambda>n c. 16 * n + xdigit_value c) 0 s"

fun signed_hex_value :: "string \<Rightarrow> int" where
  "signed_hex_value [] = 0"
| "signed_hex_value (c # cs) =
     (if c = CHR ''-'' then - int (hex_value cs) else int (hex_value (c # cs)))"

lemma le_value_less: "le_value bs < 256 ^ length bs"
proof (induction bs)
  case Nil
  show ?case by simp
next
  case (Cons b bs)
  then show ?case using byte_less [of b] by simp
qed

lemma unat_NOT_byte: "unat (NOT b :: byte) = 255 - unat b"
proof -
  have "NOT b = - 1 - b" by (simp add: not_eq_complement)
  moreover have "unat (- 1 - b) = unat (- 1 :: byte) - unat b"
    by (rule unat_sub) simp
  moreover have "unat (- 1 :: byte) = 255"
    by (simp add: unsigned_minus_1_eq_mask mask_eq_exp_minus_1)
  ultimately show ?thesis by simp
qed

lemma length_negate_bytes [simp]: "length (negate_bytes bs c) = length bs"
  by (induction bs c rule: negate_bytes.induct) (simp_all add: Let_def)

lemma negate_bytes_value:
  "le_value (negate_bytes bs False) + le_value bs + 1 = 256 ^ length bs"
  "le_value (negate_bytes bs True) =
    (if le_value bs = 0 then 0 else 256 ^ length bs - le_value bs)"
proof (induction bs)
  case Nil
  { case 1 show ?case by simp }
  { case 2 show ?case by simp }
next
  case (Cons b bs)
  { case 1 show ?case using Cons(1) byte_less [of b] by (simp add: Let_def unat_NOT_byte) }
  { case 2
    show ?case
    proof (cases "b = 0")
      case True
      then show ?thesis using Cons(2) le_value_less [of bs]
        by (simp add: Let_def diff_mult_distrib2)
    next
      case False
      then have "unat b \<noteq> 0" by (simp add: unat_eq_0)
      have ff: "NOT b \<noteq> 0xFF"
      proof
        assume "NOT b = 0xFF"
        then have "255 - unat b = 255" using unat_NOT_byte [of b] by simp
        with \<open>unat b \<noteq> 0\<close> show False using byte_less [of b] by simp
      qed
      have "unat (NOT b + 1) = 256 - unat b"
        using \<open>unat b \<noteq> 0\<close> byte_less [of b] unat_NOT_byte [of b]
        by (simp add: unat_word_ariths)
      then show ?thesis
        using Cons(1) ff byte_less [of b] \<open>unat b \<noteq> 0\<close> by (simp add: Let_def)
    qed }
qed

lemma le_value_append: "le_value (xs @ ys) = le_value xs + 256 ^ length xs * le_value ys"
  by (induction xs) (simp_all add: algebra_simps)

lemma be_value_cons: "be_value (b # bs) = unat b * 256 ^ length bs + be_value bs"
  by (simp add: be_value_def le_value_append)

lemma be_value_0_iff: "be_value bs = 0 \<longleftrightarrow> (\<forall>b\<in>set bs. b = 0)"
proof -
  have "le_value cs = 0 \<longleftrightarrow> (\<forall>b\<in>set cs. b = 0)" for cs
    by (induction cs) (auto simp: unat_eq_0)
  then show ?thesis by (simp add: be_value_def)
qed

lemma xdigit_value_stream_digit: "d < 16 \<Longrightarrow> xdigit_value (stream_digit False d) = d"
  by (auto simp: xdigit_value_def stream_digit_def Let_def)

lemma hex_value_foldl:
  "foldl (\<lambda>n c. 16 * n + xdigit_value c) k s = k * 16 ^ length s + hex_value s"
proof (induction s arbitrary: k)
  case Nil
  show ?case by (simp add: hex_value_def)
next
  case (Cons c s)
  show ?case
    using Cons [of "16 * k + xdigit_value c"] Cons [of "xdigit_value c"]
    by (simp add: hex_value_def algebra_simps)
qed

lemma hex_value_cons: "hex_value (c # s) = xdigit_value c * 16 ^ length s + hex_value s"
  using hex_value_foldl [of "xdigit_value c" s] by (simp add: hex_value_def)

lemma hex_value_hexStr: "hex_value (hexStr bs) = be_value bs"
proof (induction bs)
  case Nil
  show ?case by (simp add: hex_value_def be_value_def)
next
  case (Cons b bs)
  have pow: "(16::nat) ^ (2 * length bs) = 256 ^ length bs" by (simp add: power_mult)
  have "unat b = unat b div 16 * 16 + unat b mod 16" by simp
  then have split: "unat b * 256 ^ length bs =
      (unat b div 16 * 16) * 256 ^ length bs + unat b mod 16 * 256 ^ length bs"
    by (metis add_mult_distrib)
  show ?case
    unfolding hexStr_simps hex_value_cons be_value_cons Cons split
    by (simp add: xdigit_value_stream_digit nibbles_less pow power_add)
qed

lemma hexStr_no_sign: "c \<in> set (hexStr bs) \<Longrightarrow> is_xdigit c"
  using make_hex_string_xdigit [of False bs] by (simp add: make_hex_eq_hexStr list_all_iff)

lemma not_xdigit_sign: "\<not> is_xdigit CHR ''-''"
  by (simp add: is_xdigit_def)

lemma strip_zeros_Inr:
  assumes "strip_zeros s = Inr t"
  shows "hex_value t = hex_value s \<and> t \<noteq> [] \<and> hd t \<noteq> CHR ''0'' \<and> set t \<subseteq> set s"
  using assms
proof (induction s)
  case (Cons c s)
  show ?case
  proof (cases "c = CHR ''0''")
    case True
    then have "hex_value (c # s) = hex_value s" by (simp add: hex_value_cons xdigit_value_def)
    with Cons True show ?thesis by auto
  next
    case False
    with Cons(2) show ?thesis by auto
  qed
qed simp

lemma strip_zeros_nonzero:
  assumes "hex_value s \<noteq> 0" shows "\<exists>t. strip_zeros s = Inr t"
  using assms
  by (induction s) (auto simp: hex_value_cons xdigit_value_def, simp add: hex_value_def)

lemma strip_zeros_zero:
  assumes "\<forall>b\<in>set bs. b = 0" shows "strip_zeros (hexStr bs) = Inl (UB EmptyFront)"
  using assms by (induction bs) (simp_all add: stream_digit_0)

lemma be_value_negate_digest:
  assumes "be_value d \<noteq> 0"
  shows "be_value (negate_digest d) = 256 ^ length d - be_value d"
  using assms negate_bytes_value(2) [of "rev d"] by (simp add: be_value_def negate_digest_def)

lemma be_value_less: "be_value d < 256 ^ length d"
  using le_value_less [of "rev d"] by (simp add: be_value_def)

lemma byte_sign_bit: "b AND 0x80 = 0x80 \<longleftrightarrow> 128 \<le> unat (b :: byte)"
proof -
  have b80: "bit (0x80 :: byte) n \<longleftrightarrow> n = 7" for n
  proof -
    have "(0x80 :: byte) = 2 ^ 7" by simp
    then show ?thesis by (simp only: bit_exp_iff) auto
  qed
  have "b AND 0x80 = 0x80 \<longleftrightarrow> bit b 7"
  proof
    assume "b AND 0x80 = 0x80"
    then have "bit (b AND 0x80) 7" using b80 by simp
    then show "bit b 7" by (simp only: bit_and_iff)
  next
    assume "bit b 7"
    then show "b AND 0x80 = 0x80"
      by (intro bit_eqI) (auto simp only: bit_and_iff b80)
  qed
  also have "\<dots> \<longleftrightarrow> bit (unat b) 7" by (simp only: bit_unsigned_iff) simp
  also have "\<dots> \<longleftrightarrow> odd (unat b div 2 ^ 7)" by (simp only: bit_iff_odd)
  also have "\<dots> \<longleftrightarrow> 128 \<le> unat b"
  proof -
    have "unat b div 128 < 2" using byte_less [of b] by (simp add: div_less_iff_less_mult)
    then have "odd (unat b div 128) \<longleftrightarrow> unat b div 128 = 1" by (auto simp: less_2_cases_iff)
    also have "\<dots> \<longleftrightarrow> 128 \<le> unat b" using byte_less [of b] by (auto simp: div_nat_eqI)
    finally show ?thesis by simp
  qed
  finally show ?thesis .
qed

lemma length_negate_digest [simp]: "length (negate_digest d) = length d"
  by (simp add: negate_digest_def)

lemma signed_hex_value_hd: "hd t \<noteq> CHR ''-'' \<Longrightarrow> signed_hex_value t = int (hex_value t)"
  by (cases t) (simp_all add: hex_value_def)

lemma strip_hexStr:
  assumes "be_value d \<noteq> 0"
  shows "\<exists>t. strip_zeros (hexStr d) = Inr t \<and> hex_value t = be_value d \<and> t \<noteq> [] \<and>
    hd t \<noteq> CHR ''0'' \<and> (\<forall>c\<in>set t. is_xdigit c)"
proof -
  obtain t where t: "strip_zeros (hexStr d) = Inr t"
    using strip_zeros_nonzero [of "hexStr d"] assms by (auto simp: hex_value_hexStr)
  then show ?thesis
    using strip_zeros_Inr [OF t] hexStr_no_sign [of _ d] by (auto simp: hex_value_hexStr)
qed

section \<open>Facts about the scan and the console\<close>

lemma getline_line [simp]:
  assumes "CHR 0x0A \<notin> set l"
  shows "getline (l @ CHR 0x0A # r) = Some (l, r)"
proof -
  have "takeWhile (\<lambda>c. c \<noteq> CHR 0x0A) (l @ CHR 0x0A # r) = l"
    using assms by (subst takeWhile_append2) auto
  moreover have "dropWhile (\<lambda>c. c \<noteq> CHR 0x0A) (l @ CHR 0x0A # r) = CHR 0x0A # r"
    using assms by (subst dropWhile_append2) auto
  ultimately show ?thesis by (simp add: getline_def)
qed

lemma is_digit_not_space: "is_digit c \<Longrightarrow> \<not> is_space c"
  by (auto simp: is_digit_def is_space_def)

lemma digits_not_special:
  assumes "list_all is_digit ds"
  shows "CHR 0x0A \<notin> set ds" "CHR 0x0D \<notin> set ds" "CHR '' '' \<notin> set ds" "CHR '':'' \<notin> set ds"
  using assms by (auto simp: list_all_iff is_digit_def)

lemma trim_digits:
  assumes "list_all is_digit ds"
  shows "trim (CHR '' '' # ds @ [CHR 0x0D]) = ds @ [CHR 0x0D]"
proof -
  have "dropWhile (\<lambda>c. c = CHR '' '') (ds @ [CHR 0x0D]) = ds @ [CHR 0x0D]"
    using digits_not_special(3) [OF assms] by (cases ds) auto
  then show ?thesis by (simp add: trim_def)
qed

lemma stoul_digits:
  assumes "list_all is_digit ds" "ds \<noteq> []" "decimal ds < 2 ^ 64"
  shows "stoul (ds @ [CHR 0x0D]) = Inr (of_nat (decimal ds))"
proof -
  obtain d es where ds: "ds = d # es" using assms(2) by (cases ds) auto
  with assms(1) have "is_digit d" by simp
  then have d: "\<not> is_space d" "d \<noteq> CHR ''-''" "d \<noteq> CHR ''+''"
    by (auto simp: is_digit_not_space is_digit_def)
  have "\<not> is_digit CHR 0x0D" by (simp add: is_digit_def)
  then have "takeWhile is_digit (ds @ [CHR 0x0D]) = ds"
    using assms(1) by (subst takeWhile_append2) (auto simp: list_all_iff)
  then show ?thesis
    using d assms(3) unfolding ds by (simp add: stoul_def Let_def)
qed

lemma header_lines_end [simp]:
  "header_lines (CHR 0x0D # CHR 0x0A # body) fields = Inr (Fields fields body)"
  using getline_line [of "[CHR 0x0D]" body] by (simp add: header_lines.simps)

lemma header_lines_field:
  assumes "CHR 0x0A \<notin> set line" "CHR '':'' \<in> set line"
  shows "header_lines (line @ CHR 0x0A # rest) fields =
    header_lines rest (fields(trim (takeWhile (\<lambda>c. c \<noteq> CHR '':'') line) \<mapsto>
      trim (drop 1 (dropWhile (\<lambda>c. c \<noteq> CHR '':'') line))))"
  using assms by (subst header_lines.simps) (auto simp: Let_def)

lemma lexicographical_compare_sym:
  assumes "\<And>a b. lt a b \<longleftrightarrow> lt b a"
  shows "lexicographical_compare lt as bs \<longleftrightarrow>
    (\<exists>i < min (length as) (length bs). lt (as ! i) (bs ! i)) \<or> length as < length bs"
  using assms
proof (induction lt as bs rule: lexicographical_compare.induct)
  case (3 lt a as b bs)
  then show ?case by (cases "lt a b") (auto simp: Ex_less_Suc2)
qed auto

section \<open>Properties\<close>

text \<open>C20: the digest sent to the session server is the signed hexadecimal reading of the SHA-1
  sum: the printed string, read back, is the two's-complement value of the 20 bytes, it has no
  leading zero, and only the all-zero sum makes the stripping loop read the front of an empty
  string.\<close>
theorem session_digest_correct:
  assumes "length digest = 20"
  shows "if \<forall>b\<in>set digest. b = 0 then session_digest digest = Inl (UB EmptyFront)
    else \<exists>s. session_digest digest = Inr s \<and> signed_hex_value s = signed_be digest \<and>
      take 1 s \<noteq> ''0'' \<and> take 2 s \<noteq> ''-0''"
proof (cases "\<forall>b\<in>set digest. b = 0")
  case True
  moreover have "digest ! 0 = 0" using True assms by simp
  ultimately show ?thesis by (simp add: session_digest_def strip_zeros_zero)
next
  case False
  then have nz: "be_value digest \<noteq> 0" by (simp add: be_value_0_iff)
  show ?thesis
  proof (cases "128 \<le> unat (digest ! 0)")
    case neg: True
    have "be_value (negate_digest digest) \<noteq> 0"
      using be_value_negate_digest [OF nz] be_value_less [of digest] by simp
    then obtain t where t: "strip_zeros (hexStr (negate_digest digest)) = Inr t"
      "hex_value t = be_value (negate_digest digest)" "t \<noteq> []" "hd t \<noteq> CHR ''0''"
      using strip_hexStr by blast
    have "session_digest digest = Inr (CHR ''-'' # t)"
      using neg t(1) by (simp add: session_digest_def byte_sign_bit)
    moreover have "signed_hex_value (CHR ''-'' # t) = signed_be digest"
      using neg t(2) be_value_negate_digest [OF nz] be_value_less [of digest]
      by (simp add: signed_be_def of_nat_diff)
    ultimately show ?thesis using False t(3,4) by (cases t) auto
  next
    case pos: False
    obtain t where t: "strip_zeros (hexStr digest) = Inr t" "hex_value t = be_value digest"
      "t \<noteq> []" "hd t \<noteq> CHR ''0''" "\<forall>c\<in>set t. is_xdigit c"
      using strip_hexStr [OF nz] by blast
    then have "hd t \<noteq> CHR ''-''" using not_xdigit_sign by (cases t) auto
    moreover have "session_digest digest = Inr t"
      using pos t(1) by (simp add: session_digest_def byte_sign_bit)
    ultimately show ?thesis
      using False t pos by (cases t) (auto simp: signed_hex_value_hd signed_be_def)
  qed
qed

theorem session_digest_correct_witness:
  "let digest = 0xFF # replicate 18 0 @ [1]
   in length digest = 20 \<and> (\<exists>s. session_digest digest = Inr s \<and> signed_hex_value s = signed_be digest)"
  using session_digest_correct [of "0xFF # replicate 18 0 @ [1]"] by auto

text \<open>The player id of a connection from the machine itself is always produced (a SHA-256
  sum has 32 bytes, so the exception is never thrown): 36 characters, of which dropping the
  four dashes leaves the first 32 digits of the sum; and formatting it again changes nothing.\<close>
theorem loopback_userid_formats:
  assumes "length (SHA256 name) = 32"
  shows "\<exists>i. loopback_userid SHA256 name = Inr i \<and> length i = 36 \<and> formatUUID i = i \<and>
    filter (\<lambda>c. c \<noteq> CHR ''-'') i = take 32 (make_hex_string True False (SHA256 name))"
proof -
  define h where "h = take 32 (make_hex_string True False (SHA256 name))"
  have len: "length h = 32" and digits: "list_all is_xdigit h"
    using assms list_all_take [OF make_hex_string_xdigit] by (simp_all add: h_def)
  have keep: "filter (\<lambda>c. c \<noteq> CHR ''-'') s = s" if "set s \<subseteq> set h" for s
    using that digits not_xdigit_sign by (auto simp: list_all_iff filter_id_conv)
  have parts: "h = take 8 h @ take 4 (drop 8 h) @ take 4 (drop 12 h) @ take 4 (drop 16 h) @ drop 20 h"
    using take_drop_split5 [of h] by simp
  have "filter (\<lambda>c. c \<noteq> CHR ''-'') (formatUUID h) = h"
    using len digits parts
    by (simp add: formatUUID_def uuid_match_def keep set_take_subset set_drop_subset
        order_trans [OF set_take_subset set_drop_subset])
  moreover have "loopback_userid SHA256 name = Inr (formatUUID h)"
    using len by (simp add: loopback_userid_def h_def)
  moreover have "length (formatUUID h) = 36"
    using len digits by (simp add: length_formatUUID uuid_match_def)
  ultimately show ?thesis by (auto simp: h_def formatUUID_idem)
qed

theorem loopback_userid_formats_witness:
  "\<exists>i. loopback_userid (\<lambda>_. replicate 32 0xAB) ''Notch'' = Inr i \<and> length i = 36"
  using loopback_userid_formats [of "\<lambda>_. replicate 32 0xAB" "''Notch''"] by auto

text \<open>A well-formed answer of the session server is read correctly: after the 200 status
  line and the length field, the fields hold exactly the announced length and the unread rest
  of the stream is the body.\<close>
theorem header_lines_reads_length:
  assumes "list_all is_digit ds" "ds \<noteq> []" "decimal ds < 2 ^ 64"
  shows "\<exists>m. header_lines (''HTTP/1.1 200 OK'' @ [CHR 0x0D, CHR 0x0A] @ ''Content-Length: '' @ ds @
      [CHR 0x0D, CHR 0x0A, CHR 0x0D, CHR 0x0A] @ body) Map.empty = Inr (Fields m body) \<and>
    content_length m = Inr (of_nat (decimal ds))"
proof -
  let ?status = "''HTTP/1.1 200 OK'' @ [CHR 0x0D]"
  let ?line = "''Content-Length: '' @ ds @ [CHR 0x0D]"
  let ?rest = "?line @ CHR 0x0A # CHR 0x0D # CHR 0x0A # body"
  have "header_lines (?status @ CHR 0x0A # ?rest) Map.empty = header_lines ?rest Map.empty"
  proof -
    have "contains ''HTTP'' ?status" by code_simp
    moreover have "status_search ?status = Some ''200''"
      by (simp add: status_match_at_def is_space_def is_digit_def Let_def)
    moreover have "stoi_digits ''200'' = Inr 200"
      by (simp add: stoi_digits_def decimal_def digit_value_def)
    moreover have "CHR '':'' \<notin> set ?status" "CHR 0x0A \<notin> set ?status" by simp_all
    ultimately show ?thesis
      using getline_line [of ?status ?rest] by (subst header_lines.simps) simp
  qed
  also have "\<dots> = Inr (Fields [''Content-Length'' \<mapsto> ds @ [CHR 0x0D]] body)"
  proof -
    have "CHR 0x0A \<notin> set ?line" using digits_not_special [OF assms(1)] by simp
    moreover have "trim ''Content-Length'' = ''Content-Length''" by code_simp
    ultimately show ?thesis
      using trim_digits [OF assms(1)] by (subst header_lines_field) simp_all
  qed
  finally show ?thesis
    using stoul_digits [OF assms] by (simp add: content_length_def)
qed

theorem header_lines_reads_length_witness:
  "\<exists>m. header_lines (''HTTP/1.1 200 OK'' @ [CHR 0x0D, CHR 0x0A] @ ''Content-Length: '' @ ''61'' @
      [CHR 0x0D, CHR 0x0A, CHR 0x0D, CHR 0x0A] @ ''body'') Map.empty = Inr (Fields m ''body'') \<and>
    content_length m = Inr 61"
proof -
  have "list_all is_digit ''61''" "decimal ''61'' = 61"
    by (simp_all add: is_digit_def decimal_def digit_value_def)
  then show ?thesis using header_lines_reads_length [of "''61''" "''body''"] by simp
qed

text \<open>The console's comparison is not a comparison for equality: a line stops the server
  exactly when it is shorter than \<open>stop\<close> or agrees with it, up to case, at some position; the
  empty line, which is also what a closed input leaves, is one of them.\<close>
theorem string_compare_stop_iff:
  "string_compare line ''stop'' \<longleftrightarrow>
    length line < 4 \<or> (\<exists>i<4. tolower (line ! i) = ''stop'' ! i)"
proof -
  have low: "tolower (''stop'' ! i) = ''stop'' ! i" if "i < 4" for i
  proof -
    have "list_all (\<lambda>i. tolower (''stop'' ! i) = ''stop'' ! i) [0..<4]" by code_simp
    with that show ?thesis by (simp add: list_all_iff)
  qed
  have "string_compare line ''stop'' \<longleftrightarrow>
    (\<exists>i < min (length line) 4. tolower (line ! i) = tolower (''stop'' ! i)) \<or> length line < 4"
    unfolding string_compare_def
    by (subst lexicographical_compare_sym) (auto simp: string_compare_pred_def)
  then show ?thesis using low by (auto simp: min_def)
qed

end
