(* ===== verification/Effects.thy ===== *)
theory Effects
  imports Cerios_Base
begin

text \<open>
  Stateful code that can fail: a state transformer that returns the state even when the call
  throws, because a handler up the stack goes on with it. Sequencing, catching, and the
  triples in which the invariants of the stateful components are proved.
\<close>

named_theorems triples "rules that decompose a triple along the structure of the code"

type_synonym ('s, 'a) st = "'s \<Rightarrow> 'a res \<times> 's"

definition ret :: "'a \<Rightarrow> ('s, 'a) st" where
  "ret x s = (Inr x, s)"

definition fault :: "fault \<Rightarrow> ('s, 'a) st" where
  "fault e s = (Inl e, s)"

definition bind :: "('s, 'a) st \<Rightarrow> ('a \<Rightarrow> ('s, 'b) st) \<Rightarrow> ('s, 'b) st" where
  "bind m f s = (case m s of (Inl e, s') \<Rightarrow> (Inl e, s') | (Inr x, s') \<Rightarrow> f x s')"

definition gets :: "('s \<Rightarrow> 'a) \<Rightarrow> ('s, 'a) st" where
  "gets f s = (Inr (f s), s)"

definition modify :: "('s \<Rightarrow> 's) \<Rightarrow> ('s, unit) st" where
  "modify f s = (Inr (), f s)"

definition lift :: "'a res \<Rightarrow> ('s, 'a) st" where
  "lift r s = (r, s)"

text \<open>The statements of a block, one after the other.\<close>

fun block :: "('s, unit) st list \<Rightarrow> ('s, unit) st" where
  "block [] = ret ()"
| "block (m # ms) = bind m (\<lambda>_. block ms)"

text \<open>\<open>try { m } catch (std::exception &e) { h }\<close>: only exceptions are caught.\<close>

definition try_catch :: "('s, 'a) st \<Rightarrow> ('s, 'a) st \<Rightarrow> ('s, 'a) st" where
  "try_catch m h s = (case m s of (Inl (Throw e), s') \<Rightarrow> h s' | r \<Rightarrow> r)"

fun for_each :: "('a \<Rightarrow> ('s, unit) st) \<Rightarrow> 'a list \<Rightarrow> ('s, unit) st" where
  "for_each f [] = ret ()"
| "for_each f (x # xs) = bind (f x) (\<lambda>_. for_each f xs)"

text \<open>
  A destructor of a local object runs when control leaves the scope, by a return or by an
  exception. It does not run when the program has ended, has no defined behaviour any more, or
  never comes out of the scope.
\<close>

fun leaves_scope :: "'a res \<Rightarrow> bool" where
  "leaves_scope (Inr x) = True"
| "leaves_scope (Inl (Throw e)) = True"
| "leaves_scope (Inl (UB u)) = False"
| "leaves_scope (Inl Diverge) = False"

definition at_exit :: "('s, 'a) st \<Rightarrow> ('s \<Rightarrow> 's) \<Rightarrow> ('s, 'a) st" where
  "at_exit m destroy s = (case m s of (r, s') \<Rightarrow> (r, if leaves_scope r then destroy s' else s'))"

lemma leaves_scope_iff: "leaves_scope r \<longleftrightarrow> (\<exists>x. r = Inr x) \<or> (\<exists>e. r = Inl (Throw e))"
  by (cases r rule: leaves_scope.cases) auto

lemma st_simps [simp]:
  "ret x s = (Inr x, s)"
  "fault e s1 = (Inl e, s1)"
  "gets f s2 = (Inr (f s2), s2)"
  "modify u s3 = (Inr (), u s3)"
  "lift r s4 = (r, s4)"
  by (simp_all add: ret_def fault_def gets_def modify_def lift_def)

lemma bind_Inr: "m s = (Inr x, s') \<Longrightarrow> bind m f s = f x s'"
  by (simp add: bind_def)

lemma bind_Inl: "m s = (Inl e, s') \<Longrightarrow> bind m f s = (Inl e, s')"
  by (simp add: bind_def)

lemma bind_simps [simp]:
  "bind (ret x) f s = f x s"
  "bind (fault e) f1 s1 = (Inl e, s1)"
  "bind (gets h) f2 s2 = f2 (h s2) s2"
  "bind (modify u) f3 s3 = f3 () (u s3)"
  "bind (lift (Inr y)) f4 s4 = f4 y s4"
  "bind (lift (Inl e)) f5 s5 = (Inl e, s5)"
  by (simp_all add: bind_def)

lemma bind_ret [simp]: "bind (ret x) f = f x"
  by (rule ext) simp

lemma bind_ret_right [simp]: "bind m ret = m"
  by (rule ext) (simp add: bind_def split: prod.split sum.split)

lemma bind_assoc: "bind (bind m f) g s = bind m (\<lambda>x. bind (f x) g) s"
  by (simp add: bind_def split: prod.split sum.split)

lemma bind_if: "bind (if b then m else n) f = (if b then bind m f else bind n f)"
  by simp

section \<open>Triples\<close>

text \<open>
  From a state with \<open>P\<close> the code either returns with \<open>Q\<close> or throws with \<open>E\<close>; nothing is
  said when it runs into undefined behaviour or does not return.
\<close>

definition triple ::
  "('s \<Rightarrow> bool) \<Rightarrow> ('s, 'a) st \<Rightarrow> ('a \<Rightarrow> 's \<Rightarrow> bool) \<Rightarrow> ('s \<Rightarrow> bool) \<Rightarrow> bool" where
  "triple P m Q E \<longleftrightarrow> (\<forall>s. P s \<longrightarrow>
     (case m s of (Inr x, s') \<Rightarrow> Q x s' | (Inl (Throw e), s') \<Rightarrow> E s' | (Inl f, s') \<Rightarrow> True))"

text \<open>Code that keeps an invariant however it ends.\<close>

definition keeps :: "('s \<Rightarrow> bool) \<Rightarrow> ('s, 'a) st \<Rightarrow> bool" where
  "keeps I m \<longleftrightarrow> triple I m (\<lambda>_. I) I"

lemma tripleI:
  assumes "\<And>s x s'. P s \<Longrightarrow> m s = (Inr x, s') \<Longrightarrow> Q x s'"
    and "\<And>s e s'. P s \<Longrightarrow> m s = (Inl (Throw e), s') \<Longrightarrow> E s'"
  shows "triple P m Q E"
  using assms by (auto simp: triple_def split: sum.split fault.split)

lemma triple_Inr: "triple P m Q E \<Longrightarrow> P s \<Longrightarrow> m s = (Inr x, s') \<Longrightarrow> Q x s'"
  by (force simp: triple_def)

lemma triple_Throw: "triple P m Q E \<Longrightarrow> P s \<Longrightarrow> m s = (Inl (Throw e), s') \<Longrightarrow> E s'"
  by (force simp: triple_def)

lemma triple_weaken:
  assumes "triple P' m Q' E'" and "\<And>s. P s \<Longrightarrow> P' s"
    and "\<And>x s. Q' x s \<Longrightarrow> Q x s" and "\<And>s. E' s \<Longrightarrow> E s"
  shows "triple P m Q E"
  using assms(2-4) triple_Inr [OF assms(1)] triple_Throw [OF assms(1)]
  by (intro tripleI) blast+

lemma triple_bind:
  assumes "triple P m R E" and "\<And>x. triple (R x) (f x) Q E"
  shows "triple P (bind m f) Q E"
proof (rule tripleI)
  fix s y s'
  assume "P s" and b: "bind m f s = (Inr y, s')"
  then obtain x s1 where "m s = (Inr x, s1)" "f x s1 = (Inr y, s')"
    by (auto simp: bind_def split: prod.splits sum.splits)
  then show "Q y s'"
    using \<open>P s\<close> triple_Inr [OF assms(1)] triple_Inr [OF assms(2)] by blast
next
  fix s e s'
  assume "P s" and b: "bind m f s = (Inl (Throw e), s')"
  then consider "m s = (Inl (Throw e), s')"
    | x s1 where "m s = (Inr x, s1)" "f x s1 = (Inl (Throw e), s')"
    by (auto simp: bind_def split: prod.splits sum.splits)
  then show "E s'"
    using \<open>P s\<close> triple_Inr [OF assms(1)] triple_Throw [OF assms(1)] triple_Throw [OF assms(2)]
    by cases blast+
qed

lemma triple_try_catch:
  assumes "triple P m Q R" and "triple R h Q E"
  shows "triple P (try_catch m h) Q E"
  using assms unfolding triple_def try_catch_def
  by (fastforce split: prod.splits sum.splits fault.splits)

lemma triple_ret: "triple (Q x) (ret x) Q E"
  by (simp add: triple_def)

lemma triple_fault: "triple E (fault (Throw e)) Q E" "triple P (fault (UB u)) Q E"
  by (simp_all add: triple_def)

lemma triple_gets: "triple (\<lambda>s. Q (f s) s) (gets f) Q E"
  by (simp add: triple_def)

lemma triple_modify: "triple (\<lambda>s. Q () (f s)) (modify f) Q E"
  by (simp add: triple_def)

lemma keepsI: "triple I m (\<lambda>_. I) I \<Longrightarrow> keeps I m"
  by (simp add: keeps_def)

lemma keepsD: "keeps I m \<Longrightarrow> triple I m (\<lambda>_. I) I"
  by (simp add: keeps_def)

lemma keeps_bind [triples]: "keeps I m \<Longrightarrow> (\<And>x. keeps I (f x)) \<Longrightarrow> keeps I (bind m f)"
  unfolding keeps_def by (rule triple_bind) auto

lemma keeps_ret [triples]: "keeps I (ret x)"
  by (simp add: keeps_def triple_def)

lemma keeps_fault [triples]: "keeps I (fault e)"
  by (simp add: keeps_def triple_def split: fault.split)

lemma keeps_gets [triples]: "keeps I (gets f)"
  by (simp add: keeps_def triple_def)

lemma keeps_lift [triples]: "keeps I (lift r)"
  by (simp add: keeps_def triple_def split: sum.split fault.split)

lemma keeps_try_catch [triples]: "keeps I m \<Longrightarrow> keeps I h \<Longrightarrow> keeps I (try_catch m h)"
  unfolding keeps_def by (rule triple_try_catch)

lemma keeps_if [triples]: "(b \<Longrightarrow> keeps I m) \<Longrightarrow> (\<not> b \<Longrightarrow> keeps I n) \<Longrightarrow> keeps I (if b then m else n)"
  by simp

lemma keeps_block [triples]: "(\<And>m. m \<in> set ms \<Longrightarrow> keeps I m) \<Longrightarrow> keeps I (block ms)"
  by (induction ms) (auto intro: triples)

lemma keeps_for_each [triples]: "(\<And>x. x \<in> set xs \<Longrightarrow> keeps I (f x)) \<Longrightarrow> keeps I (for_each f xs)"
  by (induction xs) (auto intro: triples)

lemma keeps_modify: "(\<And>s. I s \<Longrightarrow> I (f s)) \<Longrightarrow> keeps I (modify f)"
  by (simp add: keeps_def triple_def)

lemma keeps_conj:
  "keeps I m \<Longrightarrow> keeps J m \<Longrightarrow> keeps (\<lambda>s. I s \<and> J s) m"
  unfolding keeps_def triple_def by (fastforce split: prod.splits sum.splits fault.splits)

text \<open>A statement of a block that keeps the precondition of the rest.\<close>

lemma triple_block_keep:
  "keeps P m \<Longrightarrow> (\<And>s. P s \<Longrightarrow> E s) \<Longrightarrow> triple P (block ms) Q E \<Longrightarrow> triple P (block (m # ms)) Q E"
  unfolding keeps_def block.simps
  by (rule triple_bind [where R = "\<lambda>_. P"]) (auto elim: triple_weaken)

lemma triple_block_step:
  "triple P m (\<lambda>_. R) E \<Longrightarrow> triple R (block ms) Q E \<Longrightarrow> triple P (block (m # ms)) Q E"
  unfolding block.simps by (rule triple_bind [where R = "\<lambda>_. R"])

lemma triple_block_last: "triple P m Q E \<Longrightarrow> triple P (block [m]) Q E"
  by (auto simp: triple_def bind_def split: prod.splits sum.splits fault.splits)

lemma keeps_run: "keeps I m \<Longrightarrow> I s \<Longrightarrow> m s = (Inr x, s') \<Longrightarrow> I s'"
  "keeps I m \<Longrightarrow> I s \<Longrightarrow> m s = (Inl (Throw e), s') \<Longrightarrow> I s'"
  unfolding keeps_def by (blast dest: triple_Inr triple_Throw)+

end
