(* ===== verification/Owning_Map.thy ===== *)
theory Owning_Map
  imports Cerios_Base "HOL-Library.AList"
begin

text \<open>
  \<open>std::unordered_map<K, std::unique_ptr<T>>\<close> as the servers use it: a key is absent, holds
  a null pointer or holds the address of an owned object. The table is an association list
  with distinct keys, whose order is the order of iteration.
\<close>

type_synonym address = nat
type_synonym 'k owning_map = "('k \<times> address option) list"

text \<open>The object under a key; absent keys and null pointers own nothing.\<close>

definition owned_at :: "'k owning_map \<Rightarrow> 'k \<Rightarrow> address option" where
  "owned_at m k = (case map_of m k of Some (Some a) \<Rightarrow> Some a | _ \<Rightarrow> None)"

text \<open>\<open>m[k]\<close> creates a null entry where there is none.\<close>

definition index :: "'k \<Rightarrow> 'k owning_map \<Rightarrow> 'k owning_map" where
  "index k m = (if k \<in> fst ` set m then m else m @ [(k, None)])"

definition assign :: "'k \<Rightarrow> address option \<Rightarrow> 'k owning_map \<Rightarrow> 'k owning_map" where
  "assign k v m = AList.update k v m"

definition erase :: "'k \<Rightarrow> 'k owning_map \<Rightarrow> 'k owning_map" where
  "erase k m = AList.delete k m"

definition keys_of :: "'k owning_map \<Rightarrow> 'k list" where
  "keys_of m = map fst m"

locale pointer_table =
  fixes lookup :: "'m \<Rightarrow> 'k \<Rightarrow> address option"
    and touch :: "'k \<Rightarrow> 'm \<Rightarrow> 'm"
    and store :: "'k \<Rightarrow> address option \<Rightarrow> 'm \<Rightarrow> 'm"
    and remove :: "'k \<Rightarrow> 'm \<Rightarrow> 'm"
  assumes lookup_touch: "lookup (touch k m) j = lookup m j"
    and lookup_store: "lookup (store k v m) j = (if j = k then v else lookup m j)"
    and lookup_remove: "lookup (remove k m) j = (if j = k then None else lookup m j)"
begin

definition owners :: "'m \<Rightarrow> address \<Rightarrow> 'k set" where
  "owners m a = {k. lookup m k = Some a}"

definition exclusive :: "'m \<Rightarrow> bool" where
  "exclusive m \<longleftrightarrow> (\<forall>j k a. lookup m j = Some a \<longrightarrow> lookup m k = Some a \<longrightarrow> j = k)"

lemma exclusive_touch: "exclusive m \<Longrightarrow> exclusive (touch k m)"
  by (simp add: exclusive_def lookup_touch)

lemma exclusive_remove: "exclusive m \<Longrightarrow> exclusive (remove k m)"
  by (auto simp: exclusive_def lookup_remove)

lemma exclusive_store:
  "exclusive m \<Longrightarrow> (\<And>j. j \<noteq> k \<Longrightarrow> lookup m j \<noteq> v \<or> v = None) \<Longrightarrow> exclusive (store k v m)"
  by (fastforce simp: exclusive_def lookup_store)

lemma owners_remove: "owners (remove k m) a = owners m a - {k}"
  by (auto simp: owners_def lookup_remove)

lemma owners_exclusive: "exclusive m \<Longrightarrow> k \<in> owners m a \<Longrightarrow> owners (remove k m) a = {}"
  by (auto simp: owners_def exclusive_def lookup_remove)

end

lemma owned_at_index: "owned_at (index k m) j = owned_at m j"
proof (cases "k \<in> fst ` set m")
  case False
  then have "map_of m k = None" by (simp add: map_of_eq_None_iff)
  then show ?thesis
    using False by (auto simp: owned_at_def index_def map_of_append map_add_def split: option.split)
qed (simp add: index_def)

lemma owned_at_assign: "owned_at (assign k v m) j = (if j = k then v else owned_at m j)"
  by (auto simp: owned_at_def assign_def update_conv' split: option.split)

lemma owned_at_erase: "owned_at (erase k m) j = (if j = k then None else owned_at m j)"
  by (auto simp: owned_at_def erase_def delete_conv' split: option.split)

interpretation table: pointer_table owned_at index assign erase
  by unfold_locales (rule owned_at_index owned_at_assign owned_at_erase)+

lemmas table_lookup [simp] = table.lookup_touch table.lookup_store table.lookup_remove

lemma owned_at_Nil [simp]: "owned_at [] k = None"
  by (simp add: owned_at_def)

end
