(* ===== verification/Gateway_State.thy ===== *)
theory Gateway_State
  imports Registry Internal_Comms Gateway_Text Effects Owning_Map
begin

text \<open>
  The state of the gateway process: the connection objects in an explicit store, the two
  servers that own them, the asynchronous operations that wait for completion, and the trace
  of what has been done to the outside. Destroying a connection removes it from the store, so
  a later use of its address is undefined behaviour. What the process takes from outside the
  repository (sockets, clock, OpenSSL, the database, rapidjson) is the record \<open>world\<close>.
\<close>

section \<open>Connections\<close>

datatype owner_ref = Owner_None | Owner_Login | Owner_ClientServer

text \<open>A cipher context: the key it was set up with, and what has passed through it.\<close>

record cipher =
  cipher_key :: "bytes option"
  cipher_done :: bytes

record client =
  c_owner :: owner_ref
  c_handle :: int32
  c_loopback :: bool
  c_open :: bool
  c_buffer :: bytes
  c_state :: client_state
  c_compressionThreshold :: int32
  c_encrypt :: cipher
  c_decrypt :: cipher
  c_encrypted :: bool
  c_encryptedBuffer :: bytes
  c_verifyToken :: bytes
  c_requestedUsername :: string
  c_userid :: string
  c_lastSeen :: nat
  c_alive :: bool

definition no_cipher :: cipher where
  "no_cipher = \<lparr>cipher_key = None, cipher_done = []\<rparr>"

text \<open>The members' initialisers and the constructor; \<open>verifyToken\<close> is not set by it.\<close>

definition Client_new :: "int32 \<Rightarrow> bool \<Rightarrow> nat \<Rightarrow> bytes \<Rightarrow> owner_ref \<Rightarrow> client" where
  "Client_new handle loopback now junk own =
     \<lparr>c_owner = own, c_handle = handle, c_loopback = loopback, c_open = True, c_buffer = [],
      c_state = HANDSHAKE, c_compressionThreshold = - 1, c_encrypt = no_cipher,
      c_decrypt = no_cipher, c_encrypted = False, c_encryptedBuffer = [], c_verifyToken = junk,
      c_requestedUsername = [], c_userid = ''00000000-0000-0000-0000-000000000000'',
      c_lastSeen = now, c_alive = True\<rparr>"

section \<open>The process\<close>

text \<open>What asio has been asked to do, by the member function it will call.\<close>

datatype callback =
    CB_handleClient
  | CB_onLengthReceive address
  | CB_onWriteComplete address
  | CB_keepAlive address
  | CB_connectedToMojang address string
  | CB_sslHandshakeComplete address string
  | CB_sendHTTPRequestDone address
  | CB_readHTTPHeader address
  | CB_onHasJoinedPostComplete address string size_t
  | CB_onDataReceived
  | CB_nodeWriteComplete

datatype event =
    Wrote address bytes
  | CancelledTimer address
  | CancelledSocket address
  | ClosedSocket address
  | HttpsConnect string string
  | SslWrote string
  | DbQuery string
  | DbExec string
  | UdpBroadcast nat bytes
  | ClosedUdp

record gateway =
  g_store :: "address \<rightharpoonup> client"
  g_next :: address
  g_pendingClients :: "int32 owning_map"
  g_clients :: "string owning_map"
  g_callbacks :: "callback list"
  g_trace :: "event list"
  g_running :: bool
  g_receiveOpen :: bool

text \<open>
  One call of the process into its surroundings. \<open>json_text\<close> reads a string member of a
  document (\<open>None\<close> where the library's assertion fails), \<open>json_with_text\<close> prints the
  document with that member replaced.
\<close>

record 'z world =
  w_cpp :: cpp_env
  w_inflate :: inflate_env
  w_deflateInit :: "'z option"
  w_deflate :: "'z deflate"
  w_now :: nat
  w_random :: bytes
  w_close_ok :: bool
  w_endpoint_ok :: bool
  w_resolve_ok :: bool
  w_no_delay_ok :: bool
  w_rsa_ctx_ok :: bool
  w_rsa_decrypt :: "bytes \<Rightarrow> bytes option"
  w_public_key :: bytes
  w_sha1 :: "bytes \<Rightarrow> bytes"
  w_sha256 :: "string \<Rightarrow> bytes"
  w_encrypt :: "bytes option \<Rightarrow> bytes \<Rightarrow> bytes \<Rightarrow> bytes option"
  w_decrypt :: "bytes option \<Rightarrow> bytes \<Rightarrow> bytes \<Rightarrow> bytes option"
  w_db_rows :: "string \<Rightarrow> nat option"
  w_json_ok :: "string \<Rightarrow> bool"
  w_json_text :: "string \<Rightarrow> string \<Rightarrow> string option"
  w_json_with_text :: "string \<Rightarrow> string \<Rightarrow> string"

type_synonym 'a gw = "(gateway, 'a) st"

section \<open>Access\<close>

definition get_client :: "address \<Rightarrow> client gw" where
  "get_client a = bind (gets g_store) (\<lambda>h.
     case h a of None \<Rightarrow> fault (UB UseAfterFree) | Some c \<Rightarrow> ret c)"

definition upd_client :: "address \<Rightarrow> (client \<Rightarrow> client) \<Rightarrow> unit gw" where
  "upd_client a f = bind (get_client a) (\<lambda>c. modify (\<lambda>g. g\<lparr>g_store := (g_store g)(a \<mapsto> f c)\<rparr>))"

definition destroy :: "address option \<Rightarrow> unit gw" where
  "destroy p = (case p of None \<Rightarrow> ret ()
     | Some a \<Rightarrow> modify (\<lambda>g. g\<lparr>g_store := (g_store g)(a := None)\<rparr>))"

definition emit :: "event \<Rightarrow> unit gw" where
  "emit e = modify (\<lambda>g. g\<lparr>g_trace := g_trace g @ [e]\<rparr>)"

definition async :: "callback \<Rightarrow> unit gw" where
  "async cb = modify (\<lambda>g. g\<lparr>g_callbacks := g_callbacks g @ [cb]\<rparr>)"

text \<open>Overwriting or erasing an entry destroys the object it owned.\<close>

definition erase_pending :: "int32 \<Rightarrow> unit gw" where
  "erase_pending k = bind (gets (\<lambda>g. owned_at (g_pendingClients g) k)) (\<lambda>old.
     block [modify (\<lambda>g. g\<lparr>g_pendingClients := erase k (g_pendingClients g)\<rparr>), destroy old])"

definition assign_pending :: "int32 \<Rightarrow> address \<Rightarrow> unit gw" where
  "assign_pending k a = bind (gets (\<lambda>g. owned_at (g_pendingClients g) k)) (\<lambda>old.
     block [modify (\<lambda>g. g\<lparr>g_pendingClients := assign k (Some a) (g_pendingClients g)\<rparr>), destroy old])"

definition erase_clients :: "string \<Rightarrow> unit gw" where
  "erase_clients k = bind (gets (\<lambda>g. owned_at (g_clients g) k)) (\<lambda>old.
     block [modify (\<lambda>g. g\<lparr>g_clients := erase k (g_clients g)\<rparr>), destroy old])"

definition assign_clients :: "string \<Rightarrow> address \<Rightarrow> unit gw" where
  "assign_clients k a = bind (gets (\<lambda>g. owned_at (g_clients g) k)) (\<lambda>old.
     block [modify (\<lambda>g. g\<lparr>g_clients := assign k (Some a) (g_clients g)\<rparr>), destroy old])"

text \<open>\<open>clients[k]\<close> used as a value.\<close>

definition index_clients :: "string \<Rightarrow> address option gw" where
  "index_clients k = bind (modify (\<lambda>g. g\<lparr>g_clients := index k (g_clients g)\<rparr>))
     (\<lambda>_. gets (\<lambda>g. owned_at (g_clients g) k))"

text \<open>\<open>socket->remote_endpoint()\<close>, which throws on a socket that is not connected.\<close>

definition remote_endpoint :: "'z world \<Rightarrow> address \<Rightarrow> bool gw" where
  "remote_endpoint W a = bind (get_client a) (\<lambda>c.
     if c_open c \<and> w_endpoint_ok W then ret (c_loopback c) else fault (Throw SystemError))"

text \<open>\<open>socket->cancel()\<close> outside a handler that catches.\<close>

definition cancel_socket :: "address \<Rightarrow> unit gw" where
  "cancel_socket a = bind (get_client a) (\<lambda>c.
     if c_open c then emit (CancelledSocket a) else fault (Throw SystemError))"

text \<open>A unique pointer held by a function: unwinding the function destroys the object.\<close>

definition owning :: "address \<Rightarrow> 'a gw \<Rightarrow> 'a gw" where
  "owning a m g = (case m g of
       (Inl (Throw e), g') \<Rightarrow> (Inl (Throw e), g'\<lparr>g_store := (g_store g')(a := None)\<rparr>)
     | r \<Rightarrow> r)"

lemma get_client_run:
  "get_client a g = (case g_store g a of None \<Rightarrow> (Inl (UB UseAfterFree), g) | Some c \<Rightarrow> (Inr c, g))"
  by (simp add: get_client_def bind_def split: option.split)

lemma bind_get_client:
  "bind (get_client a) f g =
    (case g_store g a of None \<Rightarrow> (Inl (UB UseAfterFree), g) | Some c \<Rightarrow> f c g)"
  by (simp add: bind_def get_client_run split: option.split)

lemma upd_client_run:
  "upd_client a f g = (case g_store g a of None \<Rightarrow> (Inl (UB UseAfterFree), g)
     | Some c \<Rightarrow> (Inr (), g\<lparr>g_store := (g_store g)(a \<mapsto> f c)\<rparr>))"
  by (simp add: upd_client_def bind_get_client split: option.split)

lemma bind_upd_client:
  "bind (upd_client a f) h g = (case g_store g a of None \<Rightarrow> (Inl (UB UseAfterFree), g)
     | Some c \<Rightarrow> h () (g\<lparr>g_store := (g_store g)(a \<mapsto> f c)\<rparr>))"
  by (simp add: bind_def upd_client_run split: option.split)

lemma emit_run [simp]: "emit e g = (Inr (), g\<lparr>g_trace := g_trace g @ [e]\<rparr>)"
  by (simp add: emit_def)

lemma async_run [simp]: "async cb g = (Inr (), g\<lparr>g_callbacks := g_callbacks g @ [cb]\<rparr>)"
  by (simp add: async_def)

lemma bind_emit [simp]: "bind (emit e) f g = f () (g\<lparr>g_trace := g_trace g @ [e]\<rparr>)"
  by (simp add: emit_def)

lemma bind_async [simp]: "bind (async cb) f g = f () (g\<lparr>g_callbacks := g_callbacks g @ [cb]\<rparr>)"
  by (simp add: async_def)

end
