(* ===== verification/Gateway_Send.thy ===== *)
theory Gateway_Send
  imports Gateway_State
begin

text \<open>
  The sending half of \<open>Client\<close> (\<open>Client Gateway/Client.cpp\<close>): encryption, framing, the
  socket, and disconnecting, which calls back into the server that owns the connection. Both
  servers' \<open>clientDisconnected\<close> are here because \<open>disconnect\<close> dispatches to them.
\<close>

section \<open>Accessors\<close>

definition EVP_MAX_BLOCK_LENGTH :: nat where "EVP_MAX_BLOCK_LENGTH = 32"

definition getSide :: side where "getSide = SERVER_BOUND"

definition getState :: "address \<Rightarrow> client_state gw" where
  "getState a = bind (get_client a) (\<lambda>c. ret (c_state c))"

definition setState :: "address \<Rightarrow> client_state \<Rightarrow> unit gw" where
  "setState a s = upd_client a (\<lambda>c. c\<lparr>c_state := s\<rparr>)"

definition getCompressionThreshold :: "client \<Rightarrow> size_t" where
  "getCompressionThreshold c = to_size_t (c_compressionThreshold c)"

definition setOwner :: "address \<Rightarrow> owner_ref \<Rightarrow> unit gw" where
  "setOwner a w = upd_client a (\<lambda>c. c\<lparr>c_owner := w\<rparr>)"

definition getClientId :: "address \<Rightarrow> string gw" where
  "getClientId a = bind (get_client a) (\<lambda>c. ret (c_userid c))"

definition getClientUsername :: "address \<Rightarrow> string gw" where
  "getClientUsername a = bind (get_client a) (\<lambda>c. ret (c_requestedUsername c))"

section \<open>Ciphers\<close>

text \<open>The output and its length; \<open>None\<close> is the return value -1.\<close>

definition encrypt :: "'z world \<Rightarrow> address \<Rightarrow> bytes \<Rightarrow> bytes option gw" where
  "encrypt W a plaintext = bind (get_client a) (\<lambda>c.
     case w_encrypt W (cipher_key (c_encrypt c)) (cipher_done (c_encrypt c)) plaintext of
       None \<Rightarrow> ret None
     | Some ct \<Rightarrow> bind (upd_client a (\<lambda>c. c\<lparr>c_encrypt := (c_encrypt c)
                   \<lparr>cipher_done := cipher_done (c_encrypt c) @ plaintext\<rparr>\<rparr>)) (\<lambda>_. ret (Some ct)))"

definition decrypt :: "'z world \<Rightarrow> address \<Rightarrow> bytes \<Rightarrow> bytes option gw" where
  "decrypt W a ciphertext = bind (get_client a) (\<lambda>c.
     case w_decrypt W (cipher_key (c_decrypt c)) (cipher_done (c_decrypt c)) ciphertext of
       None \<Rightarrow> ret None
     | Some pt \<Rightarrow> bind (upd_client a (\<lambda>c. c\<lparr>c_decrypt := (c_decrypt c)
                   \<lparr>cipher_done := cipher_done (c_decrypt c) @ ciphertext\<rparr>\<rparr>)) (\<lambda>_. ret (Some pt)))"

section \<open>Writing\<close>

text \<open>
  A failed encryption converts -1 to \<open>std::size_t\<close>; the buffer that is sent is then the
  whole zero-initialised vector.
\<close>

definition sendData :: "'z world \<Rightarrow> address \<Rightarrow> bytes \<Rightarrow> unit gw" where
  "sendData W a data = bind (get_client a) (\<lambda>c.
     if \<not> c_alive c then ret ()
     else if c_encrypted c then
       bind (encrypt W a data) (\<lambda>r. case r of
         None \<Rightarrow> block [emit (Wrote a (replicate (length data + EVP_MAX_BLOCK_LENGTH) 0)),
                         async (CB_onWriteComplete a)]
       | Some ct \<Rightarrow>
           if length ct > length data + EVP_MAX_BLOCK_LENGTH then fault (UB OutOfBounds)
           else block [emit (Wrote a ct), async (CB_onWriteComplete a)])
     else block [emit (Wrote a data), async (CB_onWriteComplete a)])"

definition frame_any :: "any_packet \<Rightarrow> any_packet res" where
  "frame_any p = rbind (framePacket (base_of p)) (\<lambda>b. Inr (set_base b p))"

definition compress_any :: "'z world \<Rightarrow> size_t \<Rightarrow> any_packet \<Rightarrow> any_packet res" where
  "compress_any W n p = rbind (compressIfLargerThan (w_deflateInit W) (w_deflate W) n (base_of p))
     (\<lambda>b. Inr (set_base b p))"

text \<open>What \<open>sendPacket\<close> puts on the wire for a connection with a given threshold.\<close>

definition wire_packet :: "'z world \<Rightarrow> int32 \<Rightarrow> any_packet \<Rightarrow> any_packet res" where
  "wire_packet W threshold p =
     (let p = serializePacket getSide p in
      rbind (if 0 \<le> sint threshold \<and> class_of p \<noteq> SetCompressionPacket
             then compress_any W (to_size_t threshold) p else Inr p) frame_any)"

definition sendPacket :: "'z world \<Rightarrow> address \<Rightarrow> any_packet \<Rightarrow> any_packet gw" where
  "sendPacket W a p = bind (get_client a) (\<lambda>c.
     bind (lift (wire_packet W (c_compressionThreshold c) p)) (\<lambda>p.
     bind (sendData W a (getData (base_of p))) (\<lambda>_. ret p)))"

definition send :: "'z world \<Rightarrow> address \<Rightarrow> any_packet \<Rightarrow> unit gw" where
  "send W a p = bind (sendPacket W a p) (\<lambda>_. ret ())"

section \<open>Disconnecting\<close>

text \<open>\<open>Login\<close> prints the peer's address before it erases the entry.\<close>

definition Login_clientDisconnected :: "'z world \<Rightarrow> address \<Rightarrow> unit gw" where
  "Login_clientDisconnected W a = bind (remote_endpoint W a) (\<lambda>_.
     bind (get_client a) (\<lambda>c. erase_pending (c_handle c)))"

text \<open>\<open>ClientServer\<close> erases the entry first and then uses the pointer it was given.\<close>

definition ClientServer_clientDisconnected :: "'z world \<Rightarrow> address \<Rightarrow> unit gw" where
  "ClientServer_clientDisconnected W a = bind (getClientId a) (\<lambda>i.
     block [erase_clients i,
            try_catch (bind (remote_endpoint W a) (\<lambda>_. ret ())) (ret ())])"

definition owner_clientDisconnected :: "'z world \<Rightarrow> owner_ref \<Rightarrow> address \<Rightarrow> unit gw" where
  "owner_clientDisconnected W w a = (case w of
       Owner_None \<Rightarrow> ret ()
     | Owner_Login \<Rightarrow> Login_clientDisconnected W a
     | Owner_ClientServer \<Rightarrow> ClientServer_clientDisconnected W a)"

text \<open>
  The body of the \<open>try\<close>: an exception of the shutdown leaves the socket open, and is
  swallowed.
\<close>

definition close_socket :: "'z world \<Rightarrow> address \<Rightarrow> unit gw" where
  "close_socket W a = bind (get_client a) (\<lambda>c.
     if \<not> c_open c then emit (CancelledTimer a)
     else block [emit (CancelledTimer a), emit (CancelledSocket a),
       if w_close_ok W
       then block [emit (ClosedSocket a), upd_client a (\<lambda>c. c\<lparr>c_open := False, c_handle := - 1\<rparr>)]
       else ret ()])"

text \<open>The owner is reached through a base-class pointer; its member function is an argument.\<close>

definition disconnect_via ::
  "(owner_ref \<Rightarrow> address \<Rightarrow> unit gw) \<Rightarrow> 'z world \<Rightarrow> address \<Rightarrow> unit gw" where
  "disconnect_via notify W a = bind (get_client a) (\<lambda>c.
     if \<not> c_alive c then ret ()
     else block [upd_client a (\<lambda>c. c\<lparr>c_alive := False\<rparr>),
       close_socket W a,
       bind (get_client a) (\<lambda>c. notify (c_owner c) a)])"

definition disconnect :: "'z world \<Rightarrow> address \<Rightarrow> unit gw" where
  "disconnect W a = disconnect_via (owner_clientDisconnected W) W a"

definition startAsyncRead :: "address \<Rightarrow> unit gw" where
  "startAsyncRead a = async (CB_onLengthReceive a)"

definition onWriteComplete :: "'z world \<Rightarrow> address \<Rightarrow> bool \<Rightarrow> unit gw" where
  "onWriteComplete W a error = bind (get_client a) (\<lambda>c. if error then disconnect W a else ret ())"

end
