(* ===== verification/Gateway_Servers.thy ===== *)
theory Gateway_Servers
  imports Gateway_Send
begin

text \<open>
  The two servers of the gateway that own connections: \<open>ClientServer\<close>
  (\<open>Client Gateway/ClientServer.cpp\<close>), which holds the players and exchanges datagrams
  with the game nodes, and \<open>Login\<close> (\<open>Client Gateway/LoginServer.cpp\<close>), which
  accepts connections and hands them over.
\<close>

section \<open>ClientServer: players\<close>

definition select_player :: "string \<Rightarrow> string" where
  "select_player i = ''SELECT * FROM `players` WHERE `uuid`='' @ [CHR 0x27] @ i @ [CHR 0x27] @ '';''"

definition insert_player :: "string \<Rightarrow> string" where
  "insert_player i = ''INSERT INTO `players` (uuid) VALUES ('' @ [CHR 0x27] @ i @ [CHR 0x27] @ '');''"

text \<open>\<open>packet->...\<close> on the result of \<open>newPacket\<close>, which is null for an unregistered id.\<close>

definition send_new :: "'z world \<Rightarrow> address \<Rightarrow> side \<Rightarrow> client_state \<Rightarrow> int32 \<Rightarrow> unit gw" where
  "send_new W a sd st i = (case newPacket (w_cpp W) sd st i of
       None \<Rightarrow> fault (UB NullDeref)
     | Some p \<Rightarrow> send W a p)"

text \<open>The argument owns the connection until it is moved into the table.\<close>

definition addClient :: "'z world \<Rightarrow> address \<Rightarrow> bool gw" where
  "addClient W a = owning a (bind (getClientId a) (\<lambda>i.
     bind (block [
       emit (DbQuery (select_player i)),
       (case w_db_rows W (select_player i) of
          Some n \<Rightarrow> if n > 0 then ret () else emit (DbExec (insert_player i))
        | None \<Rightarrow> emit (DbExec (insert_player i))),
       send_new W a CLIENT_BOUND PLAY 0x01,
       send_new W a CLIENT_BOUND PLAY 0x05,
       send_new W a CLIENT_BOUND PLAY 0x08,
       send_new W a CLIENT_BOUND PLAY 0x39,
       bind (getClientId a) (\<lambda>i. assign_clients i a)]) (\<lambda>_. ret True)))"

section \<open>ClientServer: game nodes\<close>

definition startAsyncReceive :: "unit gw" where
  "startAsyncReceive = async CB_onDataReceived"

text \<open>The argument is the pointer \<open>fromData\<close> returned, which may be null.\<close>

definition handleMessage :: "'z world \<Rightarrow> comms_packet option \<Rightarrow> unit gw" where
  "handleMessage W message = (case message of
       None \<Rightarrow> fault (UB NullDeref)
     | Some m \<Rightarrow>
       bind (index_clients (getPlayerID m)) (\<lambda>entry. case entry of
         None \<Rightarrow> ret ()
       | Some a \<Rightarrow>
         (case getMessageID m of
            MC_PACKET \<Rightarrow>
              bind (get_client a) (\<lambda>c.
              bind (lift (if getCompressionThreshold c \<le> size_of (getPayload m)
                          then compressData (w_deflateInit W) (w_deflate W) (getPayload m)
                          else Inr (getPayload m))) (\<lambda>payload.
              bind (lift (write_buffer_length_front payload)) (\<lambda>payload.
                sendData W a payload)))
          | _ \<Rightarrow> ret ())))"

datatype received_datagram = Wait_Error | Receive_Error | Datagram bytes

definition onDataReceived :: "'z world \<Rightarrow> received_datagram \<Rightarrow> unit gw" where
  "onDataReceived W r = (case r of
       Wait_Error \<Rightarrow> ret ()
     | Receive_Error \<Rightarrow> ret ()
     | Datagram data \<Rightarrow>
         bind (lift (fromData data False)) (\<lambda>(message, _).
         block [handleMessage W message, startAsyncReceive]))"

definition node_sendPacket :: "comms_packet \<Rightarrow> unit gw" where
  "node_sendPacket m = bind (lift (serializeData m [])) (\<lambda>rawData.
     block [emit (UdpBroadcast 1337 rawData), async CB_nodeWriteComplete])"

definition node_onWriteComplete :: "bool \<Rightarrow> unit gw" where
  "node_onWriteComplete error = ret ()"

definition onWriteCompleteCallback :: "bool \<Rightarrow> unit gw \<Rightarrow> unit gw" where
  "onWriteCompleteCallback error callback = block [node_onWriteComplete error, callback]"

text \<open>
  A range-based loop over the table; erasing the element the iterator stands on invalidates
  it, and a null entry is dereferenced.
\<close>

definition disconnect_entry :: "'z world \<Rightarrow> string \<times> address option \<Rightarrow> unit gw" where
  "disconnect_entry W e = (case snd e of
       None \<Rightarrow> fault (UB NullDeref)
     | Some a \<Rightarrow> bind (disconnect W a) (\<lambda>_. bind (gets g_clients) (\<lambda>m.
         if fst e \<in> set (keys_of m) then ret () else fault (UB InvalidIterator))))"

definition sendShutdownSignal :: "'z world \<Rightarrow> unit gw" where
  "sendShutdownSignal W = bind (gets g_clients) (\<lambda>m.
     block [for_each (disconnect_entry W) m,
       bind (gets g_receiveOpen) (\<lambda>b. if b
         then block [emit ClosedUdp, modify (\<lambda>g. g\<lparr>g_receiveOpen := False\<rparr>)] else ret ())])"

section \<open>ClientServer: packets\<close>

text \<open>
  \<open>stringValue.insert(stringValue.front(), s)\<close> takes the character, a signed \<open>char\<close>, as
  the position.
\<close>

definition string_insert :: "size_t \<Rightarrow> string \<Rightarrow> string \<Rightarrow> string res" where
  "string_insert pos s str =
     (if size_of str < pos then Inl (Throw OutOfRange)
      else Inr (take (unat pos) str @ s @ drop (unat pos) str))"

definition char_position :: "char \<Rightarrow> size_t" where
  "char_position c = scast (byte_of_char c)"

definition send_entry :: "'z world \<Rightarrow> any_packet \<Rightarrow> string \<times> address option \<Rightarrow> unit gw" where
  "send_entry W p e = (case snd e of None \<Rightarrow> fault (UB NullDeref) | Some a \<Rightarrow> send W a p)"

definition chat_text :: "'z world \<Rightarrow> address \<Rightarrow> string \<Rightarrow> string gw" where
  "chat_text W a stringValue = bind (getClientUsername a) (\<lambda>name.
     lift (string_insert (char_position (hd stringValue)) (''<'' @ name @ ''> '') stringValue))"

definition ClientServer_onPacketReceived :: "'z world \<Rightarrow> address \<Rightarrow> any_packet \<Rightarrow> bool gw" where
  "ClientServer_onPacketReceived W a p = (case p of
       P_ChatMessage chat \<Rightarrow>
         (let json = takeWhile (\<lambda>c. c \<noteq> CHR 0x00) (jsonChatData chat) in
          if \<not> w_json_ok W json then ret True
          else case w_json_text W json ''text'' of
              None \<Rightarrow> fault (UB AssertFailed)
            | Some stringValue \<Rightarrow>
                if length stringValue = 0 then ret True
                else if length stringValue > MC_CHAT_MAX_TEXT_LENGTH then ret True
                else if stringValue ! 0 = CHR ''/'' then ret True
                else bind (chat_text W a stringValue) (\<lambda>text.
                  bind (gets g_clients) (\<lambda>m.
                  bind (for_each (send_entry W (P_ChatMessage
                      (chat\<lparr>jsonChatData := w_json_with_text W json text,
                            chatPosition := ChatType_NORMAL\<rparr>))) m) (\<lambda>_. ret True))))
     | _ \<Rightarrow> ret True)"

text \<open>
  \<open>ClientServer::onPacketReceived\<close> has two parameters and the virtual function three, so it
  hides the base version instead of overriding it; a call through the base class always runs
  the base version.
\<close>

definition ClientOwner_onPacketReceived :: "side \<Rightarrow> address \<Rightarrow> any_packet \<Rightarrow> bool gw" where
  "ClientOwner_onPacketReceived sd a p = ret False"

definition owner_onPacketReceived :: "owner_ref \<Rightarrow> side \<Rightarrow> address \<Rightarrow> any_packet \<Rightarrow> bool gw" where
  "owner_onPacketReceived w sd a p = ClientOwner_onPacketReceived sd a p"

section \<open>Login\<close>

definition asyncClientAccept :: "unit gw" where
  "asyncClientAccept = async CB_handleClient"

text \<open>The constructor of \<open>Client\<close>: a fresh object that starts reading at once.\<close>

definition construct_client :: "'z world \<Rightarrow> int32 \<Rightarrow> bool \<Rightarrow> address gw" where
  "construct_client W handle loopback = bind (gets g_next) (\<lambda>a.
     bind (block [modify (\<lambda>g. g\<lparr>g_next := Suc a, g_store := (g_store g)(a \<mapsto>
             Client_new handle loopback (w_now W) (w_random W) Owner_Login)\<rparr>),
           startAsyncRead a]) (\<lambda>_. ret a))"

definition handleClient :: "'z world \<Rightarrow> (int32 \<times> bool) option \<Rightarrow> unit gw" where
  "handleClient W accepted = block [
     (case accepted of
        None \<Rightarrow> ret ()
      | Some (handle, loopback) \<Rightarrow>
          bind (construct_client W handle loopback) (\<lambda>a. assign_pending handle a)),
     asyncClientAccept]"

text \<open>
  \<open>std::move(pendingClients[...])\<close> leaves a null entry; the unique pointer taken out is
  erased from the table and given away.
\<close>

definition Login_handoffClient :: "'z world \<Rightarrow> address \<Rightarrow> unit gw" where
  "Login_handoffClient W a = bind (get_client a) (\<lambda>c.
     bind (gets (\<lambda>g. owned_at (g_pendingClients g) (c_handle c))) (\<lambda>taken.
     bind (modify (\<lambda>g. g\<lparr>g_pendingClients := assign (c_handle c) None (g_pendingClients g)\<rparr>)) (\<lambda>_.
       case taken of
         None \<Rightarrow> ret ()
       | Some b \<Rightarrow> bind (get_client b) (\<lambda>d. block [
           modify (\<lambda>g. g\<lparr>g_pendingClients := erase (c_handle d) (g_pendingClients g)\<rparr>),
           setOwner b Owner_ClientServer,
           bind (addClient W b) (\<lambda>_. ret ())]))))"

definition owner_handoffClient :: "'z world \<Rightarrow> owner_ref \<Rightarrow> address \<Rightarrow> unit gw" where
  "owner_handoffClient W w a = (case w of
       Owner_None \<Rightarrow> ret ()
     | Owner_Login \<Rightarrow> Login_handoffClient W a
     | Owner_ClientServer \<Rightarrow> ret ())"

text \<open>\<open>init\<close> after the key generation: without a database nothing is accepted.\<close>

definition Login_init :: "bool \<Rightarrow> unit gw" where
  "Login_init db_connected = (if \<not> db_connected then ret ()
     else block [startAsyncReceive, asyncClientAccept])"

definition initial_gateway :: gateway where
  "initial_gateway = \<lparr>g_store = Map.empty, g_next = 0, g_pendingClients = [], g_clients = [],
     g_callbacks = [], g_trace = [], g_running = True, g_receiveOpen = True\<rparr>"

text \<open>
  The console loop over the lines typed; at the end of the input \<open>getline\<close> leaves the line
  empty. The result is the number of lines read.
\<close>

fun listen_loop :: "bool \<Rightarrow> string list \<Rightarrow> nat" where
  "listen_loop running [] = (if running then 1 else 0)"
| "listen_loop running (line # lines) =
     (if \<not> running then 0 else if string_compare line ''stop'' then 1
      else Suc (listen_loop running lines))"

end
