(* ===== verification/Gateway_Client.thy ===== *)
theory Gateway_Client
  imports Gateway_Servers
begin

text \<open>
  The receiving half of \<open>Client\<close> (\<open>Client Gateway/Client.cpp\<close>): the read handler, the
  handlers of the handshake, status and login packets, the conversation with the session
  server and the keep-alive timer.
\<close>

section \<open>Logging in\<close>

definition onPlayerLogin_via ::
  "(owner_ref \<Rightarrow> address \<Rightarrow> unit gw) \<Rightarrow> 'z world \<Rightarrow> address \<Rightarrow> unit gw" where
  "onPlayerLogin_via handoff W a = bind (get_client a) (\<lambda>c.
     case newPacket (w_cpp W) CLIENT_BOUND LOGIN 0x02 of
       Some (P_LoginSuccess p) \<Rightarrow> block [
         send W a (P_LoginSuccess (p\<lparr>uuid := c_userid c, username := c_requestedUsername c\<rparr>)),
         setState a PLAY,
         upd_client a (\<lambda>c. c\<lparr>c_lastSeen := w_now W\<rparr>),
         async (CB_keepAlive a),
         bind (get_client a) (\<lambda>c. handoff (c_owner c) a)]
     | _ \<Rightarrow> fault (UB NullDeref))"

definition onPlayerLogin :: "'z world \<Rightarrow> address \<Rightarrow> unit gw" where
  "onPlayerLogin W a = onPlayerLogin_via (owner_handoffClient W) W a"

definition crlf :: string where "crlf = [CHR 0x0D, CHR 0x0A]"

definition session_request :: "string \<Rightarrow> string \<Rightarrow> string" where
  "session_request name serverIdHexDigest =
     ''GET '' @ ''/session/minecraft/hasJoined'' @ ''?username='' @ name @
       ''&serverId='' @ serverIdHexDigest @ '' HTTP/1.1'' @ crlf @
     ''Host: '' @ ''sessionserver.mojang.com'' @ crlf @
     ''User-Agent: '' @ ''Cerios Cluster (Minecraft Server)'' @ crlf @
     ''Connection: '' @ ''Close'' @ crlf @ crlf"

definition authWithMojang :: "'z world \<Rightarrow> address \<Rightarrow> string \<Rightarrow> unit gw" where
  "authWithMojang W a digest = bind (get_client a) (\<lambda>c.
     if c_owner c = Owner_None then ret ()
     else if \<not> w_resolve_ok W then fault (Throw SystemError)
     else block [emit (HttpsConnect ''sessionserver.mojang.com'' ''https''),
       async (CB_connectedToMojang a (session_request (c_requestedUsername c) digest))])"

text \<open>The error of the connection attempt is not looked at.\<close>

definition connectedToMojang :: "'z world \<Rightarrow> address \<Rightarrow> string \<Rightarrow> bool \<Rightarrow> unit gw" where
  "connectedToMojang W a request error =
     (if w_no_delay_ok W then async (CB_sslHandshakeComplete a request)
      else fault (Throw SystemError))"

definition sslHandshakeComplete :: "address \<Rightarrow> string \<Rightarrow> bool \<Rightarrow> unit gw" where
  "sslHandshakeComplete a request error =
     (if error then ret () else block [emit (SslWrote request), async (CB_sendHTTPRequestDone a)])"

definition sendHTTPRequestDone :: "address \<Rightarrow> bool \<Rightarrow> unit gw" where
  "sendHTTPRequestDone a error = (if error then ret () else async (CB_readHTTPHeader a))"

definition readHTTPHeader :: "'z world \<Rightarrow> address \<Rightarrow> string option \<Rightarrow> unit gw" where
  "readHTTPHeader W a received = bind (get_client a) (\<lambda>c.
     case received of
       None \<Rightarrow> ret ()
     | Some stream \<Rightarrow>
       if \<not> c_alive c then ret ()
       else bind (lift (header_lines stream Map.empty)) (\<lambda>header. case header of
           Rejected \<Rightarrow> bind (remote_endpoint W a) (\<lambda>_. cancel_socket a)
         | Fields pairs rest \<Rightarrow>
             (case content_length pairs of
                Inr n \<Rightarrow> async (CB_onHasJoinedPostComplete a rest n)
              | Inl (Throw e) \<Rightarrow> ret ()
              | Inl e \<Rightarrow> fault e)))"

datatype read_error = No_Error | End_Of_File | Other_Error

text \<open>\<open>data\<close> is the stream buffer: what was left of the header's read and what came after.\<close>

definition onHasJoinedPostComplete ::
  "'z world \<Rightarrow> address \<Rightarrow> string \<Rightarrow> read_error \<Rightarrow> size_t \<Rightarrow> unit gw" where
  "onHasJoinedPostComplete W a data error len = bind (get_client a) (\<lambda>_.
     if error = Other_Error then ret ()
     else if error = End_Of_File \<and> size_of data < len then ret ()
     else if length data < unat len then fault (UB OutOfBounds)
     else let json = takeWhile (\<lambda>c. c \<noteq> CHR 0x00) (take (unat len) data) in
       case w_json_text W json ''id'' of
         None \<Rightarrow> fault (UB AssertFailed)
       | Some i \<Rightarrow> bind (upd_client a (\<lambda>c. c\<lparr>c_userid := formatUUID i\<rparr>)) (\<lambda>_.
           case w_json_text W json ''name'' of
             None \<Rightarrow> fault (UB AssertFailed)
           | Some name \<Rightarrow> block [
               upd_client a (\<lambda>c. c\<lparr>c_requestedUsername := name, c_encrypted := True, c_buffer := []\<rparr>),
               onPlayerLogin W a]))"

section \<open>Packets of a connection that has not logged in\<close>

definition server_status_json :: string where
  \<open>server_status_json = ''{'' @
     ''"version": {'' @
     ''    "name": "1.8.8",'' @
     ''    "protocol": 47'' @
     ''},'' @
     ''"players": {'' @
     ''    "max": 10000,'' @
     ''    "online": 0'' @
     ''},'' @
     ''"description": {'' @
     ''    "text": "Hello World!"'' @
     ''}'' @
     ''}''\<close>

definition receive_login_start :: "'z world \<Rightarrow> address \<Rightarrow> login_start_packet \<Rightarrow> unit gw" where
  "receive_login_start W a loginRequest =
     bind (upd_client a (\<lambda>c. c\<lparr>c_requestedUsername := playerName loginRequest\<rparr>)) (\<lambda>_.
     bind (remote_endpoint W a) (\<lambda>is_loopback.
       if is_loopback then
         bind (lift (loopback_userid (w_sha256 W) (playerName loginRequest))) (\<lambda>i.
         block [upd_client a (\<lambda>c. c\<lparr>c_userid := i\<rparr>), onPlayerLogin W a])
       else (case newPacket (w_cpp W) CLIENT_BOUND LOGIN 0x01 of
           Some (P_Encryption response) \<Rightarrow> block [
             upd_client a (\<lambda>c. c\<lparr>c_verifyToken := w_random W\<rparr>),
             send W a (P_Encryption (response\<lparr>publickKey := str_of (w_public_key W),
                                              clearVerifyToken := w_random W\<rparr>))]
         | _ \<Rightarrow> fault (UB NullDeref))))"

text \<open>
  \<open>copy_n\<close> into the four bytes of the packet's array, which its constructor left
  indeterminate; the key and the initial vector are the first 16 bytes of the secret.
\<close>

definition receive_encryption_response ::
  "'z world \<Rightarrow> address \<Rightarrow> encryption_packet \<Rightarrow> unit gw" where
  "receive_encryption_response W a response =
     (if \<not> w_rsa_ctx_ok W then ret ()
      else case w_rsa_decrypt W (sealedVerifyToken response) of
        None \<Rightarrow> ret ()
      | Some token \<Rightarrow>
       (case w_rsa_decrypt W (sealedSharedSecret response) of
          None \<Rightarrow> ret ()
        | Some secret \<Rightarrow>
          if length token > length (clearVerifyToken response) then fault (UB OutOfBounds)
          else bind (get_client a) (\<lambda>c.
            if c_verifyToken c \<noteq> token @ drop (length token) (clearVerifyToken response)
            then ret ()
            else if length secret < 16 then fault (UB OutOfBounds)
            else block [
              upd_client a (\<lambda>c. c\<lparr>c_encrypt := \<lparr>cipher_key = Some (take 16 secret), cipher_done = []\<rparr>,
                                  c_decrypt := \<lparr>cipher_key = Some (take 16 secret), cipher_done = []\<rparr>\<rparr>),
              bind (lift (session_digest (w_sha1 W
                (bytes_of (serverId response) @ secret @ w_public_key W)))) (authWithMojang W a)])))"

text \<open>The part of \<open>receivedMessage\<close> that depends on the state of the connection.\<close>

definition handle_by_state :: "'z world \<Rightarrow> address \<Rightarrow> client \<Rightarrow> any_packet \<Rightarrow> unit gw" where
  "handle_by_state W a c p = (case (c_state c, p) of
       (HANDSHAKE, P_Handshake handshake) \<Rightarrow> setState a (requestedNextState handshake)
     | (STATUS, P_ServerStatus serverStatus) \<Rightarrow>
         send W a (P_ServerStatus (serverStatus\<lparr>jsonEncodedServerStatus := server_status_json\<rparr>))
     | (LOGIN, P_LoginStart loginRequest) \<Rightarrow> receive_login_start W a loginRequest
     | (LOGIN, P_Encryption encryptionResponse) \<Rightarrow>
         if c_requestedUsername c = [] then ret ()
         else receive_encryption_response W a encryptionResponse
     | _ \<Rightarrow> ret ())"

definition receivedMessage :: "'z world \<Rightarrow> side \<Rightarrow> address \<Rightarrow> any_packet \<Rightarrow> unit gw" where
  "receivedMessage W sd a p = (case p of
       P_Ping pingPacket \<Rightarrow>
         block [send W a p, bind (getState a) (\<lambda>st. if st = STATUS then cancel_socket a else ret ())]
     | P_KeepAlive keepAlive \<Rightarrow> upd_client a (\<lambda>c. c\<lparr>c_lastSeen := w_now W\<rparr>)
     | _ \<Rightarrow>
       bind (get_client a) (\<lambda>c.
         if c_owner c = Owner_None then disconnect W a
         else bind (owner_onPacketReceived (c_owner c) sd a p) (\<lambda>handled.
           if handled then ret () else handle_by_state W a c p)))"

section \<open>Reading\<close>

text \<open>
  The bytes of the read go to the clear buffer, or through the cipher: every whole block in
  the encrypted buffer is decrypted, and the buffer is kept. A failed decryption adds -1 to
  the size at \<open>std::size_t\<close>.
\<close>

definition take_read :: "'z world \<Rightarrow> address \<Rightarrow> bytes \<Rightarrow> unit gw" where
  "take_read W a data = bind (get_client a) (\<lambda>c.
     if c_encrypted c then
       bind (upd_client a (\<lambda>c. c\<lparr>c_encryptedBuffer := c_encryptedBuffer c @ data\<rparr>)) (\<lambda>_.
       bind (get_client a) (\<lambda>c.
       let n = length (c_encryptedBuffer c) div 16 * 16; old = c_buffer c in
       bind (decrypt W a (take n (c_encryptedBuffer c))) (\<lambda>r. case r of
           Some clear \<Rightarrow> if length clear > n then fault (UB OutOfBounds)
                         else upd_client a (\<lambda>c. c\<lparr>c_buffer := old @ clear\<rparr>)
         | None \<Rightarrow> if old = [] then fault (Throw LengthError)
                   else upd_client a (\<lambda>c. c\<lparr>c_buffer := take (length old - 1) old\<rparr>))))
     else upd_client a (\<lambda>c. c\<lparr>c_buffer := c_buffer c @ data\<rparr>))"

text \<open>
  One frame, if the buffer holds a whole one; the sizes are added and compared at
  \<open>std::size_t\<close>. When the parser throws, no read is started again, so what it left in the
  buffer is never looked at.
\<close>

definition next_frame :: "'z world \<Rightarrow> address \<Rightarrow> any_packet option gw" where
  "next_frame W a = bind (get_client a) (\<lambda>c.
     bind (lift (read_varint (c_buffer c) False)) (\<lambda>(messageLength, varintSize, _).
     if varintSize > 0 \<and> to_size_t messageLength + of_nat varintSize \<le> size_of (c_buffer c) then
       bind (upd_client a (\<lambda>c. c\<lparr>c_buffer := drop varintSize (c_buffer c)\<rparr>)) (\<lambda>_.
       bind (get_client a) (\<lambda>c.
       bind (lift (parsePacket (w_cpp W) (w_inflate W) SERVER_BOUND (to_size_t messageLength)
               (c_buffer c) (c_state c) (0 \<le> sint (c_compressionThreshold c)) True)) (\<lambda>(p, rest).
       bind (upd_client a (\<lambda>c. c\<lparr>c_buffer := rest\<rparr>)) (\<lambda>_. ret p))))
     else ret None))"

definition onLengthReceive :: "'z world \<Rightarrow> address \<Rightarrow> bytes option \<Rightarrow> unit gw" where
  "onLengthReceive W a received = bind (get_client a) (\<lambda>c.
     if \<not> c_alive c then ret ()
     else case received of
       None \<Rightarrow> disconnect W a
     | Some data \<Rightarrow>
         bind (take_read W a data) (\<lambda>_.
         bind (next_frame W a) (\<lambda>parsedPacket. case parsedPacket of
           None \<Rightarrow> startAsyncRead a
         | Some p \<Rightarrow>
             bind (try_catch (bind (receivedMessage W SERVER_BOUND a p) (\<lambda>_. ret True))
                             (bind (disconnect W a) (\<lambda>_. ret False))) (\<lambda>go_on.
               if go_on then startAsyncRead a else ret ()))))"

section \<open>Keep-alive\<close>

definition KEEP_ALIVE_TIMEOUT :: nat where "KEEP_ALIVE_TIMEOUT = 10 * 10 ^ 9"

definition keepAlive :: "'z world \<Rightarrow> address \<Rightarrow> bool \<Rightarrow> unit gw" where
  "keepAlive W a error = bind (get_client a) (\<lambda>c.
     if \<not> c_alive c then ret ()
     else if error then disconnect W a
     else if w_now W - c_lastSeen c > KEEP_ALIVE_TIMEOUT then cancel_socket a
     else case newPacket (w_cpp W) CLIENT_BOUND (c_state c) 0x00 of
         Some (P_KeepAlive p) \<Rightarrow> block [send W a (P_KeepAlive p), async (CB_keepAlive a)]
       | _ \<Rightarrow> cancel_socket a)"

end
