(* ===== verification/Gateway_System.thy ===== *)
theory Gateway_System
  imports Gateway_Client
begin

text \<open>
  The gateway as a state machine: a worker thread takes one asynchronous operation that has
  completed and runs its handler; an exception ends the handler and is swallowed by the loop
  of \<open>Login::listen\<close>. Handlers run one at a time here. A handler that runs into undefined
  behaviour has no successor state.
\<close>

datatype outcome =
    O_Error
  | O_Ok
  | O_Bytes bytes
  | O_Text string
  | O_Eof string
  | O_Accepted int32 bool

fun run_callback :: "'z world \<Rightarrow> callback \<Rightarrow> outcome \<Rightarrow> unit gw" where
  "run_callback W CB_handleClient r =
     handleClient W (case r of O_Accepted handle loopback \<Rightarrow> Some (handle, loopback) | _ \<Rightarrow> None)"
| "run_callback W (CB_onLengthReceive a) r =
     onLengthReceive W a (case r of O_Bytes data \<Rightarrow> Some data | _ \<Rightarrow> None)"
| "run_callback W (CB_onWriteComplete a) r = onWriteComplete W a (r = O_Error)"
| "run_callback W (CB_keepAlive a) r = keepAlive W a (r = O_Error)"
| "run_callback W (CB_connectedToMojang a request) r = connectedToMojang W a request (r = O_Error)"
| "run_callback W (CB_sslHandshakeComplete a request) r = sslHandshakeComplete a request (r = O_Error)"
| "run_callback W (CB_sendHTTPRequestDone a) r = sendHTTPRequestDone a (r = O_Error)"
| "run_callback W (CB_readHTTPHeader a) r =
     readHTTPHeader W a (case r of O_Text s \<Rightarrow> Some s | _ \<Rightarrow> None)"
| "run_callback W (CB_onHasJoinedPostComplete a rest n) r =
     (case r of O_Text s \<Rightarrow> onHasJoinedPostComplete W a (rest @ s) No_Error n
      | O_Eof s \<Rightarrow> onHasJoinedPostComplete W a (rest @ s) End_Of_File n
      | _ \<Rightarrow> onHasJoinedPostComplete W a rest Other_Error n)"
| "run_callback W CB_onDataReceived r =
     onDataReceived W (case r of O_Bytes data \<Rightarrow> Datagram data | O_Error \<Rightarrow> Wait_Error
       | _ \<Rightarrow> Receive_Error)"
| "run_callback W CB_nodeWriteComplete r = node_onWriteComplete (r = O_Error)"

text \<open>The system hands out a descriptor that no open socket of the process has.\<close>

definition fresh_descriptor :: "gateway \<Rightarrow> outcome \<Rightarrow> bool" where
  "fresh_descriptor g r = (case r of
       O_Accepted handle _ \<Rightarrow> handle \<noteq> - 1 \<and> (\<forall>a c. g_store g a = Some c \<longrightarrow> c_handle c \<noteq> handle)
     | _ \<Rightarrow> True)"

text \<open>
  A step is a handler that control leaves again, by a return or an exception. One that runs into
  undefined behaviour, ends the process or never comes back has no state after it.
\<close>

inductive gw_step :: "'z world \<Rightarrow> gateway \<Rightarrow> callback \<Rightarrow> gateway \<Rightarrow> bool" where
  run: "g_callbacks g = xs @ cb # ys \<Longrightarrow> fresh_descriptor g out \<Longrightarrow>
    run_callback W cb out (g\<lparr>g_callbacks := xs @ ys\<rparr>) = (r, g') \<Longrightarrow> leaves_scope r \<Longrightarrow>
    gw_step W g cb g'"

inductive_cases gw_stepE: "gw_step W g cb g'"

inductive reachable :: "'z world set \<Rightarrow> gateway \<Rightarrow> bool" for Ws where
  start: "Login_init db initial_gateway = (r, g) \<Longrightarrow> reachable Ws g"
| step: "reachable Ws g \<Longrightarrow> W \<in> Ws \<Longrightarrow> gw_step W g cb g' \<Longrightarrow> reachable Ws g'"

section \<open>The invariant\<close>

text \<open>
  Every connection keeps compression off; the tables own existing objects, each at most once;
  a pending connection belongs to \<open>Login\<close> and sits under its own descriptor until its socket
  is closed; a player belongs to \<open>ClientServer\<close> and is in the play state.
\<close>

definition store_ok :: "gateway \<Rightarrow> bool" where
  "store_ok g \<longleftrightarrow>
     (\<forall>a c. g_store g a = Some c \<longrightarrow> a < g_next g \<and> c_compressionThreshold c = - 1) \<and>
     (\<forall>a b c d. g_store g a = Some c \<longrightarrow> g_store g b = Some d \<longrightarrow> c_handle c = c_handle d \<longrightarrow>
        c_handle c \<noteq> - 1 \<longrightarrow> a = b)"

definition pending_ok :: "gateway \<Rightarrow> bool" where
  "pending_ok g \<longleftrightarrow>
     table.exclusive (g_pendingClients g) \<and> owned_at (g_pendingClients g) (- 1) = None \<and>
     (\<forall>k a. owned_at (g_pendingClients g) k = Some a \<longrightarrow>
        (\<exists>c. g_store g a = Some c \<and> c_owner c = Owner_Login \<and> (c_handle c = k \<or> c_handle c = - 1))) \<and>
     (\<forall>k a b c. owned_at (g_pendingClients g) k = Some a \<longrightarrow> g_store g b = Some c \<longrightarrow>
        c_handle c = k \<longrightarrow> a = b)"

definition players_ok :: "gateway \<Rightarrow> bool" where
  "players_ok g \<longleftrightarrow>
     table.exclusive (g_clients g) \<and>
     (\<forall>k a. owned_at (g_clients g) k = Some a \<longrightarrow>
        (\<exists>c. g_store g a = Some c \<and> c_owner c = Owner_ClientServer \<and> c_state c = PLAY))"

definition gw_inv :: "gateway \<Rightarrow> bool" where
  "gw_inv g \<longleftrightarrow> store_ok g \<and> pending_ok g \<and> players_ok g"

text \<open>A change of a connection that the invariant does not look at, or that closes it.\<close>

definition harmless :: "client \<Rightarrow> client \<Rightarrow> bool" where
  "harmless c d \<longleftrightarrow> c_owner d = c_owner c \<and> c_loopback d = c_loopback c \<and>
     c_compressionThreshold d = c_compressionThreshold c \<and>
     (c_handle d = c_handle c \<or> c_handle d = - 1) \<and> (c_state c = PLAY \<longrightarrow> c_state d = PLAY)"

lemma gw_sel:
  "g_store (g\<lparr>g_store := h\<rparr>) = h" "g_next (g\<lparr>g_store := h\<rparr>) = g_next g"
  "g_pendingClients (g\<lparr>g_store := h\<rparr>) = g_pendingClients g" "g_clients (g\<lparr>g_store := h\<rparr>) = g_clients g"
  "g_store (g\<lparr>g_pendingClients := p\<rparr>) = g_store g" "g_next (g\<lparr>g_pendingClients := p\<rparr>) = g_next g"
  "g_pendingClients (g\<lparr>g_pendingClients := p\<rparr>) = p" "g_clients (g\<lparr>g_pendingClients := p\<rparr>) = g_clients g"
  "g_store (g\<lparr>g_clients := q\<rparr>) = g_store g" "g_next (g\<lparr>g_clients := q\<rparr>) = g_next g"
  "g_pendingClients (g\<lparr>g_clients := q\<rparr>) = g_pendingClients g" "g_clients (g\<lparr>g_clients := q\<rparr>) = q"
  by simp_all

lemma store_okD:
  "store_ok g \<Longrightarrow> g_store g a = Some c \<Longrightarrow> a < g_next g"
  "store_ok g \<Longrightarrow> g_store g a = Some c \<Longrightarrow> c_compressionThreshold c = - 1"
  "store_ok g \<Longrightarrow> g_store g a = Some c \<Longrightarrow> g_store g b = Some d \<Longrightarrow> c_handle c = c_handle d \<Longrightarrow>
    c_handle c \<noteq> - 1 \<Longrightarrow> a = b"
  unfolding store_ok_def by blast+

lemma pending_okD:
  "pending_ok g \<Longrightarrow> owned_at (g_pendingClients g) k = Some a \<Longrightarrow>
    \<exists>c. g_store g a = Some c \<and> c_owner c = Owner_Login \<and> (c_handle c = k \<or> c_handle c = - 1)"
  "pending_ok g \<Longrightarrow> owned_at (g_pendingClients g) k = Some a \<Longrightarrow> g_store g b = Some c \<Longrightarrow>
    c_handle c = k \<Longrightarrow> a = b"
  "pending_ok g \<Longrightarrow> table.exclusive (g_pendingClients g)"
  "pending_ok g \<Longrightarrow> owned_at (g_pendingClients g) (- 1) = None"
  unfolding pending_ok_def by blast+

lemma players_okD:
  "players_ok g \<Longrightarrow> owned_at (g_clients g) k = Some a \<Longrightarrow>
    \<exists>c. g_store g a = Some c \<and> c_owner c = Owner_ClientServer \<and> c_state c = PLAY"
  "players_ok g \<Longrightarrow> table.exclusive (g_clients g)"
  unfolding players_ok_def by blast+

lemma store_ok_upd:
  assumes ok: "store_ok g" and a: "g_store g a = Some c" and f: "harmless c d"
  shows "store_ok (g\<lparr>g_store := (g_store g)(a \<mapsto> d)\<rparr>)"
proof -
  have old: "\<exists>c'. g_store g b = Some c' \<and> c_compressionThreshold e = c_compressionThreshold c' \<and>
      (c_handle e = c_handle c' \<or> c_handle e = - 1)"
    if "((g_store g)(a \<mapsto> d)) b = Some e" for b e
    using that a f by (auto simp: harmless_def split: if_splits)
  show ?thesis
    unfolding store_ok_def gw_sel
  proof (intro conjI allI impI)
    fix b e
    assume "((g_store g)(a \<mapsto> d)) b = Some e"
    then obtain e' where "g_store g b = Some e'" "c_compressionThreshold e = c_compressionThreshold e'"
      using old by blast
    then show "b < g_next g" "c_compressionThreshold e = - 1" using store_okD(1,2) [OF ok] by auto
  next
    fix b b' e f
    assume "((g_store g)(a \<mapsto> d)) b = Some e" "((g_store g)(a \<mapsto> d)) b' = Some f"
      and h: "c_handle e = c_handle f" "c_handle e \<noteq> - 1"
    then obtain e' f' where "g_store g b = Some e'" "g_store g b' = Some f'"
      "c_handle e = c_handle e'" "c_handle f = c_handle f'"
      using old by metis
    then show "b = b'" using store_okD(3) [OF ok] h by metis
  qed
qed

lemma pending_ok_upd:
  assumes ok: "pending_ok g" and a: "g_store g a = Some c" and f: "harmless c d"
  shows "pending_ok (g\<lparr>g_store := (g_store g)(a \<mapsto> d)\<rparr>)"
  unfolding pending_ok_def gw_sel
proof (intro conjI allI impI)
  fix k b
  assume "owned_at (g_pendingClients g) k = Some b"
  then obtain e where "g_store g b = Some e" "c_owner e = Owner_Login" "c_handle e = k \<or> c_handle e = - 1"
    using pending_okD(1) [OF ok] by blast
  then show "\<exists>e. ((g_store g)(a \<mapsto> d)) b = Some e \<and> c_owner e = Owner_Login \<and>
      (c_handle e = k \<or> c_handle e = - 1)"
    using a f by (auto simp: harmless_def)
next
  fix k b b' e
  assume k: "owned_at (g_pendingClients g) k = Some b" and b': "((g_store g)(a \<mapsto> d)) b' = Some e"
    "c_handle e = k"
  then have "k \<noteq> - 1" using pending_okD(4) [OF ok] by auto
  with b' a f obtain e' where "g_store g b' = Some e'" "c_handle e' = k"
    by (auto simp: harmless_def split: if_splits)
  then show "b = b'" using pending_okD(2) [OF ok k] by blast
qed (use pending_okD(3,4) [OF ok] in auto)

lemma players_ok_upd:
  assumes ok: "players_ok g" and a: "g_store g a = Some c" and f: "harmless c d"
  shows "players_ok (g\<lparr>g_store := (g_store g)(a \<mapsto> d)\<rparr>)"
  unfolding players_ok_def gw_sel
proof (intro conjI allI impI)
  fix k b
  assume "owned_at (g_clients g) k = Some b"
  then obtain e where "g_store g b = Some e" "c_owner e = Owner_ClientServer" "c_state e = PLAY"
    using players_okD(1) [OF ok] by blast
  then show "\<exists>e. ((g_store g)(a \<mapsto> d)) b = Some e \<and> c_owner e = Owner_ClientServer \<and> c_state e = PLAY"
    using a f by (auto simp: harmless_def)
qed (use players_okD(2) [OF ok] in auto)

lemma gw_inv_upd:
  "gw_inv g \<Longrightarrow> g_store g a = Some c \<Longrightarrow> harmless c d \<Longrightarrow>
    gw_inv (g\<lparr>g_store := (g_store g)(a \<mapsto> d)\<rparr>)"
  by (simp add: gw_inv_def store_ok_upd pending_ok_upd players_ok_upd)

text \<open>The parts of the state the invariant does not mention.\<close>

lemma gw_inv_trace [simp]: "gw_inv (g\<lparr>g_trace := t\<rparr>) = gw_inv g"
  by (simp add: gw_inv_def store_ok_def pending_ok_def players_ok_def)

lemma gw_inv_callbacks [simp]: "gw_inv (g\<lparr>g_callbacks := cs\<rparr>) = gw_inv g"
  by (simp add: gw_inv_def store_ok_def pending_ok_def players_ok_def)

lemma gw_inv_flags [simp]: "gw_inv (g\<lparr>g_receiveOpen := b\<rparr>) = gw_inv g"
  by (simp add: gw_inv_def store_ok_def pending_ok_def players_ok_def)

lemma gw_inv_index: "gw_inv g \<Longrightarrow> gw_inv (g\<lparr>g_clients := index k (g_clients g)\<rparr>)"
  by (simp add: gw_inv_def store_ok_def pending_ok_def players_ok_def table.exclusive_touch)

text \<open>Dropping a table entry together with the object it owns.\<close>

lemma gw_inv_destroy_unowned:
  assumes "gw_inv g" and "\<And>k. owned_at (g_pendingClients g) k \<noteq> Some a"
    and "\<And>k. owned_at (g_clients g) k \<noteq> Some a"
  shows "gw_inv (g\<lparr>g_store := (g_store g)(a := None)\<rparr>)"
proof -
  have "store_ok g" "pending_ok g" "players_ok g" using assms(1) by (simp_all add: gw_inv_def)
  then show ?thesis
    using assms(2,3) unfolding gw_inv_def store_ok_def pending_ok_def players_ok_def gw_sel
    by (auto split: if_splits)
qed

lemma gw_inv_erase_pending:
  assumes "gw_inv g"
  shows "gw_inv (g\<lparr>g_pendingClients := erase k (g_pendingClients g)\<rparr>)"
  using assms unfolding gw_inv_def store_ok_def pending_ok_def players_ok_def gw_sel
  by (auto simp: table.exclusive_remove)

lemma gw_inv_erase_clients:
  assumes "gw_inv g"
  shows "gw_inv (g\<lparr>g_clients := erase k (g_clients g)\<rparr>)"
  using assms unfolding gw_inv_def store_ok_def pending_ok_def players_ok_def gw_sel
  by (auto simp: table.exclusive_remove)

lemma owner_of_entry:
  assumes "gw_inv g"
  shows "owned_at (g_pendingClients g) k = Some a \<Longrightarrow> \<exists>c. g_store g a = Some c \<and> c_owner c = Owner_Login"
    and "owned_at (g_clients g) i = Some a \<Longrightarrow> \<exists>c. g_store g a = Some c \<and> c_owner c = Owner_ClientServer"
  using assms pending_okD(1) players_okD(1) unfolding gw_inv_def by blast+

lemma not_both:
  assumes "gw_inv g" "owned_at (g_pendingClients g) k = Some a"
  shows "owned_at (g_clients g) i \<noteq> Some a"
  using owner_of_entry [OF assms(1)] assms(2) by fastforce

lemma owner_cases_exclusive:
  "gw_inv g \<Longrightarrow> owned_at (g_pendingClients g) k = Some a \<Longrightarrow> owned_at (g_pendingClients g) j = Some a \<Longrightarrow> j = k"
  "gw_inv g \<Longrightarrow> owned_at (g_clients g) i = Some a \<Longrightarrow> owned_at (g_clients g) l = Some a \<Longrightarrow> l = i"
  unfolding gw_inv_def pending_ok_def players_ok_def table.exclusive_def by blast+

end
