(* ===== verification/Gateway_Invariant.thy ===== *)
theory Gateway_Invariant
  imports Gateway_System
begin

text \<open>
  The invariant of \<open>Gateway_System\<close> is kept by every handler, so it holds in every
  reachable state. Most of the code only appends to the trace, starts operations and changes
  fields of a connection the invariants do not look at: \<open>local_invariant\<close> is the contract of
  the invariants such code keeps, \<open>server_invariant\<close> adds the erasing of table entries, and
  \<open>client_owner\<close> is what a connection needs of the server that owns it.
\<close>

section \<open>Contracts\<close>

lemma keeps_get_client [triples]: "keeps I (get_client a)"
  by (simp add: keeps_def triple_def get_client_run split: option.split fault.split)

lemma keeps_remote_endpoint [triples]: "keeps I (remote_endpoint W a)"
  unfolding remote_endpoint_def by (intro triples)

lemma harmless_fields [simp]:
  "harmless c (c\<lparr>c_buffer := b\<rparr>)" "harmless c (c\<lparr>c_alive := v\<rparr>)"
  "harmless c (c\<lparr>c_open := v, c_handle := - 1\<rparr>)" "harmless c (c\<lparr>c_encrypt := e\<rparr>)"
  "harmless c (c\<lparr>c_decrypt := e\<rparr>)" "harmless c (c\<lparr>c_encrypt := e, c_decrypt := e'\<rparr>)"
  "harmless c (c\<lparr>c_userid := s\<rparr>)" "harmless c (c\<lparr>c_requestedUsername := s\<rparr>)"
  "harmless c (c\<lparr>c_requestedUsername := s, c_encrypted := v, c_buffer := b\<rparr>)"
  "harmless c (c\<lparr>c_lastSeen := n\<rparr>)" "harmless c (c\<lparr>c_verifyToken := t\<rparr>)"
  "harmless c (c\<lparr>c_encryptedBuffer := b\<rparr>)" "harmless c (c\<lparr>c_state := PLAY\<rparr>)"
  by (simp_all add: harmless_def)

locale local_invariant =
  fixes I :: "gateway \<Rightarrow> bool"
  assumes trace: "I g \<Longrightarrow> I (g\<lparr>g_trace := t\<rparr>)"
    and callbacks: "I g \<Longrightarrow> I (g\<lparr>g_callbacks := cs\<rparr>)"
    and update: "I g \<Longrightarrow> g_store g a = Some c \<Longrightarrow> harmless c d \<Longrightarrow>
      I (g\<lparr>g_store := (g_store g)(a \<mapsto> d)\<rparr>)"
begin

lemma keeps_emit: "keeps I (emit e)"
  unfolding emit_def by (rule keeps_modify) (rule trace)

lemma keeps_async: "keeps I (async cb)"
  unfolding async_def by (rule keeps_modify) (rule callbacks)

lemma keeps_upd_client: "(\<And>c. harmless c (f c)) \<Longrightarrow> keeps I (upd_client a f)"
  by (auto simp: keeps_def triple_def upd_client_run update split: option.split fault.split)

lemmas basic = triples keeps_emit keeps_async keeps_upd_client

lemma keeps_encrypt: "keeps I (encrypt W a bs)"
  unfolding encrypt_def by (auto intro!: basic split: option.split)

lemma keeps_decrypt: "keeps I (decrypt W a bs)"
  unfolding decrypt_def by (auto intro!: basic split: option.split)

lemma keeps_sendData: "keeps I (sendData W a data)"
  unfolding sendData_def by (auto intro!: basic keeps_encrypt split: option.split)

lemma keeps_send: "keeps I (send W a p)"
  unfolding send_def sendPacket_def by (auto intro!: basic keeps_sendData)

lemma keeps_send_new: "keeps I (send_new W a sd st i)"
  unfolding send_new_def by (auto intro!: basic keeps_send split: option.split)

lemma keeps_cancel_socket: "keeps I (cancel_socket a)"
  unfolding cancel_socket_def by (auto intro!: basic)

lemma keeps_close_socket: "keeps I (close_socket W a)"
  unfolding close_socket_def by (auto intro!: basic)

lemma keeps_take_read: "keeps I (take_read W a data)"
  unfolding take_read_def Let_def by (auto intro!: basic keeps_decrypt split: option.split)

lemma keeps_next_frame: "keeps I (next_frame W a)"
  unfolding next_frame_def by (auto intro!: basic split: prod.split)

lemma keeps_authWithMojang: "keeps I (authWithMojang W a digest)"
  unfolding authWithMojang_def by (auto intro!: basic)

lemma keeps_receive_encryption_response: "keeps I (receive_encryption_response W a p)"
  unfolding receive_encryption_response_def
  by (auto intro!: basic keeps_authWithMojang split: option.split)

lemma keeps_session_handlers:
  "keeps I (connectedToMojang W a request e)"
  "keeps I (sslHandshakeComplete a request e)"
  "keeps I (sendHTTPRequestDone a e)"
  "keeps I (readHTTPHeader W a received)"
  unfolding connectedToMojang_def sslHandshakeComplete_def sendHTTPRequestDone_def readHTTPHeader_def
  by (auto intro!: basic keeps_cancel_socket split: option.split http_header.split sum.split fault.split)

lemmas local_rules = basic keeps_sendData keeps_send keeps_send_new keeps_cancel_socket
  keeps_close_socket keeps_take_read keeps_next_frame keeps_receive_encryption_response
  keeps_session_handlers

end

locale server_invariant = local_invariant +
  assumes touch_clients: "I g \<Longrightarrow> I (g\<lparr>g_clients := index k (g_clients g)\<rparr>)"
    and flags: "I g \<Longrightarrow> I (g\<lparr>g_receiveOpen := b\<rparr>)"
    and drop_pending: "keeps I (erase_pending h)"
    and drop_client: "keeps I (erase_clients k)"
begin

lemma keeps_owner_clientDisconnected: "keeps I (owner_clientDisconnected W w a)"
  unfolding owner_clientDisconnected_def Login_clientDisconnected_def
    ClientServer_clientDisconnected_def getClientId_def
  by (cases w) (auto intro!: basic drop_pending drop_client)

lemma keeps_index_clients: "keeps I (index_clients k)"
  unfolding index_clients_def by (intro basic keeps_modify) (rule touch_clients)

lemma keeps_handleMessage: "keeps I (handleMessage W m)"
  unfolding handleMessage_def
  by (auto intro!: basic keeps_index_clients keeps_sendData split: option.split message_id.split)

lemma keeps_onDataReceived: "keeps I (onDataReceived W r)"
  unfolding onDataReceived_def startAsyncReceive_def
  by (auto intro!: basic keeps_handleMessage split: received_datagram.split prod.split)

end

text \<open>What a connection relies on when it calls its owner through the base class.\<close>

definition in_play :: "address \<Rightarrow> gateway \<Rightarrow> bool" where
  "in_play a g \<longleftrightarrow> (\<forall>c. g_store g a = Some c \<longrightarrow> c_state c = PLAY)"

locale client_owner = local_invariant +
  fixes notify :: "owner_ref \<Rightarrow> address \<Rightarrow> unit gw"
  assumes notify_keeps: "keeps I (notify w a)"
begin

lemma keeps_disconnect_via: "keeps I (disconnect_via notify W a)"
  unfolding disconnect_via_def
  by (auto intro!: basic keeps_close_socket notify_keeps)

end

sublocale server_invariant \<subseteq> owner: client_owner I "owner_clientDisconnected W" for W
  by unfold_locales (rule keeps_owner_clientDisconnected)

section \<open>Handlers\<close>

lemma keeps_bind_client:
  assumes "\<And>c. triple (\<lambda>g. I g \<and> g_store g a = Some c) (f c) (\<lambda>_. I) I"
  shows "keeps I (bind (get_client a) f)"
  unfolding keeps_def
proof (rule triple_bind [OF _ assms])
  show "triple I (get_client a) (\<lambda>c g. I g \<and> g_store g a = Some c) I"
    by (auto simp: triple_def get_client_run split: option.split)
qed

lemma keeps_triple: "keeps I m \<Longrightarrow> triple (\<lambda>g. I g \<and> P g) m (\<lambda>_. I) I"
  unfolding keeps_def by (erule triple_weaken) simp_all

context local_invariant
begin

text \<open>The handshake changes the state only where it is not the play state.\<close>

lemma setState_handshake:
  "c_state c = HANDSHAKE \<Longrightarrow>
    triple (\<lambda>g. I g \<and> g_store g a = Some c) (setState a s) (\<lambda>_. I) I"
  by (auto simp: triple_def setState_def upd_client_run intro!: update simp: harmless_def)

end

context server_invariant
begin

lemma keeps_disconnect: "keeps I (disconnect W a)"
  unfolding disconnect_def by (rule owner.keeps_disconnect_via)

lemma keeps_onWriteComplete: "keeps I (onWriteComplete W a e)"
  unfolding onWriteComplete_def by (auto intro!: basic keeps_disconnect)

lemma keeps_keepAlive: "keeps I (keepAlive W a e)"
  unfolding keepAlive_def
  by (auto intro!: local_rules keeps_disconnect split: option.split any_packet.split)

lemma keeps_receivedMessage:
  assumes "\<And>r. keeps I (receive_login_start W a r)"
  shows "keeps I (receivedMessage W sd a p)"
proof -
  have by_state: "triple (\<lambda>g. I g \<and> g_store g a = Some c) (handle_by_state W a c p) (\<lambda>_. I) I"
    for c :: client
  proof (cases "\<exists>h. c_state c = HANDSHAKE \<and> p = P_Handshake h")
    case True
    then show ?thesis by (auto simp: handle_by_state_def intro: setState_handshake)
  next
    case False
    then have "keeps I (handle_by_state W a c p)"
      by (cases "c_state c"; cases p)
        (auto simp: handle_by_state_def intro!: basic keeps_send keeps_receive_encryption_response assms)
    then show ?thesis by (rule keeps_triple)
  qed
  have all: "keeps I (bind (get_client a) (\<lambda>c.
         if c_owner c = Owner_None then disconnect W a
         else bind (owner_onPacketReceived (c_owner c) sd a p) (\<lambda>handled.
           if handled then ret () else handle_by_state W a c p)))"
  proof (rule keeps_bind_client)
    fix c :: client
    have owner: "bind (owner_onPacketReceived (c_owner c) sd a p)
        (\<lambda>handled. if handled then ret () else handle_by_state W a c p) = handle_by_state W a c p"
      by (rule ext) (simp add: owner_onPacketReceived_def ClientOwner_onPacketReceived_def)
    show "triple (\<lambda>g. I g \<and> g_store g a = Some c)
        (if c_owner c = Owner_None then disconnect W a
         else bind (owner_onPacketReceived (c_owner c) sd a p)
           (\<lambda>handled. if handled then ret () else handle_by_state W a c p)) (\<lambda>_. I) I"
      unfolding owner by (cases "c_owner c = Owner_None") (auto intro: by_state keeps_triple keeps_disconnect)
  qed
  show ?thesis
  proof (cases p)
    case (P_Ping q)
    then show ?thesis
      unfolding receivedMessage_def getState_def by (auto intro!: local_rules)
  next
    case (P_KeepAlive q)
    then show ?thesis
      unfolding receivedMessage_def by (auto intro!: local_rules)
  qed (use all in \<open>auto simp: receivedMessage_def\<close>)
qed

lemma keeps_onLengthReceive:
  assumes "\<And>r. keeps I (receive_login_start W a r)"
  shows "keeps I (onLengthReceive W a received)"
  unfolding onLengthReceive_def startAsyncRead_def
  by (auto intro!: local_rules keeps_disconnect keeps_receivedMessage assms split: option.split)

end

end
