(* ===== verification/Gateway_Admission.thy ===== *)
theory Gateway_Admission
  imports Gateway_Invariant
begin

text \<open>
  Which connections can enter the table of players. The invariants here are the one of
  \<open>Gateway_System\<close> together with a bound on the set of players, at the points of a login
  between which the connection changes hands.
\<close>

definition players :: "gateway \<Rightarrow> address set" where
  "players g = {a. \<exists>k. owned_at (g_clients g) k = Some a}"

definition admitted :: "address set \<Rightarrow> gateway \<Rightarrow> bool" where
  "admitted S g \<longleftrightarrow> gw_inv g \<and> players g \<subseteq> S"

text \<open>A connection from another machine.\<close>

definition outsider :: "address \<Rightarrow> address set \<Rightarrow> gateway \<Rightarrow> bool" where
  "outsider a S g \<longleftrightarrow> admitted S g \<and> (\<forall>c. g_store g a = Some c \<longrightarrow> \<not> c_loopback c)"

text \<open>A connection whose state is the play state, about to be handed over.\<close>

definition ready :: "address \<Rightarrow> address set \<Rightarrow> gateway \<Rightarrow> bool" where
  "ready a S g \<longleftrightarrow> admitted S g \<and> in_play a g"

text \<open>A connection on its way from one table to the other.\<close>

definition waiting :: "address \<Rightarrow> address set \<Rightarrow> gateway \<Rightarrow> bool" where
  "waiting a S g \<longleftrightarrow> admitted S g \<and> (\<forall>k. owned_at (g_pendingClients g) k \<noteq> Some a) \<and> a \<notin> players g \<and>
     (\<exists>c. g_store g a = Some c \<and> c_owner c = Owner_ClientServer \<and> c_state c = PLAY)"

section \<open>The invariants\<close>

lemma players_simps [simp]:
  "players (g\<lparr>g_trace := t\<rparr>) = players g" "players (g\<lparr>g_callbacks := cs\<rparr>) = players g"
  "players (g\<lparr>g_store := h\<rparr>) = players g" "players (g\<lparr>g_pendingClients := m\<rparr>) = players g"
  "players (g\<lparr>g_receiveOpen := b\<rparr>) = players g" "players (g\<lparr>g_next := n\<rparr>) = players g"
  "players (g\<lparr>g_clients := index k (g_clients g)\<rparr>) = players g"
  by (simp_all add: players_def)

lemma players_erase: "players (g\<lparr>g_clients := erase k (g_clients g)\<rparr>) \<subseteq> players g"
  by (auto simp: players_def split: if_splits)

lemma gw_inv_destroy_erased:
  assumes "gw_inv g"
  shows "owned_at (g_pendingClients g) k = Some a \<Longrightarrow>
      gw_inv (g\<lparr>g_pendingClients := erase k (g_pendingClients g), g_store := (g_store g)(a := None)\<rparr>)"
    and "owned_at (g_clients g) i = Some a \<Longrightarrow>
      gw_inv (g\<lparr>g_clients := erase i (g_clients g), g_store := (g_store g)(a := None)\<rparr>)"
proof -
  assume k: "owned_at (g_pendingClients g) k = Some a"
  let ?g = "g\<lparr>g_pendingClients := erase k (g_pendingClients g)\<rparr>"
  have "owned_at (g_pendingClients ?g) j \<noteq> Some a" for j
    using owner_cases_exclusive(1) [OF assms k, of j] by (cases "j = k") auto
  moreover have "owned_at (g_clients ?g) j \<noteq> Some a" for j
    using not_both [OF assms k] by simp
  ultimately show "gw_inv (g\<lparr>g_pendingClients := erase k (g_pendingClients g),
      g_store := (g_store g)(a := None)\<rparr>)"
    using gw_inv_destroy_unowned [OF gw_inv_erase_pending [OF assms], of k a] by simp
next
  assume i: "owned_at (g_clients g) i = Some a"
  let ?g = "g\<lparr>g_clients := erase i (g_clients g)\<rparr>"
  have "owned_at (g_clients ?g) j \<noteq> Some a" for j
    using owner_cases_exclusive(2) [OF assms i, of j] by (cases "j = i") auto
  moreover have "owned_at (g_pendingClients ?g) j \<noteq> Some a" for j
    using not_both [OF assms, of j a i] i by auto
  ultimately show "gw_inv (g\<lparr>g_clients := erase i (g_clients g), g_store := (g_store g)(a := None)\<rparr>)"
    using gw_inv_destroy_unowned [OF gw_inv_erase_clients [OF assms], of i a] by simp
qed

lemma admitted_drop:
  "keeps (admitted S) (erase_pending h)" "keeps (admitted S) (erase_clients k)"
  using players_erase
  by (fastforce simp: keeps_def triple_def erase_pending_def erase_clients_def destroy_def
      admitted_def gw_inv_erase_pending gw_inv_erase_clients gw_inv_destroy_erased
      split: option.split)+

interpretation adm: server_invariant "admitted S" for S
  by (unfold_locales; (rule admitted_drop)?) (auto simp: admitted_def gw_inv_upd gw_inv_index)

lemma outsider_drop:
  "keeps (outsider a S) (erase_pending h)" "keeps (outsider a S) (erase_clients k)"
proof -
  have "keeps (\<lambda>g. \<forall>c. g_store g a = Some c \<longrightarrow> \<not> c_loopback c) (erase_pending h)"
    "keeps (\<lambda>g. \<forall>c. g_store g a = Some c \<longrightarrow> \<not> c_loopback c) (erase_clients k)"
    by (auto simp: keeps_def triple_def erase_pending_def erase_clients_def destroy_def
        split: option.split)
  then show "keeps (outsider a S) (erase_pending h)" "keeps (outsider a S) (erase_clients k)"
    using admitted_drop
    unfolding outsider_def by (auto intro: keeps_conj)
qed

interpretation outsider: server_invariant "outsider a S" for a S
  by (unfold_locales; (rule outsider_drop)?)
    (auto simp: outsider_def admitted_def gw_inv_upd gw_inv_index harmless_def split: if_splits)

interpretation ready: local_invariant "ready a S" for a S
  by unfold_locales
    (auto simp: ready_def in_play_def admitted_def gw_inv_upd harmless_def split: if_splits)

interpretation waiting: local_invariant "waiting a S" for a S
  by unfold_locales
    (auto simp: waiting_def admitted_def gw_inv_upd harmless_def split: if_splits)

section \<open>The handover\<close>

lemma waiting_destroy: "waiting a S g \<Longrightarrow> admitted S (g\<lparr>g_store := (g_store g)(a := None)\<rparr>)"
  by (auto simp: waiting_def admitted_def players_def intro!: gw_inv_destroy_unowned)

lemma triple_owning:
  assumes "triple P m Q (waiting a S)" and "S \<subseteq> T"
  shows "triple P (owning a m) Q (admitted T)"
  using assms waiting_destroy [of a S]
  unfolding triple_def owning_def admitted_def
  by (fastforce split: prod.splits sum.splits fault.splits)

lemma gw_inv_assign_clients:
  assumes w: "waiting a S g"
  shows "gw_inv (g\<lparr>g_clients := assign k (Some a) (g_clients g)\<rparr>)"
proof -
  obtain c where c: "g_store g a = Some c" "c_owner c = Owner_ClientServer" "c_state c = PLAY"
    and inv: "gw_inv g" and new: "\<And>j. owned_at (g_clients g) j \<noteq> Some a"
    using w by (auto simp: waiting_def admitted_def players_def)
  then show ?thesis
    unfolding gw_inv_def store_ok_def pending_ok_def players_ok_def gw_sel
    by (auto intro!: table.exclusive_store)
qed

lemma assign_clients_waiting:
  "triple (waiting a S) (assign_clients k a) (\<lambda>_. admitted (insert a S)) E"
proof (rule tripleI)
  fix g x g'
  assume w: "waiting a S g" and run: "assign_clients k a g = (Inr x, g')"
  let ?g = "g\<lparr>g_clients := assign k (Some a) (g_clients g)\<rparr>"
  have inv: "gw_inv ?g" using gw_inv_assign_clients [OF w] .
  have sub: "players ?g \<subseteq> insert a S"
    using w by (auto simp: players_def waiting_def admitted_def split: if_splits)
  show "admitted (insert a S) g'"
  proof (cases "owned_at (g_clients g) k")
    case None
    then show ?thesis using run inv sub by (simp add: assign_clients_def destroy_def admitted_def)
  next
    case (Some b)
    have inv_g: "gw_inv g" and ab: "b \<noteq> a"
      using w Some by (auto simp: waiting_def admitted_def players_def)
    have "owned_at (g_clients ?g) j \<noteq> Some b" for j
      using owner_cases_exclusive(2) [OF inv_g Some, of j] ab by (cases "j = k") auto
    moreover have "owned_at (g_pendingClients ?g) j \<noteq> Some b" for j
      using not_both [OF inv_g, of j b k] Some by auto
    ultimately have "gw_inv (?g\<lparr>g_store := (g_store ?g)(b := None)\<rparr>)"
      using gw_inv_destroy_unowned [OF inv] by blast
    moreover have "players (?g\<lparr>g_store := (g_store ?g)(b := None)\<rparr>) \<subseteq> insert a S"
      using sub by simp
    moreover have "g' = ?g\<lparr>g_store := (g_store ?g)(b := None)\<rparr>"
      using run Some by (simp add: assign_clients_def destroy_def)
    ultimately show ?thesis unfolding admitted_def by simp
  qed
qed (simp add: assign_clients_def destroy_def split: option.splits)

lemma triple_bind_keep:
  "keeps P m \<Longrightarrow> (\<And>s. P s \<Longrightarrow> E s) \<Longrightarrow> (\<And>x. triple P (f x) Q E) \<Longrightarrow> triple P (bind m f) Q E"
  unfolding keeps_def by (rule triple_bind [where R = "\<lambda>_. P"]) (auto elim: triple_weaken)

lemma addClient_admits:
  "triple (waiting a S) (addClient W a) (\<lambda>_. admitted (insert a S)) (admitted (insert a S))"
  unfolding addClient_def
proof (rule triple_owning [where S = S])
  let ?K = "waiting a S" and ?Q = "\<lambda>_. admitted (insert a S)"
  have last: "triple ?K (bind (getClientId a) (\<lambda>i. assign_clients i a)) ?Q ?K"
    unfolding getClientId_def
    by (rule triple_bind_keep) (auto intro!: waiting.basic assign_clients_waiting)
  have blocks: "triple ?K (block [emit e, db, send_new W a sd1 st1 i1, send_new W a sd2 st2 i2,
      send_new W a sd3 st3 i3, send_new W a sd4 st4 i4,
      bind (getClientId a) (\<lambda>i. assign_clients i a)]) ?Q ?K"
    if "keeps ?K db" for e db sd1 st1 i1 sd2 st2 i2 sd3 st3 i3 sd4 st4 i4
    by (intro triple_block_keep waiting.keeps_emit that waiting.keeps_send_new triple_block_last last)
  show "triple ?K (bind (getClientId a) (\<lambda>i.
     bind (block [
       emit (DbQuery (select_player i)),
       (case w_db_rows W (select_player i) of
          Some n \<Rightarrow> if n > 0 then ret () else emit (DbExec (insert_player i))
        | None \<Rightarrow> emit (DbExec (insert_player i))),
       send_new W a CLIENT_BOUND PLAY 0x01,
       send_new W a CLIENT_BOUND PLAY 0x05,
       send_new W a CLIENT_BOUND PLAY 0x08,
       send_new W a CLIENT_BOUND PLAY 0x39,
       bind (getClientId a) (\<lambda>i. assign_clients i a)]) (\<lambda>_. ret True))) ?Q ?K"
  proof (rule triple_bind_keep)
    show "keeps ?K (getClientId a)"
      unfolding getClientId_def by (auto intro!: waiting.basic)
    fix i
    show "triple ?K (bind (block [
       emit (DbQuery (select_player i)),
       (case w_db_rows W (select_player i) of
          Some n \<Rightarrow> if n > 0 then ret () else emit (DbExec (insert_player i))
        | None \<Rightarrow> emit (DbExec (insert_player i))),
       send_new W a CLIENT_BOUND PLAY 0x01,
       send_new W a CLIENT_BOUND PLAY 0x05,
       send_new W a CLIENT_BOUND PLAY 0x08,
       send_new W a CLIENT_BOUND PLAY 0x39,
       bind (getClientId a) (\<lambda>i. assign_clients i a)]) (\<lambda>_. ret True)) ?Q ?K"
      by (rule triple_bind [OF blocks]) (auto intro!: waiting.basic triple_ret split: option.split)
  qed simp
qed auto

lemma gw_inv_take_pending:
  assumes "gw_inv g"
  shows "gw_inv (g\<lparr>g_pendingClients := assign k None (g_pendingClients g)\<rparr>)"
  using assms unfolding gw_inv_def store_ok_def pending_ok_def players_ok_def gw_sel
  by (auto intro!: table.exclusive_store split: if_splits)

lemma gw_inv_setOwner:
  assumes "gw_inv g" and "g_store g a = Some c"
    and "\<And>k. owned_at (g_pendingClients g) k \<noteq> Some a" and "\<And>k. owned_at (g_clients g) k \<noteq> Some a"
  shows "gw_inv (g\<lparr>g_store := (g_store g)(a \<mapsto> c\<lparr>c_owner := w\<rparr>)\<rparr>)"
proof -
  have ok: "store_ok g" "pending_ok g" "players_ok g" using assms(1) by (simp_all add: gw_inv_def)
  have "store_ok (g\<lparr>g_store := (g_store g)(a \<mapsto> c\<lparr>c_owner := w\<rparr>)\<rparr>)"
    unfolding store_ok_def gw_sel
  proof (intro conjI allI impI)
    have old: "\<exists>d'. g_store g b = Some d' \<and> c_handle d = c_handle d' \<and>
        c_compressionThreshold d = c_compressionThreshold d'"
      if "((g_store g)(a \<mapsto> c\<lparr>c_owner := w\<rparr>)) b = Some d" for b d
      using that assms(2) by (auto split: if_splits)
    fix b b' d d'
    assume b: "((g_store g)(a \<mapsto> c\<lparr>c_owner := w\<rparr>)) b = Some d"
    show "b < g_next g" "c_compressionThreshold d = - 1"
      using old [OF b] store_okD(1,2) [OF ok(1)] by auto
    assume "((g_store g)(a \<mapsto> c\<lparr>c_owner := w\<rparr>)) b' = Some d'"
      "c_handle d = c_handle d'" "c_handle d \<noteq> - 1"
    then show "b = b'" using old [OF b] old store_okD(3) [OF ok(1)] by metis
  qed
  moreover have "pending_ok (g\<lparr>g_store := (g_store g)(a \<mapsto> c\<lparr>c_owner := w\<rparr>)\<rparr>)"
    unfolding pending_ok_def gw_sel
  proof (intro conjI allI impI)
    fix k b
    assume k: "owned_at (g_pendingClients g) k = Some b"
    then have "b \<noteq> a" using assms(3) by auto
    then show "\<exists>d. ((g_store g)(a \<mapsto> c\<lparr>c_owner := w\<rparr>)) b = Some d \<and> c_owner d = Owner_Login \<and>
        (c_handle d = k \<or> c_handle d = - 1)"
      using pending_okD(1) [OF ok(2) k] by simp
  next
    fix k b b' d
    assume k: "owned_at (g_pendingClients g) k = Some b"
      and "((g_store g)(a \<mapsto> c\<lparr>c_owner := w\<rparr>)) b' = Some d" "c_handle d = k"
    then obtain d' where "g_store g b' = Some d'" "c_handle d' = k"
      using assms(2) by (auto split: if_splits)
    then show "b = b'" using pending_okD(2) [OF ok(2) k] by blast
  qed (use pending_okD(3,4) [OF ok(2)] in auto)
  moreover have "players_ok (g\<lparr>g_store := (g_store g)(a \<mapsto> c\<lparr>c_owner := w\<rparr>)\<rparr>)"
    unfolding players_ok_def gw_sel
  proof (intro conjI allI impI)
    fix k b
    assume k: "owned_at (g_clients g) k = Some b"
    then have "b \<noteq> a" using assms(4) by auto
    then show "\<exists>d. ((g_store g)(a \<mapsto> c\<lparr>c_owner := w\<rparr>)) b = Some d \<and>
        c_owner d = Owner_ClientServer \<and> c_state d = PLAY"
      using players_okD(1) [OF ok(3) k] by simp
  qed (use players_okD(2) [OF ok(3)] in auto)
  ultimately show ?thesis by (simp add: gw_inv_def)
qed

text \<open>
  The connection found under the descriptor is the one that asked to be handed over, and on
  the way it belongs to no table.
\<close>

lemma handoff_run:
  assumes r: "ready a S g" and a: "g_store g a = Some c"
  shows "(\<exists>g'. Login_handoffClient W a g = (Inr (), g') \<and> admitted S g') \<or>
    (\<exists>g'. Login_handoffClient W a g = bind (addClient W a) (\<lambda>_. ret ()) g' \<and> waiting a S g')"
proof -
  let ?k = "c_handle c"
  let ?g1 = "g\<lparr>g_pendingClients := assign ?k None (g_pendingClients g)\<rparr>"
  have inv: "gw_inv g" and sub: "players g \<subseteq> S" and play: "c_state c = PLAY"
    using r a by (auto simp: ready_def admitted_def in_play_def)
  have inv1: "gw_inv ?g1" using gw_inv_take_pending [OF inv] .
  show ?thesis
  proof (cases "owned_at (g_pendingClients g) ?k")
    case None
    then show ?thesis using a inv1 sub
      by (simp add: Login_handoffClient_def bind_get_client admitted_def)
  next
    case (Some b)
    then have b: "b = a"
      using pending_okD(2) [of g ?k b a c] inv a by (simp add: gw_inv_def)
    let ?g2 = "?g1\<lparr>g_pendingClients := erase ?k (g_pendingClients ?g1)\<rparr>"
    let ?g3 = "?g2\<lparr>g_store := (g_store ?g2)(a \<mapsto> c\<lparr>c_owner := Owner_ClientServer\<rparr>)\<rparr>"
    have run: "Login_handoffClient W a g = bind (addClient W a) (\<lambda>_. ret ()) ?g3"
      using Some a unfolding b
      by (simp add: Login_handoffClient_def bind_get_client setOwner_def bind_upd_client)
    have inv2: "gw_inv ?g2" using gw_inv_erase_pending [OF inv1] .
    have p: "owned_at (g_pendingClients ?g2) j \<noteq> Some a" for j
      using owner_cases_exclusive(1) [OF inv Some [unfolded b], of j] by (cases "j = ?k") auto
    have q: "owned_at (g_clients ?g2) j \<noteq> Some a" for j
      using not_both [OF inv Some [unfolded b]] by simp
    have "g_store ?g2 a = Some c" using a by simp
    then have "gw_inv ?g3" using gw_inv_setOwner [OF inv2 _ p q] by blast
    then have "waiting a S ?g3"
      using p q sub play by (auto simp: waiting_def admitted_def players_def)
    with run show ?thesis by blast
  qed
qed

lemma admitted_mono: "admitted S g \<Longrightarrow> S \<subseteq> T \<Longrightarrow> admitted T g"
  by (auto simp: admitted_def)

lemma handoff_admits:
  "triple (ready a S) (owner_handoffClient W w a) (\<lambda>_. admitted (insert a S)) (admitted (insert a S))"
proof (cases "w = Owner_Login")
  case True
  have tail: "triple (waiting a S) (bind (addClient W a) (\<lambda>_. ret ())) (\<lambda>_. admitted (insert a S))
      (admitted (insert a S))"
    by (rule triple_bind [OF addClient_admits]) (rule triple_ret)
  show ?thesis
    unfolding True owner_handoffClient_def owner_ref.case
  proof (rule tripleI)
    fix g x g'
    assume r: "ready a S g" and run: "Login_handoffClient W a g = (Inr x, g')"
    then obtain c where "g_store g a = Some c"
      by (auto simp: Login_handoffClient_def bind_get_client split: option.splits)
    from handoff_run [OF r this, of W] show "admitted (insert a S) g'"
    proof (elim disjE exE conjE)
      fix g1
      assume "Login_handoffClient W a g = (Inr (), g1)" "admitted S g1"
      then show ?thesis using run by (auto elim: admitted_mono)
    next
      fix g1
      assume "Login_handoffClient W a g = bind (addClient W a) (\<lambda>_. ret ()) g1" "waiting a S g1"
      then show ?thesis using run triple_Inr [OF tail, of g1 x g'] by simp
    qed
  next
    fix g e g'
    assume r: "ready a S g" and run: "Login_handoffClient W a g = (Inl (Throw e), g')"
    then obtain c where "g_store g a = Some c"
      by (auto simp: Login_handoffClient_def bind_get_client split: option.splits)
    from handoff_run [OF r this, of W] show "admitted (insert a S) g'"
    proof (elim disjE exE conjE)
      fix g1
      assume "Login_handoffClient W a g = (Inr (), g1)"
      then show ?thesis using run by simp
    next
      fix g1
      assume "Login_handoffClient W a g = bind (addClient W a) (\<lambda>_. ret ()) g1" "waiting a S g1"
      then show ?thesis using run triple_Throw [OF tail, of g1 e g'] by simp
    qed
  qed
next
  case False
  then show ?thesis
    by (cases w) (auto simp: owner_handoffClient_def triple_def ready_def elim: admitted_mono)
qed

section \<open>Logging in\<close>

text \<open>What a connection relies on when it asks its owner to hand it over.\<close>

locale login_owner =
  fixes handoff :: "owner_ref \<Rightarrow> address \<Rightarrow> unit gw"
  assumes handoff_contract:
    "triple (ready a S) (handoff w a) (\<lambda>_. admitted (insert a S)) (admitted (insert a S))"
begin

lemma setState_PLAY: "triple (admitted S) (setState a PLAY) (\<lambda>_. ready a S) E"
proof (rule tripleI)
  fix g x g'
  assume g: "admitted S g" and run: "setState a PLAY g = (Inr x, g')"
  then obtain c where c: "g_store g a = Some c" "g' = g\<lparr>g_store := (g_store g)(a \<mapsto> c\<lparr>c_state := PLAY\<rparr>)\<rparr>"
    by (auto simp: setState_def upd_client_run split: option.splits)
  then have "admitted S g'" using adm.update [OF g c(1)] by simp
  with c show "ready a S g'" by (simp add: ready_def in_play_def)
qed (simp add: setState_def upd_client_run split: option.splits)

lemma onPlayerLogin_admits:
  "triple (admitted S) (onPlayerLogin_via handoff W a) (\<lambda>_. admitted (insert a S)) (admitted (insert a S))"
proof -
  have sub: "admitted S g \<Longrightarrow> admitted (insert a S) g" for g by (auto elim: admitted_mono)
  have ready: "ready a S g \<Longrightarrow> admitted (insert a S) g" for g by (auto simp: ready_def intro: sub)
  have tail: "triple (admitted S) (block [send W a q, setState a PLAY,
      upd_client a (\<lambda>c. c\<lparr>c_lastSeen := w_now W\<rparr>), async (CB_keepAlive a),
      bind (get_client a) (\<lambda>c. handoff (c_owner c) a)]) (\<lambda>_. admitted (insert a S))
      (admitted (insert a S))" for q
    by (rule triple_block_keep [OF adm.keeps_send sub]; (rule triple_block_step [OF setState_PLAY])?)
      (auto intro!: triple_block_keep triple_block_last triple_bind_keep handoff_contract
        ready.basic ready)
  show ?thesis
    unfolding onPlayerLogin_via_def
    by (rule triple_bind_keep)
      (auto intro!: triples tail sub simp: triple_fault simp del: block.simps
        split: option.split any_packet.split)
qed

end

interpretation login: login_owner "owner_handoffClient W" for W
  by unfold_locales (rule handoff_admits)

lemma keeps_onPlayerLogin:
  assumes "a \<in> S" shows "keeps (admitted S) (onPlayerLogin W a)"
  using login.onPlayerLogin_admits [of S W W a] assms
  by (simp add: keeps_def onPlayerLogin_def insert_absorb)

lemma keeps_receive_login_start:
  assumes "a \<in> S" shows "keeps (admitted S) (receive_login_start W a r)"
  unfolding receive_login_start_def
  by (auto intro!: adm.local_rules keeps_onPlayerLogin assms split: option.split any_packet.split)

lemma keeps_onHasJoinedPostComplete:
  assumes "a \<in> S" shows "keeps (admitted S) (onHasJoinedPostComplete W a data e n)"
  unfolding onHasJoinedPostComplete_def Let_def
  by (auto intro!: adm.local_rules keeps_onPlayerLogin assms split: option.split)

text \<open>A connection from another machine does not log in by its login request alone.\<close>

lemma keeps_receive_login_start_outsider:
  "keeps (outsider a S) (receive_login_start W a r)"
proof -
  let ?I = "outsider a S"
  have remote: "triple ?I (remote_endpoint W a) (\<lambda>l g. \<not> l \<and> ?I g) ?I"
    by (auto simp: triple_def remote_endpoint_def bind_get_client outsider_def split: option.split)
  have request: "keeps ?I (case newPacket (w_cpp W) CLIENT_BOUND LOGIN 0x01 of
           Some (P_Encryption response) \<Rightarrow> block [
             upd_client a (\<lambda>c. c\<lparr>c_verifyToken := w_random W\<rparr>),
             send W a (P_Encryption (response\<lparr>publickKey := str_of (w_public_key W),
                                              clearVerifyToken := w_random W\<rparr>))]
         | _ \<Rightarrow> fault (UB NullDeref))"
    by (auto intro!: outsider.local_rules split: option.split any_packet.split)
  have branch: "triple (\<lambda>g. \<not> l \<and> ?I g) (if l then m else n) (\<lambda>_. ?I) ?I"
    if "keeps ?I n" for l m and n :: "unit gw"
    using that by (cases l) (auto simp: keeps_def triple_def)
  show ?thesis
    unfolding receive_login_start_def keeps_def
    by (rule triple_bind_keep; (rule triple_bind [OF remote branch])?)
      (auto intro!: outsider.local_rules request)
qed

section \<open>Accepting\<close>

lemma owned_in_store:
  assumes "gw_inv g"
  shows "owned_at (g_pendingClients g) k = Some a \<Longrightarrow> a < g_next g"
    and "owned_at (g_clients g) i = Some a \<Longrightarrow> a < g_next g"
  using owner_of_entry [OF assms] assms store_okD(1) unfolding gw_inv_def by blast+

lemma gw_inv_accept:
  assumes inv: "gw_inv g" and h: "h \<noteq> - 1"
    and fresh: "\<And>b c. g_store g b = Some c \<Longrightarrow> c_handle c \<noteq> h"
    and new: "c_handle n = h" "c_owner n = Owner_Login" "c_compressionThreshold n = - 1"
  shows "gw_inv (g\<lparr>g_next := Suc (g_next g), g_store := (g_store g)(g_next g \<mapsto> n),
    g_pendingClients := assign h (Some (g_next g)) (g_pendingClients g)\<rparr>)"
proof -
  let ?a = "g_next g"
  have ok: "store_ok g" "pending_ok g" "players_ok g" using inv by (simp_all add: gw_inv_def)
  have old: "a < ?a" if "g_store g a = Some c" for a c
    using store_okD(1) [OF ok(1) that] .
  have unowned: "owned_at (g_pendingClients g) k \<noteq> Some ?a" "owned_at (g_clients g) i \<noteq> Some ?a" for k i
    using owned_in_store(1) [OF inv, of k ?a] owned_in_store(2) [OF inv, of i ?a] by auto
  let ?g = "g\<lparr>g_next := Suc ?a, g_store := (g_store g)(?a \<mapsto> n),
    g_pendingClients := assign h (Some ?a) (g_pendingClients g)\<rparr>"
  have s: "g_store ?g = (g_store g)(?a \<mapsto> n)" "g_next ?g = Suc ?a" "g_clients ?g = g_clients g"
    "g_pendingClients ?g = assign h (Some ?a) (g_pendingClients g)" by simp_all
  have "store_ok ?g"
    unfolding store_ok_def s
  proof (intro conjI allI impI)
    fix b b' c c'
    assume b: "((g_store g)(?a \<mapsto> n)) b = Some c"
    then show "b < Suc ?a" using old by (auto split: if_splits dest: less_SucI)
    show "c_compressionThreshold c = - 1"
      using b new store_okD(2) [OF ok(1)] by (auto split: if_splits)
    assume "((g_store g)(?a \<mapsto> n)) b' = Some c'" "c_handle c = c_handle c'" "c_handle c \<noteq> - 1"
    then show "b = b'"
      using b new fresh store_okD(3) [OF ok(1), of b c b' c'] by (auto split: if_splits)
  qed
  moreover have "pending_ok ?g"
    unfolding pending_ok_def s
  proof (intro conjI allI impI)
    show "table.exclusive (assign h (Some ?a) (g_pendingClients g))"
      using pending_okD(3) [OF ok(2)] unowned by (auto intro!: table.exclusive_store)
    show "owned_at (assign h (Some ?a) (g_pendingClients g)) (- 1) = None"
      using pending_okD(4) [OF ok(2)] h by simp
  next
    fix k b
    assume "owned_at (assign h (Some ?a) (g_pendingClients g)) k = Some b"
    then show "\<exists>c. ((g_store g)(?a \<mapsto> n)) b = Some c \<and> c_owner c = Owner_Login \<and>
        (c_handle c = k \<or> c_handle c = - 1)"
      using new pending_okD(1) [OF ok(2), of k b] unowned(1) [of k] by (auto split: if_splits)
  next
    fix k b b' c
    assume "owned_at (assign h (Some ?a) (g_pendingClients g)) k = Some b"
      "((g_store g)(?a \<mapsto> n)) b' = Some c" "c_handle c = k"
    then show "b = b'"
      using new fresh pending_okD(2) [OF ok(2), of k b b' c] by (auto split: if_splits)
  qed
  moreover have "players_ok ?g"
    unfolding players_ok_def s
  proof (intro conjI allI impI)
    fix k b
    assume "owned_at (g_clients g) k = Some b"
    then show "\<exists>c. ((g_store g)(?a \<mapsto> n)) b = Some c \<and> c_owner c = Owner_ClientServer \<and> c_state c = PLAY"
      using players_okD(1) [OF ok(3), of k b] unowned(2) [of k] by auto
  qed (use players_okD(2) [OF ok(3)] in auto)
  ultimately show ?thesis by (simp add: gw_inv_def)
qed

text \<open>The entry that is overwritten belonged to a connection whose socket is closed.\<close>

lemma handleClient_admits:
  assumes adm: "admitted S g"
    and fresh: "\<And>h l. r = Some (h, l) \<Longrightarrow> h \<noteq> - 1 \<and> (\<forall>b c. g_store g b = Some c \<longrightarrow> c_handle c \<noteq> h)"
  shows "\<exists>g'. handleClient W r g = (Inr (), g') \<and> admitted S g'"
proof (cases r)
  case None
  then show ?thesis using adm adm.callbacks by (simp add: handleClient_def asyncClientAccept_def)
next
  case (Some hl)
  obtain h l where r: "r = Some (h, l)" using Some by (cases hl) auto
  let ?a = "g_next g" and ?n = "Client_new h l (w_now W) (w_random W) Owner_Login"
  let ?g = "g\<lparr>g_next := Suc ?a, g_store := (g_store g)(?a \<mapsto> ?n),
    g_pendingClients := assign h (Some ?a) (g_pendingClients g)\<rparr>"
  have inv: "gw_inv g" and sub: "players g \<subseteq> S" using adm by (simp_all add: admitted_def)
  have inv': "gw_inv ?g"
    using fresh [OF r] by (intro gw_inv_accept [OF inv]) (auto simp: Client_new_def)
  let ?cs = "g_callbacks g @ [CB_onLengthReceive ?a, CB_handleClient]"
  show ?thesis
  proof (cases "owned_at (g_pendingClients g) h")
    case None
    then have "handleClient W r g = (Inr (), ?g\<lparr>g_callbacks := ?cs\<rparr>)"
      unfolding r
      by (simp add: handleClient_def asyncClientAccept_def construct_client_def startAsyncRead_def
          assign_pending_def destroy_def bind_def)
    then show ?thesis using inv' sub by (simp add: admitted_def)
  next
    case (Some b)
    let ?h = "?g\<lparr>g_store := (g_store ?g)(b := None)\<rparr>\<lparr>g_callbacks := ?cs\<rparr>"
    have run: "handleClient W r g = (Inr (), ?h)"
      using Some unfolding r
      by (simp add: handleClient_def asyncClientAccept_def construct_client_def startAsyncRead_def
          assign_pending_def destroy_def bind_def)
    have b: "b < ?a" using owned_in_store(1) [OF inv Some] .
    have "owned_at (g_pendingClients ?g) j \<noteq> Some b" for j
      using owner_cases_exclusive(1) [OF inv Some, of j] b by (cases "j = h") auto
    moreover have "owned_at (g_clients ?g) j \<noteq> Some b" for j
      using not_both [OF inv Some] by simp
    ultimately have "gw_inv (?g\<lparr>g_store := (g_store ?g)(b := None)\<rparr>)"
      using gw_inv_destroy_unowned [OF inv'] by blast
    then have "gw_inv ?h" unfolding gw_inv_callbacks .
    moreover have "players ?h \<subseteq> S" using sub by simp
    ultimately show ?thesis using run unfolding admitted_def by blast
  qed
qed

section \<open>Steps\<close>

text \<open>The connection whose handler may log it in.\<close>

fun login_target :: "callback \<Rightarrow> address set" where
  "login_target (CB_onLengthReceive a) = {a}"
| "login_target (CB_onHasJoinedPostComplete a rest n) = {a}"
| "login_target cb = {}"

lemma keeps_run_callback:
  assumes "cb \<noteq> CB_handleClient" and "login_target cb \<subseteq> S"
  shows "keeps (admitted S) (run_callback W cb out)"
  using assms
proof (cases cb)
  case (CB_onLengthReceive a)
  then show ?thesis
    using assms(2) by (auto intro!: adm.keeps_onLengthReceive keeps_receive_login_start)
next
  case (CB_onHasJoinedPostComplete a rest n)
  then show ?thesis
    using assms(2) by (auto intro!: keeps_onHasJoinedPostComplete split: outcome.split)
qed (auto simp: node_onWriteComplete_def intro!: adm.keeps_onWriteComplete adm.keeps_keepAlive
    adm.local_rules adm.keeps_onDataReceived)

lemma keeps_leaving: "keeps I m \<Longrightarrow> I g \<Longrightarrow> m g = (r, g') \<Longrightarrow> leaves_scope r \<Longrightarrow> I g'"
  using keeps_run(1) [of I m g _ g'] keeps_run(2) [of I m g _ g']
  by (auto simp: leaves_scope_iff)

lemma run_callback_admits:
  assumes "admitted S g" and "fresh_descriptor g out" and "login_target cb \<subseteq> S"
    and run: "run_callback W cb out g = (r, g')" and "leaves_scope r"
  shows "admitted S g'"
proof (cases "cb = CB_handleClient")
  case True
  let ?r = "case out of O_Accepted handle loopback \<Rightarrow> Some (handle, loopback) | _ \<Rightarrow> None"
  have "\<exists>g'. handleClient W ?r g = (Inr (), g') \<and> admitted S g'"
    using assms(2) by (intro handleClient_admits assms(1))
      (auto simp: fresh_descriptor_def split: outcome.splits)
  then show ?thesis using run True by auto
next
  case False
  then have "keeps (admitted S) (run_callback W cb out)" using assms(3) by (rule keeps_run_callback)
  then show ?thesis using assms(1) run assms(5) by (rule keeps_leaving)
qed

lemma fresh_descriptor_callbacks [simp]:
  "fresh_descriptor (g\<lparr>g_callbacks := cs\<rparr>) out = fresh_descriptor g out"
  by (simp add: fresh_descriptor_def split: outcome.split)

lemma gw_step_admits:
  assumes "gw_step W g cb g'" and "admitted S g" and "login_target cb \<subseteq> S"
  shows "admitted S g'"
  using assms(1)
proof (rule gw_stepE)
  fix xs ys out r
  assume "fresh_descriptor g out" and run: "run_callback W cb out (g\<lparr>g_callbacks := xs @ ys\<rparr>) = (r, g')"
    and "leaves_scope r"
  then show "admitted S g'"
    using run_callback_admits [OF adm.callbacks [OF assms(2)] _ assms(3) run] by simp
qed

lemma gw_step_outsider:
  assumes "gw_step W g (CB_onLengthReceive a) g'" and "outsider a S g"
  shows "admitted S g'"
  using assms(1)
proof (rule gw_stepE)
  fix xs ys out r
  assume run: "run_callback W (CB_onLengthReceive a) out (g\<lparr>g_callbacks := xs @ ys\<rparr>) = (r, g')"
    and r: "leaves_scope r"
  have k: "keeps (outsider a S) (run_callback W (CB_onLengthReceive a) out)"
    by (auto intro!: outsider.keeps_onLengthReceive keeps_receive_login_start_outsider)
  have "outsider a S g'"
    by (rule keeps_leaving [OF k outsider.callbacks [OF assms(2)] run r])
  then show ?thesis by (simp add: outsider_def)
qed

lemma initial_inv: "gw_inv initial_gateway"
  by (simp add: gw_inv_def store_ok_def pending_ok_def players_ok_def initial_gateway_def
      table.exclusive_def)

lemma reachable_inv: "reachable Ws g \<Longrightarrow> gw_inv g"
proof (induction rule: reachable.induct)
  case (start db r g)
  then show ?case
    using initial_inv
    by (auto simp: Login_init_def startAsyncReceive_def asyncClientAccept_def split: if_splits)
next
  case (step g W cb g')
  then have "admitted UNIV g'" using gw_step_admits [of W g cb g' UNIV] by (simp add: admitted_def)
  then show ?case by (simp add: admitted_def)
qed

end
