(* ===== verification/Gateway_Facts.thy ===== *)
theory Gateway_Facts
  imports Gateway_Admission Packet_Facts
begin

text \<open>
  What the handlers of the gateway do on the inputs of a session: a whole frame in one read,
  the handshake, the status exchange, the login of a local player, and the ends of a
  connection.
\<close>

section \<open>A whole frame\<close>

text \<open>A connection whose bytes arrive in clear and uncompressed.\<close>

definition plain_connection :: "client \<Rightarrow> bool" where
  "plain_connection c \<longleftrightarrow> c_alive c \<and> c_open c \<and> \<not> c_encrypted c \<and> c_compressionThreshold c = - 1"

definition set_client :: "address \<Rightarrow> client \<Rightarrow> gateway \<Rightarrow> gateway" where
  "set_client a c g = g\<lparr>g_store := (g_store g)(a \<mapsto> c)\<rparr>"

lemma set_client_simps [simp]:
  "g_store (set_client a c g) = (g_store g)(a \<mapsto> c)" "g_trace (set_client a c g) = g_trace g"
  "g_callbacks (set_client a c g) = g_callbacks g" "g_clients (set_client a c g) = g_clients g"
  "g_pendingClients (set_client a c g) = g_pendingClients g" "g_next (set_client a c g) = g_next g"
  "set_client a c (set_client a d g) = set_client a c g"
  by (simp_all add: set_client_def)

lemma upd_client_set:
  "g_store g a = Some c \<Longrightarrow> upd_client a f g = (Inr (), set_client a (f c) g)"
  "g_store g a = Some c \<Longrightarrow> bind (upd_client a f) h g = h () (set_client a (f c) g)"
  "g_store g a = Some c \<Longrightarrow> bind (get_client a) k g = k c g"
  by (simp_all add: upd_client_run bind_upd_client bind_get_client set_client_def)

lemma length_write_varint_pos: "0 < length (write_varint v)"
  by (simp add: write_varint_def)

lemma next_frame_whole:
  assumes c: "g_store g a = Some c" "c_buffer c = write_varint (size_int32 payload) @ payload @ rest"
    and t: "c_compressionThreshold c = - 1"
    and len: "length payload < 2 ^ 21" "length rest < 2 ^ 62"
    and parse: "parsePacket (w_cpp W) (w_inflate W) SERVER_BOUND (size_of payload) (payload @ rest)
      (c_state c) False True = Inr (p, rest)"
  shows "next_frame W a g = (Inr p, set_client a (c\<lparr>c_buffer := rest\<rparr>) g)"
proof -
  let ?v = "size_int32 payload"
  have fits: "length payload < 2 ^ 31" using len(1) by simp
  have size: "to_size_t ?v = size_of payload"
    using to_size_t_size_int32 [of payload] fits by (simp add: fits_int32_def size_of_def)
  have le5: "length (write_varint ?v) \<le> 5" by (simp add: length_write_varint)
  have "size_of payload + of_nat (length (write_varint ?v)) \<le> size_of (c_buffer c)"
  proof -
    have "unat (of_nat (length payload + length (write_varint ?v)) :: size_t)
        = length payload + length (write_varint ?v)"
      using len le5 by (simp only: unat_of_nat) (simp add: take_bit_nat_eq_self)
    moreover have "unat (size_of (c_buffer c)) = length (c_buffer c)"
      using len le5 c(2) by (intro unat_size_of) simp
    ultimately show ?thesis
      using c(2) by (simp add: word_le_nat_alt size_of_def add.commute)
  qed
  then show ?thesis
    using c t parse length_write_varint_pos [of ?v] size
    by (simp add: next_frame_def upd_client_set read_varint_peek)
qed

lemma take_read_plain:
  "g_store g a = Some c \<Longrightarrow> plain_connection c \<Longrightarrow>
    take_read W a data g = (Inr (), set_client a (c\<lparr>c_buffer := c_buffer c @ data\<rparr>) g)"
  by (simp add: take_read_def upd_client_set plain_connection_def)

text \<open>A payload behind its length.\<close>

definition framed :: "bytes \<Rightarrow> bytes" where
  "framed payload = write_varint (size_int32 payload) @ payload"

lemma onLengthReceive_frame:
  assumes c: "g_store g a = Some c" "plain_connection c" "c_buffer c = []"
    and len: "length (write_varint i @ body) < 2 ^ 21" "length rest < 2 ^ 62"
    and cls: "find_class SERVER_BOUND (c_state c) i = Some k"
    and parse: "class_parse (w_cpp W) SERVER_BOUND k
      \<lparr>packetId = i, rawPayload = body, compressed = False\<rparr> = Inr p"
    and run: "receivedMessage W SERVER_BOUND a p (set_client a (c\<lparr>c_buffer := rest\<rparr>) g) = (Inr (), g')"
  shows "onLengthReceive W a (Some (framed (write_varint i @ body) @ rest)) g =
    (Inr (), g'\<lparr>g_callbacks := g_callbacks g' @ [CB_onLengthReceive a]\<rparr>)"
proof -
  let ?payload = "write_varint i @ body"
  let ?data = "write_varint (size_int32 ?payload) @ ?payload @ rest"
  have "parsePacket (w_cpp W) (w_inflate W) SERVER_BOUND (size_of ?payload) (?payload @ rest)
      (c_state c) False True = Inr (Some p, rest)"
    using cls parse len(1) length_write_varint_pos [of i]
    by (simp add: parsePacket_def parse_plain_def Packet_from_buffer_def read_varint_peek
        unat_size_of instantiateFromData_def)
  then have "next_frame W a (set_client a (c\<lparr>c_buffer := ?data\<rparr>) g) =
      (Inr (Some p), set_client a (c\<lparr>c_buffer := rest\<rparr>) g)"
    using next_frame_whole [of "set_client a (c\<lparr>c_buffer := ?data\<rparr>) g" a "c\<lparr>c_buffer := ?data\<rparr>"
        ?payload rest W "Some p"] c(2) len
    by (simp add: plain_connection_def)
  then show ?thesis
    using c run
    by (simp add: onLengthReceive_def take_read_def upd_client_set plain_connection_def framed_def
        bind_Inr try_catch_def startAsyncRead_def)
qed

lemma receivedMessage_by_state:
  assumes "g_store g a = Some c" and "c_owner c \<noteq> Owner_None"
    and "class_of p \<noteq> PingPacket" and "class_of p \<noteq> KeepAlivePacket"
  shows "receivedMessage W sd a p g = handle_by_state W a c p g"
  using assms
  by (cases p)
    (simp_all add: receivedMessage_def upd_client_set owner_onPacketReceived_def
      ClientOwner_onPacketReceived_def)

section \<open>The handshake\<close>

definition handshake_body :: "int32 \<Rightarrow> bytes \<Rightarrow> 16 word \<Rightarrow> int32 \<Rightarrow> bytes" where
  "handshake_body version addr port next =
     write_varint version @ enc_blob addr @ le_bytes 2 port @ write_varint next"

lemma parse_handshake:
  assumes "fits_int32 addr"
  shows "\<exists>h. HandshakePacket_parse \<lparr>packetId = 0,
      rawPayload = handshake_body version addr port next, compressed = False\<rparr> = Inr h \<and>
    requestedNextState h = client_state_of next"
  using assms
  by (simp add: HandshakePacket_parse_def handshake_body_def enc_blob_def byte_simps)

section \<open>Sending in clear\<close>

lemma base_of_set_base [simp]: "base_of (set_base b p) = b"
  by (cases p) (simp_all add: put_base_def packet_record_defs)

definition packet_payload :: "any_packet \<Rightarrow> bytes" where
  "packet_payload p = write_varint (packetId (base_of p)) @ serialized_body SERVER_BOUND p"

lemma send_plain:
  assumes "g_store g a = Some c" and "plain_connection c" and "length (packet_payload p) < 2 ^ 21"
  shows "send W a p g = (Inr (), g\<lparr>g_trace := g_trace g @ [Wrote a (framed (packet_payload p))],
    g_callbacks := g_callbacks g @ [CB_onWriteComplete a]\<rparr>)"
proof -
  have "write_buffer_length_front (packet_payload p) = Inr (framed (packet_payload p))"
    using assms(3) write_buffer_length_front_spec [of "packet_payload p"] by (simp add: framed_def)
  then obtain q where q: "wire_packet W (- 1) p = Inr q" "rawPayload (base_of q) = framed (packet_payload p)"
    by (simp add: wire_packet_def getSide_def frame_any_def framePacket_def serialize_payload
        packet_payload_def Let_def)
  show ?thesis
    using assms(1,2) q
    by (simp add: send_def sendPacket_def upd_client_set plain_connection_def bind_assoc
        sendData_def getData_def)
qed

lemma serialized_body_play [byte_simps]:
  "serialized_body sd (P_SpawnPosition p) = le_bytes 8 (spawnPosition p)"
  "serialized_body sd (P_PositionAndLook q) = le_bytes 8 (look_x q) @ le_bytes 8 (look_y q) @
     le_bytes 8 (look_z q) @ le_bytes 4 (yaw q) @ le_bytes 4 (pitch q) @ [relativeFlags q]"
  "serialized_body sd (P_Abilities r) =
     [abilities r] @ le_bytes 4 (flyingSpeed r) @ le_bytes 4 (walkingSpeed r)"
  "serialized_body SERVER_BOUND (P_Encryption e) = []"
  by (simp_all add: serialized_body_def serialize_defs packet_write_defs packet_record_defs Let_def)

lemma bind_send_plain:
  assumes "g_store g a = Some c" and "plain_connection c" and "length (packet_payload p) < 2 ^ 21"
  shows "bind (send W a p) f g = f () (g\<lparr>g_trace := g_trace g @ [Wrote a (framed (packet_payload p))],
    g_callbacks := g_callbacks g @ [CB_onWriteComplete a]\<rparr>)"
  using send_plain [OF assms, of W] by (rule bind_Inr)

section \<open>The handshake\<close>

lemma handshake_run:
  assumes "g_store g a = Some c" and "plain_connection c" and "c_buffer c = []"
    and "c_state c = HANDSHAKE" and "c_owner c \<noteq> Owner_None"
    and "length (write_varint 0 @ handshake_body version addr port next) < 2 ^ 21" and "length rest < 2 ^ 62"
  shows "onLengthReceive W a (Some (framed (write_varint 0 @ handshake_body version addr port next) @ rest)) g =
    (Inr (), g\<lparr>g_store := (g_store g)(a \<mapsto> c\<lparr>c_buffer := rest, c_state := client_state_of next\<rparr>),
              g_callbacks := g_callbacks g @ [CB_onLengthReceive a]\<rparr>)"
proof -
  have "fits_int32 addr"
    using assms(6) by (simp add: handshake_body_def enc_blob_def fits_int32_def)
  then obtain h where h: "HandshakePacket_parse \<lparr>packetId = 0,
      rawPayload = handshake_body version addr port next, compressed = False\<rparr> = Inr h"
    "requestedNextState h = client_state_of next"
    using parse_handshake [of addr version port "next"] by blast
  let ?g = "set_client a (c\<lparr>c_buffer := rest\<rparr>) g"
  have "receivedMessage W SERVER_BOUND a (P_Handshake h) ?g =
      (Inr (), set_client a (c\<lparr>c_buffer := rest, c_state := client_state_of next\<rparr>) g)"
    using assms(4,5) h(2)
    by (simp add: receivedMessage_by_state handle_by_state_def setState_def upd_client_set)
  then show ?thesis
    using onLengthReceive_frame [of g a c 0 "handshake_body version addr port next" rest
        HandshakePacket W "P_Handshake h"] assms h(1)
    by (simp add: set_client_def)
qed

section \<open>A local login\<close>

definition sent :: "event list \<Rightarrow> callback list \<Rightarrow> gateway \<Rightarrow> gateway" where
  "sent es cs g = g\<lparr>g_trace := g_trace g @ es, g_callbacks := g_callbacks g @ cs\<rparr>"

lemma sent_simps [simp]:
  "g_store (sent es cs g) = g_store g" "g_clients (sent es cs g) = g_clients g"
  "g_pendingClients (sent es cs g) = g_pendingClients g" "g_next (sent es cs g) = g_next g"
  "g_trace (sent es cs g) = g_trace g @ es" "g_callbacks (sent es cs g) = g_callbacks g @ cs"
  "sent es cs (sent es' cs' g) = sent (es' @ es) (cs' @ cs) g"
  by (simp_all add: sent_def)

lemma async_sent: "bind (async cb) f g = f () (sent [] [cb] g)"
  by (simp add: sent_def)

lemma bind_send:
  assumes "g_store g a = Some c" and "plain_connection c" and "length (packet_payload p) < 2 ^ 21"
  shows "bind (send W a p) f g =
    f () (sent [Wrote a (framed (packet_payload p))] [CB_onWriteComplete a] g)"
  using bind_send_plain [OF assms] by (simp add: sent_def)

text \<open>The four packets every new player gets are short.\<close>

lemma play_packets:
  assumes "i \<in> {0x01, 0x05, 0x08, 0x39}"
  shows "\<exists>p. newPacket env CLIENT_BOUND PLAY i = Some p \<and> length (packet_payload p) < 2 ^ 21"
proof -
  have le: "length (write_varint v) \<le> 5" for v by (simp add: length_write_varint)
  have default: "length (enc_string ''default'') \<le> 12"
    using enc_string_length [of "''default''"] by simp
  show ?thesis
    using assms le [of 1] le [of 5] le [of 8] le [of 57] default
    by (auto simp: newPacket_def instantiateNew_def find_class_def registry_eq packet_payload_def
        byte_simps new_defs packet_record_defs)
qed

text \<open>Statements that write to the connection and to the database, and change nothing else.\<close>

definition only_writes :: "address \<Rightarrow> client \<Rightarrow> unit gw \<Rightarrow> bool" where
  "only_writes a c m \<longleftrightarrow> (\<forall>g. g_store g a = Some c \<longrightarrow> (\<exists>es cs. m g = (Inr (), sent es cs g)))"

lemma only_writesD: "only_writes a c m \<Longrightarrow> g_store g a = Some c \<Longrightarrow> \<exists>es cs. m g = (Inr (), sent es cs g)"
  by (simp add: only_writes_def)

lemma only_writes_block:
  "only_writes a c (block [])"
  "only_writes a c m \<Longrightarrow> only_writes a c (block ms) \<Longrightarrow> only_writes a c (block (m # ms))"
proof -
  show "only_writes a c (block [])"
    by (auto simp: only_writes_def sent_def intro!: exI [of _ "[]"])
next
  assume m: "only_writes a c m" and ms: "only_writes a c (block ms)"
  show "only_writes a c (block (m # ms))"
    unfolding only_writes_def
  proof (intro allI impI)
    fix g :: gateway
    assume "g_store g a = Some c"
    then obtain es cs where 1: "m g = (Inr (), sent es cs g)" using m by (auto simp: only_writes_def)
    obtain es' cs' where "block ms (sent es cs g) = (Inr (), sent es' cs' (sent es cs g))"
      using only_writesD [OF ms, of "sent es cs g"] \<open>g_store g a = Some c\<close> by auto
    then show "\<exists>es cs. block (m # ms) g = (Inr (), sent es cs g)"
      using 1 by (auto simp: bind_Inr)
  qed
qed

lemma only_writes_emit: "only_writes a c (emit e)"
proof -
  have "emit e g = (Inr (), sent [e] [] g)" for g by (simp add: sent_def)
  then show ?thesis unfolding only_writes_def by blast
qed

lemma only_writes_ret: "only_writes a c (ret ())"
  by (auto simp: only_writes_def sent_def intro!: exI [of _ "[]"])

lemma only_writes_send_new:
  assumes "plain_connection c" and "i \<in> {0x01, 0x05, 0x08, 0x39}"
  shows "only_writes a c (send_new W a CLIENT_BOUND PLAY i)"
proof -
  obtain p where p: "newPacket (w_cpp W) CLIENT_BOUND PLAY i = Some p" "length (packet_payload p) < 2 ^ 21"
    using play_packets [OF assms(2)] by blast
  then show ?thesis
    using send_plain [OF _ assms(1) p(2), of _ a W]
    by (auto simp: only_writes_def send_new_def sent_def)
qed

lemma block_snoc: "block (ms @ [m]) g = bind (block ms) (\<lambda>_. m) g"
proof (induction ms arbitrary: g)
  case Nil
  show ?case using bind_ret_right [of m] by (simp add: bind_def split: prod.split sum.split)
next
  case (Cons x xs)
  then show ?case by (simp add: bind_assoc) (simp add: bind_def split: prod.split sum.split)
qed

lemma bind_block_snoc: "block ms g = (Inr (), g') \<Longrightarrow> bind (block (ms @ [m])) f g = bind m f g'"
  by (simp add: bind_def block_snoc)

text \<open>The player server takes a connection over; an older one of the same player is destroyed.\<close>

lemma addClient_run:
  assumes "g_store g a = Some c" and "plain_connection c"
  shows "\<exists>g' es cs. addClient W a g = (Inr True, g') \<and>
    g_clients g' = assign (c_userid c) (Some a) (g_clients g) \<and>
    g_pendingClients g' = g_pendingClients g \<and>
    g_store g' = (case owned_at (g_clients g) (c_userid c) of
       None \<Rightarrow> g_store g | Some b \<Rightarrow> (g_store g)(b := None)) \<and>
    g_trace g' = g_trace g @ DbQuery (select_player (c_userid c)) # es \<and>
    g_callbacks g' = g_callbacks g @ cs"
proof -
  let ?i = "c_userid c" and ?g = "sent [DbQuery (select_player (c_userid c))] [] g"
  let ?ms = "[(case w_db_rows W (select_player ?i) of
          Some n \<Rightarrow> if n > 0 then ret () else emit (DbExec (insert_player ?i))
        | None \<Rightarrow> emit (DbExec (insert_player ?i))),
       send_new W a CLIENT_BOUND PLAY 0x01,
       send_new W a CLIENT_BOUND PLAY 0x05,
       send_new W a CLIENT_BOUND PLAY 0x08,
       send_new W a CLIENT_BOUND PLAY 0x39]"
  have "only_writes a c (block ?ms)"
    using assms(2)
    by (intro only_writes_block only_writes_send_new)
      (auto intro: only_writes_emit only_writes_ret split: option.split)
  then obtain es cs where run: "block ?ms ?g = (Inr (), sent es cs ?g)"
    using only_writesD [of a c _ ?g] assms(1) by (metis sent_simps(1))
  have "addClient W a g = owning a (\<lambda>_. bind (block (?ms @ [bind (getClientId a) (\<lambda>i. assign_clients i a)]))
      (\<lambda>_. ret True) ?g) g"
    using assms(1) by (simp add: addClient_def owning_def getClientId_def upd_client_set bind_assoc sent_def)
  also have "\<dots> = owning a (\<lambda>_. bind (assign_clients ?i a) (\<lambda>_. ret True) (sent es cs ?g)) g"
    unfolding owning_def bind_block_snoc [OF run]
    using assms(1) by (simp add: bind_assoc getClientId_def upd_client_set)
  finally show ?thesis
    using assms(1)
    by (simp add: owning_def assign_clients_def destroy_def bind_assoc sent_def split: option.split)
qed

lemma Login_handoffClient_run:
  assumes "g_store g a = Some c" and "plain_connection c"
    and "owned_at (g_pendingClients g) (c_handle c) = Some a"
  shows "\<exists>g' es cs. Login_handoffClient W a g = (Inr (), g') \<and>
    g_clients g' = assign (c_userid c) (Some a) (g_clients g) \<and>
    g_pendingClients g' = erase (c_handle c) (assign (c_handle c) None (g_pendingClients g)) \<and>
    g_store g' = (let h = (g_store g)(a \<mapsto> c\<lparr>c_owner := Owner_ClientServer\<rparr>) in
      case owned_at (g_clients g) (c_userid c) of None \<Rightarrow> h | Some b \<Rightarrow> h(b := None)) \<and>
    g_trace g' = g_trace g @ DbQuery (select_player (c_userid c)) # es \<and>
    g_callbacks g' = g_callbacks g @ cs"
proof -
  let ?pending = "erase (c_handle c) (assign (c_handle c) None (g_pendingClients g))"
  let ?d = "c\<lparr>c_owner := Owner_ClientServer\<rparr>"
  let ?g = "set_client a ?d (g\<lparr>g_pendingClients := ?pending\<rparr>)"
  have run: "Login_handoffClient W a g = bind (addClient W a) (\<lambda>_. ret ()) ?g"
    using assms
    by (simp add: Login_handoffClient_def upd_client_set bind_assoc setOwner_def set_client_def)
  have "g_store ?g a = Some ?d" "plain_connection ?d"
    using assms(2) by (simp_all add: plain_connection_def)
  from addClient_run [OF this, of W] obtain g' es cs where "addClient W a ?g = (Inr True, g')"
    "g_clients g' = assign (c_userid c) (Some a) (g_clients g)" "g_pendingClients g' = ?pending"
    "g_store g' = (case owned_at (g_clients g) (c_userid c) of
       None \<Rightarrow> g_store ?g | Some b \<Rightarrow> (g_store ?g)(b := None))"
    "g_trace g' = g_trace g @ DbQuery (select_player (c_userid c)) # es"
    "g_callbacks g' = g_callbacks g @ cs"
    by auto
  then show ?thesis unfolding run by (auto simp: bind_Inr Let_def split: option.split)
qed

definition login_success_payload :: "client \<Rightarrow> bytes" where
  "login_success_payload c = 2 # enc_string (c_userid c) @ enc_string (c_requestedUsername c)"

lemma onPlayerLogin_run:
  assumes "g_store g a = Some c" and "plain_connection c" and "c_owner c = Owner_Login"
    and "owned_at (g_pendingClients g) (c_handle c) = Some a"
    and "length (login_success_payload c) < 2 ^ 21"
  shows "\<exists>g' es cs. onPlayerLogin W a g = (Inr (), g') \<and>
    g_clients g' = assign (c_userid c) (Some a) (g_clients g) \<and>
    g_pendingClients g' = erase (c_handle c) (assign (c_handle c) None (g_pendingClients g)) \<and>
    g_store g' = (let h = (g_store g)(a \<mapsto> c\<lparr>c_state := PLAY, c_lastSeen := w_now W,
        c_owner := Owner_ClientServer\<rparr>) in
      case owned_at (g_clients g) (c_userid c) of None \<Rightarrow> h | Some b \<Rightarrow> h(b := None)) \<and>
    g_trace g' = g_trace g @ Wrote a (framed (login_success_payload c)) #
      DbQuery (select_player (c_userid c)) # es \<and>
    g_callbacks g' = g_callbacks g @ [CB_onWriteComplete a, CB_keepAlive a] @ cs"
proof -
  let ?p = "LoginSuccessPacket_new\<lparr>uuid := c_userid c, username := c_requestedUsername c\<rparr>"
  have new: "newPacket (w_cpp W) CLIENT_BOUND LOGIN 0x02 = Some (P_LoginSuccess LoginSuccessPacket_new)"
    by (simp add: newPacket_def instantiateNew_def find_class_def registry_eq)
  have payload: "packet_payload (P_LoginSuccess ?p) = login_success_payload c"
    by (simp add: packet_payload_def byte_simps new_defs packet_record_defs write_varint_def
        leb128.simps login_success_payload_def)
  let ?g = "sent [Wrote a (framed (login_success_payload c))] [CB_onWriteComplete a] g"
  let ?d = "c\<lparr>c_state := PLAY, c_lastSeen := w_now W\<rparr>"
  let ?g' = "sent [] [CB_keepAlive a] (set_client a ?d ?g)"
  have run: "onPlayerLogin W a g = Login_handoffClient W a ?g'"
    using assms(1-3,5) new payload
    by (simp add: onPlayerLogin_def onPlayerLogin_via_def upd_client_set setState_def bind_assoc
        owner_handoffClient_def bind_send [OF assms(1,2)] async_sent del: bind_async)
  show ?thesis
    using assms Login_handoffClient_run [of ?g' a ?d W] unfolding run
    by (auto simp: plain_connection_def Let_def)
qed

text \<open>The body of a login request, and what it makes of a local connection.\<close>

lemma local_login_run:
  assumes "g_store g a = Some c" and "plain_connection c" and "c_buffer c = []"
    and "c_state c = LOGIN" and "c_owner c = Owner_Login" and "c_loopback c" and "w_endpoint_ok W"
    and "owned_at (g_pendingClients g) (c_handle c) = Some a"
    and "loopback_userid (w_sha256 W) name = Inr i" and "length i = 36"
    and "length name < 2 ^ 20" and "length rest < 2 ^ 62"
  shows "\<exists>g' es cs.
    onLengthReceive W a (Some (framed (write_varint 0 @ enc_string name) @ rest)) g = (Inr (), g') \<and>
    g_clients g' = assign i (Some a) (g_clients g) \<and>
    g_pendingClients g' = erase (c_handle c) (assign (c_handle c) None (g_pendingClients g)) \<and>
    g_store g' = (let h = (g_store g)(a \<mapsto> c\<lparr>c_owner := Owner_ClientServer, c_buffer := rest,
        c_state := PLAY, c_requestedUsername := name, c_userid := i, c_lastSeen := w_now W\<rparr>) in
      case owned_at (g_clients g) i of None \<Rightarrow> h | Some b \<Rightarrow> h(b := None)) \<and>
    g_trace g' = g_trace g @ Wrote a (framed (2 # enc_string i @ enc_string name)) #
      DbQuery (select_player i) # es \<and>
    g_callbacks g' = g_callbacks g @ [CB_onWriteComplete a, CB_keepAlive a] @ cs @ [CB_onLengthReceive a]"
proof -
  let ?p = "LoginStartPacket_new\<lparr>playerName := name\<rparr>"
  let ?d = "c\<lparr>c_buffer := rest, c_requestedUsername := name, c_userid := i\<rparr>"
  have fits: "fits_int32 name" using assms(11) by (simp add: fits_int32_def)
  have le5: "length (write_varint v) \<le> 5" for v by (simp add: length_write_varint)
  have enc: "length (enc_string s) \<le> 5 + length s" for s using enc_string_length [of s] by simp
  have inc: "incoming SERVER_BOUND (P_LoginStart ?p) =
      \<lparr>packetId = 0, rawPayload = enc_string name, compressed = False\<rparr>"
    by (simp add: incoming_def byte_simps new_defs packet_record_defs)
  have rcv: "received (P_LoginStart ?p) = P_LoginStart ?p"
    by (simp add: received_def put_base_def new_defs packet_record_defs)
  have parse: "class_parse (w_cpp W) SERVER_BOUND LoginStartPacket
      \<lparr>packetId = 0, rawPayload = enc_string name, compressed = False\<rparr> = Inr (P_LoginStart ?p)"
    using class_parse_recoverable [of "P_LoginStart ?p" "w_cpp W" SERVER_BOUND SERVER_BOUND] fits inc rcv
    by simp
  have len: "length (write_varint 0 @ enc_string name) < 2 ^ 21"
    using le5 [of 0] enc [of name] assms(11) by simp
  have out: "length (login_success_payload ?d) < 2 ^ 21"
    using enc [of i] enc [of name] assms(10,11) by (simp add: login_success_payload_def)
  let ?g = "set_client a ?d g"
  have run: "receivedMessage W SERVER_BOUND a (P_LoginStart ?p) (set_client a (c\<lparr>c_buffer := rest\<rparr>) g) =
      onPlayerLogin W a ?g"
    using assms
    by (simp add: receivedMessage_by_state handle_by_state_def receive_login_start_def
        remote_endpoint_def bind_assoc upd_client_set plain_connection_def)
  have swap: "?d\<lparr>c_state := PLAY, c_lastSeen := w_now W, c_owner := Owner_ClientServer\<rparr> =
      c\<lparr>c_owner := Owner_ClientServer, c_buffer := rest, c_state := PLAY,
        c_requestedUsername := name, c_userid := i, c_lastSeen := w_now W\<rparr>"
    by (cases c) simp
  obtain g' es cs where g': "onPlayerLogin W a ?g = (Inr (), g')"
    "g_clients g' = assign i (Some a) (g_clients g)"
    "g_pendingClients g' = erase (c_handle c) (assign (c_handle c) None (g_pendingClients g))"
    "g_store g' = (let h = (g_store g)(a \<mapsto> c\<lparr>c_owner := Owner_ClientServer, c_buffer := rest,
        c_state := PLAY, c_requestedUsername := name, c_userid := i, c_lastSeen := w_now W\<rparr>) in
      case owned_at (g_clients g) i of None \<Rightarrow> h | Some b \<Rightarrow> h(b := None))"
    "g_trace g' = g_trace g @ Wrote a (framed (2 # enc_string i @ enc_string name)) #
      DbQuery (select_player i) # es"
    "g_callbacks g' = g_callbacks g @ [CB_onWriteComplete a, CB_keepAlive a] @ cs"
    using onPlayerLogin_run [of ?g a ?d W] assms(2,5,8) out
    by (auto simp: plain_connection_def login_success_payload_def Let_def swap)
  have "onLengthReceive W a (Some (framed (write_varint 0 @ enc_string name) @ rest)) g =
      (Inr (), g'\<lparr>g_callbacks := g_callbacks g' @ [CB_onLengthReceive a]\<rparr>)"
    using onLengthReceive_frame [OF assms(1-3) len assms(12), of LoginStartPacket W "P_LoginStart ?p" g']
      parse run g'(1) assms(4) by simp
  then show ?thesis using g'(2-) by auto
qed

end
