(* ===== verification/Gateway_Properties.thy ===== *)
theory Gateway_Properties
  imports Gateway_Facts
begin

text \<open>
  The properties of the gateway process, each with an instance on a small session: one
  connection, with descriptor 7, in a gateway that has just started.
\<close>

section \<open>A small session\<close>

definition example_world :: "unit world" where
  "example_world = \<lparr>w_cpp = example_env, w_inflate = example_inflate, w_deflateInit = Some (),
     w_deflate = store_deflate, w_now = 0, w_random = [1, 2, 3, 4], w_close_ok = True,
     w_endpoint_ok = True, w_resolve_ok = True, w_no_delay_ok = True, w_rsa_ctx_ok = True,
     w_rsa_decrypt = Some, w_public_key = [5], w_sha1 = (\<lambda>_. replicate 20 1),
     w_sha256 = (\<lambda>_. replicate 32 0xAB), w_encrypt = (\<lambda>_ _. Some), w_decrypt = (\<lambda>_ _. Some),
     w_db_rows = (\<lambda>_. Some 0), w_json_ok = (\<lambda>_. True), w_json_text = (\<lambda>_ _. Some ''hi''),
     w_json_with_text = (\<lambda>_ s. s)\<rparr>"

definition example_client :: "bool \<Rightarrow> client" where
  "example_client loopback = Client_new 7 loopback 0 [1, 2, 3, 4] Owner_Login"

definition example_gateway :: "client \<Rightarrow> gateway" where
  "example_gateway c = initial_gateway\<lparr>g_store := [0 \<mapsto> c], g_next := 1,
     g_pendingClients := [(7, Some 0)], g_callbacks := [CB_onDataReceived, CB_onLengthReceive 0, CB_handleClient]\<rparr>"

lemmas example_defs = example_world_def example_client_def example_gateway_def Client_new_def
  initial_gateway_def no_cipher_def plain_connection_def

lemma example_accepted: "reachable {example_world} (example_gateway (example_client True))"
proof -
  let ?g = "initial_gateway\<lparr>g_callbacks := [CB_onDataReceived, CB_handleClient]\<rparr>"
  have "Login_init True initial_gateway = (Inr (), ?g)"
    by (simp add: Login_init_def startAsyncReceive_def asyncClientAccept_def initial_gateway_def)
  then have g: "reachable {example_world} ?g" by (rule reachable.start)
  have "gw_step example_world ?g CB_handleClient (example_gateway (example_client True))"
    by (rule gw_step.run [where xs = "[CB_onDataReceived]" and ys = "[]" and out = "O_Accepted 7 True"
          and r = "Inr ()"])
      (simp_all add: example_defs fresh_descriptor_def handleClient_def construct_client_def
        assign_pending_def startAsyncRead_def asyncClientAccept_def destroy_def bind_assoc assign_def)
  with g show ?thesis by (blast intro: reachable.step)
qed

definition example_request :: bytes where
  "example_request = framed (write_varint 0 @ handshake_body 47 [104] 25565 2)"

definition example_login :: bytes where
  "example_login = framed (write_varint 0 @ enc_string ''Notch'')"

lemma example_fits: "length (write_varint 0 @ handshake_body 47 [104] 25565 2) < 2 ^ 21"
proof -
  have "length (write_varint v) \<le> 5" for v by (simp add: length_write_varint)
  from this [of 0] this [of 47] this [of 2] this [of "size_int32 [104 :: byte]"] show ?thesis
    by (simp add: handshake_body_def enc_blob_def)
qed

lemma example_in_login:
  "\<exists>g. reachable {example_world} g \<and> g_store g 0 = Some (example_client True\<lparr>c_state := LOGIN\<rparr>) \<and>
     CB_onLengthReceive 0 \<in> set (g_callbacks g) \<and> g_clients g = [] \<and> g_pendingClients g = [(7, Some 0)]"
proof -
  let ?c = "example_client True" and ?cs = "[CB_onDataReceived, CB_handleClient]"
  let ?g = "example_gateway ?c" and ?g1 = "example_gateway ?c\<lparr>g_callbacks := ?cs\<rparr>"
  let ?g' = "?g1\<lparr>g_store := [0 \<mapsto> ?c\<lparr>c_state := LOGIN\<rparr>], g_callbacks := ?cs @ [CB_onLengthReceive 0]\<rparr>"
  have "onLengthReceive example_world 0 (Some (example_request @ [])) ?g1 = (Inr (),
      ?g1\<lparr>g_store := (g_store ?g1)(0 \<mapsto> ?c\<lparr>c_buffer := [], c_state := client_state_of 2\<rparr>),
          g_callbacks := g_callbacks ?g1 @ [CB_onLengthReceive 0]\<rparr>)"
    unfolding example_request_def
    by (rule handshake_run) (use example_fits in \<open>simp_all add: example_defs\<close>)
  then have "onLengthReceive example_world 0 (Some example_request) ?g1 = (Inr (), ?g')"
    by (simp add: example_defs client_state_of_def)
  then have "gw_step example_world ?g (CB_onLengthReceive 0) ?g'"
    by (intro gw_step.run [where xs = "[CB_onDataReceived]" and ys = "[CB_handleClient]"
          and out = "O_Bytes example_request" and r = "Inr ()"])
      (simp_all add: example_gateway_def fresh_descriptor_def)
  then have "reachable {example_world} ?g'" using example_accepted by (blast intro: reachable.step)
  then show ?thesis by (rule exI [of _ ?g', OF conjI]) (simp add: example_gateway_def initial_gateway_def)
qed

lemma example_userid:
  "\<exists>i. loopback_userid (w_sha256 example_world) name = Inr i \<and> length i = 36"
  using loopback_userid_ok [of "w_sha256 example_world" name] by (auto simp: example_world_def)

lemma example_step:
  "\<exists>g g'. reachable {example_world} g \<and> gw_step example_world g (CB_onLengthReceive 0) g' \<and>
     0 \<in> players g' \<and> 0 \<notin> players g"
proof -
  let ?c = "example_client True\<lparr>c_state := LOGIN\<rparr>"
  obtain g where g: "reachable {example_world} g" "g_store g 0 = Some ?c"
    "CB_onLengthReceive 0 \<in> set (g_callbacks g)" "g_clients g = []" "g_pendingClients g = [(7, Some 0)]"
    using example_in_login by blast
  obtain xs ys where cs: "g_callbacks g = xs @ CB_onLengthReceive 0 # ys"
    using g(3) by (auto simp: in_set_conv_decomp)
  let ?g = "g\<lparr>g_callbacks := xs @ ys\<rparr>"
  obtain i where i: "loopback_userid (w_sha256 example_world) ''Notch'' = Inr i" "length i = 36"
    using example_userid by blast
  obtain g' where run: "onLengthReceive example_world 0 (Some (example_login @ [])) ?g = (Inr (), g')"
    "g_clients g' = assign i (Some 0) []"
    using local_login_run [of ?g 0 ?c example_world "''Notch''" i "[]"] g i
    by (auto simp: example_login_def example_client_def Client_new_def plain_connection_def
        example_world_def owned_at_def)
  have "gw_step example_world g (CB_onLengthReceive 0) g'"
    using cs run(1)
    by (intro gw_step.run [where out = "O_Bytes example_login" and r = "Inr ()"])
      (simp_all add: fresh_descriptor_def)
  moreover have "0 \<in> players g'" using run(2) by (auto simp: players_def assign_def owned_at_def)
  moreover have "0 \<notin> players g" using g(4) by (simp add: players_def)
  ultimately show ?thesis using g(1) by blast
qed

section \<open>Reachable states\<close>

text \<open>C3: in every state the gateway can reach, whatever the peers, the game nodes and the
  session server do: each entry of the player table holds an existing connection that belongs
  to the player server and is in the play state; each pending entry holds an existing
  connection that belongs to the login server; no connection is held twice, nor by both tables;
  and compression is off for every connection.\<close>
theorem gateway_tables_consistent:
  assumes "reachable Ws g"
  shows "(\<forall>k a. owned_at (g_clients g) k = Some a \<longrightarrow>
      (\<exists>c. g_store g a = Some c \<and> c_owner c = Owner_ClientServer \<and> c_state c = PLAY) \<and>
      (\<forall>j. owned_at (g_clients g) j = Some a \<longrightarrow> j = k) \<and>
      (\<forall>h. owned_at (g_pendingClients g) h \<noteq> Some a)) \<and>
    (\<forall>k a. owned_at (g_pendingClients g) k = Some a \<longrightarrow>
      (\<exists>c. g_store g a = Some c \<and> c_owner c = Owner_Login) \<and>
      (\<forall>j. owned_at (g_pendingClients g) j = Some a \<longrightarrow> j = k)) \<and>
    (\<forall>a c. g_store g a = Some c \<longrightarrow> sint (c_compressionThreshold c) < 0)"
proof -
  have inv: "gw_inv g" using assms by (rule reachable_inv)
  then have ok: "store_ok g" "players_ok g" by (simp_all add: gw_inv_def)
  show ?thesis
    using players_okD(1) [OF ok(2)] owner_cases_exclusive [OF inv] not_both [OF inv]
      owner_of_entry(1) [OF inv] store_okD(2) [OF ok(1)]
    by (intro conjI allI impI) (blast | fastforce)+
qed

theorem gateway_tables_consistent_witness:
  "\<exists>g. reachable {example_world} g \<and> owned_at (g_pendingClients g) 7 = Some 0 \<and>
     (\<exists>c. g_store g 0 = Some c \<and> c_owner c = Owner_Login \<and> sint (c_compressionThreshold c) < 0)"
proof -
  let ?g = "example_gateway (example_client True)"
  have "owned_at (g_pendingClients ?g) 7 = Some 0" by (simp add: example_defs owned_at_def)
  then show ?thesis
    using gateway_tables_consistent [OF example_accepted] example_accepted by blast
qed

text \<open>C6: a connection enters the player table only in one of two handlers: the handler that reads
  from a connection that comes from the machine itself, or the handler that has read the
  session server's answer about it. No other peer's bytes, no datagram and no timer can do it.\<close>
theorem only_authenticated_players:
  assumes "reachable Ws g" and "gw_step W g cb g'" and "b \<in> players g'" and "b \<notin> players g"
  shows "(\<exists>c. g_store g b = Some c \<and> c_loopback c \<and> cb = CB_onLengthReceive b) \<or>
    (\<exists>rest n. cb = CB_onHasJoinedPostComplete b rest n)"
proof -
  have adm: "admitted (players g) g" using reachable_inv [OF assms(1)] by (simp add: admitted_def)
  have "b \<in> login_target cb"
  proof (rule ccontr)
    assume "b \<notin> login_target cb"
    then have "admitted (players g \<union> login_target cb) g'"
      using gw_step_admits [OF assms(2) admitted_mono [OF adm]] by blast
    with assms(3,4) \<open>b \<notin> login_target cb\<close> show False by (auto simp: admitted_def)
  qed
  then consider "cb = CB_onLengthReceive b" | rest n where "cb = CB_onHasJoinedPostComplete b rest n"
    by (cases cb) auto
  then show ?thesis
  proof cases
    case 1
    have "\<not> outsider b (players g) g"
    proof
      assume "outsider b (players g) g"
      then have "admitted (players g) g'" using gw_step_outsider assms(2) 1 by blast
      with assms(3,4) show False by (auto simp: admitted_def)
    qed
    then show ?thesis using adm 1 by (auto simp: outsider_def)
  qed auto
qed

theorem only_authenticated_players_witness:
  "\<exists>g g'. gw_step example_world g (CB_onLengthReceive 0) g' \<and> 0 \<in> players g' \<and> 0 \<notin> players g \<and>
     (\<exists>c. g_store g 0 = Some c \<and> c_loopback c)"
  using example_step only_authenticated_players [where cb = "CB_onLengthReceive 0" and b = 0] by blast

section \<open>Sessions\<close>

text \<open>A whole handshake frame, with any version, address and port, moves a connection to the
  state it asks for, and whatever follows the frame in the same read stays in the buffer while
  another read is started. The state is not checked: 3 puts the connection into the play state
  without a login, and a number that is no state is stored as it is.\<close>
theorem handshake_sets_state:
  assumes "g_store g a = Some c" and "plain_connection c" and "c_buffer c = []"
    and "c_state c = HANDSHAKE" and "c_owner c \<noteq> Owner_None"
    and "length (write_varint 0 @ handshake_body version addr port next) < 2 ^ 21" and "length rest < 2 ^ 62"
  shows "onLengthReceive W a (Some (framed (write_varint 0 @ handshake_body version addr port next) @ rest)) g =
    (Inr (), g\<lparr>g_store := (g_store g)(a \<mapsto> c\<lparr>c_buffer := rest, c_state := client_state_of next\<rparr>),
              g_callbacks := g_callbacks g @ [CB_onLengthReceive a]\<rparr>)"
  using assms by (rule handshake_run)

theorem handshake_sets_state_witness:
  "onLengthReceive example_world 0 (Some (example_request @ [9])) (example_gateway (example_client True)) =
    (Inr (), (example_gateway (example_client True))
      \<lparr>g_store := [0 \<mapsto> example_client True\<lparr>c_buffer := [9], c_state := LOGIN\<rparr>],
       g_callbacks := [CB_onDataReceived, CB_onLengthReceive 0, CB_handleClient, CB_onLengthReceive 0]\<rparr>)"
  using handshake_sets_state [of "example_gateway (example_client True)" 0 "example_client True" 47 "[104]"
      25565 2 "[9]" example_world] example_fits
  by (simp add: example_request_def example_defs client_state_of_def)

text \<open>A status request is answered with one frame, packet 0 with the fixed JSON text, whatever
  follows the request, and reading goes on.\<close>
theorem status_request_answered:
  assumes "g_store g a = Some c" and "plain_connection c" and "c_buffer c = []"
    and "c_state c = STATUS" and "c_owner c \<noteq> Owner_None" and "length rest < 2 ^ 62"
  shows "onLengthReceive W a (Some ([1, 0] @ rest)) g =
    (Inr (), g\<lparr>g_store := (g_store g)(a \<mapsto> c\<lparr>c_buffer := rest\<rparr>),
      g_trace := g_trace g @ [Wrote a (framed (0 # enc_string server_status_json))],
      g_callbacks := g_callbacks g @ [CB_onWriteComplete a, CB_onLengthReceive a]\<rparr>)"
proof -
  have v0: "write_varint 0 = [0]" and v1: "write_varint 1 = [1]"
    by (simp_all add: write_varint_def leb128.simps)
  have frame: "framed (write_varint 0 @ []) = [1, 0]"
    by (simp add: framed_def v0 v1 size_int32_def)
  let ?g = "set_client a (c\<lparr>c_buffer := rest\<rparr>) g"
  define p where "p = \<lparr>packetId = 0, rawPayload = [], compressed = False, jsonEncodedServerStatus = []\<rparr>"
  let ?q = "P_ServerStatus (p\<lparr>jsonEncodedServerStatus := server_status_json\<rparr>)"
  have parse: "class_parse (w_cpp W) SERVER_BOUND ServerStatusPacket
      \<lparr>packetId = 0, rawPayload = [], compressed = False\<rparr> = Inr (P_ServerStatus p)"
    by (simp add: p_def ServerStatusPacket_parse_def copy_base_def packet_record_defs resetBuffer_def)
  have payload: "packet_payload ?q = 0 # enc_string server_status_json"
    by (simp add: packet_payload_def byte_simps p_def packet_record_defs v0)
  have "length server_status_json < 2 ^ 20" by (simp add: server_status_json_def)
  then have "length (packet_payload ?q) < 2 ^ 21"
    using enc_string_length [of server_status_json] payload by simp
  then have "receivedMessage W SERVER_BOUND a (P_ServerStatus p) ?g = (Inr (), ?g\<lparr>
      g_trace := g_trace g @ [Wrote a (framed (0 # enc_string server_status_json))],
      g_callbacks := g_callbacks g @ [CB_onWriteComplete a]\<rparr>)"
    using assms payload
    by (simp add: receivedMessage_by_state handle_by_state_def send_plain plain_connection_def)
  then show ?thesis
    using onLengthReceive_frame [of g a c 0 "[]" rest ServerStatusPacket W "P_ServerStatus p"] assms parse
      frame v0
    by (simp add: set_client_def)
qed

theorem status_request_answered_witness:
  "fst (onLengthReceive example_world 0 (Some [1, 0])
     (example_gateway (example_client True\<lparr>c_state := STATUS\<rparr>))) = Inr ()"
  using status_request_answered [of "example_gateway (example_client True\<lparr>c_state := STATUS\<rparr>)" 0
      "example_client True\<lparr>c_state := STATUS\<rparr>" "[]" example_world]
  by (simp add: example_defs)

text \<open>C36: disconnecting a player is a use of freed memory: the player server erases the table
  entry, which destroys the connection, and then goes on to use the pointer it was given. This
  is so whether or not the socket could be closed.\<close>
theorem player_disconnect_use_after_free:
  assumes "g_store g a = Some c" and "c_alive c" and "c_owner c = Owner_ClientServer"
    and "owned_at (g_clients g) (c_userid c) = Some a"
  shows "fst (disconnect W a g) = Inl (UB UseAfterFree)"
  using assms
  by (simp add: disconnect_def disconnect_via_def close_socket_def upd_client_set getClientId_def
      owner_clientDisconnected_def ClientServer_clientDisconnected_def erase_clients_def destroy_def
      try_catch_def remote_endpoint_def bind_get_client bind_def get_client_run upd_client_run)

theorem player_disconnect_use_after_free_witness:
  "fst (disconnect example_world 0 ((example_gateway (example_client True\<lparr>c_owner := Owner_ClientServer\<rparr>))
     \<lparr>g_clients := [(''00000000-0000-0000-0000-000000000000'', Some 0)]\<rparr>)) = Inl (UB UseAfterFree)"
  by (rule player_disconnect_use_after_free [where c = "example_client True\<lparr>c_owner := Owner_ClientServer\<rparr>"])
    (simp_all add: example_defs owned_at_def)

text \<open>Disconnecting a connection that has not logged in never removes it: when the socket is
  closed, asking it for the peer's address throws before the entry is erased, so the exception
  leaves the handler and the table keeps the dead connection.\<close>
theorem login_disconnect_leaks:
  assumes "g_store g a = Some c" and "c_alive c" and "c_open c" and "c_owner c = Owner_Login"
    and "w_close_ok W"
  shows "\<exists>g'. disconnect W a g = (Inl (Throw SystemError), g') \<and>
    g_pendingClients g' = g_pendingClients g \<and>
    g_store g' a = Some (c\<lparr>c_alive := False, c_open := False, c_handle := - 1\<rparr>)"
  using assms
  by (simp add: disconnect_def disconnect_via_def close_socket_def upd_client_set
      owner_clientDisconnected_def Login_clientDisconnected_def remote_endpoint_def bind_get_client
      bind_def get_client_run upd_client_run)

theorem login_disconnect_leaks_witness:
  "\<exists>g'. disconnect example_world 0 (example_gateway (example_client False)) = (Inl (Throw SystemError), g') \<and>
    g_pendingClients g' = [(7, Some 0)]"
  using login_disconnect_leaks [of "example_gateway (example_client False)" 0 "example_client False" example_world]
  by (auto simp: example_defs)

lemma write_varint_minus_1: "write_varint (- 1) = [0xFF, 0xFF, 0xFF, 0xFF, 0x0F]"
  by code_simp

text \<open>A frame that announces the length -1 passes the test that the whole frame has arrived,
  because the sizes are added at 64 bits, and one more byte makes the packet constructor copy
  from beyond the buffer.\<close>
theorem negative_length_overread:
  assumes "g_store g a = Some c" and "plain_connection c" and "c_buffer c = []"
  shows "fst (onLengthReceive W a (Some (write_varint (- 1) @ [b])) g) = Inl (UB OutOfBounds)"
proof -
  have len: "to_size_t (- 1) = - 1" by (simp add: to_size_t_def)
  have size: "to_size_t (- 1) + of_nat (length (write_varint (- 1)))
      \<le> size_of (write_varint (- 1) @ [b])"
    unfolding len write_varint_minus_1 by (simp add: size_of_def)
  have "\<exists>v n. read_varint [b] False = Inr (v, n, [b]) \<and> n \<le> 1"
    by (simp add: read_varint_def Let_def)
  moreover have "length [b] < unat (- 1 :: size_t)"
    by (simp add: unsigned_minus_1_eq_mask mask_eq_exp_minus_1)
  ultimately have "Packet_from_buffer (- 1) [b] True = Inl (UB OutOfBounds)"
    by (auto simp: Packet_from_buffer_def)
  then have parse: "parsePacket (w_cpp W) (w_inflate W) SERVER_BOUND (- 1) [b] st False True =
      Inl (UB OutOfBounds)" for st
    by (simp add: parsePacket_def parse_plain_def)
  let ?g = "set_client a (c\<lparr>c_buffer := write_varint (- 1) @ [b]\<rparr>) g"
  have "next_frame W a ?g = (Inl (UB OutOfBounds), set_client a (c\<lparr>c_buffer := [b]\<rparr>) g)"
    using assms(2) size length_write_varint_pos [of "- 1"] parse
    by (simp add: next_frame_def upd_client_set plain_connection_def read_varint_peek len)
  then show ?thesis
    using assms take_read_plain [OF assms(1,2), of W]
    by (simp add: onLengthReceive_def upd_client_set plain_connection_def bind_Inl bind_Inr)
qed

theorem negative_length_overread_witness:
  "fst (onLengthReceive example_world 0 (Some (write_varint (- 1) @ [0]))
     (example_gateway (example_client False))) = Inl (UB OutOfBounds)"
  by (rule negative_length_overread [of _ _ "example_client False"]) (simp_all add: example_defs)

text \<open>To a player from another machine the gateway never asks for encryption in a readable
  form: packets are serialised for the side \<open>SERVER_BOUND\<close>, for which the encryption packet has
  no fields, so the login request is answered with the two bytes 1 and 1 and not with the key
  and the token it has just stored.\<close>
theorem encryption_request_is_empty:
  assumes "g_store g a = Some c" and "plain_connection c" and "c_buffer c = []"
    and "c_state c = LOGIN" and "c_owner c \<noteq> Owner_None" and "\<not> c_loopback c" and "w_endpoint_ok W"
    and "length (write_varint 0 @ enc_string name) < 2 ^ 21" and "length rest < 2 ^ 62"
  shows "onLengthReceive W a (Some (framed (write_varint 0 @ enc_string name) @ rest)) g =
    (Inr (), g\<lparr>g_store := (g_store g)(a \<mapsto> c\<lparr>c_buffer := rest, c_requestedUsername := name,
        c_verifyToken := w_random W\<rparr>),
      g_trace := g_trace g @ [Wrote a [1, 1]],
      g_callbacks := g_callbacks g @ [CB_onWriteComplete a, CB_onLengthReceive a]\<rparr>)"
proof -
  let ?d = "c\<lparr>c_buffer := rest\<rparr>" and ?p = "LoginStartPacket_new\<lparr>playerName := name\<rparr>"
  let ?e = "c\<lparr>c_buffer := rest, c_requestedUsername := name, c_verifyToken := w_random W\<rparr>"
  have fits: "fits_int32 name"
    using assms(8) by (simp add: enc_string_def fits_int32_def)
  have inc: "incoming SERVER_BOUND (P_LoginStart ?p) =
      \<lparr>packetId = 0, rawPayload = enc_string name, compressed = False\<rparr>"
    by (simp add: incoming_def byte_simps new_defs packet_record_defs)
  have rcv: "received (P_LoginStart ?p) = P_LoginStart ?p"
    by (simp add: received_def put_base_def new_defs packet_record_defs)
  have parse: "class_parse (w_cpp W) SERVER_BOUND LoginStartPacket
      \<lparr>packetId = 0, rawPayload = enc_string name, compressed = False\<rparr> = Inr (P_LoginStart ?p)"
    using class_parse_recoverable [of "P_LoginStart ?p" "w_cpp W" SERVER_BOUND SERVER_BOUND] fits inc rcv
    by simp
  have new: "newPacket (w_cpp W) CLIENT_BOUND LOGIN 0x01 = Some (P_Encryption (EncryptionPacket_new (w_cpp W)))"
    by (simp add: newPacket_def instantiateNew_def find_class_def registry_eq)
  let ?q = "P_Encryption (EncryptionPacket_new (w_cpp W)\<lparr>publickKey := str_of (w_public_key W),
      clearVerifyToken := w_random W\<rparr>)"
  have one: "packet_payload ?q = [1]" "framed [1] = [1, 1]"
    by (simp_all add: packet_payload_def framed_def byte_simps new_defs packet_record_defs
        write_varint_def leb128.simps size_int32_def)
  have sent: "send W a ?q (set_client a ?e g) = (Inr (), (set_client a ?e g)
      \<lparr>g_trace := g_trace g @ [Wrote a [1, 1]], g_callbacks := g_callbacks g @ [CB_onWriteComplete a]\<rparr>)"
    using send_plain [of "set_client a ?e g" a ?e ?q W] assms(2) one by (simp add: plain_connection_def)
  have "receivedMessage W SERVER_BOUND a (P_LoginStart ?p) (set_client a ?d g) =
      (Inr (), (set_client a ?e g)\<lparr>g_trace := g_trace g @ [Wrote a [1, 1]],
        g_callbacks := g_callbacks g @ [CB_onWriteComplete a]\<rparr>)"
    using assms sent new
    by (simp add: receivedMessage_by_state handle_by_state_def receive_login_start_def
        remote_endpoint_def bind_assoc upd_client_set plain_connection_def)
  then show ?thesis
    using onLengthReceive_frame [of g a c 0 "enc_string name" rest LoginStartPacket W "P_LoginStart ?p"]
      assms parse
    by (simp add: set_client_def)
qed

theorem encryption_request_is_empty_witness:
  "g_trace (snd (onLengthReceive example_world 0 (Some (example_login @ []))
     (example_gateway (example_client False\<lparr>c_state := LOGIN\<rparr>)))) = [Wrote 0 [1, 1]]"
proof -
  have "length (write_varint 0 @ enc_string ''Notch'') < 2 ^ 21"
    using enc_string_length [of "''Notch''"] length_write_varint [of 0] by simp
  then show ?thesis
    using encryption_request_is_empty [of "example_gateway (example_client False\<lparr>c_state := LOGIN\<rparr>)" 0
        "example_client False\<lparr>c_state := LOGIN\<rparr>" example_world "''Notch''" "[]"]
    by (simp add: example_defs example_login_def)
qed

text \<open>C7: the login of a player who connects from the machine itself: the login packet makes the
  connection a player under the id computed from the name. The answer is the login-success
  packet with that id and the name, then the database is asked for the player; the connection
  leaves the table of pending ones, is in the play state and belongs to the player server; a
  connection of the same player that was there before is destroyed; and reading goes on.\<close>
theorem local_login:
  assumes "g_store g a = Some c" and "plain_connection c" and "c_buffer c = []"
    and "c_state c = LOGIN" and "c_owner c = Owner_Login" and "c_loopback c" and "w_endpoint_ok W"
    and "owned_at (g_pendingClients g) (c_handle c) = Some a"
    and "loopback_userid (w_sha256 W) name = Inr i" and "length i = 36"
    and "owned_at (g_clients g) i \<noteq> Some a"
    and "length name < 2 ^ 20" and "length rest < 2 ^ 62"
  shows "\<exists>g' es. onLengthReceive W a (Some (framed (write_varint 0 @ enc_string name) @ rest)) g = (Inr (), g') \<and>
    owned_at (g_clients g') i = Some a \<and> owned_at (g_pendingClients g') (c_handle c) = None \<and>
    g_store g' a = Some (c\<lparr>c_owner := Owner_ClientServer, c_buffer := rest, c_state := PLAY,
      c_requestedUsername := name, c_userid := i, c_lastSeen := w_now W\<rparr>) \<and>
    (\<forall>b. owned_at (g_clients g) i = Some b \<longrightarrow> g_store g' b = None) \<and>
    g_trace g' = g_trace g @ Wrote a (framed (2 # enc_string i @ enc_string name)) #
      DbQuery (select_player i) # es \<and>
    CB_onLengthReceive a \<in> set (g_callbacks g')"
  using local_login_run [OF assms(1-10,12,13)] assms(11)
  by (auto simp: Let_def split: option.splits)

theorem local_login_witness:
  "\<exists>g' i. onLengthReceive example_world 0 (Some (example_login @ []))
      (example_gateway (example_client True\<lparr>c_state := LOGIN\<rparr>)) = (Inr (), g') \<and>
    owned_at (g_clients g') i = Some 0 \<and> owned_at (g_pendingClients g') 7 = None"
proof -
  obtain i where "loopback_userid (w_sha256 example_world) ''Notch'' = Inr i" "length i = 36"
    using example_userid by blast
  then show ?thesis
    using local_login [of "example_gateway (example_client True\<lparr>c_state := LOGIN\<rparr>)" 0
        "example_client True\<lparr>c_state := LOGIN\<rparr>" example_world "''Notch''" i "[]"]
    by (auto simp: example_defs example_login_def owned_at_def)
qed

text \<open>C8: an encryption response changes nothing at all unless both its parts can be decrypted, the
  decrypted secret has at least 16 bytes, and the four bytes that are compared are the token the
  gateway made. Those are the decrypted bytes, at most as many as the array holds, and behind
  them what the response's array held before, which no constructor sets: the decrypted bytes are
  a beginning of the gateway's token, and they are the whole of it when there are four of them,
  but fewer, or none, pass as well when the indeterminate bytes happen to complete it. When it
  passes, the connection's two ciphers have the first 16 bytes of the decrypted secret as key,
  and nothing is sent but at most the request to the session server.\<close>
theorem session_needs_token:
  assumes "receive_encryption_response W a response g = (r, g')" and "g' \<noteq> g"
  shows "\<exists>c token secret. g_store g a = Some c \<and> w_rsa_decrypt W (sealedVerifyToken response) = Some token \<and>
    w_rsa_decrypt W (sealedSharedSecret response) = Some secret \<and>
    c_verifyToken c = token @ drop (length token) (clearVerifyToken response) \<and>
    length token \<le> length (clearVerifyToken response) \<and> take (length token) (c_verifyToken c) = token \<and>
    16 \<le> length secret \<and>
    (\<exists>d. g_store g' a = Some d \<and> cipher_key (c_encrypt d) = Some (take 16 secret) \<and>
      cipher_key (c_decrypt d) = Some (take 16 secret)) \<and>
    (g_trace g' = g_trace g \<or>
     g_trace g' = g_trace g @ [HttpsConnect ''sessionserver.mojang.com'' ''https''])"
proof -
  obtain token secret where dec: "w_rsa_decrypt W (sealedVerifyToken response) = Some token"
    "w_rsa_decrypt W (sealedSharedSecret response) = Some secret"
    using assms by (auto simp: receive_encryption_response_def split: if_splits option.splits)
  obtain c where c: "g_store g a = Some c"
    "c_verifyToken c = token @ drop (length token) (clearVerifyToken response)" "16 \<le> length secret"
    "length token \<le> length (clearVerifyToken response)"
    using assms dec
    by (auto simp: receive_encryption_response_def bind_get_client split: if_splits option.splits)
  define k where "k = \<lparr>cipher_key = Some (take 16 secret), cipher_done = []\<rparr>"
  let ?g = "set_client a (c\<lparr>c_encrypt := k, c_decrypt := k\<rparr>) g"
  have run: "bind (lift (session_digest (w_sha1 W (bytes_of (serverId response) @ secret @ w_public_key W))))
      (authWithMojang W a) ?g = (r, g')"
    using assms dec c
    by (auto simp: receive_encryption_response_def upd_client_set k_def split: if_splits)
  have "(g_trace g' = g_trace g \<or> g_trace g' = g_trace g @ [HttpsConnect ''sessionserver.mojang.com'' ''https''])
      \<and> g_store g' = g_store ?g"
    using run
    by (cases "session_digest (w_sha1 W (bytes_of (serverId response) @ secret @ w_public_key W))")
      (auto simp: authWithMojang_def upd_client_set split: if_splits)
  then show ?thesis using dec c by (auto simp: k_def)
qed

lemma example_digest: "session_digest (replicate 20 1) = Inr ''101010101010101010101010101010101010101''"
  by code_simp

theorem session_needs_token_witness:
  "\<exists>g' d. receive_encryption_response example_world 0 ((EncryptionPacket_new example_env)
      \<lparr>sealedVerifyToken := [1, 2, 3, 4], sealedSharedSecret := replicate 16 7\<rparr>)
      (example_gateway (example_client False)) = (Inr (), g') \<and>
    g_store g' 0 = Some d \<and> cipher_key (c_encrypt d) = Some (replicate 16 7)"
proof -
  let ?p = "(EncryptionPacket_new example_env)
      \<lparr>sealedVerifyToken := [1, 2, 3, 4], sealedSharedSecret := replicate 16 7\<rparr>"
  let ?g = "example_gateway (example_client False)"
  obtain g' where run: "receive_encryption_response example_world 0 ?p ?g = (Inr (), g')"
      "g_callbacks g' \<noteq> g_callbacks ?g"
    using example_digest
    by (simp add: receive_encryption_response_def example_defs new_defs packet_record_defs upd_client_set
        junk_token_def authWithMojang_def)
  then have "g' \<noteq> ?g" by auto
  then show ?thesis
    using session_needs_token [OF run(1)] run(1) by (auto simp: example_world_def new_defs packet_record_defs)
qed

definition gone :: "address \<Rightarrow> gateway \<Rightarrow> bool" where
  "gone a g \<longleftrightarrow> (case g_store g a of None \<Rightarrow> True | Some d \<Rightarrow> \<not> c_alive d)"

lemma keeps_gone_upd: "(\<And>c. \<not> c_alive c \<Longrightarrow> \<not> c_alive (f c)) \<Longrightarrow> keeps (gone a) (upd_client b f)"
  by (auto simp: keeps_def triple_def upd_client_run gone_def split: option.split fault.split)

lemma keeps_gone_erase [triples]: "keeps (gone a) (erase_pending k)" "keeps (gone a) (erase_clients i)"
  unfolding erase_pending_def erase_clients_def destroy_def
  by (auto intro!: triples keeps_modify split: option.split) (auto simp: gone_def split: option.split)

lemma keeps_gone_emit [triples]: "keeps (gone a) (emit e)"
  by (simp add: keeps_def triple_def gone_def)

lemma keeps_gone_disconnecting:
  "keeps (gone a) (block [close_socket W b, bind (get_client b) (\<lambda>c. owner_clientDisconnected W (c_owner c) b)])"
  unfolding close_socket_def owner_clientDisconnected_def Login_clientDisconnected_def
    ClientServer_clientDisconnected_def getClientId_def
  by (auto intro!: triples keeps_gone_upd split: owner_ref.split)

lemma disconnect_gone: "disconnect W a g = (Inr (), g') \<Longrightarrow> gone a g'"
proof (cases "g_store g a")
  case (Some c)
  assume run: "disconnect W a g = (Inr (), g')"
  show ?thesis
  proof (cases "c_alive c")
    case True
    then have "block [close_socket W a, bind (get_client a) (\<lambda>c. owner_clientDisconnected W (c_owner c) a)]
        (set_client a (c\<lparr>c_alive := False\<rparr>) g) = (Inr (), g')"
      using run Some by (simp add: disconnect_def disconnect_via_def upd_client_set)
    then show ?thesis
      by (rule keeps_run(1) [OF keeps_gone_disconnecting, rotated]) (simp add: gone_def)
  qed (use run Some in \<open>simp add: disconnect_def disconnect_via_def upd_client_set gone_def\<close>)
qed (simp add: disconnect_def disconnect_via_def bind_get_client)

text \<open>C9: reading never stalls after a read that was handled: when the read handler of a live
  connection returns, either another read has been started, or the connection has been
  destroyed, or it is marked as disconnected.\<close>
theorem reading_continues:
  assumes "g_store g a = Some c" and "c_alive c" and "onLengthReceive W a data g = (Inr (), g')"
  shows "CB_onLengthReceive a \<in> set (g_callbacks g') \<or>
    (case g_store g' a of None \<Rightarrow> True | Some d \<Rightarrow> \<not> c_alive d)"
proof (cases data)
  case None
  then have "gone a g'"
    using assms by (auto simp: onLengthReceive_def upd_client_set intro: disconnect_gone)
  then show ?thesis by (simp add: gone_def)
next
  case (Some bytes)
  let ?handle = "\<lambda>p. try_catch (bind (receivedMessage W SERVER_BOUND a p) (\<lambda>_. ret True))
      (bind (disconnect W a) (\<lambda>_. ret False))"
  let ?loop = "\<lambda>parsed. case parsed of None \<Rightarrow> startAsyncRead a
      | Some p \<Rightarrow> bind (?handle p) (\<lambda>go_on. if go_on then startAsyncRead a else ret ())"
  have "bind (take_read W a bytes) (\<lambda>_. bind (next_frame W a) ?loop) g = (Inr (), g')"
    using assms Some by (simp add: onLengthReceive_def upd_client_set)
  then obtain parsed g1 where g1: "?loop parsed g1 = (Inr (), g')"
    by (auto simp: bind_def split: prod.splits sum.splits)
  show ?thesis
  proof (cases parsed)
    case None
    then show ?thesis using g1 by (auto simp: startAsyncRead_def)
  next
    case (Some p)
    then obtain go_on g2 where g2: "?handle p g1 = (Inr go_on, g2)"
      "(if go_on then startAsyncRead a else ret ()) g2 = (Inr (), g')"
      using g1 by (auto simp: bind_def split: prod.splits sum.splits)
    show ?thesis
    proof (cases go_on)
      case True
      then show ?thesis using g2 by (auto simp: startAsyncRead_def)
    next
      case False
      then have "\<exists>g3. disconnect W a g3 = (Inr (), g2)"
        using g2(1) by (auto simp: try_catch_def bind_def split: prod.splits sum.splits fault.splits)
      then have "gone a g'" using disconnect_gone False g2(2) by auto
      then show ?thesis by (simp add: gone_def)
    qed
  qed
qed

theorem reading_continues_witness:
  "\<exists>g'. onLengthReceive example_world 0 (Some (example_request @ [])) (example_gateway (example_client True))
      = (Inr (), g') \<and>
    (CB_onLengthReceive 0 \<in> set (g_callbacks g') \<or> (case g_store g' 0 of None \<Rightarrow> True | Some d \<Rightarrow> \<not> c_alive d))"
proof -
  have client: "g_store (example_gateway (example_client True)) 0 = Some (example_client True)"
    "c_alive (example_client True)"
    by (simp_all add: example_defs)
  moreover obtain g' where "onLengthReceive example_world 0 (Some (example_request @ []))
      (example_gateway (example_client True)) = (Inr (), g')"
    using handshake_run [of "example_gateway (example_client True)" 0 "example_client True" 47 "[104]"
        25565 2 "[]" example_world] example_fits
    by (simp add: example_request_def example_defs)
  ultimately show ?thesis using reading_continues by blast
qed

section \<open>Datagrams\<close>

lemma for_each_fails:
  assumes "x \<in> set xs" and "\<And>s. \<exists>e s'. f x s = (Inl e, s')"
  shows "\<exists>e s'. for_each f xs s = (Inl e, s')"
  using assms(1)
proof (induction xs arbitrary: s)
  case (Cons y ys)
  show ?case
  proof (cases "x = y")
    case True
    then show ?thesis using assms(2) [of s] by (auto simp: bind_def)
  next
    case False
    then show ?thesis using Cons by (auto simp: bind_def split: prod.split sum.split)
  qed
qed simp

lemma null_entry: "owned_at m k = None \<Longrightarrow> (k, None) \<in> set (index k m)"
  by (auto simp: owned_at_def index_def image_iff split: option.splits dest: map_of_SomeD)
    (metis Some_eq_map_of_iff map_of_eq_None_iff fst_conv image_eqI option.exhaust weak_map_of_SomeI)

text \<open>A datagram for a player the gateway does not have is not sent anywhere, but looking the
  player up leaves a null entry in the table of players, and shutting down, which calls every
  entry, then never returns: it dereferences the null pointer, unless an earlier entry has
  already ended it in a fault.\<close>
theorem unknown_player_breaks_shutdown:
  assumes "owned_at (g_clients g) (getPlayerID m) = None"
  shows "\<exists>g' e. handleMessage W (Some m) g = (Inr (), g') \<and> g_trace g' = g_trace g \<and>
    g_store g' = g_store g \<and> (getPlayerID m, None) \<in> set (g_clients g') \<and>
    fst (sendShutdownSignal W g') = Inl e"
proof -
  let ?g = "g\<lparr>g_clients := index (getPlayerID m) (g_clients g)\<rparr>"
  have entry: "(getPlayerID m, None) \<in> set (g_clients ?g)"
    using null_entry [OF assms] by simp
  have "\<exists>e s'. for_each (disconnect_entry W) (g_clients ?g) ?g = (Inl e, s')"
    by (rule for_each_fails [OF entry]) (simp add: disconnect_entry_def)
  then obtain e s' where "for_each (disconnect_entry W) (g_clients ?g) ?g = (Inl e, s')" by blast
  then have "fst (sendShutdownSignal W ?g) = Inl e"
    by (simp add: sendShutdownSignal_def bind_def)
  moreover have "handleMessage W (Some m) g = (Inr (), ?g)"
    using assms by (simp add: handleMessage_def index_clients_def bind_assoc)
  ultimately show ?thesis using entry by auto
qed

theorem unknown_player_breaks_shutdown_witness:
  "\<exists>g' e. handleMessage example_world (Some (newPacket_full example_header MC_PACKET ''nobody'' [1]))
      (example_gateway (example_client True)) = (Inr (), g') \<and> fst (sendShutdownSignal example_world g') = Inl e"
  using unknown_player_breaks_shutdown [of "example_gateway (example_client True)"
      "newPacket_full example_header MC_PACKET ''nobody'' [1]" example_world]
  by (auto simp: example_gateway_def initial_gateway_def)

end
