(* ===== verification/Game_Node.thy ===== *)
theory Game_Node
  imports Internal_Comms Bit_Fields Effects
begin

text \<open>
  The game node (\<open>Client Server/\<close>): its state types and its event loop. A node waits for one
  datagram at a time; the handler reads it, decodes it and waits for the next one. What asio
  delivers for a wait is an \<open>arrival\<close>.
\<close>

section \<open>Game state\<close>

record entity_base =
  entityId :: "64 word"

type_synonym entity_living = entity_base
type_synonym entity_player = entity_living

definition getEntityId :: "entity_base \<Rightarrow> 64 word" where
  "getEntityId e = entityId e"

text \<open>The union of three bit fields over one byte.\<close>

type_synonym game_mode = "64 word"

definition gamemode :: "game_mode \<Rightarrow> 64 word" where "gamemode m = bf_get 0 3 m"

definition hardcoreFlag :: "oversize_shift \<Rightarrow> game_mode \<Rightarrow> bool" where "hardcoreFlag ovs m = flag_get ovs 3 m"

definition gamemodeByte :: "game_mode \<Rightarrow> 64 word" where "gamemodeByte m = bf_get 0 4 m"

definition set_gamemode :: "oversize_shift \<Rightarrow> 32 word \<Rightarrow> game_mode \<Rightarrow> game_mode" where
  "set_gamemode ovs v m = bf_assign ovs 0 3 (Signed32 v) m"

definition set_hardcoreFlag :: "oversize_shift \<Rightarrow> bool \<Rightarrow> game_mode \<Rightarrow> game_mode" where
  "set_hardcoreFlag ovs b m = flag_assign ovs 3 b m"

datatype difficulty = PEACEFUL | EASY | NORMAL | HARD

record game_state =
  clientId :: string
  playerEntity :: "entity_player option"
  gameMode :: game_mode
  dimension :: byte
  gs_difficulty :: difficulty
  showReducedDebugInfo :: bool

section \<open>The event loop\<close>

type_synonym endpoint_address = string

text \<open>
  \<open>waiting\<close>: a wait for the next datagram is registered. \<open>node_log\<close> is what was written to
  the error stream, \<open>node_sent\<close> the datagrams handed to the socket with their destinations.
\<close>

record node =
  waiting :: bool
  node_log :: "string list"
  node_sent :: "(bytes \<times> endpoint_address \<times> nat) list"
  players :: "game_state list"

type_synonym 'a nd = "(node, 'a) st"

text \<open>
  The outcome of one wait: the error of the wait, the number of bytes the socket says are
  available, and the error or the datagram of the read.
\<close>

record arrival =
  ar_error :: "string option"
  ar_available :: "nat res"
  ar_datagram :: "string + bytes \<times> endpoint_address"

definition node_new :: node where
  "node_new = \<lparr>waiting = False, node_log = [], node_sent = [], players = []\<rparr>"

definition write_log :: "string \<Rightarrow> unit nd" where
  "write_log s = modify (\<lambda>n. n\<lparr>node_log := node_log n @ [s]\<rparr>)"

definition startReceive :: "unit nd" where
  "startReceive = modify (\<lambda>n. n\<lparr>waiting := True\<rparr>)"

definition init :: "unit nd" where
  "init = startReceive"

text \<open>No message changes anything yet; the packet is dereferenced for its id.\<close>

definition handleMessage :: "endpoint_address \<Rightarrow> comms_packet option \<Rightarrow> unit nd" where
  "handleMessage endpointFrom packet = (case packet of
       None \<Rightarrow> fault (UB NullDeref)
     | Some p \<Rightarrow> (case getMessageID p of ACCEPT_CLIENT \<Rightarrow> ret () | MC_PACKET \<Rightarrow> ret () | _ \<Rightarrow> ret ()))"

definition onDatagramMessageReceived :: "arrival \<Rightarrow> unit nd" where
  "onDatagramMessageReceived ar = (case ar_error ar of
       Some e \<Rightarrow> write_log e
     | None \<Rightarrow> bind (lift (ar_available ar)) (\<lambda>bytesAvailable. case ar_datagram ar of
         Inl e \<Rightarrow> write_log e
       | Inr (datagram, senderEndpoint) \<Rightarrow>
           bind (lift (fromData (take bytesAvailable datagram) True)) (\<lambda>(p, data).
           bind (handleMessage senderEndpoint p) (\<lambda>_. startReceive))))"

definition sendPacket :: "comms_packet \<Rightarrow> endpoint_address \<Rightarrow> unit nd" where
  "sendPacket message endpointFrom = bind (lift (serializeData message [])) (\<lambda>rawData.
     modify (\<lambda>n. n\<lparr>node_sent := node_sent n @ [(rawData, endpointFrom, 1338)]\<rparr>))"

definition onWriteComplete :: "string option \<Rightarrow> unit nd" where
  "onWriteComplete error = (case error of
       None \<Rightarrow> ret ()
     | Some e \<Rightarrow> write_log (''Internal write error from clientserver node: '' @ e))"

text \<open>
  \<open>io_service::run\<close> returns when nothing is registered any more. \<open>listen\<close> catches by value,
  so \<open>what()\<close> is that of the base class.
\<close>

fun run_service :: "arrival list \<Rightarrow> unit nd" where
  "run_service [] = ret ()"
| "run_service (ar # ars) = bind (gets waiting) (\<lambda>w. if w
     then bind (modify (\<lambda>n. n\<lparr>waiting := False\<rparr>)) (\<lambda>_.
       bind (onDatagramMessageReceived ar) (\<lambda>_. run_service ars))
     else ret ())"

definition listen :: "arrival list \<Rightarrow> unit nd" where
  "listen ars = try_catch (run_service ars)
     (write_log ''Caught error in main server event loop: std::exception'')"

definition node_main :: "arrival list \<Rightarrow> fault + unit" where
  "node_main ars = fst (bind init (\<lambda>_. listen ars) node_new)"

section \<open>Facts\<close>

lemma gamemode_byte:
  "bit (gamemodeByte m) n \<longleftrightarrow> n < 4 \<and> bit m n" "bit (gamemode m) n \<longleftrightarrow> n < 3 \<and> bit m n"
  by (simp_all add: gamemodeByte_def gamemode_def bit_bf_get)

text \<open>Setting the flag leaves the mode alone, and the other way round.\<close>

lemma gamemode_independent:
  "gamemode (set_hardcoreFlag ovs b m) = gamemode m"
  "bit (set_gamemode ovs v m) 3 = bit m 3"
  by (auto intro: bit_eqI simp: gamemode_byte set_hardcoreFlag_def bit_flag_assign)
    (simp_all add: set_gamemode_def bf_assign_frame)

text \<open>An arrival the node can serve: a datagram that holds a whole packet.\<close>

definition servable :: "arrival \<Rightarrow> bool" where
  "servable ar \<longleftrightarrow> ar_error ar = None \<and>
     (case (ar_available ar, ar_datagram ar) of
        (Inr n, Inr (d, from)) \<Rightarrow> (case fromData (take n d) True of Inr (Some p, rest) \<Rightarrow> True | _ \<Rightarrow> False)
      | _ \<Rightarrow> False)"

lemma handle_servable:
  "servable ar \<Longrightarrow> onDatagramMessageReceived ar s = (Inr (), s\<lparr>waiting := True\<rparr>)"
  by (auto simp: servable_def onDatagramMessageReceived_def handleMessage_def startReceive_def
      split: sum.splits prod.splits option.splits message_id.splits)

lemma handle_not_servable:
  assumes "\<not> servable ar" and "\<not> waiting s"
  shows "\<not> waiting (snd (onDatagramMessageReceived ar s))"
  using assms
  by (auto simp: servable_def onDatagramMessageReceived_def handleMessage_def write_log_def bind_def
      split: sum.splits prod.splits option.splits)

lemma run_stopped: "\<not> waiting s \<Longrightarrow> run_service ars s = (Inr (), s)"
  by (cases ars) simp_all

lemma run_servable: "waiting s \<Longrightarrow> list_all servable ars \<Longrightarrow> run_service ars s = (Inr (), s)"
proof (induction ars)
  case (Cons ar ars)
  have same: "s\<lparr>waiting := True\<rparr> = s" using Cons.prems(1) by (cases s) simp
  show ?case using Cons by (simp add: bind_Inr [OF handle_servable] same)
qed simp

lemma run_not_servable:
  "\<not> list_all servable ars \<Longrightarrow> \<not> waiting (snd (run_service ars s))"
proof (induction ars arbitrary: s)
  case (Cons ar ars)
  show ?case
  proof (cases "waiting s")
    case True
    let ?s = "s\<lparr>waiting := False\<rparr>"
    obtain r s1 where 1: "onDatagramMessageReceived ar ?s = (r, s1)" by (cases "onDatagramMessageReceived ar ?s")
    show ?thesis
    proof (cases "servable ar")
      case True
      then show ?thesis using Cons \<open>waiting s\<close> by (simp add: bind_Inr [OF handle_servable])
    next
      case False
      then have "\<not> waiting s1" using handle_not_servable [OF False, of ?s] 1 by simp
      then show ?thesis using \<open>waiting s\<close> 1 run_stopped [of s1 ars] by (cases r) (simp_all add: bind_def)
    qed
  next
    case False
    then show ?thesis by simp
  qed
qed simp

section \<open>Properties\<close>

text \<open>C18: the game node goes on waiting for datagrams exactly as long as every one is delivered
  without an error and holds a whole packet. Such datagrams leave everything else as it was. After
  one failed wait, one failed read, one exception or one datagram that is too short, the node no
  longer waits, whatever arrives later.\<close>
theorem node_keeps_serving:
  assumes "waiting s"
  shows "(waiting (snd (listen ars s)) \<longleftrightarrow> list_all servable ars) \<and>
    (listen ars s = (Inr (), s) \<longleftrightarrow> list_all servable ars)"
proof -
  obtain r s' where run: "run_service ars s = (r, s')" by (cases "run_service ars s")
  have "waiting (snd (listen ars s)) = waiting s'"
    using run by (auto simp: listen_def try_catch_def write_log_def split: sum.splits fault.splits)
  then show ?thesis
    using assms run run_servable [OF assms, of ars] run_not_servable [of ars s]
    by (auto simp: listen_def try_catch_def)
qed

definition datagram_of :: "bytes \<Rightarrow> arrival" where
  "datagram_of d = \<lparr>ar_error = None, ar_available = Inr (length d), ar_datagram = Inr (d, ''10.0.0.1'')\<rparr>"

theorem node_keeps_serving_witness:
  "waiting (snd (listen [datagram_of (enc_comms (newPacket_full example_header ACCEPT_CLIENT ''abc'' [1, 2]))]
     (node_new\<lparr>waiting := True\<rparr>)))"
proof -
  let ?p = "newPacket_full example_header ACCEPT_CLIENT ''abc'' [1, 2]"
  have "comms_ok ?p" by (rule newPacket_full_ok) (simp_all add: example_header_def header_ok_def UUID_SIZE_def)
  then have "fromData (enc_comms ?p) True = Inr (Some ?p, [])" using fromData_enc_comms [of ?p "[]"] by simp
  then have "servable (datagram_of (enc_comms ?p))" by (simp add: servable_def datagram_of_def)
  then show ?thesis
    using node_keeps_serving [of "node_new\<lparr>waiting := True\<rparr>" "[datagram_of (enc_comms ?p)]"]
    by simp
qed

text \<open>A datagram that announces more payload than it carries makes the node dereference a null
  pointer, in whatever state it is waiting.\<close>
theorem truncated_datagram_crashes_node:
  assumes "waiting s" and "length d < 2 ^ 63" and "HEADER_SIZE \<le> length d"
    and "length d < HEADER_SIZE + unat (hdr_payloadLength (header_of_bytes (take HEADER_SIZE d)))"
    and "HEADER_SIZE + unat (hdr_payloadLength (header_of_bytes (take HEADER_SIZE d))) < 2 ^ 64"
  shows "fst (listen (datagram_of d # ars) s) = Inl (UB NullDeref)"
proof -
  have "fromData d True = Inr (None, d)"
    using assms(2-5) unfolding fromData_def Let_def
    by (auto simp: word_less_nat_alt unat_word_ariths unat_size_of HEADER_SIZE_def)
  then have "onDatagramMessageReceived (datagram_of d) t = (Inl (UB NullDeref), t)" for t
    by (simp add: onDatagramMessageReceived_def datagram_of_def handleMessage_def)
  then show ?thesis
    using assms(1) by (simp add: listen_def try_catch_def bind_Inl)
qed

theorem truncated_datagram_crashes_node_witness:
  "fst (listen [datagram_of (replicate 38 0 @ 1 # replicate 7 0)] (node_new\<lparr>waiting := True\<rparr>)) =
    Inl (UB NullDeref)"
proof -
  let ?d = "replicate 38 0 @ 1 # replicate 7 (0 :: byte)"
  have "le_word (1 # replicate 7 0) = (1 :: 64 word)" by code_simp
  then have "hdr_payloadLength (header_of_bytes (take HEADER_SIZE ?d)) = 1"
    by (simp add: header_of_bytes_def HEADER_SIZE_def UUID_SIZE_def)
  then show ?thesis
    using truncated_datagram_crashes_node [of "node_new\<lparr>waiting := True\<rparr>" ?d "[]"]
    by (simp add: HEADER_SIZE_def)
qed

end
