(* ===== verification/Conn_Pool.thy ===== *)
theory Conn_Pool
  imports Owning_Map
begin

text \<open>
  \<open>ConnectionPool\<close> of MySQL++ (\<open>mysqlpp/lib/cpool.cpp\<close>, \<open>cpool.h\<close>): a list of database
  connections that are handed out, taken back, and dropped when they have been idle for too
  long. What the class leaves to its subclass, creating a connection and the idle time, and the
  clock and \<open>ping\<close> of a connection, are the record \<open>pool_env\<close>. The mutex makes every
  operation atomic.
\<close>

section \<open>The pool\<close>

text \<open>\<open>time_t\<close> counts seconds and does not overflow; it is an integer here.\<close>

record conn_info =
  conn :: address
  last_used :: int
  in_use :: bool

record pool =
  conns :: "conn_info list"
  created :: nat
  destroyed :: "address list"

record pool_env =
  now :: int
  max_idle_time :: nat
  create :: "nat \<Rightarrow> address"
  pings :: "address \<Rightarrow> bool"

definition ConnectionInfo_new :: "pool_env \<Rightarrow> address \<Rightarrow> conn_info" where
  "ConnectionInfo_new env c = \<lparr>conn = c, last_used = now env, in_use = True\<rparr>"

text \<open>\<open>operator<\<close>: connections in use come first, then the ones used least recently.\<close>

definition conn_less :: "conn_info \<Rightarrow> conn_info \<Rightarrow> bool" where
  "conn_less lhs rhs = (if in_use lhs = in_use rhs then last_used lhs < last_used rhs else in_use lhs)"

definition too_old :: "pool_env \<Rightarrow> conn_info \<Rightarrow> bool" where
  "too_old env c \<longleftrightarrow> \<not> in_use c \<and> last_used c \<le> now env - int (max_idle_time env)"

definition pool_empty :: "pool \<Rightarrow> bool" where "pool_empty p = (conns p = [])"

definition pool_size :: "pool \<Rightarrow> nat" where "pool_size p = length (conns p)"

text \<open>\<open>remove\<close> with an iterator, here the position.\<close>

definition remove_at :: "nat \<Rightarrow> pool \<Rightarrow> pool" where
  "remove_at i p = p\<lparr>conns := take i (conns p) @ drop (Suc i) (conns p),
     destroyed := destroyed p @ [conn (conns p ! i)]\<rparr>"

text \<open>A scan that removes the entries for which the test holds, from position \<open>i\<close> on.\<close>

function remove_from :: "(conn_info \<Rightarrow> bool) \<Rightarrow> nat \<Rightarrow> pool \<Rightarrow> pool" where
  "remove_from test i p =
     (if length (conns p) \<le> i then p
      else if test (conns p ! i) then remove_from test i (remove_at i p)
      else remove_from test (Suc i) p)"
  by pat_completeness auto
termination
  by (relation "measure (\<lambda>(test, i, p). length (conns p) - i)") (auto simp: remove_at_def)

declare remove_from.simps [simp del]

definition clear :: "bool \<Rightarrow> pool \<Rightarrow> pool" where
  "clear all p = remove_from (\<lambda>c. all \<or> \<not> in_use c) 0 p"

definition shrink :: "pool \<Rightarrow> pool" where "shrink p = clear False p"

definition remove_old_connections :: "pool_env \<Rightarrow> pool \<Rightarrow> pool" where
  "remove_old_connections env p = remove_from (too_old env) 0 p"

text \<open>\<open>std::max_element\<close>: the first of the largest elements.\<close>

function max_element_from :: "conn_info list \<Rightarrow> nat \<Rightarrow> nat \<Rightarrow> nat" where
  "max_element_from cs best i =
     (if length cs \<le> i then best
      else max_element_from cs (if conn_less (cs ! best) (cs ! i) then i else best) (Suc i))"
  by pat_completeness auto
termination
  by (relation "measure (\<lambda>(cs, best, i). length cs - i)") auto

declare max_element_from.simps [simp del]

definition find_mru :: "pool \<Rightarrow> (address \<times> pool) option" where
  "find_mru p =
     (if conns p = [] then None
      else let mru = max_element_from (conns p) 0 1; c = conns p ! mru in
        if \<not> in_use c then Some (conn c, p\<lparr>conns := (conns p)[mru := c\<lparr>in_use := True\<rparr>]\<rparr>)
        else None)"

definition grab :: "pool_env \<Rightarrow> pool \<Rightarrow> address \<times> pool" where
  "grab env p = (let p = remove_old_connections env p in
     case find_mru p of
       Some r \<Rightarrow> r
     | None \<Rightarrow> (create env (created p),
         p\<lparr>conns := conns p @ [ConnectionInfo_new env (create env (created p))],
           created := Suc (created p)\<rparr>))"

text \<open>\<open>release\<close> and \<open>remove\<close> look for the first entry with the address, if there is one.\<close>

fun release_in :: "pool_env \<Rightarrow> address \<Rightarrow> conn_info list \<Rightarrow> conn_info list" where
  "release_in env pc [] = []"
| "release_in env pc (c # cs) =
     (if conn c = pc then c\<lparr>in_use := False, last_used := now env\<rparr> # cs
      else c # release_in env pc cs)"

definition release :: "pool_env \<Rightarrow> address \<Rightarrow> pool \<Rightarrow> pool" where
  "release env pc p = p\<lparr>conns := release_in env pc (conns p)\<rparr>"

fun position_of :: "address \<Rightarrow> conn_info list \<Rightarrow> nat option" where
  "position_of pc [] = None"
| "position_of pc (c # cs) = (if conn c = pc then Some 0 else map_option Suc (position_of pc cs))"

definition remove :: "address \<Rightarrow> pool \<Rightarrow> pool" where
  "remove pc p = (case position_of pc (conns p) of None \<Rightarrow> p | Some i \<Rightarrow> remove_at i p)"

definition exchange :: "pool_env \<Rightarrow> address \<Rightarrow> pool \<Rightarrow> address \<times> pool" where
  "exchange env pc p = grab env (remove pc p)"

text \<open>The loop of \<open>safe_grab\<close>, which may run forever; \<open>None\<close> when it does.\<close>

partial_function (option) safe_grab :: "pool_env \<Rightarrow> pool \<Rightarrow> (address \<times> pool) option" where
  "safe_grab env p = (let (pc, p') = grab env p in
     if pings env pc then Some (pc, p') else safe_grab env (remove pc p'))"

section \<open>Ordering\<close>

lemma conn_less_irrefl: "\<not> conn_less c c"
  by (simp add: conn_less_def)

lemma conn_less_trans: "conn_less a b \<Longrightarrow> conn_less b c \<Longrightarrow> conn_less a c"
  by (auto simp: conn_less_def split: if_splits)

lemma conn_less_negative: "\<not> conn_less a b \<Longrightarrow> \<not> conn_less b c \<Longrightarrow> \<not> conn_less a c"
  by (auto simp: conn_less_def split: if_splits)

lemma max_element_from_spec:
  assumes "best < length cs" and "\<And>j. j < i \<Longrightarrow> j < length cs \<Longrightarrow> \<not> conn_less (cs ! best) (cs ! j)"
  shows "max_element_from cs best i < length cs \<and>
    (\<forall>j < length cs. \<not> conn_less (cs ! max_element_from cs best i) (cs ! j))"
  using assms
proof (induction cs best i rule: max_element_from.induct)
  case (1 cs best i)
  show ?case
  proof (cases "length cs \<le> i")
    case True
    then have "max_element_from cs best i = best" using max_element_from.simps [of cs best i] by simp
    then show ?thesis using "1.prems" True by auto
  next
    case False
    let ?best = "if conn_less (cs ! best) (cs ! i) then i else best"
    have step: "max_element_from cs best i = max_element_from cs ?best (Suc i)"
      using False max_element_from.simps [of cs best i] by simp
    have "\<not> conn_less (cs ! ?best) (cs ! j)" if "j < Suc i" "j < length cs" for j
    proof (cases "j = i")
      case True
      then show ?thesis by (simp add: conn_less_irrefl)
    next
      case False
      then have "\<not> conn_less (cs ! best) (cs ! j)" using "1.prems"(2) [of j] that by simp
      then show ?thesis using conn_less_trans by (cases "conn_less (cs ! best) (cs ! i)") auto
    qed
    then show ?thesis using "1.IH" [OF False] "1.prems"(1) False unfolding step by simp
  qed
qed

lemma max_element_spec:
  assumes "cs \<noteq> []"
  shows "max_element_from cs 0 1 < length cs"
    and "c \<in> set cs \<Longrightarrow> \<not> conn_less (cs ! max_element_from cs 0 1) c"
  using max_element_from_spec [of 0 cs 1] assms conn_less_irrefl by (auto simp: in_set_conv_nth)

section \<open>Scans\<close>

lemma conns_remove_from:
  "conns (remove_from test i p) = take i (conns p) @ filter (\<lambda>c. \<not> test c) (drop i (conns p))"
proof (induction test i p rule: remove_from.induct)
  case (1 test i p)
  show ?case
  proof (cases "length (conns p) \<le> i")
    case False
    then have "drop i (conns p) = conns p ! i # drop (Suc i) (conns p)"
      by (simp add: Cons_nth_drop_Suc)
    then show ?thesis
      using 1 False by (subst remove_from.simps) (auto simp: remove_at_def take_Suc_conv_app_nth)
  qed (simp add: remove_from.simps)
qed

lemma destroyed_remove_from:
  "destroyed (remove_from test i p) = destroyed p @ map conn (filter test (drop i (conns p)))"
proof (induction test i p rule: remove_from.induct)
  case (1 test i p)
  show ?case
  proof (cases "length (conns p) \<le> i")
    case False
    then have "drop i (conns p) = conns p ! i # drop (Suc i) (conns p)"
      by (simp add: Cons_nth_drop_Suc)
    then show ?thesis using 1 False by (subst remove_from.simps) (auto simp: remove_at_def)
  qed (simp add: remove_from.simps)
qed

lemma created_remove_from [simp]: "created (remove_from test i p) = created p"
  by (induction test i p rule: remove_from.induct) (subst remove_from.simps, auto simp: remove_at_def)

section \<open>The abstract pool\<close>

text \<open>What a client knows of the pool: who holds a connection, and the idle ones with the time of
  their last use.\<close>

definition busy :: "pool \<Rightarrow> address set" where
  "busy p = {conn c | c. c \<in> set (conns p) \<and> in_use c}"

definition idle :: "pool \<Rightarrow> address \<Rightarrow> int option" where
  "idle p = map_of (map (\<lambda>c. (conn c, last_used c)) (filter (\<lambda>c. \<not> in_use c) (conns p)))"

definition pool_ok :: "pool \<Rightarrow> bool" where
  "pool_ok p = distinct (map conn (conns p))"

text \<open>The idle connections that have not expired.\<close>

definition current :: "pool_env \<Rightarrow> pool \<Rightarrow> address \<Rightarrow> int option" where
  "current env p = (\<lambda>a. case idle p a of
     Some t \<Rightarrow> if t \<le> now env - int (max_idle_time env) then None else Some t | None \<Rightarrow> None)"

definition grab_spec :: "pool_env \<Rightarrow> pool \<Rightarrow> address \<Rightarrow> pool \<Rightarrow> bool" where
  "grab_spec env p a p' \<longleftrightarrow> busy p' = insert a (busy p) \<and> idle p' = (current env p)(a := None) \<and>
     (if current env p = Map.empty then a = create env (created p)
      else \<exists>t. current env p a = Some t \<and> (\<forall>b u. current env p b = Some u \<longrightarrow> u \<le> t))"

lemma busy_image: "busy p = conn ` {c \<in> set (conns p). in_use c}"
  by (auto simp: busy_def)

lemma idle_iff:
  assumes "pool_ok p"
  shows "idle p a = Some t \<longleftrightarrow> (\<exists>c \<in> set (conns p). \<not> in_use c \<and> conn c = a \<and> last_used c = t)"
proof -
  let ?l = "map (\<lambda>c. (conn c, last_used c)) (filter (\<lambda>c. \<not> in_use c) (conns p))"
  have "distinct (map fst ?l)"
    using assms by (simp add: pool_ok_def distinct_map_filter comp_def)
  then show ?thesis by (auto simp: idle_def)
qed

lemma conn_inject: "pool_ok p \<Longrightarrow> c \<in> set (conns p) \<Longrightarrow> d \<in> set (conns p) \<Longrightarrow> conn c = conn d \<Longrightarrow> c = d"
  by (auto simp: pool_ok_def distinct_map dest: inj_onD)

lemma conns_remove_old: "conns (remove_old_connections env p) = filter (\<lambda>c. \<not> too_old env c) (conns p)"
  by (simp add: remove_old_connections_def conns_remove_from)

lemma pool_ok_remove_old: "pool_ok p \<Longrightarrow> pool_ok (remove_old_connections env p)"
  by (simp add: pool_ok_def conns_remove_old distinct_map_filter)

lemma current_iff:
  "current env p a = Some t \<longleftrightarrow> idle p a = Some t \<and> now env - int (max_idle_time env) < t"
  by (auto simp: current_def split: option.split)

lemma idle_remove_old: "pool_ok p \<Longrightarrow> idle (remove_old_connections env p) = current env p"
proof (rule ext)
  fix a
  assume ok: "pool_ok p"
  have "idle (remove_old_connections env p) a = Some t \<longleftrightarrow> current env p a = Some t" for t
    unfolding current_iff idle_iff [OF ok] idle_iff [OF pool_ok_remove_old [OF ok]]
    by (auto simp: conns_remove_old too_old_def)
  then show "idle (remove_old_connections env p) a = current env p a"
    by (metis option.exhaust)
qed

lemma busy_remove_old: "busy (remove_old_connections env p) = busy p"
  by (auto simp: busy_def conns_remove_old too_old_def)

lemma hand_out:
  assumes ok: "pool_ok p" and m: "m < length (conns p)" "\<not> in_use (conns p ! m)"
  defines "c \<equiv> conns p ! m"
  defines "p' \<equiv> p\<lparr>conns := (conns p)[m := c\<lparr>in_use := True\<rparr>]\<rparr>"
  shows "pool_ok p'" "map conn (conns p') = map conn (conns p)"
    "busy p' = insert (conn c) (busy p)" "idle p' = (idle p)(conn c := None)"
proof -
  have c: "c \<in> set (conns p)" "\<not> in_use c" using m by (auto simp: c_def)
  have "map conn (conns p') = (map conn (conns p))[m := conn (conns p ! m)]"
    by (simp add: p'_def c_def map_update)
  then show same: "map conn (conns p') = map conn (conns p)"
    using m list_update_id [of "map conn (conns p)" m] by simp
  then show ok': "pool_ok p'" using ok by (simp add: pool_ok_def)
  have set: "set (conns p') = insert (c\<lparr>in_use := True\<rparr>) (set (conns p) - {c})"
    using ok m set_update_distinct [of "conns p" m] by (simp add: p'_def pool_ok_def distinct_map c_def)
  show "busy p' = insert (conn c) (busy p)"
    using c unfolding busy_def set by (auto simp: image_iff intro: exI [of _ "c\<lparr>in_use := True\<rparr>"])
  show "idle p' = (idle p)(conn c := None)"
  proof (rule ext)
    fix a
    have "idle p' a = Some t \<longleftrightarrow> ((idle p)(conn c := None)) a = Some t" for t
      using c conn_inject [OF ok] unfolding idle_iff [OF ok'] set by (auto simp: idle_iff [OF ok])
    then show "idle p' a = ((idle p)(conn c := None)) a" by (metis option.exhaust)
  qed
qed

lemma find_mru_spec:
  assumes ok: "pool_ok p"
  shows "case find_mru p of
      None \<Rightarrow> idle p = Map.empty
    | Some (a, p') \<Rightarrow> pool_ok p' \<and> map conn (conns p') = map conn (conns p) \<and> created p' = created p \<and>
        busy p' = insert a (busy p) \<and> idle p' = (idle p)(a := None) \<and>
        (\<exists>t. idle p a = Some t \<and> (\<forall>b u. idle p b = Some u \<longrightarrow> u \<le> t))"
proof (cases "conns p = []")
  case True
  then show ?thesis by (auto simp: find_mru_def idle_def)
next
  case False
  define m where "m = max_element_from (conns p) 0 1"
  have m: "m < length (conns p)" "\<And>c. c \<in> set (conns p) \<Longrightarrow> \<not> conn_less (conns p ! m) c"
    using max_element_spec [OF False] by (auto simp: m_def)
  show ?thesis
  proof (cases "in_use (conns p ! m)")
    case True
    have "in_use c" if "c \<in> set (conns p)" for c
      using m(2) [OF that] True by (auto simp: conn_less_def split: if_splits)
    then have "idle p = Map.empty" by (auto simp: idle_def filter_empty_conv)
    then show ?thesis using False True by (simp add: find_mru_def m_def Let_def)
  next
    case free: False
    have "idle p (conn (conns p ! m)) = Some (last_used (conns p ! m))"
      using m(1) free by (auto simp: idle_iff [OF ok])
    moreover have "u \<le> last_used (conns p ! m)" if "idle p b = Some u" for b u
      using that m(2) free by (force simp: idle_iff [OF ok] conn_less_def split: if_splits)
    ultimately show ?thesis
      using hand_out [OF ok m(1) free] False free by (simp add: find_mru_def m_def [symmetric, simplified] Let_def)
  qed
qed

lemma grab_spec_holds:
  assumes ok: "pool_ok p" and fresh: "create env (created p) \<notin> conn ` set (conns p)"
    and run: "grab env p = (a, p')"
  shows "grab_spec env p a p' \<and> pool_ok p' \<and> (a \<in> conn ` set (conns p) \<or> a = create env (created p)) \<and>
    conn ` set (conns p') \<subseteq> insert a (conn ` set (conns p))"
proof -
  define q where "q = remove_old_connections env p"
  have q: "pool_ok q" "idle q = current env p" "busy q = busy p" "created q = created p"
    "conn ` set (conns q) \<subseteq> conn ` set (conns p)"
    using pool_ok_remove_old [OF ok] idle_remove_old [OF ok] busy_remove_old
    by (auto simp: q_def conns_remove_old) (simp add: remove_old_connections_def)
  show ?thesis
  proof (cases "find_mru q")
    case None
    let ?c = "ConnectionInfo_new env (create env (created p))"
    have p': "p' = q\<lparr>conns := conns q @ [?c], created := Suc (created p)\<rparr>" "a = create env (created p)"
      using run None q(4) by (auto simp: grab_def q_def [symmetric])
    have "idle q = Map.empty" using find_mru_spec [OF q(1)] None by simp
    moreover have "idle p' = idle q" by (simp add: p' idle_def ConnectionInfo_new_def)
    moreover have "{c \<in> set (conns p'). in_use c} = insert ?c {c \<in> set (conns q). in_use c}"
      by (auto simp: p' ConnectionInfo_new_def)
    then have "busy p' = insert a (busy p)"
      using q(3) by (simp add: busy_image p'(2) ConnectionInfo_new_def)
    moreover have "pool_ok p'"
      using q(1,5) fresh by (auto simp: p' pool_ok_def ConnectionInfo_new_def)
    ultimately show ?thesis
      using q(2,5) p' by (auto simp: grab_spec_def ConnectionInfo_new_def)
  next
    case (Some r)
    then have r: "r = (a, p')" using run by (simp add: grab_def q_def [symmetric])
    have *: "pool_ok p'" "map conn (conns p') = map conn (conns q)" "busy p' = insert a (busy p)"
      "idle p' = (current env p)(a := None)"
      "\<exists>t. current env p a = Some t \<and> (\<forall>b u. current env p b = Some u \<longrightarrow> u \<le> t)"
      using find_mru_spec [OF q(1)] Some r q(2,3) by auto
    then have "conn ` set (conns p') = conn ` set (conns q)" by (metis set_map)
    moreover have "\<exists>t. idle p a = Some t" using *(5) by (auto simp: current_iff)
    then have "a \<in> conn ` set (conns p)" by (auto simp: idle_iff [OF ok])
    moreover have "current env p \<noteq> Map.empty" using *(5) by (metis option.distinct(1))
    then have "grab_spec env p a p'" using *(3,4,5) by (simp add: grab_spec_def)
    ultimately show ?thesis using *(1) q(5) by blast
  qed
qed

section \<open>Taking back\<close>

lemma release_in_map: "map conn (release_in env pc cs) = map conn cs"
  by (induction cs) auto

lemma pool_ok_remove_at: "pool_ok p \<Longrightarrow> pool_ok (remove_at i p)"
proof -
  assume ok: "pool_ok p"
  let ?ys = "map conn (conns p)"
  have "map conn (conns (remove_at i p)) = take i ?ys @ drop (Suc i) ?ys"
    by (simp add: remove_at_def take_map drop_map)
  moreover have "distinct (take i ?ys @ drop (Suc i) ?ys)"
    using ok set_take_disj_set_drop_if_distinct [of ?ys i "Suc i"]
    by (simp only: pool_ok_def distinct_append distinct_take distinct_drop)
  ultimately show ?thesis by (simp only: pool_ok_def)
qed

lemma position_of_Some: "position_of pc cs = Some i \<Longrightarrow> i < length cs \<and> conn (cs ! i) = pc"
  by (induction cs arbitrary: i) (auto split: if_splits)

lemma position_of_None: "position_of pc cs = None \<longleftrightarrow> pc \<notin> conn ` set cs"
  by (induction cs) auto

lemma set_remove: "pool_ok p \<Longrightarrow> set (conns (remove pc p)) = {c \<in> set (conns p). conn c \<noteq> pc}"
proof (cases "position_of pc (conns p)")
  case (Some i)
  assume ok: "pool_ok p"
  have i: "i < length (conns p)" "conn (conns p ! i) = pc" using position_of_Some [OF Some] by auto
  then have split: "conns p = take i (conns p) @ conns p ! i # drop (Suc i) (conns p)"
    by (simp add: id_take_nth_drop)
  have "distinct (map conn (take i (conns p) @ conns p ! i # drop (Suc i) (conns p)))"
    using ok split by (simp add: pool_ok_def)
  then have "set (take i (conns p) @ drop (Suc i) (conns p)) = {c \<in> set (conns p). conn c \<noteq> pc}"
    using i(2) by (subst (3) split) (force simp: image_iff)
  then show ?thesis using Some by (simp add: remove_def remove_at_def)
next
  case None
  then show ?thesis using position_of_None [of pc "conns p"] by (auto simp: remove_def)
qed

lemma pool_ok_remove: "pool_ok p \<Longrightarrow> pool_ok (remove pc p)"
  by (simp add: remove_def pool_ok_remove_at split: option.split)

lemma created_remove [simp]: "created (remove pc p) = created p"
  by (simp add: remove_def remove_at_def split: option.split)

text \<open>Connections not yet created are not in the pool.\<close>

definition unborn :: "pool_env \<Rightarrow> pool \<Rightarrow> bool" where
  "unborn env p \<longleftrightarrow> inj (create env) \<and>
     (\<forall>n \<ge> created p. create env n \<notin> conn ` set (conns p))"

lemma unborn_fresh: "unborn env p \<Longrightarrow> create env (created p) \<notin> conn ` set (conns p)"
  by (simp add: unborn_def)

text \<open>A failed round of \<open>safe_grab\<close> uses up one idle connection.\<close>

lemma round_uses_idle:
  assumes ok: "pool_ok p" and ub: "unborn env p" and run: "grab env p = (a, p')"
    and old: "a \<noteq> create env (created p)"
  shows "pool_ok (remove a p')" "created (remove a p') = created p" "unborn env (remove a p')"
    "card (dom (idle (remove a p'))) < card (dom (idle p))"
proof -
  note g = grab_spec_holds [OF ok unborn_fresh [OF ub] run]
  then have ok': "pool_ok p'" by simp
  then show ok'': "pool_ok (remove a p')" by (rule pool_ok_remove)
  obtain t where t: "current env p a = Some t" using g old by (auto simp: grab_spec_def split: if_splits)
  have "find_mru (remove_old_connections env p) \<noteq> None"
    using run old by (auto simp: grab_def remove_old_connections_def Let_def split: option.splits)
  then have cr: "created p' = created p"
    using run find_mru_spec [OF pool_ok_remove_old [OF ok], of env]
    by (auto simp: grab_def remove_old_connections_def Let_def split: option.splits)
  then show "created (remove a p') = created p" by simp
  have "conn ` set (conns (remove a p')) \<subseteq> conn ` set (conns p)"
    using g set_remove [OF ok', of a] by auto
  then show "unborn env (remove a p')" using ub cr by (auto simp: unborn_def)
  have "idle (remove a p') b = Some u \<Longrightarrow> ((idle p)(a := None)) b = Some u" for b u
  proof -
    assume "idle (remove a p') b = Some u"
    then have "idle p' b = Some u" "b \<noteq> a"
      using set_remove [OF ok', of a] by (auto simp: idle_iff [OF ok''] idle_iff [OF ok'])
    then show "((idle p)(a := None)) b = Some u" using g by (auto simp: grab_spec_def current_iff)
  qed
  then have "b \<in> dom (idle p) - {a}" if "b \<in> dom (idle (remove a p'))" for b
    using that by (force split: if_splits)
  then have "dom (idle (remove a p')) \<subseteq> dom (idle p) - {a}" by blast
  moreover have "a \<in> dom (idle p)" using t by (auto simp: current_iff)
  ultimately have "dom (idle (remove a p')) \<subset> dom (idle p)" by blast
  moreover have "finite (dom (idle p))" by (simp add: idle_def finite_dom_map_of)
  ultimately show "card (dom (idle (remove a p'))) < card (dom (idle p))" by (rule psubset_card_mono [rotated])
qed

lemma safe_grab_pings: "safe_grab env p = Some r \<Longrightarrow> pings env (fst r)"
  by (erule safe_grab.raw_induct [rotated]) (auto split: prod.splits if_splits)

text \<open>While no connection answers, the loop goes on for ever.\<close>

lemma safe_grab_diverges: "(\<And>a. \<not> pings env a) \<Longrightarrow> safe_grab env p = None"
  using safe_grab_pings by (metis option.exhaust)

section \<open>Examples\<close>

definition example_env :: pool_env where
  "example_env = \<lparr>now = 100, max_idle_time = 10, create = (\<lambda>n. n + 7), pings = (\<lambda>a. 7 \<le> a)\<rparr>"

text \<open>Three connections: one in use, one expired, one that has been idle for five seconds.\<close>

definition example_pool :: pool where
  "example_pool = \<lparr>conns = [\<lparr>conn = 0, last_used = 99, in_use = True\<rparr>,
       \<lparr>conn = 1, last_used = 80, in_use = False\<rparr>, \<lparr>conn = 2, last_used = 95, in_use = False\<rparr>],
     created = 3, destroyed = []\<rparr>"

lemma example_ok: "pool_ok example_pool" "unborn example_env example_pool"
  by (auto simp: pool_ok_def unborn_def example_pool_def example_env_def inj_def)

lemma example_grab: "grab example_env example_pool = (2, \<lparr>conns =
    [\<lparr>conn = 0, last_used = 99, in_use = True\<rparr>, \<lparr>conn = 2, last_used = 95, in_use = True\<rparr>],
    created = 3, destroyed = [1]\<rparr>)"
  by code_simp

section \<open>Properties\<close>

text \<open>C11: \<open>grab\<close> implements the abstract pool: a connection is handed out that nobody holds, and
  nobody loses one; the idle connections left are those that have not expired, without the one
  handed out; and this is the one used most recently, or a new one exactly when every idle
  connection has expired.\<close>
theorem grab_refines:
  assumes "pool_ok p" and "unborn env p" and "grab env p = (a, p')"
  shows "grab_spec env p a p' \<and> a \<notin> busy p \<and> pool_ok p'"
proof -
  note g = grab_spec_holds [OF assms(1) unborn_fresh [OF assms(2)] assms(3)]
  have "a \<notin> busy p"
  proof (cases "current env p = Map.empty")
    case True
    then show ?thesis
      using g unborn_fresh [OF assms(2)] by (auto simp: grab_spec_def busy_image)
  next
    case False
    then obtain t where "idle p a = Some t" using g by (auto simp: grab_spec_def current_iff)
    then show ?thesis
      using conn_inject [OF assms(1)] by (auto simp: idle_iff [OF assms(1)] busy_image)
  qed
  then show ?thesis using g by simp
qed

theorem grab_refines_witness:
  "\<exists>p'. grab example_env example_pool = (2, p') \<and> grab_spec example_env example_pool 2 p' \<and>
    2 \<notin> busy example_pool"
  using grab_refines [OF example_ok example_grab] example_grab by blast

text \<open>C39: \<open>safe_grab\<close> returns, with a connection whose ping succeeds, when the next connection the
  subclass would create answers.\<close>
theorem safe_grab_returns:
  assumes "pool_ok p" and "unborn env p" and "pings env (create env (created p))"
  shows "\<exists>a p'. safe_grab env p = Some (a, p') \<and> pings env a"
  using assms
proof (induction "card (dom (idle p))" arbitrary: p rule: less_induct)
  case less
  obtain a p' where run: "grab env p = (a, p')" by (cases "grab env p")
  show ?case
  proof (cases "pings env a")
    case True
    then show ?thesis using run by (subst safe_grab.simps) simp
  next
    case False
    then have "a \<noteq> create env (created p)" using less.prems(3) by auto
    note r = round_uses_idle [OF less.prems(1,2) run this]
    have "safe_grab env p = safe_grab env (remove a p')"
      using run False by (subst safe_grab.simps) simp
    then show ?thesis using less.hyps [of "remove a p'"] r less.prems(3) by simp
  qed
qed

theorem safe_grab_returns_witness:
  "\<exists>a p'. safe_grab example_env example_pool = Some (a, p') \<and> 7 \<le> a"
  using safe_grab_returns [OF example_ok] by (auto simp: example_env_def example_pool_def)

end
