(* ===== verification/Sql_Driver.thy ===== *)
theory Sql_Driver
  imports Effects Owning_Map
begin

text \<open>
  \<open>DBDriver\<close> and the connection options of MySQL++ (\<open>mysqlpp/lib/dbdriver.cpp\<close>,
  \<open>dbdriver.h\<close>, \<open>options.cpp\<close>, \<open>options.h\<close>). Options are heap objects that the driver takes
  over: they wait in a list until the connection is made, are then applied, and are kept in a
  second list until the driver is destroyed. The C library is the record \<open>mysql_api\<close>: its
  version, its flag values, and whether a call succeeds after the calls made so far.
\<close>

section \<open>Options\<close>

text \<open>The names of \<open>mysql.h\<close> the code uses.\<close>

datatype mysql_option =
    MYSQL_OPT_COMPRESS | MYSQL_OPT_CONNECT_TIMEOUT | MYSQL_OPT_GUESS_CONNECTION
  | MYSQL_INIT_COMMAND | MYSQL_OPT_LOCAL_INFILE | MYSQL_OPT_NAMED_PIPE | MYSQL_OPT_PROTOCOL
  | MYSQL_READ_DEFAULT_FILE | MYSQL_READ_DEFAULT_GROUP | MYSQL_OPT_READ_TIMEOUT
  | MYSQL_OPT_RECONNECT | MYSQL_REPORT_DATA_TRUNCATION | MYSQL_SECURE_AUTH
  | MYSQL_SET_CHARSET_DIR | MYSQL_SET_CHARSET_NAME | MYSQL_SET_CLIENT_IP
  | MYSQL_SHARED_MEMORY_BASE_NAME | MYSQL_OPT_USE_EMBEDDED_CONNECTION
  | MYSQL_OPT_USE_REMOTE_CONNECTION | MYSQL_OPT_WRITE_TIMEOUT

datatype server_option = MYSQL_OPTION_MULTI_STATEMENTS_ON | MYSQL_OPTION_MULTI_STATEMENTS_OFF

datatype client_flag =
    CLIENT_LONG_PASSWORD | CLIENT_FOUND_ROWS | CLIENT_IGNORE_SPACE | CLIENT_INTERACTIVE
  | CLIENT_LOCAL_FILES | CLIENT_MULTI_RESULTS | CLIENT_MULTI_STATEMENTS | CLIENT_NO_SCHEMA
  | CLIENT_TRANSACTIONS

datatype opt_arg = No_Arg | Int_Arg int32 | Bool_Arg bool | Str_Arg string

datatype conn_option =
    CompressOption | ConnectTimeoutOption int32 | FoundRowsOption bool | GuessConnectionOption
  | IgnoreSpaceOption bool | InitCommandOption string | InteractiveOption bool
  | LocalFilesOption bool | LocalInfileOption int32 | MultiResultsOption bool
  | MultiStatementsOption bool | NamedPipeOption | NoSchemaOption bool | ProtocolOption int32
  | ReadDefaultFileOption string | ReadDefaultGroupOption string | ReadTimeoutOption int32
  | ReconnectOption bool | ReportDataTruncationOption bool | SecureAuthOption bool
  | SetCharsetDirOption string | SetCharsetNameOption string | SetClientIpOption string
  | SharedMemoryBaseNameOption string | SslOption string string string string string
  | UseEmbeddedConnectionOption | UseRemoteConnectionOption | WriteTimeoutOption int32

datatype option_error = err_NONE | err_api_limit | err_api_reject | err_connected | err_disconnected

section \<open>The driver\<close>

datatype api_call =
    Mysql_init
  | Mysql_options mysql_option opt_arg
  | Mysql_set_server_option server_option
  | Mysql_ssl_set "string option list"
  | Mysql_real_connect "string option list" int32 "64 word"
  | Mysql_close
  | Mysql_ping
  | Mysql_select_db string
  | Mysql_shutdown
  | Mysql_kill "64 word"
  | Mysql_query string
  | Mysql_stat
  | Mysql_refresh "32 word"

record mysql_api =
  version_id :: nat
  have_ssl_set :: bool
  client_version :: string
  flag_value :: "client_flag \<Rightarrow> 32 word"
  init_flags :: "64 word"
  succeeds :: "api_call list \<Rightarrow> api_call \<Rightarrow> bool"
  last_error :: "api_call list \<Rightarrow> string"

record driver =
  d_connected :: bool
  d_client_flag :: "64 word"
  d_applied :: "address list"
  d_pending :: "address list"
  d_error :: string
  d_options :: "address \<rightharpoonup> conn_option"
  d_calls :: "api_call list"

type_synonym 'a drv = "(driver, 'a) st"

text \<open>A new driver; the options live in a heap of their own.\<close>

definition DBDriver_new :: "(address \<rightharpoonup> conn_option) \<Rightarrow> driver" where
  "DBDriver_new heap = \<lparr>d_connected = False, d_client_flag = 0, d_applied = [], d_pending = [],
     d_error = [], d_options = heap, d_calls = []\<rparr>"

definition call :: "mysql_api \<Rightarrow> api_call \<Rightarrow> bool drv" where
  "call A c = bind (gets d_calls) (\<lambda>h.
     bind (modify (\<lambda>d. d\<lparr>d_calls := h @ [c]\<rparr>)) (\<lambda>_. ret (succeeds A h c)))"

definition clear_error :: "unit drv" where
  "clear_error = modify (\<lambda>d. d\<lparr>d_error := []\<rparr>)"

definition set_error :: "string \<Rightarrow> unit drv" where
  "set_error e = modify (\<lambda>d. d\<lparr>d_error := e\<rparr>)"

text \<open>The wrappers that clear the error and make one call.\<close>

definition wrap :: "mysql_api \<Rightarrow> api_call \<Rightarrow> bool drv" where
  "wrap A c = bind clear_error (\<lambda>_. call A c)"

definition api_ping :: "mysql_api \<Rightarrow> bool drv" where
  "api_ping A = wrap A Mysql_ping"

definition api_select_db :: "mysql_api \<Rightarrow> string \<Rightarrow> bool drv" where
  "api_select_db A db = wrap A (Mysql_select_db db)"

definition api_shutdown :: "mysql_api \<Rightarrow> bool drv" where
  "api_shutdown A = bind (wrap A Mysql_shutdown) (\<lambda>ok. ret (\<not> ok))"

definition api_kill :: "mysql_api \<Rightarrow> 64 word \<Rightarrow> bool drv" where
  "api_kill A tid = wrap A (Mysql_kill tid)"

definition set_option_api :: "mysql_api \<Rightarrow> mysql_option \<Rightarrow> opt_arg \<Rightarrow> bool drv" where
  "set_option_api A moption arg = wrap A (Mysql_options moption arg)"

definition set_option_server :: "mysql_api \<Rightarrow> server_option \<Rightarrow> bool drv" where
  "set_option_server A msoption = wrap A (Mysql_set_server_option msoption)"

definition enable_ssl :: "mysql_api \<Rightarrow> string option list \<Rightarrow> bool drv" where
  "enable_ssl A args = (if have_ssl_set A then wrap A (Mysql_ssl_set args)
     else bind clear_error (\<lambda>_. ret False))"

definition disconnect_driver :: "mysql_api \<Rightarrow> unit drv" where
  "disconnect_driver A = bind (gets d_connected) (\<lambda>c. if c
     then bind (call A Mysql_close) (\<lambda>_.
       modify (\<lambda>d. d\<lparr>d_client_flag := 0, d_connected := False, d_error := []\<rparr>))
     else ret ())"

section \<open>Client flags\<close>

text \<open>
  The loop that shifts out the trailing zeros of \<open>int n = o\<close>. The shift is arithmetic, so a
  number with the sign bit set ends at -1.
\<close>

function shift_out :: "int32 \<Rightarrow> int32" where
  "shift_out n = (if n \<noteq> 0 \<and> n AND 1 = 0 then shift_out (signed_drop_bit 1 n) else n)"
  by pat_completeness auto

lemma even_word: "n AND 1 = 0 \<longleftrightarrow> even (sint n)" for n :: int32
proof -
  have "even n \<longleftrightarrow> even (sint n)" using bit_sint_iff [of n 0] by (simp add: bit_0)
  then show ?thesis by (simp add: and_one_eq even_iff_mod_2_eq_zero)
qed

lemma sint_half: "sint (signed_drop_bit 1 n) = sint n div 2" for n :: int32
  by (simp add: sint_signed_drop_bit_eq drop_bit_eq_div)

termination shift_out
proof (relation "measure (\<lambda>n. nat \<bar>sint n\<bar>)")
  fix n :: int32
  assume n: "n \<noteq> 0 \<and> n AND 1 = 0"
  then have "even (sint n)" "sint n \<noteq> 0" by (simp_all add: even_word signed_eq_0_iff)
  then show "(signed_drop_bit 1 n, n) \<in> measure (\<lambda>n. nat \<bar>sint n\<bar>)"
    by (simp add: sint_half [simplified]) presburger
qed simp

declare shift_out.simps [simp del]

lemma shift_out_one_iff: "shift_out n = 1 \<longleftrightarrow> (\<exists>k < 31. sint n = 2 ^ k)"
proof (induction n rule: shift_out.induct)
  case (1 n)
  have range: "sint n < 2 ^ 31" using sint_lt [of n] by simp
  show ?case
  proof (cases "n \<noteq> 0 \<and> n AND 1 = 0")
    case True
    then have even: "even (sint n)" by (simp add: even_word)
    have "(\<exists>k < 31. sint n = 2 ^ k) \<longleftrightarrow> (\<exists>k < 31. sint n div 2 = 2 ^ k)"
    proof
      assume "\<exists>k < 31. sint n = 2 ^ k"
      then obtain k where k: "k < 31" "sint n = 2 ^ k" by blast
      with even obtain j where "k = Suc j" by (cases k) auto
      with k show "\<exists>k < 31. sint n div 2 = 2 ^ k" by auto
    next
      assume "\<exists>k < 31. sint n div 2 = 2 ^ k"
      then obtain k where k: "k < 31" "sint n div 2 = 2 ^ k" by blast
      then have "sint n = 2 ^ Suc k" using even by auto
      moreover from this range have "Suc k < 31"
        using power_less_imp_less_exp [of "2 :: int" "Suc k" 31] by simp
      ultimately show "\<exists>k < 31. sint n = 2 ^ k" by blast
    qed
    then show ?thesis using 1 True by (simp add: shift_out.simps [of n] sint_half [simplified])
  next
    case False
    then have same: "shift_out n = n" by (subst shift_out.simps) auto
    have "(\<exists>k < 31. sint n = 2 ^ k) \<longleftrightarrow> sint n = 1"
    proof
      assume "\<exists>k < 31. sint n = 2 ^ k"
      then obtain k where k: "sint n = 2 ^ k" by blast
      then have "n \<noteq> 0" by auto
      then have "odd (sint n)" using False by (simp add: even_word)
      then show "sint n = 1" using k by (cases k) auto
    qed (auto intro: exI [of _ 0])
    moreover have "n = 1 \<longleftrightarrow> sint n = 1" using signed_word_eqI [of n 1] by auto
    ultimately show ?thesis by (simp add: same)
  qed
qed

text \<open>The bit is set or cleared in an \<open>unsigned long\<close>; \<open>~o\<close> is computed at 32 bits.\<close>

definition set_option_flag :: "int32 \<Rightarrow> int32 \<Rightarrow> int32 \<Rightarrow> bool \<Rightarrow> bool drv" where
  "set_option_flag lowest highest o' arg =
     (if shift_out o' = 1 \<and> lowest \<le> o' \<and> o' \<le> highest
      then bind (modify (\<lambda>d. d\<lparr>d_client_flag := if arg then d_client_flag d OR ucast o'
             else d_client_flag d AND ucast (NOT o')\<rparr>)) (\<lambda>_. ret True)
      else ret False)"

definition set_flag :: "mysql_api \<Rightarrow> client_flag \<Rightarrow> bool \<Rightarrow> bool drv" where
  "set_flag A f arg = set_option_flag (flag_value A CLIENT_LONG_PASSWORD)
     (flag_value A (if version_id A > 40000 then CLIENT_MULTI_RESULTS else CLIENT_TRANSACTIONS))
     (flag_value A f) arg"

section \<open>Setting an option\<close>

definition accepted :: "bool drv \<Rightarrow> option_error drv" where
  "accepted m = bind m (\<lambda>ok. ret (if ok then err_NONE else err_api_reject))"

text \<open>\<open>dbd->connected() ? err_connected : ...\<close>\<close>

definition offline :: "bool drv \<Rightarrow> option_error drv" where
  "offline m = bind (gets d_connected) (\<lambda>c. if c then ret err_connected else accepted m)"

text \<open>\<open>#if MYSQL_VERSION_ID >= v\<close>\<close>

definition since :: "mysql_api \<Rightarrow> nat \<Rightarrow> option_error drv \<Rightarrow> option_error drv" where
  "since A v m = (if v \<le> version_id A then m else ret err_api_limit)"

definition CompressOption_set :: "mysql_api \<Rightarrow> option_error drv" where
  "CompressOption_set A = offline (set_option_api A MYSQL_OPT_COMPRESS No_Arg)"

definition ConnectTimeoutOption_set :: "mysql_api \<Rightarrow> int32 \<Rightarrow> option_error drv" where
  "ConnectTimeoutOption_set A arg = offline (set_option_api A MYSQL_OPT_CONNECT_TIMEOUT (Int_Arg arg))"

definition FoundRowsOption_set :: "mysql_api \<Rightarrow> bool \<Rightarrow> option_error drv" where
  "FoundRowsOption_set A arg = offline (set_flag A CLIENT_FOUND_ROWS arg)"

definition GuessConnectionOption_set :: "mysql_api \<Rightarrow> option_error drv" where
  "GuessConnectionOption_set A = since A 40101 (offline (set_option_api A MYSQL_OPT_GUESS_CONNECTION No_Arg))"

definition IgnoreSpaceOption_set :: "mysql_api \<Rightarrow> bool \<Rightarrow> option_error drv" where
  "IgnoreSpaceOption_set A arg = offline (set_flag A CLIENT_IGNORE_SPACE arg)"

definition InitCommandOption_set :: "mysql_api \<Rightarrow> string \<Rightarrow> option_error drv" where
  "InitCommandOption_set A arg = offline (set_option_api A MYSQL_INIT_COMMAND (Str_Arg arg))"

definition InteractiveOption_set :: "mysql_api \<Rightarrow> bool \<Rightarrow> option_error drv" where
  "InteractiveOption_set A arg = offline (set_flag A CLIENT_INTERACTIVE arg)"

definition LocalFilesOption_set :: "mysql_api \<Rightarrow> bool \<Rightarrow> option_error drv" where
  "LocalFilesOption_set A arg = offline (set_flag A CLIENT_LOCAL_FILES arg)"

definition LocalInfileOption_set :: "mysql_api \<Rightarrow> int32 \<Rightarrow> option_error drv" where
  "LocalInfileOption_set A arg = offline (set_option_api A MYSQL_OPT_LOCAL_INFILE (Int_Arg arg))"

definition MultiResultsOption_set :: "mysql_api \<Rightarrow> bool \<Rightarrow> option_error drv" where
  "MultiResultsOption_set A arg = since A 40101 (bind (gets d_connected) (\<lambda>c. if c
     then accepted (set_option_server A (if arg then MYSQL_OPTION_MULTI_STATEMENTS_ON
                                         else MYSQL_OPTION_MULTI_STATEMENTS_OFF))
     else accepted (set_flag A CLIENT_MULTI_RESULTS arg)))"

definition MultiStatementsOption_set :: "mysql_api \<Rightarrow> bool \<Rightarrow> option_error drv" where
  "MultiStatementsOption_set A arg = since A 40101 (bind (gets d_connected) (\<lambda>c. if c
     then accepted (set_option_server A (if arg then MYSQL_OPTION_MULTI_STATEMENTS_ON
                                         else MYSQL_OPTION_MULTI_STATEMENTS_OFF))
     else accepted (set_flag A CLIENT_MULTI_STATEMENTS arg)))"

definition NamedPipeOption_set :: "mysql_api \<Rightarrow> option_error drv" where
  "NamedPipeOption_set A = offline (set_option_api A MYSQL_OPT_NAMED_PIPE No_Arg)"

definition NoSchemaOption_set :: "mysql_api \<Rightarrow> bool \<Rightarrow> option_error drv" where
  "NoSchemaOption_set A arg = offline (set_flag A CLIENT_NO_SCHEMA arg)"

definition ProtocolOption_set :: "mysql_api \<Rightarrow> int32 \<Rightarrow> option_error drv" where
  "ProtocolOption_set A arg = offline (set_option_api A MYSQL_OPT_PROTOCOL (Int_Arg arg))"

definition ReadDefaultFileOption_set :: "mysql_api \<Rightarrow> string \<Rightarrow> option_error drv" where
  "ReadDefaultFileOption_set A arg = offline (set_option_api A MYSQL_READ_DEFAULT_FILE (Str_Arg arg))"

definition ReadDefaultGroupOption_set :: "mysql_api \<Rightarrow> string \<Rightarrow> option_error drv" where
  "ReadDefaultGroupOption_set A arg = offline (set_option_api A MYSQL_READ_DEFAULT_GROUP (Str_Arg arg))"

definition ReadTimeoutOption_set :: "mysql_api \<Rightarrow> int32 \<Rightarrow> option_error drv" where
  "ReadTimeoutOption_set A arg = since A 40101 (offline (set_option_api A MYSQL_OPT_READ_TIMEOUT (Int_Arg arg)))"

definition ReconnectOption_set :: "mysql_api \<Rightarrow> bool \<Rightarrow> option_error drv" where
  "ReconnectOption_set A arg =
     (if 50106 \<le> version_id A then accepted (set_option_api A MYSQL_OPT_RECONNECT (Bool_Arg arg))
      else since A 50013 (bind (gets d_connected) (\<lambda>c. if c
        then accepted (set_option_api A MYSQL_OPT_RECONNECT (Bool_Arg arg))
        else ret err_disconnected)))"

definition ReportDataTruncationOption_set :: "mysql_api \<Rightarrow> bool \<Rightarrow> option_error drv" where
  "ReportDataTruncationOption_set A arg = since A 50003 (offline (set_option_api A MYSQL_REPORT_DATA_TRUNCATION (Bool_Arg arg)))"

definition SecureAuthOption_set :: "mysql_api \<Rightarrow> bool \<Rightarrow> option_error drv" where
  "SecureAuthOption_set A arg = since A 40101 (offline (set_option_api A MYSQL_SECURE_AUTH (Bool_Arg arg)))"

definition SetCharsetDirOption_set :: "mysql_api \<Rightarrow> string \<Rightarrow> option_error drv" where
  "SetCharsetDirOption_set A arg = offline (set_option_api A MYSQL_SET_CHARSET_DIR (Str_Arg arg))"

definition SetCharsetNameOption_set :: "mysql_api \<Rightarrow> string \<Rightarrow> option_error drv" where
  "SetCharsetNameOption_set A arg = offline (set_option_api A MYSQL_SET_CHARSET_NAME (Str_Arg arg))"

definition SetClientIpOption_set :: "mysql_api \<Rightarrow> string \<Rightarrow> option_error drv" where
  "SetClientIpOption_set A arg = since A 40101 (offline (set_option_api A MYSQL_SET_CLIENT_IP (Str_Arg arg)))"

definition SharedMemoryBaseNameOption_set :: "mysql_api \<Rightarrow> string \<Rightarrow> option_error drv" where
  "SharedMemoryBaseNameOption_set A arg = since A 40100 (offline (set_option_api A MYSQL_SHARED_MEMORY_BASE_NAME (Str_Arg arg)))"

definition SslOption_set :: "mysql_api \<Rightarrow> string list \<Rightarrow> option_error drv" where
  "SslOption_set A args = (if have_ssl_set A
     then offline (enable_ssl A (map (\<lambda>s. if s = [] then None else Some s) args))
     else ret err_api_limit)"

definition UseEmbeddedConnectionOption_set :: "mysql_api \<Rightarrow> option_error drv" where
  "UseEmbeddedConnectionOption_set A = since A 40101 (offline (set_option_api A MYSQL_OPT_USE_EMBEDDED_CONNECTION No_Arg))"

definition UseRemoteConnectionOption_set :: "mysql_api \<Rightarrow> option_error drv" where
  "UseRemoteConnectionOption_set A = since A 40101 (offline (set_option_api A MYSQL_OPT_USE_REMOTE_CONNECTION No_Arg))"

definition WriteTimeoutOption_set :: "mysql_api \<Rightarrow> int32 \<Rightarrow> option_error drv" where
  "WriteTimeoutOption_set A arg = since A 40101 (offline (set_option_api A MYSQL_OPT_WRITE_TIMEOUT (Int_Arg arg)))"

text \<open>The virtual member function \<open>set\<close>.\<close>

fun option_set :: "mysql_api \<Rightarrow> conn_option \<Rightarrow> option_error drv" where
  "option_set A CompressOption = CompressOption_set A"
| "option_set A (ConnectTimeoutOption arg) = ConnectTimeoutOption_set A arg"
| "option_set A (FoundRowsOption arg) = FoundRowsOption_set A arg"
| "option_set A GuessConnectionOption = GuessConnectionOption_set A"
| "option_set A (IgnoreSpaceOption arg) = IgnoreSpaceOption_set A arg"
| "option_set A (InitCommandOption arg) = InitCommandOption_set A arg"
| "option_set A (InteractiveOption arg) = InteractiveOption_set A arg"
| "option_set A (LocalFilesOption arg) = LocalFilesOption_set A arg"
| "option_set A (LocalInfileOption arg) = LocalInfileOption_set A arg"
| "option_set A (MultiResultsOption arg) = MultiResultsOption_set A arg"
| "option_set A (MultiStatementsOption arg) = MultiStatementsOption_set A arg"
| "option_set A NamedPipeOption = NamedPipeOption_set A"
| "option_set A (NoSchemaOption arg) = NoSchemaOption_set A arg"
| "option_set A (ProtocolOption arg) = ProtocolOption_set A arg"
| "option_set A (ReadDefaultFileOption arg) = ReadDefaultFileOption_set A arg"
| "option_set A (ReadDefaultGroupOption arg) = ReadDefaultGroupOption_set A arg"
| "option_set A (ReadTimeoutOption arg) = ReadTimeoutOption_set A arg"
| "option_set A (ReconnectOption arg) = ReconnectOption_set A arg"
| "option_set A (ReportDataTruncationOption arg) = ReportDataTruncationOption_set A arg"
| "option_set A (SecureAuthOption arg) = SecureAuthOption_set A arg"
| "option_set A (SetCharsetDirOption arg) = SetCharsetDirOption_set A arg"
| "option_set A (SetCharsetNameOption arg) = SetCharsetNameOption_set A arg"
| "option_set A (SetClientIpOption arg) = SetClientIpOption_set A arg"
| "option_set A (SharedMemoryBaseNameOption arg) = SharedMemoryBaseNameOption_set A arg"
| "option_set A (SslOption key cert ca capath cipher) = SslOption_set A [key, cert, ca, capath, cipher]"
| "option_set A UseEmbeddedConnectionOption = UseEmbeddedConnectionOption_set A"
| "option_set A UseRemoteConnectionOption = UseRemoteConnectionOption_set A"
| "option_set A (WriteTimeoutOption arg) = WriteTimeoutOption_set A arg"

section \<open>Connecting\<close>

definition deref_option :: "address \<Rightarrow> conn_option drv" where
  "deref_option a = bind (gets d_options) (\<lambda>h.
     case h a of None \<Rightarrow> fault (UB UseAfterFree) | Some opt \<Rightarrow> ret opt)"

definition delete_option :: "address \<Rightarrow> unit drv" where
  "delete_option a = bind (gets d_options) (\<lambda>h.
     case h a of None \<Rightarrow> fault (UB DoubleFree)
     | Some _ \<Rightarrow> modify (\<lambda>d. d\<lparr>d_options := h(a := None)\<rparr>))"

text \<open>The option is deleted on every way out but the first, \<open>cleanup\<close> being an \<open>auto_ptr\<close>.\<close>

definition set_option_impl :: "mysql_api \<Rightarrow> address \<Rightarrow> bool drv" where
  "set_option_impl A a = bind (deref_option a) (\<lambda>opt. bind (option_set A opt) (\<lambda>e.
     case e of
       err_NONE \<Rightarrow> bind (modify (\<lambda>d. d\<lparr>d_applied := d_applied d @ [a], d_error := []\<rparr>)) (\<lambda>_. ret True)
     | err_api_limit \<Rightarrow> bind (delete_option a) (\<lambda>_.
         fault (Throw (BadOption (''Option not supported by database driver v'' @ client_version A))))
     | err_api_reject \<Rightarrow> bind (set_error ''Database driver failed to set option'') (\<lambda>_.
         bind (delete_option a) (\<lambda>_. ret False))
     | err_connected \<Rightarrow>
         bind (set_error ''Option can only be set before connection is established'') (\<lambda>_.
         bind (delete_option a) (\<lambda>_. ret False))
     | err_disconnected \<Rightarrow>
         bind (set_error ''Option can only be set while the connection is established'') (\<lambda>_.
         bind (delete_option a) (\<lambda>_. ret False))))"

definition set_option_driver :: "mysql_api \<Rightarrow> address \<Rightarrow> bool drv" where
  "set_option_driver A a = bind (gets d_connected) (\<lambda>c. if c then set_option_impl A a
     else bind (modify (\<lambda>d. d\<lparr>d_error := [], d_pending := d_pending d @ [a]\<rparr>)) (\<lambda>_. ret True))"

text \<open>
  \<open>typeid(*it) == typeid(o)\<close> compares the type of a pointer with itself, so any applied option
  counts as one of the same type; \<open>return ""\<close> converts to true.
\<close>

definition set_option_default :: "mysql_api \<Rightarrow> address \<Rightarrow> bool drv" where
  "set_option_default A a = bind (gets d_applied) (\<lambda>applied.
     if applied \<noteq> [] then bind (delete_option a) (\<lambda>_. ret True) else set_option_driver A a)"

fun apply_options :: "mysql_api \<Rightarrow> address list \<Rightarrow> bool drv" where
  "apply_options A [] = ret True"
| "apply_options A (a # as) =
     bind (set_option_impl A a) (\<lambda>ok. if ok then apply_options A as else ret False)"

definition connect_prepare :: "mysql_api \<Rightarrow> bool drv" where
  "connect_prepare A = bind (disconnect_driver A) (\<lambda>_. bind (call A Mysql_init) (\<lambda>_.
     bind (modify (\<lambda>d. d\<lparr>d_client_flag := init_flags A, d_error := []\<rparr>)) (\<lambda>_.
     bind (gets d_pending) (\<lambda>pending. bind (apply_options A pending) (\<lambda>ok.
       if ok then bind (modify (\<lambda>d. d\<lparr>d_pending := []\<rparr>)) (\<lambda>_. ret True)
       else ret False)))))"

definition connect_driver :: "mysql_api \<Rightarrow> string option list \<Rightarrow> int32 \<Rightarrow> bool drv" where
  "connect_driver A args port = bind (connect_prepare A) (\<lambda>ok.
     bind (if ok then bind (gets d_client_flag) (\<lambda>f. call A (Mysql_real_connect args port f))
           else ret False) (\<lambda>ok.
     bind (modify (\<lambda>d. d\<lparr>d_connected := ok\<rparr>)) (\<lambda>_. ret ok)))"

text \<open>\<open>connect(const MYSQL&)\<close>: the arguments and the flags are those of the other connection.\<close>

definition connect_like :: "mysql_api \<Rightarrow> string option list \<Rightarrow> int32 \<Rightarrow> 64 word \<Rightarrow> bool drv" where
  "connect_like A args port flags = bind (connect_prepare A) (\<lambda>ok.
     bind (if ok then call A (Mysql_real_connect args port flags) else ret False) (\<lambda>ok.
     bind (modify (\<lambda>d. d\<lparr>d_connected := ok\<rparr>)) (\<lambda>_. ret ok)))"

definition copy_driver :: "mysql_api \<Rightarrow> driver \<Rightarrow> string option list \<Rightarrow> int32 \<Rightarrow> unit drv" where
  "copy_driver A other args port = bind (disconnect_driver A) (\<lambda>_.
     if d_connected other
     then bind (connect_like A args port (d_client_flag other)) (\<lambda>_. ret ())
     else ret ())"

definition DBDriver_destroy :: "mysql_api \<Rightarrow> unit drv" where
  "DBDriver_destroy A = bind (disconnect_driver A) (\<lambda>_.
     bind (gets d_applied) (\<lambda>as. for_each delete_option as))"

section \<open>What the calls leave alone\<close>

text \<open>Setting an option only talks to the library, and changes the flags and the error text.\<close>

locale driver_frame =
  fixes I :: "driver \<Rightarrow> bool"
  assumes calls: "I d \<Longrightarrow> I (d\<lparr>d_calls := cs\<rparr>)"
    and error: "I d \<Longrightarrow> I (d\<lparr>d_error := e\<rparr>)"
    and flags: "I d \<Longrightarrow> I (d\<lparr>d_client_flag := f\<rparr>)"
begin

lemma keeps_call: "keeps I (call A c)"
  unfolding call_def by (auto intro!: triples keeps_modify calls)

lemma keeps_wrap: "keeps I (wrap A c)"
  unfolding wrap_def clear_error_def by (auto intro!: triples keeps_modify keeps_call error)

lemma keeps_set_error: "keeps I (set_error e)"
  unfolding set_error_def by (auto intro!: keeps_modify error)

lemma keeps_set_flag: "keeps I (set_flag A f arg)"
  unfolding set_flag_def set_option_flag_def by (auto intro!: triples keeps_modify flags)

lemma keeps_outcome:
  "keeps I m \<Longrightarrow> keeps I (accepted m)" "keeps I m \<Longrightarrow> keeps I (offline m)"
  "keeps I n \<Longrightarrow> keeps I (since A v n)"
  unfolding accepted_def offline_def since_def by (auto intro!: triples)

lemma keeps_options:
  "keeps I (set_option_api A mo arg)" "keeps I (set_option_server A so)" "keeps I (enable_ssl A args)"
  unfolding set_option_api_def set_option_server_def enable_ssl_def clear_error_def
  by (auto intro!: triples keeps_wrap keeps_modify error)

lemma keeps_option_set: "keeps I (option_set A opt)"
  by (cases opt)
    (auto simp: CompressOption_set_def ConnectTimeoutOption_set_def FoundRowsOption_set_def GuessConnectionOption_set_def IgnoreSpaceOption_set_def InitCommandOption_set_def InteractiveOption_set_def LocalFilesOption_set_def LocalInfileOption_set_def MultiResultsOption_set_def MultiStatementsOption_set_def NamedPipeOption_set_def NoSchemaOption_set_def ProtocolOption_set_def ReadDefaultFileOption_set_def ReadDefaultGroupOption_set_def ReadTimeoutOption_set_def ReconnectOption_set_def ReportDataTruncationOption_set_def SecureAuthOption_set_def SetCharsetDirOption_set_def SetCharsetNameOption_set_def SetClientIpOption_set_def SharedMemoryBaseNameOption_set_def SslOption_set_def UseEmbeddedConnectionOption_set_def UseRemoteConnectionOption_set_def WriteTimeoutOption_set_def
      intro!: triples keeps_outcome keeps_options keeps_set_flag)

end

definition applied_pending :: "address list \<Rightarrow> address list \<Rightarrow> driver \<Rightarrow> bool" where
  "applied_pending as ps d \<longleftrightarrow> d_applied d = as \<and> d_pending d = ps"

definition heap_is :: "(address \<rightharpoonup> conn_option) \<Rightarrow> driver \<Rightarrow> bool" where
  "heap_is h d \<longleftrightarrow> d_options d = h"

definition dead :: "address \<Rightarrow> driver \<Rightarrow> bool" where
  "dead a d \<longleftrightarrow> d_options d a = None"

interpretation lists: driver_frame "applied_pending as ps" for as ps
  by unfold_locales (simp_all add: applied_pending_def)

interpretation heap: driver_frame "heap_is h" for h
  by unfold_locales (simp_all add: heap_is_def)

interpretation dead: driver_frame "dead a" for a
  by unfold_locales (simp_all add: dead_def)

lemma option_set_frame:
  assumes "option_set A opt d = (r, d')" and "r = Inr e"
  shows "d_applied d' = d_applied d" "d_pending d' = d_pending d" "d_options d' = d_options d"
  using keeps_run(1) [OF lists.keeps_option_set [of "d_applied d" "d_pending d"], of d A opt e d']
    keeps_run(1) [OF heap.keeps_option_set [of "d_options d"], of d A opt e d'] assms
  by (auto simp: applied_pending_def heap_is_def)

text \<open>Setting an option always returns.\<close>

definition returns :: "'a drv \<Rightarrow> bool" where
  "returns m \<longleftrightarrow> (\<forall>d. \<exists>x d'. m d = (Inr x, d'))"

lemma returns_bind: "returns m \<Longrightarrow> (\<And>x. returns (f x)) \<Longrightarrow> returns (bind m f)"
  unfolding returns_def by (metis bind_Inr)

lemma returns_basic:
  "returns (ret x)" "returns (gets g)" "returns (modify u)"
  "(b \<Longrightarrow> returns m) \<Longrightarrow> (\<not> b \<Longrightarrow> returns n) \<Longrightarrow> returns (if b then m else n)"
  by (auto simp: returns_def)

lemma returns_wrap: "returns (wrap A c)"
  unfolding wrap_def call_def clear_error_def by (intro returns_bind returns_basic)

lemmas returns_rules = returns_bind returns_basic returns_wrap

lemma returns_outcome:
  "returns m \<Longrightarrow> returns (accepted m)" "returns m \<Longrightarrow> returns (offline m)"
  "returns n \<Longrightarrow> returns (since A v n)"
  unfolding accepted_def offline_def since_def by (auto intro!: returns_rules)

lemma returns_option_set: "returns (option_set A opt)"
  by (cases opt)
    (auto simp: CompressOption_set_def ConnectTimeoutOption_set_def FoundRowsOption_set_def GuessConnectionOption_set_def IgnoreSpaceOption_set_def InitCommandOption_set_def InteractiveOption_set_def LocalFilesOption_set_def LocalInfileOption_set_def MultiResultsOption_set_def MultiStatementsOption_set_def NamedPipeOption_set_def NoSchemaOption_set_def ProtocolOption_set_def ReadDefaultFileOption_set_def ReadDefaultGroupOption_set_def ReadTimeoutOption_set_def ReconnectOption_set_def ReportDataTruncationOption_set_def SecureAuthOption_set_def SetCharsetDirOption_set_def SetCharsetNameOption_set_def SetClientIpOption_set_def SharedMemoryBaseNameOption_set_def SslOption_set_def UseEmbeddedConnectionOption_set_def UseRemoteConnectionOption_set_def WriteTimeoutOption_set_def
      set_option_api_def set_option_server_def enable_ssl_def clear_error_def set_flag_def
      set_option_flag_def intro!: returns_rules returns_outcome)

section \<open>Applying the options\<close>

lemma set_option_impl_run:
  assumes "set_option_impl A a d = (r, d')"
  shows "(r = Inr True \<and> \<not> dead a d \<and> d_applied d' = d_applied d @ [a] \<and> d_pending d' = d_pending d \<and>
      d_options d' = d_options d) \<or>
    ((r = Inr False \<or> (\<exists>e. r = Inl (Throw e))) \<and> \<not> dead a d \<and> d_pending d' = d_pending d \<and>
      d_options d' = (d_options d)(a := None)) \<or>
    (r = Inl (UB UseAfterFree) \<and> dead a d)"
proof (cases "d_options d a")
  case None
  then show ?thesis using assms by (auto simp: set_option_impl_def deref_option_def dead_def bind_assoc)
next
  case (Some opt)
  obtain e d1 where run: "option_set A opt d = (Inr e, d1)"
    using returns_option_set [of A opt] by (auto simp: returns_def) metis
  note f = option_set_frame [OF run refl]
  have b: "bind (option_set A opt) f d = f e d1" for f :: "option_error \<Rightarrow> bool drv"
    using run by (rule bind_Inr)
  show ?thesis
    using assms Some f
    by (cases e) (auto simp: set_option_impl_def deref_option_def delete_option_def set_error_def dead_def
        bind_assoc b)
qed

lemma apply_options_run:
  assumes "apply_options A as d = (r, d')"
  shows "(r = Inr True \<and> (\<forall>a \<in> set as. \<not> dead a d) \<and> d_applied d' = d_applied d @ as \<and>
      d_pending d' = d_pending d \<and> d_options d' = d_options d) \<or>
    ((r = Inr False \<or> (\<exists>e. r = Inl (Throw e))) \<and> d_pending d' = d_pending d \<and>
      (\<exists>a \<in> set as. dead a d')) \<or>
    r = Inl (UB UseAfterFree)"
  using assms
proof (induction "as" arbitrary: d)
  case (Cons a as)
  obtain r1 d1 where 1: "set_option_impl A a d = (r1, d1)" by (cases "set_option_impl A a d")
  show ?case
  proof (cases "r1 = Inr True")
    case True
    then have "apply_options A as d1 = (r, d')" using Cons.prems 1 by (simp add: bind_Inr)
    then show ?thesis using Cons.IH [of d1] set_option_impl_run [OF 1] True by (auto simp: dead_def)
  next
    case False
    then show ?thesis
      using Cons.prems 1 set_option_impl_run [OF 1] by (auto simp: bind_def dead_def split: sum.splits)
  qed
qed simp

lemma connect_prepare_run:
  obtains d1 where "d_pending d1 = d_pending d" "d_applied d1 = d_applied d" "d_options d1 = d_options d"
    "connect_prepare A d = bind (apply_options A (d_pending d)) (\<lambda>ok.
       if ok then bind (modify (\<lambda>d. d\<lparr>d_pending := []\<rparr>)) (\<lambda>_. ret True) else ret False) d1"
  by (rule that [of "snd (bind (disconnect_driver A) (\<lambda>_. bind (call A Mysql_init) (\<lambda>_.
     modify (\<lambda>d. d\<lparr>d_client_flag := init_flags A, d_error := []\<rparr>))) d)"])
    (auto simp: connect_prepare_def disconnect_driver_def call_def bind_assoc)

section \<open>Properties\<close>

text \<open>C19: preparing a connection applies every waiting option, in the order they were set, or
  leaves the driver unusable. When it succeeds, the options move from the waiting list to the
  applied list and none is lost. When one option is refused, or is not supported and the
  exception is thrown, that option is deleted while the waiting list still holds it, so no later
  attempt, whatever the library then says, can succeed.\<close>
theorem connect_prepare_cases:
  assumes "connect_prepare A d = (r, d')"
  shows "case r of
      Inr True \<Rightarrow> d_applied d' = d_applied d @ d_pending d \<and> d_pending d' = [] \<and> d_options d' = d_options d
    | Inl (UB k) \<Rightarrow> k = UseAfterFree
    | Inl Diverge \<Rightarrow> False
    | _ \<Rightarrow> d_pending d' = d_pending d \<and> (\<forall>B. fst (connect_prepare B d') \<noteq> Inr True)"
proof -
  let ?k = "\<lambda>ok. if ok then bind (modify (\<lambda>d. d\<lparr>d_pending := []\<rparr>)) (\<lambda>_. ret True) else ret False :: bool drv"
  obtain d1 where d1: "d_pending d1 = d_pending d" "d_applied d1 = d_applied d" "d_options d1 = d_options d"
    and run: "connect_prepare A d = bind (apply_options A (d_pending d)) ?k d1"
    using connect_prepare_run [of d A] by blast
  obtain s d2 where 2: "apply_options A (d_pending d) d1 = (s, d2)" by (cases "apply_options A (d_pending d) d1")
  have poison: "fst (connect_prepare B e) \<noteq> Inr True" if "a \<in> set (d_pending e)" "dead a e" for a e B
  proof -
    obtain e1 where e1: "d_options e1 = d_options e"
      "connect_prepare B e = bind (apply_options B (d_pending e)) ?k e1"
      using connect_prepare_run [of e B] by blast
    obtain t e2 where 3: "apply_options B (d_pending e) e1 = (t, e2)" by (cases "apply_options B (d_pending e) e1")
    have "t \<noteq> Inr True" using apply_options_run [OF 3] that e1(1) by (auto simp: dead_def)
    then show ?thesis using e1(2) 3 by (auto simp: bind_def split: sum.splits)
  qed
  show ?thesis
    using assms run 2 apply_options_run [OF 2] d1 poison
    by (auto simp: bind_def split: sum.splits)
qed

definition example_api :: mysql_api where
  "example_api = \<lparr>version_id = 50500, have_ssl_set = False, client_version = ''5.5'',
     flag_value = (\<lambda>f. if f = CLIENT_LONG_PASSWORD then 1 else if f = CLIENT_MULTI_RESULTS then 131072 else 128),
     init_flags = 0, succeeds = (\<lambda>h c. c \<noteq> Mysql_options MYSQL_OPT_COMPRESS No_Arg), last_error = (\<lambda>_. [])\<rparr>"

definition example_driver :: driver where
  "example_driver = (DBDriver_new [0 \<mapsto> ConnectTimeoutOption 5, 1 \<mapsto> CompressOption])\<lparr>d_pending := [0, 1]\<rparr>"

theorem connect_prepare_cases_witness:
  "\<exists>d'. connect_prepare example_api example_driver = (Inr False, d') \<and> d_pending d' = [0, 1] \<and>
    (\<forall>B. fst (connect_prepare B d') \<noteq> Inr True)"
proof -
  have "fst (connect_prepare example_api example_driver) = Inr False"
    by (simp add: connect_prepare_def disconnect_driver_def call_def bind_assoc set_option_impl_def
        deref_option_def CompressOption_set_def ConnectTimeoutOption_set_def offline_def accepted_def
        set_option_api_def wrap_def clear_error_def set_error_def delete_option_def example_api_def
        example_driver_def DBDriver_new_def)
  then obtain d' where "connect_prepare example_api example_driver = (Inr False, d')"
    by (cases "connect_prepare example_api example_driver") auto
  then show ?thesis
    using connect_prepare_cases [of example_api example_driver "Inr False" d']
    by (simp add: example_driver_def)
qed

text \<open>A client flag is accepted exactly when it is a single bit between the lowest and the
  highest flag the library knows; then this bit of the connection's flags gets the wanted value
  and the other 31 low bits keep theirs. Otherwise nothing changes.\<close>
theorem set_option_flag_spec:
  "set_option_flag lowest highest o' arg d =
    (if (\<exists>k < 31. sint o' = 2 ^ k) \<and> lowest \<le> o' \<and> o' \<le> highest
     then (Inr True, d\<lparr>d_client_flag := if arg then d_client_flag d OR ucast o'
             else d_client_flag d AND ucast (NOT o')\<rparr>)
     else (Inr False, d)) \<and>
   (\<forall>k j. k < 31 \<and> sint o' = 2 ^ k \<and> j < 32 \<and> lowest \<le> o' \<and> o' \<le> highest \<longrightarrow>
     bit (d_client_flag (snd (set_option_flag lowest highest o' arg d))) j =
       (if j = k then arg else bit (d_client_flag d) j))"
proof (intro conjI allI impI)
  show run: "set_option_flag lowest highest o' arg d =
    (if (\<exists>k < 31. sint o' = 2 ^ k) \<and> lowest \<le> o' \<and> o' \<le> highest
     then (Inr True, d\<lparr>d_client_flag := if arg then d_client_flag d OR ucast o'
             else d_client_flag d AND ucast (NOT o')\<rparr>)
     else (Inr False, d))"
    by (simp add: set_option_flag_def shift_out_one_iff)
  fix k j :: nat
  assume a: "k < 31 \<and> sint o' = 2 ^ k \<and> j < 32 \<and> lowest \<le> o' \<and> o' \<le> highest"
  then have "j < 32" by simp
  then have "bit o' j = bit (sint o') j" by (simp add: bit_sint_iff)
  then have "bit o' j \<longleftrightarrow> j = k" using a by (simp add: bit_exp_iff)
  then show "bit (d_client_flag (snd (set_option_flag lowest highest o' arg d))) j =
       (if j = k then arg else bit (d_client_flag d) j)"
    using a unfolding run by (auto simp: bit_simps)
qed

theorem set_option_flag_spec_witness:
  "bit (d_client_flag (snd (set_option_flag 1 128 32 True example_driver))) 5"
proof -
  have "(5::nat) < 31 \<and> sint (32 :: 32 word) = 2 ^ 5 \<and> (5::nat) < 32 \<and> (1 :: 32 word) \<le> 32 \<and> (32 :: 32 word) \<le> 128"
    by simp
  from set_option_flag_spec [of 1 128 32 True example_driver, THEN conjunct2, THEN spec, THEN spec, THEN mp, OF this]
  show ?thesis by simp
qed

end
