(* ===== verification/Sql_Types.thy ===== *)
theory Sql_Types
  imports Gateway_Text
begin

text \<open>
  The correspondence of C++ and SQL types in MySQL++ (\<open>mysqlpp/lib/type_info.cpp\<close>,
  \<open>type_info.h\<close>, \<open>sql_types.h\<close>) and the values a query is built from: \<open>SQLBuffer\<close>
  (\<open>sql_buffer.cpp\<close>) and \<open>SQLTypeAdapter\<close> (\<open>stadapter.cpp\<close>), with \<open>str_to_lwr\<close> (\<open>utility.cpp\<close>). The typedefs are
  resolved, so two SQL types with the same C++ type have the same \<open>typeid\<close>. What depends on
  the platform is the record \<open>platform\<close>: which of \<open>long\<close> and \<open>long long\<close> is the
  64-bit integer type, and the version of the C library.
\<close>

section \<open>Types\<close>

datatype cxx_type =
    T_tiny | T_utiny | T_short | T_ushort | T_int | T_uint | T_long | T_ulong | T_longlong
  | T_ulonglong | T_float | T_double | T_char | T_string | T_String | T_Date | T_Time
  | T_DateTime | T_Set | T_void

datatype type_id = Plain cxx_type | Nullable cxx_type

datatype field_type =
    MYSQL_TYPE_DECIMAL | MYSQL_TYPE_NEWDECIMAL | MYSQL_TYPE_TINY | MYSQL_TYPE_SHORT
  | MYSQL_TYPE_LONG | MYSQL_TYPE_FLOAT | MYSQL_TYPE_DOUBLE | MYSQL_TYPE_NULL
  | MYSQL_TYPE_TIMESTAMP | MYSQL_TYPE_LONGLONG | MYSQL_TYPE_INT24 | MYSQL_TYPE_DATE
  | MYSQL_TYPE_TIME | MYSQL_TYPE_DATETIME | MYSQL_TYPE_ENUM | MYSQL_TYPE_SET
  | MYSQL_TYPE_TINY_BLOB | MYSQL_TYPE_MEDIUM_BLOB | MYSQL_TYPE_LONG_BLOB | MYSQL_TYPE_BLOB
  | MYSQL_TYPE_VAR_STRING | MYSQL_TYPE_STRING | MYSQL_TYPE_OTHER nat

record platform =
  int64_is_long :: bool
  mysql_version :: nat

definition int64_t :: "platform \<Rightarrow> cxx_type" where
  "int64_t pl = (if int64_is_long pl then T_long else T_longlong)"

definition uint64_t :: "platform \<Rightarrow> cxx_type" where
  "uint64_t pl = (if int64_is_long pl then T_ulong else T_ulonglong)"

definition decimal_type :: "platform \<Rightarrow> field_type" where
  "decimal_type pl = (if 50001 \<le> mysql_version pl then MYSQL_TYPE_NEWDECIMAL else MYSQL_TYPE_DECIMAL)"

definition tf_default :: "32 word" where "tf_default = 1"
definition tf_null :: "32 word" where "tf_null = 2"
definition tf_unsigned :: "32 word" where "tf_unsigned = 4"

datatype sql_type_info =
  sql_type_info (sql_name: string) (c_type: type_id) (base: field_type) (flags: "32 word")

definition is_default :: "sql_type_info \<Rightarrow> bool" where "is_default t = (flags t AND tf_default \<noteq> 0)"
definition is_null_type :: "sql_type_info \<Rightarrow> bool" where "is_null_type t = (flags t AND tf_null \<noteq> 0)"
definition is_unsigned :: "sql_type_info \<Rightarrow> bool" where "is_unsigned t = (flags t AND tf_unsigned \<noteq> 0)"

text \<open>The table, in the order of the source: first the types that cannot be null.\<close>

definition plain_types :: "platform \<Rightarrow> sql_type_info list" where
  "plain_types pl =
    [sql_type_info ''DECIMAL NOT NULL'' (Plain T_double) (decimal_type pl) 0,
     sql_type_info ''TINYINT NOT NULL'' (Plain T_tiny) MYSQL_TYPE_TINY (tf_default),
     sql_type_info ''TINYINT UNSIGNED NOT NULL'' (Plain T_utiny) MYSQL_TYPE_TINY (tf_default OR tf_unsigned),
     sql_type_info ''SMALLINT NOT NULL'' (Plain T_short) MYSQL_TYPE_SHORT (tf_default),
     sql_type_info ''SMALLINT UNSIGNED NOT NULL'' (Plain T_ushort) MYSQL_TYPE_SHORT (tf_default OR tf_unsigned),
     sql_type_info ''INT NOT NULL'' (Plain T_int) MYSQL_TYPE_LONG (tf_default),
     sql_type_info ''INT UNSIGNED NOT NULL'' (Plain T_uint) MYSQL_TYPE_LONG (tf_default OR tf_unsigned),
     sql_type_info ''FLOAT NOT NULL'' (Plain T_float) MYSQL_TYPE_FLOAT (tf_default),
     sql_type_info ''FLOAT UNSIGNED NOT NULL'' (Plain T_float) MYSQL_TYPE_FLOAT (tf_default OR tf_unsigned),
     sql_type_info ''DOUBLE NOT NULL'' (Plain T_double) MYSQL_TYPE_DOUBLE (tf_default),
     sql_type_info ''DOUBLE UNSIGNED NOT NULL'' (Plain T_double) MYSQL_TYPE_DOUBLE (tf_default OR tf_unsigned),
     sql_type_info ''NULL NOT NULL'' (Plain T_void) MYSQL_TYPE_NULL (tf_default),
     sql_type_info ''TIMESTAMP NOT NULL'' (Plain T_DateTime) MYSQL_TYPE_TIMESTAMP 0,
     sql_type_info ''BIGINT NOT NULL'' (Plain (int64_t pl)) MYSQL_TYPE_LONGLONG (tf_default),
     sql_type_info ''BIGINT UNSIGNED NOT NULL'' (Plain (uint64_t pl)) MYSQL_TYPE_LONGLONG (tf_default OR tf_unsigned),
     sql_type_info ''MEDIUMINT NOT NULL'' (Plain T_int) MYSQL_TYPE_INT24 (tf_unsigned),
     sql_type_info ''MEDIUMINT UNSIGNED NOT NULL'' (Plain T_uint) MYSQL_TYPE_INT24 (tf_unsigned),
     sql_type_info ''DATE NOT NULL'' (Plain T_Date) MYSQL_TYPE_DATE (tf_default),
     sql_type_info ''TIME NOT NULL'' (Plain T_Time) MYSQL_TYPE_TIME (tf_default),
     sql_type_info ''DATETIME NOT NULL'' (Plain T_DateTime) MYSQL_TYPE_DATETIME (tf_default),
     sql_type_info ''ENUM NOT NULL'' (Plain T_string) MYSQL_TYPE_ENUM (tf_default),
     sql_type_info ''SET NOT NULL'' (Plain T_Set) MYSQL_TYPE_SET (tf_default),
     sql_type_info ''TINYBLOB NOT NULL'' (Plain T_String) MYSQL_TYPE_TINY_BLOB 0,
     sql_type_info ''MEDIUMBLOB NOT NULL'' (Plain T_String) MYSQL_TYPE_MEDIUM_BLOB 0,
     sql_type_info ''LONGBLOB NOT NULL'' (Plain T_String) MYSQL_TYPE_LONG_BLOB 0,
     sql_type_info ''BLOB NOT NULL'' (Plain T_String) MYSQL_TYPE_BLOB (tf_default),
     sql_type_info ''VARCHAR NOT NULL'' (Plain T_string) MYSQL_TYPE_VAR_STRING (tf_default),
     sql_type_info ''CHAR NOT NULL'' (Plain T_string) MYSQL_TYPE_STRING 0]"

definition null_types :: "platform \<Rightarrow> sql_type_info list" where
  "null_types pl =
    [sql_type_info ''DECIMAL NULL'' (Nullable T_double) (decimal_type pl) (tf_null),
     sql_type_info ''TINYINT NULL'' (Nullable T_tiny) MYSQL_TYPE_TINY (tf_default OR tf_null),
     sql_type_info ''TINYINT UNSIGNED NULL'' (Nullable T_utiny) MYSQL_TYPE_TINY (tf_default OR tf_null OR tf_unsigned),
     sql_type_info ''SMALLINT NULL'' (Nullable T_short) MYSQL_TYPE_SHORT (tf_default OR tf_null),
     sql_type_info ''SMALLINT UNSIGNED NULL'' (Nullable T_ushort) MYSQL_TYPE_SHORT (tf_default OR tf_null OR tf_unsigned),
     sql_type_info ''INT NULL'' (Nullable T_int) MYSQL_TYPE_LONG (tf_default OR tf_null),
     sql_type_info ''INT UNSIGNED NULL'' (Nullable T_uint) MYSQL_TYPE_LONG (tf_default OR tf_null OR tf_unsigned),
     sql_type_info ''FLOAT NULL'' (Nullable T_float) MYSQL_TYPE_FLOAT (tf_default OR tf_null),
     sql_type_info ''FLOAT UNSIGNED NULL'' (Nullable T_float) MYSQL_TYPE_FLOAT (tf_default OR tf_null OR tf_unsigned),
     sql_type_info ''DOUBLE NULL'' (Nullable T_double) MYSQL_TYPE_DOUBLE (tf_default OR tf_null),
     sql_type_info ''DOUBLE UNSIGNED NULL'' (Nullable T_double) MYSQL_TYPE_DOUBLE (tf_default OR tf_null OR tf_unsigned),
     sql_type_info ''NULL NULL'' (Nullable T_void) MYSQL_TYPE_NULL (tf_null),
     sql_type_info ''TIMESTAMP NULL'' (Nullable T_DateTime) MYSQL_TYPE_TIMESTAMP 0,
     sql_type_info ''BIGINT NULL'' (Nullable (int64_t pl)) MYSQL_TYPE_LONGLONG (tf_default OR tf_null),
     sql_type_info ''BIGINT UNSIGNED NULL'' (Nullable (uint64_t pl)) MYSQL_TYPE_LONGLONG (tf_default OR tf_null OR tf_unsigned),
     sql_type_info ''MEDIUMINT NULL'' (Nullable T_int) MYSQL_TYPE_INT24 (tf_null),
     sql_type_info ''MEDIUMINT UNSIGNED NULL'' (Nullable T_uint) MYSQL_TYPE_INT24 (tf_null OR tf_unsigned),
     sql_type_info ''DATE NULL'' (Nullable T_Date) MYSQL_TYPE_DATE (tf_default OR tf_null),
     sql_type_info ''TIME NULL'' (Nullable T_Time) MYSQL_TYPE_TIME (tf_default OR tf_null),
     sql_type_info ''DATETIME NULL'' (Nullable T_DateTime) MYSQL_TYPE_DATETIME (tf_default OR tf_null),
     sql_type_info ''ENUM NULL'' (Nullable T_string) MYSQL_TYPE_ENUM (tf_default OR tf_null),
     sql_type_info ''SET NULL'' (Nullable T_Set) MYSQL_TYPE_SET (tf_default OR tf_null),
     sql_type_info ''TINYBLOB NULL'' (Nullable T_String) MYSQL_TYPE_TINY_BLOB (tf_null),
     sql_type_info ''MEDIUMBLOB NULL'' (Nullable T_String) MYSQL_TYPE_MEDIUM_BLOB (tf_null),
     sql_type_info ''LONGBLOB NULL'' (Nullable T_String) MYSQL_TYPE_LONG_BLOB (tf_null),
     sql_type_info ''BLOB NULL'' (Nullable T_String) MYSQL_TYPE_BLOB (tf_default OR tf_null),
     sql_type_info ''VARCHAR NULL'' (Nullable T_string) MYSQL_TYPE_VAR_STRING (tf_default OR tf_null),
     sql_type_info ''CHAR NULL'' (Nullable T_string) MYSQL_TYPE_STRING (tf_null)]"

definition types :: "platform \<Rightarrow> sql_type_info list" where
  "types pl = plain_types pl @ null_types pl"

section \<open>Searching the table\<close>

text \<open>The constructor of the reverse map: the last default entry of a C++ type stays.\<close>

fun lookup_map :: "sql_type_info list \<Rightarrow> nat \<Rightarrow> (type_id \<rightharpoonup> nat) \<Rightarrow> (type_id \<rightharpoonup> nat)" where
  "lookup_map [] i m = m"
| "lookup_map (t # ts) i m = lookup_map ts (Suc i) (if is_default t then m(c_type t \<mapsto> i) else m)"

definition lookup_type :: "platform \<Rightarrow> type_id \<Rightarrow> nat res" where
  "lookup_type pl ti = (case lookup_map (types pl) 0 Map.empty ti of
     Some i \<Rightarrow> Inr i
   | None \<Rightarrow> Inl (Throw (TypeLookupFailed ''Failed to find MySQL C API type ID for '')))"

definition matches :: "field_type \<Rightarrow> bool \<Rightarrow> bool \<Rightarrow> sql_type_info \<Rightarrow> bool" where
  "matches t uns nul e \<longleftrightarrow> base e = t \<and> (\<not> uns \<or> is_unsigned e) \<and> (\<not> nul \<or> is_null_type e)"

fun first_index :: "('a \<Rightarrow> bool) \<Rightarrow> 'a list \<Rightarrow> nat option" where
  "first_index P [] = None"
| "first_index P (x # xs) = (if P x then Some 0 else map_option Suc (first_index P xs))"

text \<open>When no entry fits, a search for the character type with the same nullability; that
  recursive call always finds one, which is proved below.\<close>

definition type_of :: "platform \<Rightarrow> field_type \<Rightarrow> bool \<Rightarrow> bool \<Rightarrow> nat" where
  "type_of pl t uns nul = (case first_index (matches t uns nul) (types pl) of
     Some i \<Rightarrow> i
   | None \<Rightarrow> (case first_index (matches MYSQL_TYPE_STRING False nul) (types pl) of
        Some i \<Rightarrow> i | None \<Rightarrow> 0))"

definition base_type :: "platform \<Rightarrow> nat \<Rightarrow> nat" where
  "base_type pl num = type_of pl (base (types pl ! num)) False False"

definition quote_types :: "type_id list" where
  "quote_types = map Plain [T_string, T_Date, T_Time, T_DateTime, T_String, T_Set]"

definition type_quote_q :: "platform \<Rightarrow> nat \<Rightarrow> bool" where
  "type_quote_q pl num = (c_type (types pl ! base_type pl num) \<in> set quote_types)"

definition escape_types :: "type_id list" where
  "escape_types = map Plain [T_string, T_String]"

definition type_escape_q :: "platform \<Rightarrow> nat \<Rightarrow> bool" where
  "type_escape_q pl num = (c_type (types pl ! base_type pl num) \<in> set escape_types)"

lemmas flag_defs = tf_default_def tf_null_def tf_unsigned_def is_default_def is_null_type_def
  is_unsigned_def

lemma length_types: "length (types pl) = 56"
  by (simp add: types_def plain_types_def null_types_def)

section \<open>Facts about the table\<close>

lemma first_index_Some: "first_index P xs = Some i \<Longrightarrow> i < length xs \<and> P (xs ! i)"
  by (induction xs arbitrary: i) (auto split: if_splits)

lemma first_index_before: "first_index P xs = Some i \<Longrightarrow> j < i \<Longrightarrow> \<not> P (xs ! j)"
proof (induction xs arbitrary: i j)
  case (Cons x xs)
  then show ?case by (cases j) (auto split: if_splits)
qed simp

lemma first_index_None: "first_index P xs = None \<longleftrightarrow> (\<forall>x \<in> set xs. \<not> P x)"
  by (induction xs) auto

lemma string_entries:
  "first_index (matches MYSQL_TYPE_STRING False False) (types pl) = Some 27"
  "first_index (matches MYSQL_TYPE_STRING False True) (types pl) = Some 55"
  by (simp_all add: types_def plain_types_def null_types_def matches_def flag_defs decimal_type_def)

section \<open>Text of numbers\<close>

fun show_nat :: "nat \<Rightarrow> string" where
  "show_nat n = (if n < 10 then [char_of (48 + n)]
     else show_nat (n div 10) @ [char_of (48 + n mod 10)])"

declare show_nat.simps [simp del]

definition show_int :: "int \<Rightarrow> string" where
  "show_int i = (if i < 0 then CHR ''-'' # show_nat (nat (- i)) else show_nat (nat i))"

lemma show_nat_digits: "list_all is_digit (show_nat n) \<and> decimal (show_nat n) = n \<and> show_nat n \<noteq> []"
proof (induction n rule: show_nat.induct)
  case (1 n)
  have digit: "is_digit (char_of (48 + m))" "digit_value (char_of (48 + m)) = m" if "m < 10" for m :: nat
    using that by (auto simp: is_digit_def digit_value_def of_char_of)
  show ?case
  proof (cases "n < 10")
    case True
    then show ?thesis using digit by (simp add: show_nat.simps [of n] decimal_def)
  next
    case False
    then have "decimal (show_nat (n div 10) @ [char_of (48 + n mod 10)]) = 10 * (n div 10) + n mod 10"
      using 1 digit(2) [of "n mod 10"] by (simp add: decimal_def)
    then show ?thesis using 1 False digit(1) [of "n mod 10"] by (simp add: show_nat.simps [of n])
  qed
qed

text \<open>\<open>tolower\<close> in the C locale.\<close>

definition to_lower :: "char \<Rightarrow> char" where
  "to_lower c = (if 65 \<le> (of_char c :: nat) \<and> of_char c \<le> (90 :: nat) then char_of (of_char c + (32 :: nat)) else c)"

definition str_to_lwr :: "string \<Rightarrow> string" where
  "str_to_lwr s = map to_lower s"

section \<open>Values\<close>

record sql_buffer =
  buf_data :: string
  buf_type :: nat
  buf_null :: bool

record adapter =
  ad_buffer :: "sql_buffer option"
  ad_processed :: bool

definition null_str :: string where "null_str = ''NULL''"

definition buffer_quote_q :: "platform \<Rightarrow> sql_buffer \<Rightarrow> bool" where
  "buffer_quote_q pl b =
     (if c_type (types pl ! base_type pl (buf_type b)) = Plain T_DateTime \<and>
         5 \<le> length (buf_data b) \<and> take 5 (buf_data b) = ''NOW()'' then False
      else type_quote_q pl (buf_type b))"

definition string_type :: "platform \<Rightarrow> nat" where
  "string_type pl = type_of pl MYSQL_TYPE_STRING False False"

definition adapter_of :: "string \<Rightarrow> nat \<Rightarrow> bool \<Rightarrow> bool \<Rightarrow> adapter" where
  "adapter_of text ty nul processed =
     \<lparr>ad_buffer = Some \<lparr>buf_data = text, buf_type = ty, buf_null = nul\<rparr>, ad_processed = processed\<rparr>"

definition STA_default :: adapter where
  "STA_default = \<lparr>ad_buffer = None, ad_processed = False\<rparr>"

text \<open>The copy constructor shares the buffer and forgets that the value was processed.\<close>

definition STA_copy :: "adapter \<Rightarrow> adapter" where
  "STA_copy other = \<lparr>ad_buffer = ad_buffer other, ad_processed = False\<rparr>"

definition STA_String :: "sql_buffer option \<Rightarrow> bool \<Rightarrow> adapter" where
  "STA_String b processed = \<lparr>ad_buffer = b, ad_processed = processed\<rparr>"

definition STA_string :: "platform \<Rightarrow> string \<Rightarrow> bool \<Rightarrow> adapter" where
  "STA_string pl s processed = adapter_of s (string_type pl) False processed"

definition STA_cstr :: "platform \<Rightarrow> string \<Rightarrow> bool \<Rightarrow> adapter" where
  "STA_cstr pl s processed = adapter_of (takeWhile (\<lambda>c. c \<noteq> CHR 0x00) s) (string_type pl) False processed"

definition STA_cstr_len :: "platform \<Rightarrow> string \<Rightarrow> nat \<Rightarrow> bool \<Rightarrow> adapter" where
  "STA_cstr_len pl s len processed = adapter_of (take len s) (string_type pl) False processed"

definition STA_char :: "platform \<Rightarrow> char \<Rightarrow> adapter" where
  "STA_char pl c = adapter_of [c] (string_type pl) False False"

text \<open>\<open>new SQLBuffer(stream2string(i), typeid(i), false)\<close>, and the same for \<open>Null<T>\<close>.\<close>

definition plain_adapter :: "platform \<Rightarrow> string \<Rightarrow> cxx_type \<Rightarrow> adapter res" where
  "plain_adapter pl text ty = rbind (lookup_type pl (Plain ty)) (\<lambda>n. Inr (adapter_of text n False False))"

definition null_adapter :: "platform \<Rightarrow> string option \<Rightarrow> cxx_type \<Rightarrow> adapter res" where
  "null_adapter pl text ty =
     rbind (lookup_type pl (Plain (if text = None then T_void else ty))) (\<lambda>n.
       Inr (adapter_of (case text of None \<Rightarrow> null_str | Some s \<Rightarrow> s) n (text = None) False))"

definition STA_null_string :: "platform \<Rightarrow> string option \<Rightarrow> adapter res" where
  "STA_null_string pl s = null_adapter pl s T_string"

definition STA_null_String :: "platform \<Rightarrow> string option \<Rightarrow> adapter res" where
  "STA_null_String pl s = null_adapter pl s T_String"

definition STA_null_char :: "platform \<Rightarrow> char option \<Rightarrow> adapter res" where
  "STA_null_char pl c = null_adapter pl (map_option (\<lambda>c. [c]) c) T_char"

definition STA_tiny :: "platform \<Rightarrow> 8 word \<Rightarrow> adapter res" where
  "STA_tiny pl i = plain_adapter pl (show_int (sint i)) T_tiny"

definition STA_null_tiny :: "platform \<Rightarrow> 8 word option \<Rightarrow> adapter res" where
  "STA_null_tiny pl i = null_adapter pl (map_option (\<lambda>i. show_int (sint i)) i) T_tiny"

definition STA_utiny :: "platform \<Rightarrow> 8 word \<Rightarrow> adapter res" where
  "STA_utiny pl i = plain_adapter pl (show_int (uint i)) T_utiny"

definition STA_null_utiny :: "platform \<Rightarrow> 8 word option \<Rightarrow> adapter res" where
  "STA_null_utiny pl i = null_adapter pl (map_option (\<lambda>i. show_int (uint i)) i) T_utiny"

definition STA_short :: "platform \<Rightarrow> 16 word \<Rightarrow> adapter res" where
  "STA_short pl i = plain_adapter pl (show_int (sint i)) T_short"

definition STA_null_short :: "platform \<Rightarrow> 16 word option \<Rightarrow> adapter res" where
  "STA_null_short pl i = null_adapter pl (map_option (\<lambda>i. show_int (sint i)) i) T_short"

definition STA_ushort :: "platform \<Rightarrow> 16 word \<Rightarrow> adapter res" where
  "STA_ushort pl i = plain_adapter pl (show_int (uint i)) T_ushort"

definition STA_null_ushort :: "platform \<Rightarrow> 16 word option \<Rightarrow> adapter res" where
  "STA_null_ushort pl i = null_adapter pl (map_option (\<lambda>i. show_int (uint i)) i) T_ushort"

definition STA_int :: "platform \<Rightarrow> 32 word \<Rightarrow> adapter res" where
  "STA_int pl i = plain_adapter pl (show_int (sint i)) T_int"

definition STA_null_int :: "platform \<Rightarrow> 32 word option \<Rightarrow> adapter res" where
  "STA_null_int pl i = null_adapter pl (map_option (\<lambda>i. show_int (sint i)) i) T_int"

definition STA_unsigned :: "platform \<Rightarrow> 32 word \<Rightarrow> adapter res" where
  "STA_unsigned pl i = plain_adapter pl (show_int (uint i)) T_uint"

definition STA_null_unsigned :: "platform \<Rightarrow> 32 word option \<Rightarrow> adapter res" where
  "STA_null_unsigned pl i = null_adapter pl (map_option (\<lambda>i. show_int (uint i)) i) T_uint"

definition STA_long :: "platform \<Rightarrow> 64 word \<Rightarrow> adapter res" where
  "STA_long pl i = plain_adapter pl (show_int (sint i)) T_long"

definition STA_null_long :: "platform \<Rightarrow> 64 word option \<Rightarrow> adapter res" where
  "STA_null_long pl i = null_adapter pl (map_option (\<lambda>i. show_int (sint i)) i) T_long"

definition STA_ulong :: "platform \<Rightarrow> 64 word \<Rightarrow> adapter res" where
  "STA_ulong pl i = plain_adapter pl (show_int (uint i)) T_ulong"

definition STA_null_ulong :: "platform \<Rightarrow> 64 word option \<Rightarrow> adapter res" where
  "STA_null_ulong pl i = null_adapter pl (map_option (\<lambda>i. show_int (uint i)) i) T_ulong"

definition STA_longlong :: "platform \<Rightarrow> 64 word \<Rightarrow> adapter res" where
  "STA_longlong pl i = plain_adapter pl (show_int (sint i)) T_longlong"

definition STA_null_longlong :: "platform \<Rightarrow> 64 word option \<Rightarrow> adapter res" where
  "STA_null_longlong pl i = null_adapter pl (map_option (\<lambda>i. show_int (sint i)) i) T_longlong"

definition STA_ulonglong :: "platform \<Rightarrow> 64 word \<Rightarrow> adapter res" where
  "STA_ulonglong pl i = plain_adapter pl (show_int (uint i)) T_ulonglong"

definition STA_null_ulonglong :: "platform \<Rightarrow> 64 word option \<Rightarrow> adapter res" where
  "STA_null_ulonglong pl i = null_adapter pl (map_option (\<lambda>i. show_int (uint i)) i) T_ulonglong"

text \<open>
  A floating-point number by its class, with the text the stream prints for it. The comparison
  with \<open>quiet_NaN()\<close> is false for every number, and \<open>infinity()\<close> is the positive one.
\<close>

datatype fp = Fp_Finite string | Fp_Infinity | Fp_Minus_Infinity | Fp_NaN

fun show_fp :: "fp \<Rightarrow> string" where
  "show_fp (Fp_Finite s) = s"
| "show_fp Fp_Infinity = ''inf''"
| "show_fp Fp_Minus_Infinity = ''-inf''"
| "show_fp Fp_NaN = ''nan''"

definition fp_adapter :: "platform \<Rightarrow> cxx_type \<Rightarrow> fp \<Rightarrow> adapter res" where
  "fp_adapter pl ty f =
     (if f = Fp_Infinity
      then rbind (lookup_type pl (Plain ty)) (\<lambda>n. Inr (adapter_of ''0'' n True False))
      else plain_adapter pl (show_fp f) ty)"

definition null_fp_adapter :: "platform \<Rightarrow> cxx_type \<Rightarrow> fp option \<Rightarrow> adapter res" where
  "null_fp_adapter pl ty f =
     (if f = None \<or> f = Some Fp_Infinity then null_adapter pl None ty
      else plain_adapter pl (show_fp (the f)) ty)"

definition STA_float :: "platform \<Rightarrow> fp \<Rightarrow> adapter res" where "STA_float pl = fp_adapter pl T_float"

definition STA_null_float :: "platform \<Rightarrow> fp option \<Rightarrow> adapter res" where
  "STA_null_float pl = null_fp_adapter pl T_float"

definition STA_double :: "platform \<Rightarrow> fp \<Rightarrow> adapter res" where "STA_double pl = fp_adapter pl T_double"

definition STA_null_double :: "platform \<Rightarrow> fp option \<Rightarrow> adapter res" where
  "STA_null_double pl = null_fp_adapter pl T_double"

text \<open>Dates and times, by their text.\<close>

definition STA_date :: "platform \<Rightarrow> string \<Rightarrow> adapter res" where
  "STA_date pl d = plain_adapter pl d T_Date"

definition STA_null_date :: "platform \<Rightarrow> string option \<Rightarrow> adapter res" where
  "STA_null_date pl d = null_adapter pl d T_Date"

definition STA_datetime :: "platform \<Rightarrow> string \<Rightarrow> adapter res" where
  "STA_datetime pl d = plain_adapter pl d T_DateTime"

definition STA_null_datetime :: "platform \<Rightarrow> string option \<Rightarrow> adapter res" where
  "STA_null_datetime pl d = null_adapter pl d T_DateTime"

definition STA_time :: "platform \<Rightarrow> string \<Rightarrow> adapter res" where
  "STA_time pl d = plain_adapter pl d T_Time"

definition STA_null_time :: "platform \<Rightarrow> string option \<Rightarrow> adapter res" where
  "STA_null_time pl d = null_adapter pl d T_Time"

definition STA_null :: "platform \<Rightarrow> adapter res" where
  "STA_null pl = null_adapter pl None T_void"

section \<open>Operations of a value\<close>

definition STA_assign :: "adapter \<Rightarrow> adapter \<Rightarrow> adapter" where
  "STA_assign this rhs = \<lparr>ad_buffer = ad_buffer rhs, ad_processed = False\<rparr>"

definition STA_assign_cstr :: "platform \<Rightarrow> string \<Rightarrow> int \<Rightarrow> adapter" where
  "STA_assign_cstr pl pc len = adapter_of
     (if len < 0 then takeWhile (\<lambda>c. c \<noteq> CHR 0x00) pc else take (nat len) pc) (string_type pl) False False"

definition set_processed :: "adapter \<Rightarrow> adapter" where
  "set_processed a = a\<lparr>ad_processed := True\<rparr>"

definition sta_data :: "adapter \<Rightarrow> string" where
  "sta_data a = (case ad_buffer a of None \<Rightarrow> [] | Some b \<Rightarrow> buf_data b)"

definition sta_is_null :: "adapter \<Rightarrow> bool res" where
  "sta_is_null a = (case ad_buffer a of None \<Rightarrow> Inl (UB NullDeref) | Some b \<Rightarrow> Inr (buf_null b))"

definition sta_quote_q :: "platform \<Rightarrow> adapter \<Rightarrow> bool" where
  "sta_quote_q pl a = (case ad_buffer a of None \<Rightarrow> True | Some b \<Rightarrow> buffer_quote_q pl b)"

definition sta_escape_q :: "platform \<Rightarrow> adapter \<Rightarrow> bool" where
  "sta_escape_q pl a = (case ad_buffer a of None \<Rightarrow> False | Some b \<Rightarrow> type_escape_q pl (buf_type b))"

definition sta_type_id :: "adapter \<Rightarrow> nat" where
  "sta_type_id a = (case ad_buffer a of None \<Rightarrow> 0 | Some b \<Rightarrow> buf_type b)"

text \<open>\<open>strncmp\<close>: characters are compared as unsigned, a terminator stops.\<close>

fun strncmp :: "nat \<Rightarrow> string \<Rightarrow> string \<Rightarrow> int" where
  "strncmp 0 a b = 0"
| "strncmp (Suc n) a b =
     (let x = (case a of [] \<Rightarrow> CHR 0x00 | c # _ \<Rightarrow> c); y = (case b of [] \<Rightarrow> CHR 0x00 | c # _ \<Rightarrow> c) in
      if x \<noteq> y then int (of_char x) - int (of_char y)
      else if x = CHR 0x00 then 0 else strncmp n (tl a) (tl b))"

definition sta_compare_at :: "adapter \<Rightarrow> nat \<Rightarrow> nat \<Rightarrow> string option \<Rightarrow> int res" where
  "sta_compare_at a pos num other = (case (ad_buffer a, other) of
       (Some b, Some s) \<Rightarrow> if length (buf_data b) < pos then Inl (UB OutOfBounds)
                           else Inr (strncmp num (drop pos (buf_data b)) s)
     | (_, None) \<Rightarrow> Inr 1
     | (None, Some s) \<Rightarrow> Inr (- 1))"

definition sta_compare :: "adapter \<Rightarrow> adapter \<Rightarrow> int res" where
  "sta_compare a other = (case ad_buffer other of
       Some b \<Rightarrow> sta_compare_at a 0 (length (sta_data a)) (Some (buf_data b))
     | None \<Rightarrow> Inr (if ad_buffer a = None then 0 else 1))"

definition sta_compare_string :: "adapter \<Rightarrow> string \<Rightarrow> int res" where
  "sta_compare_string a s = sta_compare_at a 0 (length (sta_data a)) (Some s)"

lemma string_type_quotes: "type_quote_q pl (string_type pl)" "type_escape_q pl (string_type pl)"
proof -
  have "first_index (matches MYSQL_TYPE_STRING False False) (types pl) = Some 27"
    using string_entries [of pl] by simp
  then have "string_type pl = 27" by (simp add: string_type_def type_of_def)
  moreover have entry: "base (types pl ! 27) = MYSQL_TYPE_STRING" "c_type (types pl ! 27) = Plain T_string"
    by (simp_all add: types_def plain_types_def nth_append)
  moreover have "base_type pl 27 = 27"
    using string_entries [of pl] by (simp add: base_type_def type_of_def entry)
  ultimately show "type_quote_q pl (string_type pl)" "type_escape_q pl (string_type pl)"
    by (simp_all add: type_quote_q_def type_escape_q_def quote_types_def escape_types_def)
qed

section \<open>Which C++ types have a number\<close>

lemma lookup_map_default:
  "lookup_map ts i m ti \<noteq> None \<longleftrightarrow> m ti \<noteq> None \<or> (\<exists>t \<in> set ts. is_default t \<and> c_type t = ti)"
  by (induction ts arbitrary: i m) auto

text \<open>The types that have a number: of the wide integers, only the one that the platform uses for 64 bits.\<close>

definition numbered :: "platform \<Rightarrow> cxx_type set" where
  "numbered pl = {T_tiny, T_utiny, T_short, T_ushort, T_int, T_uint, T_float, T_double, T_void, int64_t pl, uint64_t pl,
     T_Date, T_Time, T_DateTime, T_string, T_Set, T_String}"

lemma default_flags:
  "is_default (sql_type_info n t b 0) = False" "is_default (sql_type_info n t b tf_null) = False"
  "is_default (sql_type_info n t b tf_unsigned) = False" "is_default (sql_type_info n t b (tf_null OR tf_unsigned)) = False"
  "is_default (sql_type_info n t b tf_default) = True" "is_default (sql_type_info n t b (tf_default OR tf_null)) = True"
  "is_default (sql_type_info n t b (tf_default OR tf_unsigned)) = True"
  "is_default (sql_type_info n t b (tf_default OR tf_null OR tf_unsigned)) = True"
  by (simp_all add: flag_defs)

lemma default_types: "(\<exists>t \<in> set (types pl). is_default t \<and> c_type t = Plain ty) \<longleftrightarrow> ty \<in> numbered pl"
proof -
  have "(\<exists>t \<in> set (plain_types pl). is_default t \<and> c_type t = Plain ty) \<longleftrightarrow> ty \<in> numbered pl"
    unfolding plain_types_def numbered_def
    by (simp only: list.set bex_simps default_flags sql_type_info.sel type_id.inject simp_thms insert_iff) blast
  moreover have "\<not> (\<exists>t \<in> set (null_types pl). is_default t \<and> c_type t = Plain ty)"
    unfolding null_types_def by (simp only: list.set bex_simps default_flags sql_type_info.sel type_id.distinct simp_thms)
  ultimately show ?thesis by (auto simp: types_def)
qed

lemma lookup_found: "(\<exists>n. lookup_type pl (Plain ty) = Inr n) \<longleftrightarrow> ty \<in> numbered pl"
  using lookup_map_default [of "types pl" 0 Map.empty "Plain ty"] default_types [of pl ty]
  by (auto simp: lookup_type_def split: option.splits)

lemma adapter_found:
  "(\<exists>a. plain_adapter pl t ty = Inr a) \<longleftrightarrow> ty \<in> numbered pl"
  "(\<exists>a. null_adapter pl u ty = Inr a) \<longleftrightarrow> u = None \<or> ty \<in> numbered pl"
  by (auto simp: plain_adapter_def null_adapter_def rbind_eq_Inr_iff lookup_found [symmetric])
    (auto simp: lookup_found, simp_all add: numbered_def)

lemma wide_numbered:
  "T_long \<in> numbered pl \<longleftrightarrow> int64_is_long pl" "T_ulong \<in> numbered pl \<longleftrightarrow> int64_is_long pl"
  "T_longlong \<in> numbered pl \<longleftrightarrow> \<not> int64_is_long pl" "T_ulonglong \<in> numbered pl \<longleftrightarrow> \<not> int64_is_long pl"
  by (simp_all add: numbered_def int64_t_def uint64_t_def)

lemma unnumbered_throws:
  assumes "ty \<notin> numbered pl"
  shows "\<exists>msg. plain_adapter pl t ty = Inl (Throw (TypeLookupFailed msg))"
  using assms lookup_found [of pl ty] by (auto simp: plain_adapter_def lookup_type_def split: option.splits)

section \<open>The entries that are found\<close>

text \<open>The C++ type of an integer column: the integer of the column's width and sign.\<close>

definition cxx_integer :: "platform \<Rightarrow> field_type \<Rightarrow> bool \<Rightarrow> cxx_type option" where
  "cxx_integer pl t uns = (case t of
       MYSQL_TYPE_TINY \<Rightarrow> Some (if uns then T_utiny else T_tiny)
     | MYSQL_TYPE_SHORT \<Rightarrow> Some (if uns then T_ushort else T_short)
     | MYSQL_TYPE_LONG \<Rightarrow> Some (if uns then T_uint else T_int)
     | MYSQL_TYPE_LONGLONG \<Rightarrow> Some (if uns then uint64_t pl else int64_t pl)
     | _ \<Rightarrow> None)"

text \<open>What the flags of the table say, and its entries one after another.\<close>

lemma flags_say:
  "is_unsigned (sql_type_info n c b 0) = False" "is_null_type (sql_type_info n c b 0) = False"
  "is_unsigned (sql_type_info n c b tf_default) = False" "is_null_type (sql_type_info n c b tf_default) = False"
  "is_unsigned (sql_type_info n c b tf_null) = False" "is_null_type (sql_type_info n c b tf_null) = True"
  "is_unsigned (sql_type_info n c b tf_unsigned) = True" "is_null_type (sql_type_info n c b tf_unsigned) = False"
  "is_unsigned (sql_type_info n c b (tf_default OR tf_null)) = False"
  "is_null_type (sql_type_info n c b (tf_default OR tf_null)) = True"
  "is_unsigned (sql_type_info n c b (tf_default OR tf_unsigned)) = True"
  "is_null_type (sql_type_info n c b (tf_default OR tf_unsigned)) = False"
  "is_unsigned (sql_type_info n c b (tf_null OR tf_unsigned)) = True"
  "is_null_type (sql_type_info n c b (tf_null OR tf_unsigned)) = True"
  "is_unsigned (sql_type_info n c b (tf_default OR tf_null OR tf_unsigned)) = True"
  "is_null_type (sql_type_info n c b (tf_default OR tf_null OR tf_unsigned)) = True"
  by (simp_all add: flag_defs)

lemma decimal_is_no_integer:
  "decimal_type pl \<noteq> MYSQL_TYPE_TINY" "decimal_type pl \<noteq> MYSQL_TYPE_SHORT" "decimal_type pl \<noteq> MYSQL_TYPE_LONG"
  "decimal_type pl \<noteq> MYSQL_TYPE_LONGLONG" "decimal_type pl \<noteq> MYSQL_TYPE_INT24" "decimal_type pl \<noteq> MYSQL_TYPE_TIMESTAMP"
  by (simp_all add: decimal_type_def)

lemmas search_simps = types_def plain_types_def null_types_def append.simps find.simps matches_def flags_say
  decimal_is_no_integer sql_type_info.sel field_type.distinct simp_thms if_True if_False list.distinct

lemma found_entry:
  assumes "find (matches t uns nul) (types pl) = Some e"
  shows "types pl ! type_of pl t uns nul = e"
proof -
  have "find P xs = map_option ((!) xs) (first_index P xs)" for P and xs :: "sql_type_info list"
    by (induction xs) (auto simp: option.map_comp comp_def)
  from this [of "matches t uns nul" "types pl"] assms
  obtain i where "first_index (matches t uns nul) (types pl) = Some i" "types pl ! i = e"
    by (cases "first_index (matches t uns nul) (types pl)") simp_all
  then show ?thesis by (simp add: type_of_def)
qed

lemma integer_entries:
  assumes "cxx_integer pl t uns = Some c"
  shows "c_type (types pl ! type_of pl t uns nul) = (if nul then Nullable c else Plain c)"
proof -
  consider "t = MYSQL_TYPE_TINY" | "t = MYSQL_TYPE_SHORT" | "t = MYSQL_TYPE_LONG" | "t = MYSQL_TYPE_LONGLONG"
    using assms by (cases t) (simp_all add: cxx_integer_def)
  then have "\<exists>e. find (matches t uns nul) (types pl) = Some e \<and> c_type e = (if nul then Nullable c else Plain c)"
    using assms
    by cases (cases uns; cases nul; simp only: search_simps cxx_integer_def field_type.case option.inject;
      simp)+
  then show ?thesis using found_entry by metis
qed

lemma odd_entries:
  "type_of pl MYSQL_TYPE_TIMESTAMP False True = 55"
  "c_type (types pl ! type_of pl MYSQL_TYPE_INT24 True False) = Plain T_int"
proof -
  have "find (matches MYSQL_TYPE_TIMESTAMP False True) (types pl) = None"
    by (simp only: search_simps)
  then have "first_index (matches MYSQL_TYPE_TIMESTAMP False True) (types pl) = None"
    by (simp add: first_index_None find_None_iff)
  then show "type_of pl MYSQL_TYPE_TIMESTAMP False True = 55"
    using string_entries [of pl] by (simp add: type_of_def)
  have "find (matches MYSQL_TYPE_INT24 True False) (types pl) =
      Some (sql_type_info ''MEDIUMINT NOT NULL'' (Plain T_int) MYSQL_TYPE_INT24 tf_unsigned)"
    by (simp only: search_simps)
  then show "c_type (types pl ! type_of pl MYSQL_TYPE_INT24 True False) = Plain T_int"
    using found_entry by (metis sql_type_info.sel(2))
qed

section \<open>Properties\<close>

text \<open>C38: the SQL type found for a column is the first entry of the table that has the wanted base type, is
  flagged unsigned if that is asked and nullable if that is asked; when there is no such entry it is
  number 27, CHAR NOT NULL, or number 55, CHAR NULL. For the integer columns of one, two, four and
  eight bytes this gives exactly the C++ integer of the column's width and sign, wrapped in Null when
  the column can be null. It goes wrong for a TIMESTAMP that can be null, whose entry lacks the flag
  and which becomes CHAR NULL, and for an unsigned MEDIUMINT that cannot be null, which becomes the
  signed int of the entry before its own.\<close>
theorem type_of_correct:
  "(if \<exists>i < length (types pl). base (types pl ! i) = t \<and> (uns \<longrightarrow> is_unsigned (types pl ! i)) \<and>
        (nul \<longrightarrow> is_null_type (types pl ! i))
    then type_of pl t uns nul < length (types pl) \<and> base (types pl ! type_of pl t uns nul) = t \<and>
      (uns \<longrightarrow> is_unsigned (types pl ! type_of pl t uns nul)) \<and>
      (nul \<longrightarrow> is_null_type (types pl ! type_of pl t uns nul)) \<and>
      (\<forall>j < type_of pl t uns nul. base (types pl ! j) = t \<longrightarrow>
        uns \<and> \<not> is_unsigned (types pl ! j) \<or> nul \<and> \<not> is_null_type (types pl ! j))
    else type_of pl t uns nul = (if nul then 55 else 27)) \<and>
   (case cxx_integer pl t uns of None \<Rightarrow> True
    | Some c \<Rightarrow> c_type (types pl ! type_of pl t uns nul) = (if nul then Nullable c else Plain c)) \<and>
   type_of pl MYSQL_TYPE_TIMESTAMP False True = 55 \<and>
   c_type (types pl ! type_of pl MYSQL_TYPE_INT24 True False) = Plain T_int"
proof (intro conjI)
  let ?fits = "\<lambda>i. base (types pl ! i) = t \<and> (uns \<longrightarrow> is_unsigned (types pl ! i)) \<and> (nul \<longrightarrow> is_null_type (types pl ! i))"
  have fits: "matches t uns nul (types pl ! i) \<longleftrightarrow> ?fits i" for i by (auto simp: matches_def)
  show "if \<exists>i < length (types pl). ?fits i
    then type_of pl t uns nul < length (types pl) \<and> base (types pl ! type_of pl t uns nul) = t \<and>
      (uns \<longrightarrow> is_unsigned (types pl ! type_of pl t uns nul)) \<and>
      (nul \<longrightarrow> is_null_type (types pl ! type_of pl t uns nul)) \<and>
      (\<forall>j < type_of pl t uns nul. base (types pl ! j) = t \<longrightarrow>
        uns \<and> \<not> is_unsigned (types pl ! j) \<or> nul \<and> \<not> is_null_type (types pl ! j))
    else type_of pl t uns nul = (if nul then 55 else 27)"
  proof (cases "first_index (matches t uns nul) (types pl)")
    case (Some i)
    then have "i < length (types pl)" "?fits i" "\<forall>j < i. \<not> ?fits j"
      using first_index_Some [OF Some] first_index_before [OF Some] by (simp_all add: fits)
    then show ?thesis using Some by (auto simp: type_of_def)
  next
    case None
    then have "\<not> (\<exists>i < length (types pl). ?fits i)"
      by (auto simp: first_index_None fits [symmetric])
    moreover have "type_of pl t uns nul = (if nul then 55 else 27)"
      using None string_entries [of pl] by (cases nul) (simp_all add: type_of_def)
    ultimately show ?thesis by (simp only: if_False)
  qed
  show "case cxx_integer pl t uns of None \<Rightarrow> True
    | Some c \<Rightarrow> c_type (types pl ! type_of pl t uns nul) = (if nul then Nullable c else Plain c)"
    by (simp add: integer_entries split: option.split)
qed (simp_all only: odd_entries)

theorem type_of_correct_witness:
  "c_type (types \<lparr>int64_is_long = True, mysql_version = 50600\<rparr> !
     type_of \<lparr>int64_is_long = True, mysql_version = 50600\<rparr> MYSQL_TYPE_LONGLONG True True) = Nullable T_ulong"
  using type_of_correct [of "\<lparr>int64_is_long = True, mysql_version = 50600\<rparr>" MYSQL_TYPE_LONGLONG True True]
  by (simp add: cxx_integer_def uint64_t_def)

lemma of_char_0: "of_char x = (0 :: nat) \<longleftrightarrow> x = CHR 0x00"
  using inj_eq [OF inj_of_char, of x "CHR 0x00"] by simp

lemma strncmp_eq_0:
  assumes "CHR 0x00 \<notin> set a"
  shows "strncmp (length a) a b = 0 \<longleftrightarrow> take (length a) b = a"
  using assms
proof (induction a arbitrary: b)
  case (Cons x xs)
  show ?case
  proof (cases b)
    case Nil
    then show ?thesis using Cons.prems by (auto simp: Let_def of_char_0)
  next
    case (Cons y ys)
    have "int (of_char x) - int (of_char y) = 0 \<longleftrightarrow> x = y" by (auto simp: inj_eq [OF inj_of_char])
    then show ?thesis using Cons.IH [of ys] Cons.prems Cons by (auto simp: Let_def)
  qed
qed simp

text \<open>Comparing a value with a text looks only at as many characters as the value has, so a
  value without zero bytes compares as equal exactly to the texts that begin with it.\<close>
theorem compare_is_prefix_test:
  assumes "ad_buffer a = Some b" and "CHR 0x00 \<notin> set (buf_data b)"
  shows "sta_compare_string a s = Inr 0 \<longleftrightarrow> (\<exists>rest. s = buf_data b @ rest)"
proof -
  have "take (length (buf_data b)) s = buf_data b \<longleftrightarrow> (\<exists>rest. s = buf_data b @ rest)"
    by (metis append_eq_conv_conj append_take_drop_id)
  then show ?thesis
    using assms strncmp_eq_0 [OF assms(2)]
    by (simp add: sta_compare_string_def sta_compare_at_def sta_data_def)
qed

theorem compare_is_prefix_test_witness:
  "sta_compare_string (adapter_of ''ab'' 27 False False) ''abc'' = Inr 0"
  using compare_is_prefix_test [of "adapter_of ''ab'' 27 False False"
      "\<lparr>buf_data = ''ab'', buf_type = 27, buf_null = False\<rparr>" "''abc''"]
  by (simp add: adapter_of_def)

end
