(* ===== verification/Sql_Template.thy ===== *)
theory Sql_Template
  imports Sql_Types Effects
begin

text \<open>
  Template queries of MySQL++ (\<open>mysqlpp/lib/query.cpp\<close>, \<open>qparms.cpp\<close>, \<open>qparms.h\<close>): a
  query text with parameters is taken apart by \<open>parse\<close>, and \<open>proc\<close> puts it together
  again with values, quoted and escaped as the parameter asks. The escape function and the
  success of a statement are the C library's; they are in the record \<open>sql_env\<close>.
\<close>

section \<open>Queries\<close>

datatype db_call = Db_Query string | Db_Store | Db_Use | Db_Next

datatype nr_code = nr_more_results | nr_last_result | nr_error | nr_not_supported

text \<open>\<open>q_sent\<close> is the history of the query's connection: the calls made on it so far.\<close>

record parse_elem =
  before :: string
  opt_char :: char
  num :: int

record query =
  q_sbuffer :: string
  q_elems :: "parse_elem list"
  q_names :: "string list"
  q_nums :: "string \<rightharpoonup> int"
  q_defaults :: "adapter list"
  q_processing :: bool
  q_copacetic :: bool
  q_throw :: bool
  q_sent :: "db_call list"

text \<open>
  The answers of the library to the last call of a history: whether the statement was accepted,
  whether there is a result set, the error number, and what \<open>mysql_next_result\<close> returns.
\<close>

record sql_env =
  e_platform :: platform
  e_escape :: "string \<Rightarrow> string"
  e_ok :: "db_call list \<Rightarrow> bool"
  e_result :: "db_call list \<Rightarrow> bool"
  e_errnum :: "db_call list \<Rightarrow> nat"
  e_next :: "db_call list \<Rightarrow> int"
  e_error :: string

type_synonym 'a qry = "(query, 'a) st"

definition Query_new :: "bool \<Rightarrow> string option \<Rightarrow> query" where
  "Query_new te qstr = \<lparr>q_sbuffer = (case qstr of None \<Rightarrow> [] | Some s \<Rightarrow> s), q_elems = [],
     q_names = [], q_nums = Map.empty, q_defaults = [], q_processing = False,
     q_copacetic = True, q_throw = te, q_sent = []\<rparr>"

text \<open>
  Assigning a query appends the other one's text to the text there is. Values lose the mark that
  they were processed when they are copied.
\<close>

definition Query_assign :: "query \<Rightarrow> query \<Rightarrow> query" where
  "Query_assign this rhs = \<lparr>q_sbuffer = q_sbuffer this @ q_sbuffer rhs, q_elems = q_elems rhs,
     q_names = q_names rhs, q_nums = q_nums rhs, q_defaults = map STA_copy (q_defaults rhs),
     q_processing = q_processing rhs, q_copacetic = q_copacetic rhs, q_throw = q_throw rhs,
     q_sent = q_sent rhs\<rparr>"

definition Query_copy :: "query \<Rightarrow> query" where
  "Query_copy q = Query_assign (Query_new (q_throw q) None) q"

definition reset :: "query \<Rightarrow> query" where
  "reset q = q\<lparr>q_sbuffer := [], q_elems := [], q_defaults := []\<rparr>"

section \<open>Parsing\<close>

definition is_alnum :: "char \<Rightarrow> bool" where
  "is_alnum c \<longleftrightarrow> is_digit c \<or> (of_char c :: nat) \<in> {65..90} \<or> (of_char c :: nat) \<in> {97..122}"

definition name_char :: "char \<Rightarrow> bool" where
  "name_char c \<longleftrightarrow> is_alnum c \<or> c = CHR ''_''"

text \<open>At most three digits; their value is stored in a \<open>signed char\<close>.\<close>

definition take_number :: "string \<Rightarrow> string \<times> string" where
  "take_number s = (let ds = takeWhile is_digit (take 3 s) in (ds, drop (length ds) s))"

definition param_number :: "string \<Rightarrow> int" where
  "param_number ds = sint (of_nat (decimal ds) :: 8 word)"

definition take_option :: "string \<Rightarrow> char \<times> string" where
  "take_option s = (case s of c # s' \<Rightarrow> if c = CHR ''q'' \<or> c = CHR ''Q'' then (c, s') else (CHR '' '', s)
     | [] \<Rightarrow> (CHR '' '', []))"

text \<open>\<open>None\<close> when no colon follows.\<close>

definition take_name :: "string \<Rightarrow> string option \<times> string" where
  "take_name s = (case s of
       c # s' \<Rightarrow> if c = CHR '':'' then
           let name = takeWhile name_char s'; r = dropWhile name_char s' in
           (Some name, if r \<noteq> [] \<and> hd r = CHR '':'' then tl r else r)
         else (None, s)
     | [] \<Rightarrow> (None, []))"

text \<open>The two maps of names; a negative number indexes the vector far out of its bounds.\<close>

definition name_param :: "int \<Rightarrow> string \<Rightarrow> query \<Rightarrow> query res" where
  "name_param n name q =
     (let names = (if sint (of_nat (length (q_names q)) :: 16 word) \<le> n
                   then q_names q @ replicate (nat (n + 1) - length (q_names q)) []
                   else q_names q) in
      if n < 0 \<or> length names \<le> nat n then Inl (UB OutOfBounds)
      else Inr (q\<lparr>q_names := names[nat n := name], q_nums := (q_nums q)(name \<mapsto> n)\<rparr>))"

lemma take_option_length: "length (snd (take_option s)) \<le> length s"
  by (auto simp: take_option_def split: list.split)

lemma take_name_length: "length (snd (take_name s)) \<le> length s"
proof -
  have "length (dropWhile name_char t) \<le> length t" for t by (rule length_dropWhile_le)
  then show ?thesis
    by (auto simp: take_name_def Let_def split: list.split) (meson diff_le_self le_SucI order_trans)+
qed

function parse_loop :: "string \<Rightarrow> string \<Rightarrow> query \<Rightarrow> query res" where
  "parse_loop [] str q =
     Inr (q\<lparr>q_elems := q_elems q @ [\<lparr>before = str, opt_char = CHR '' '', num = - 1\<rparr>]\<rparr>)"
| "parse_loop (c # s) str q =
     (if c \<noteq> CHR ''%'' then parse_loop s (str @ [c]) q
      else if s \<noteq> [] \<and> hd s = CHR ''%'' then parse_loop (tl s) (str @ ''%'') q
      else if s \<noteq> [] \<and> is_digit (hd s) then
        let (ds, r) = take_number s; n = param_number ds; (opt, r') = take_option r;
            (name, r'') = take_name r' in
        rbind (case name of None \<Rightarrow> Inr q | Some nm \<Rightarrow> name_param n nm q) (\<lambda>q.
          parse_loop r'' [] (q\<lparr>q_elems := q_elems q @ [\<lparr>before = str, opt_char = opt, num = n\<rparr>]\<rparr>))
      else parse_loop s (str @ ''%'') q)"
  by pat_completeness auto

termination
proof (relation "measure (\<lambda>(s, str, q). length s)", goal_cases)
  case (4 c s str q x ds r n y opt r' z name r'' qa)
  have "length r \<le> length s" using 4 by (auto simp: take_number_def Let_def)
  moreover have "length r' \<le> length r" using take_option_length [of r] 4 by (metis snd_conv)
  moreover have "length r'' \<le> length r'" using take_name_length [of r'] 4 by (metis snd_conv)
  ultimately show ?case by simp
qed auto

declare parse_loop.simps [simp del]

text \<open>The text ends at its first zero byte; the elements are added to those there are.\<close>

definition parse :: "query \<Rightarrow> query res" where
  "parse q = parse_loop (takeWhile (\<lambda>c. c \<noteq> CHR 0x00) (q_sbuffer q)) [] q"

section \<open>Parameters\<close>

text \<open>
  The argument of \<open>proc\<close>: the query's own defaults, or a list of the caller's, which is bound
  when it was made with a parent query.
\<close>

datatype parms = Defaults | Given bool "adapter list"

text \<open>\<open>SQLQueryParms << value\<close> stores a copy.\<close>

definition push_param :: "adapter \<Rightarrow> adapter list \<Rightarrow> adapter list" where
  "push_param a l = l @ [STA_copy a]"

definition set_params :: "adapter list \<Rightarrow> adapter list" where
  "set_params as = fold push_param as []"

text \<open>The index operator grows the list with empty texts.\<close>

definition index_param :: "platform \<Rightarrow> nat \<Rightarrow> adapter list \<Rightarrow> adapter \<times> adapter list" where
  "index_param pl n l =
     (let l' = (if length l \<le> n then l @ replicate (Suc n - length l) (STA_cstr pl [] False) else l)
      in (l' ! n, l'))"

definition plus_params :: "adapter list \<Rightarrow> adapter list \<Rightarrow> adapter list" where
  "plus_params this other = (if length other \<le> length this then map STA_copy this
     else map STA_copy this @ map STA_copy (drop (length this) other))"

text \<open>\<open>pprepare\<close>: the text to insert, and the parameter, which is replaced when it is bound.\<close>

definition quoted :: "bool \<Rightarrow> string \<Rightarrow> string" where
  "quoted b s = (if b then [CHR 0x27] @ s @ [CHR 0x27] else s)"

definition pprepare :: "sql_env \<Rightarrow> char \<Rightarrow> adapter \<Rightarrow> bool \<Rightarrow> string \<times> adapter" where
  "pprepare E opt S replace =
     (let pl = e_platform E; q = sta_quote_q pl S in
      if ad_processed S then (sta_data S, S)
      else if opt = CHR ''q'' then
        let temp = quoted q (if sta_escape_q pl S then e_escape E (sta_data S) else sta_data S) in
        (temp, if replace then set_processed (STA_assign S (STA_string pl temp False)) else S)
      else if opt = CHR ''Q'' \<and> q then
        let temp = quoted True (sta_data S) in
        (temp, if replace then set_processed (STA_assign S (STA_string pl temp False)) else S)
      else (sta_data S, if replace then set_processed S else S))"

definition insertion :: "sql_env \<Rightarrow> char \<Rightarrow> adapter \<Rightarrow> bool \<Rightarrow> (string \<times> adapter) res" where
  "insertion E opt S replace =
     rbind (sta_is_null S) (\<lambda>null. Inr (if null then (''NULL'', S) else pprepare E opt S replace))"

text \<open>
  One parameter, and the loop over the elements. When a parameter is missing, what was written
  so far and the word ERROR stay in the buffer.
\<close>

definition insert_text :: "string \<Rightarrow> unit qry" where
  "insert_text s = modify (\<lambda>q. q\<lparr>q_sbuffer := q_sbuffer q @ s\<rparr>)"

definition default_param :: "sql_env \<Rightarrow> char \<Rightarrow> nat \<Rightarrow> unit qry" where
  "default_param E opt n = bind (gets q_defaults) (\<lambda>d.
     if n < length d then
       bind (lift (insertion E opt (d ! n) True)) (\<lambda>(t, S).
       bind (modify (\<lambda>q. q\<lparr>q_defaults := d[n := S]\<rparr>)) (\<lambda>_. insert_text t))
     else bind (insert_text '' ERROR'') (\<lambda>_.
       fault (Throw (BadParamCount ''Not enough parameters to fill the template.''))))"

definition proc_param :: "sql_env \<Rightarrow> char \<Rightarrow> nat \<Rightarrow> parms \<Rightarrow> parms qry" where
  "proc_param E opt n p = (case p of
       Given bound l \<Rightarrow>
         if n < length l then
           bind (lift (insertion E opt (l ! n) bound)) (\<lambda>(t, S).
           bind (insert_text t) (\<lambda>_. ret (Given bound (l[n := S]))))
         else bind (default_param E opt n) (\<lambda>_. ret p)
     | Defaults \<Rightarrow> bind (default_param E opt n) (\<lambda>_. ret p))"

fun proc_elems :: "sql_env \<Rightarrow> parse_elem list \<Rightarrow> parms \<Rightarrow> parms qry" where
  "proc_elems E [] p = ret p"
| "proc_elems E (e # es) p = bind (insert_text (before e)) (\<lambda>_.
     if 0 \<le> num e then bind (proc_param E (opt_char e) (nat (num e)) p) (proc_elems E es)
     else proc_elems E es p)"

definition proc :: "sql_env \<Rightarrow> parms \<Rightarrow> parms qry" where
  "proc E p = bind (modify (\<lambda>q. q\<lparr>q_sbuffer := []\<rparr>)) (\<lambda>_.
     bind (gets q_elems) (\<lambda>es. proc_elems E es p))"

definition str_of_query :: "sql_env \<Rightarrow> parms \<Rightarrow> string qry" where
  "str_of_query E p = bind (gets q_elems) (\<lambda>es.
     bind (if es \<noteq> [] then bind (proc E p) (\<lambda>_. ret ()) else ret ()) (\<lambda>_. gets q_sbuffer))"

section \<open>Execution\<close>

definition driver_call :: "(db_call list \<Rightarrow> 'a) \<Rightarrow> db_call \<Rightarrow> 'a qry" where
  "driver_call answer c = bind (modify (\<lambda>q. q\<lparr>q_sent := q_sent q @ [c]\<rparr>)) (\<lambda>_. gets (\<lambda>q. answer (q_sent q)))"

text \<open>\<open>driver()->execute\<close> with a complete statement, and what every caller does with the answer.\<close>

definition run_statement :: "sql_env \<Rightarrow> string \<Rightarrow> bool qry" where
  "run_statement E s = bind (driver_call (e_ok E) (Db_Query s)) (\<lambda>ok.
     bind (modify (\<lambda>q. q\<lparr>q_copacetic := ok\<rparr>)) (\<lambda>_. ret ok))"

definition after_success :: "unit qry" where
  "after_success = modify (\<lambda>q. if q_elems q = [] then reset q else q)"

definition complain :: "sql_env \<Rightarrow> 'a \<Rightarrow> 'a qry" where
  "complain E x = bind (gets q_throw) (\<lambda>t. if t then fault (Throw (BadQuery (e_error E))) else ret x)"

definition exec :: "sql_env \<Rightarrow> string \<Rightarrow> bool qry" where
  "exec E s = bind (run_statement E s) (\<lambda>ok.
     if ok then bind after_success (\<lambda>_. ret True) else complain E False)"

definition exec_default :: "sql_env \<Rightarrow> bool qry" where
  "exec_default E = bind (str_of_query E Defaults) (exec E)"

text \<open>\<open>AutoFlag\<close>: the flag is set for a scope and cleared at its end, thrown out of or not.\<close>

definition with_flag :: "'a qry \<Rightarrow> 'a qry" where
  "with_flag m q = at_exit m (\<lambda>q. q\<lparr>q_processing := False\<rparr>) (q\<lparr>q_processing := True\<rparr>)"

text \<open>
  The statement itself: what \<open>execute\<close>, \<open>store\<close> and \<open>use\<close> do with a text they do not take for a
  parameter. The answer tells whether the statement was carried out, or whether there is a result
  set; a statement without one is not an error.
\<close>

definition execute_statement :: "sql_env \<Rightarrow> string \<Rightarrow> bool qry" where
  "execute_statement E s = bind (run_statement E s) (\<lambda>ok.
     if ok then bind after_success (\<lambda>_. ret True) else complain E False)"

definition result_statement :: "sql_env \<Rightarrow> db_call \<Rightarrow> string \<Rightarrow> bool qry" where
  "result_statement E fetch s = bind (run_statement E s) (\<lambda>ok.
     bind (if ok then driver_call (e_result E) fetch else ret False) (\<lambda>res.
     if res then bind after_success (\<lambda>_. ret True)
     else bind (gets (\<lambda>q. e_errnum E (q_sent q) = 0)) (\<lambda>good.
       bind (modify (\<lambda>q. q\<lparr>q_copacetic := good\<rparr>)) (\<lambda>_.
       if good then bind after_success (\<lambda>_. ret False) else complain E False))))"

definition store_statement :: "sql_env \<Rightarrow> string \<Rightarrow> bool qry" where
  "store_statement E = result_statement E Db_Store"

definition use_statement :: "sql_env \<Rightarrow> string \<Rightarrow> bool qry" where
  "use_statement E = result_statement E Db_Use"

text \<open>
  The entries of the three: with parameters, with one value, and with a text. The flag is set
  while the finished statement is passed on, so that it is not taken for a parameter again. A
  template with one parameter has two elements; there a text and its length become two
  parameters.
\<close>

definition lone_parameter :: "query \<Rightarrow> bool" where
  "lone_parameter q \<longleftrightarrow> length (q_elems q) = 2 \<and> \<not> q_processing q"

definition with_parms :: "sql_env \<Rightarrow> (string \<Rightarrow> bool qry) \<Rightarrow> parms \<Rightarrow> bool qry" where
  "with_parms E final p = with_flag (bind (str_of_query E p) final)"

definition with_text :: "sql_env \<Rightarrow> (string \<Rightarrow> bool qry) \<Rightarrow> string \<Rightarrow> bool qry" where
  "with_text E final s = bind (gets lone_parameter) (\<lambda>lone.
     if lone then with_flag (bind (lift (STA_ulong (e_platform E) (of_nat (length s)))) (\<lambda>len.
       with_parms E final (Given False (set_params [STA_cstr (e_platform E) s False, len]))))
     else final s)"

definition with_value :: "sql_env \<Rightarrow> (string \<Rightarrow> bool qry) \<Rightarrow> adapter \<Rightarrow> bool qry" where
  "with_value E final s = bind (gets lone_parameter) (\<lambda>lone.
     if lone then with_flag (with_parms E final (Given False (push_param s [])))
     else with_text E final (sta_data s))"

definition execute_default :: "sql_env \<Rightarrow> bool qry" where
  "execute_default E = with_parms E (execute_statement E) Defaults"

definition execute_parms :: "sql_env \<Rightarrow> parms \<Rightarrow> bool qry" where
  "execute_parms E = with_parms E (execute_statement E)"

definition execute_value :: "sql_env \<Rightarrow> adapter \<Rightarrow> bool qry" where
  "execute_value E = with_value E (execute_statement E)"

definition execute_text :: "sql_env \<Rightarrow> string \<Rightarrow> bool qry" where
  "execute_text E = with_text E (execute_statement E)"

definition store_default :: "sql_env \<Rightarrow> bool qry" where
  "store_default E = with_parms E (store_statement E) Defaults"

definition store_parms :: "sql_env \<Rightarrow> parms \<Rightarrow> bool qry" where
  "store_parms E = with_parms E (store_statement E)"

definition store_value :: "sql_env \<Rightarrow> adapter \<Rightarrow> bool qry" where
  "store_value E = with_value E (store_statement E)"

definition store_text :: "sql_env \<Rightarrow> string \<Rightarrow> bool qry" where
  "store_text E = with_text E (store_statement E)"

definition use_default :: "sql_env \<Rightarrow> bool qry" where
  "use_default E = with_parms E (use_statement E) Defaults"

definition use_parms :: "sql_env \<Rightarrow> parms \<Rightarrow> bool qry" where
  "use_parms E = with_parms E (use_statement E)"

definition use_value :: "sql_env \<Rightarrow> adapter \<Rightarrow> bool qry" where
  "use_value E = with_value E (use_statement E)"

definition use_text :: "sql_env \<Rightarrow> string \<Rightarrow> bool qry" where
  "use_text E = with_text E (use_statement E)"

text \<open>The next result set of a statement that has several.\<close>

definition next_result :: "sql_env \<Rightarrow> nr_code qry" where
  "next_result E = (if 41000 < mysql_version (e_platform E)
     then driver_call (\<lambda>h. if e_next E h = 0 then nr_more_results
       else if e_next E h = - 1 then nr_last_result else nr_error) Db_Next
     else ret nr_not_supported)"

definition store_next :: "sql_env \<Rightarrow> bool qry" where
  "store_next E = (if 41000 < mysql_version (e_platform E) then
     bind (next_result E) (\<lambda>rc.
       if rc = nr_more_results then bind (driver_call (e_result E) Db_Store) (\<lambda>res.
         if res then ret True
         else bind (gets (\<lambda>q. e_errnum E (q_sent q) \<noteq> 0)) (\<lambda>bad. if bad then complain E False else ret False))
       else bind (gets (\<lambda>q. rc = nr_error \<or> e_errnum E (q_sent q) \<noteq> 0)) (\<lambda>bad.
         if bad then complain E False else ret False))
     else store_default E)"

text \<open>
  \<open>Connection::query(text)\<close> followed by a use of the new query: the query has the exception
  setting of its connection, whose history goes on.
\<close>

definition query_on :: "bool \<Rightarrow> db_call list \<Rightarrow> string \<Rightarrow> 'a qry \<Rightarrow> 'a res \<times> db_call list" where
  "query_on te h text m = (case m ((Query_new te (Some text))\<lparr>q_sent := h\<rparr>) of (r, q) \<Rightarrow> (r, q_sent q))"

section \<open>Templates and their text\<close>

text \<open>A parameter of a template: the text before it, its option, its number and its name.\<close>

datatype piece = Piece (p_before: string) (p_opt: char) (p_num: nat) (p_name: string)

definition digit :: "nat \<Rightarrow> char" where
  "digit n = char_of (48 + n)"

definition three_digits :: "nat \<Rightarrow> string" where
  "three_digits n = [digit (n div 100), digit (n div 10 mod 10), digit (n mod 10)]"

definition escape_percent :: "string \<Rightarrow> string" where
  "escape_percent s = concat (map (\<lambda>c. if c = CHR ''%'' then ''%%'' else [c]) s)"

definition render_piece :: "piece \<Rightarrow> string" where
  "render_piece p = escape_percent (p_before p) @ ''%'' @ three_digits (p_num p) @
     (if p_opt p = CHR '' '' then [] else [p_opt p]) @ '':'' @ p_name p @ '':''"

definition render :: "piece list \<Rightarrow> string \<Rightarrow> string" where
  "render ps tail = concat (map render_piece ps) @ escape_percent tail"

definition piece_ok :: "piece \<Rightarrow> bool" where
  "piece_ok p \<longleftrightarrow> p_num p \<le> 127 \<and> p_opt p \<in> {CHR '' '', CHR ''q'', CHR ''Q''} \<and>
     list_all name_char (p_name p) \<and> CHR 0x00 \<notin> set (p_before p)"

definition elem_of :: "piece \<Rightarrow> parse_elem" where
  "elem_of p = \<lparr>before = p_before p, opt_char = p_opt p, num = int (p_num p)\<rparr>"

text \<open>What a template with given values should read.\<close>

definition expand_piece :: "sql_env \<Rightarrow> adapter list \<Rightarrow> piece \<Rightarrow> string" where
  "expand_piece E l p = (let S = l ! p_num p; pl = e_platform E; q = sta_quote_q pl S in
     p_before p @
     (if sta_is_null S = Inr True then ''NULL''
      else if ad_processed S then sta_data S
      else if p_opt p = CHR ''q'' then
        quoted q (if sta_escape_q pl S then e_escape E (sta_data S) else sta_data S)
      else if p_opt p = CHR ''Q'' then quoted q (sta_data S)
      else sta_data S))"

definition expand :: "sql_env \<Rightarrow> adapter list \<Rightarrow> piece list \<Rightarrow> string \<Rightarrow> string" where
  "expand E l ps tail = concat (map (expand_piece E l) ps) @ tail"

section \<open>Parsing a rendered template\<close>

lemma parse_char: "c \<noteq> CHR ''%'' \<Longrightarrow> parse_loop (c # s) str q = parse_loop s (str @ [c]) q"
  by (subst parse_loop.simps) simp

lemma parse_percent: "parse_loop (''%%'' @ s) str q = parse_loop s (str @ ''%'') q"
  by (subst append.simps, subst parse_loop.simps) simp

lemma parse_escaped: "parse_loop (escape_percent b @ s) str q = parse_loop s (str @ b) q"
proof (induction b arbitrary: str)
  case (Cons c b)
  then show ?case
    using parse_percent [of "escape_percent b @ s" str q] parse_char [of c "escape_percent b @ s" str q]
    by (auto simp: escape_percent_def)
qed (simp add: escape_percent_def)

lemma digit_facts:
  assumes "n < 10"
  shows "is_digit (digit n)" "digit_value (digit n) = n"
  using assms by (auto simp: is_digit_def digit_def digit_value_def of_char_of)

lemma three_digits_facts:
  assumes "n \<le> 999"
  shows "length (three_digits n) = 3" "list_all is_digit (three_digits n)" "decimal (three_digits n) = n"
proof -
  have "100 * (n div 100) + 10 * (n div 10 mod 10) + n mod 10 = n"
  proof -
    have "n div 100 = n div 10 div 10" by (simp add: div_mult2_eq [of n 10 10, symmetric])
    moreover have "10 * (n div 10) + n mod 10 = n" "10 * (n div 10 div 10) + n div 10 mod 10 = n div 10"
      by simp_all
    ultimately show ?thesis by linarith
  qed
  moreover have "n div 100 < 10" using assms by simp
  ultimately show "length (three_digits n) = 3" "list_all is_digit (three_digits n)"
    "decimal (three_digits n) = n"
    using digit_facts [of "n div 100"] digit_facts [of "n div 10 mod 10"] digit_facts [of "n mod 10"]
    by (auto simp: three_digits_def decimal_def)
qed

lemma take_number_three: "n \<le> 999 \<Longrightarrow> take_number (three_digits n @ s) = (three_digits n, s)"
  using three_digits_facts [of n] by (simp add: three_digits_def take_number_def Let_def)

lemma param_number_small: "n \<le> 127 \<Longrightarrow> param_number (three_digits n) = int n"
proof -
  assume n: "n \<le> 127"
  have "sint (word_of_nat n :: 8 word) = signed_take_bit 7 (int n)" by (simp add: signed_of_nat)
  also have "\<dots> = int n" using n by (intro signed_take_bit_int_eq_self) auto
  finally show ?thesis using n three_digits_facts [of n] by (simp add: param_number_def)
qed

lemma take_option_piece:
  assumes "c \<in> {CHR '' '', CHR ''q'', CHR ''Q''}"
  shows "take_option ((if c = CHR '' '' then [] else [c]) @ CHR '':'' # s) = (c, CHR '':'' # s)"
  using assms by (auto simp: take_option_def)

lemma not_name_char_colon: "\<not> name_char (CHR '':'')"
  by (simp add: name_char_def is_alnum_def is_digit_def)

lemma take_name_piece:
  "list_all name_char nm \<Longrightarrow> take_name (CHR '':'' # nm @ CHR '':'' # s) = (Some nm, s)"
  using not_name_char_colon by (simp add: take_name_def list_all_iff Let_def takeWhile_append2 dropWhile_append2)

lemma name_param_small:
  assumes "n \<le> 127" and "length (q_names q) \<le> 128"
  shows "\<exists>names. name_param (int n) nm q = Inr (q\<lparr>q_names := names, q_nums := (q_nums q)(nm \<mapsto> int n)\<rparr>) \<and>
    length names \<le> 128 \<and> n < length names \<and> names ! n = nm"
proof -
  have "sint (word_of_nat (length (q_names q)) :: 16 word) = int (length (q_names q))"
  proof -
    have "sint (word_of_nat (length (q_names q)) :: 16 word) = signed_take_bit 15 (int (length (q_names q)))"
      by (simp add: signed_of_nat)
    also have "\<dots> = int (length (q_names q))" using assms(2) by (intro signed_take_bit_int_eq_self) auto
    finally show ?thesis .
  qed
  then show ?thesis using assms by (auto simp: name_param_def Let_def nat_add_distrib)
qed

lemma parse_piece:
  assumes "piece_ok p" and "length (q_names q) \<le> 128"
  shows "\<exists>names. length names \<le> 128 \<and> parse_loop (render_piece p @ s) [] q =
    parse_loop s [] (q\<lparr>q_names := names, q_nums := (q_nums q)(p_name p \<mapsto> int (p_num p)),
      q_elems := q_elems q @ [elem_of p]\<rparr>)"
proof -
  let ?n = "p_num p" and ?o = "if p_opt p = CHR '' '' then [] else [p_opt p]"
  let ?t = "?o @ CHR '':'' # p_name p @ CHR '':'' # s"
  have ok: "?n \<le> 127" "?n \<le> 999" "p_opt p \<in> {CHR '' '', CHR ''q'', CHR ''Q''}" "list_all name_char (p_name p)"
    using assms(1) by (simp_all add: piece_ok_def)
  obtain names where names: "name_param (int ?n) (p_name p) q =
      Inr (q\<lparr>q_names := names, q_nums := (q_nums q)(p_name p \<mapsto> int ?n)\<rparr>)" "length names \<le> 128"
    using name_param_small [OF ok(1) assms(2)] by blast
  obtain a b c where abc: "three_digits ?n = [a, b, c]" "is_digit a"
    using three_digits_facts [OF ok(2)] by (simp add: three_digits_def)
  then have a: "a \<noteq> CHR ''%''" by (auto simp: is_digit_def)
  have num: "take_number (a # b # c # ?t) = (three_digits ?n, ?t)"
    using take_number_three [OF ok(2), of ?t] abc by simp
  have "parse_loop (render_piece p @ s) [] q = parse_loop (CHR ''%'' # a # b # c # ?t) (p_before p) q"
    using parse_escaped [of "p_before p" "CHR ''%'' # a # b # c # ?t" "[]" q] abc
    by (simp add: render_piece_def)
  also have "\<dots> = parse_loop s [] (q\<lparr>q_names := names, q_nums := (q_nums q)(p_name p \<mapsto> int ?n),
      q_elems := q_elems q @ [elem_of p]\<rparr>)"
    using a abc(2) num take_option_piece [OF ok(3)] take_name_piece [OF ok(4)] names
      param_number_small [OF ok(1)]
    by (subst parse_loop.simps) (simp add: elem_of_def Let_def)
  finally show ?thesis using names(2) by blast
qed

text \<open>What the parameters' names stand for; a later parameter of a name replaces an earlier one.\<close>

definition numbers_of :: "piece list \<Rightarrow> string \<rightharpoonup> int" where
  "numbers_of ps = map_of (rev (map (\<lambda>p. (p_name p, int (p_num p))) ps))"

lemma numbers_of_Cons: "m ++ numbers_of (p # ps) = m(p_name p \<mapsto> int (p_num p)) ++ numbers_of ps"
  by (simp add: numbers_of_def)

lemma parse_pieces:
  assumes "list_all piece_ok ps" and "length (q_names q) \<le> 128"
  shows "\<exists>names. parse_loop (concat (map render_piece ps) @ s) [] q =
    parse_loop s [] (q\<lparr>q_names := names, q_nums := q_nums q ++ numbers_of ps,
      q_elems := q_elems q @ map elem_of ps\<rparr>)"
  using assms
proof (induction ps arbitrary: q)
  case Nil
  then show ?case by (intro exI [of _ "q_names q"]) (simp add: numbers_of_def)
next
  case (Cons p ps)
  obtain names where step: "length names \<le> 128"
    "parse_loop (render_piece p @ concat (map render_piece ps) @ s) [] q =
     parse_loop (concat (map render_piece ps) @ s) []
       (q\<lparr>q_names := names, q_nums := (q_nums q)(p_name p \<mapsto> int (p_num p)),
         q_elems := q_elems q @ [elem_of p]\<rparr>)"
    using parse_piece [of p q "concat (map render_piece ps) @ s"] Cons.prems by auto
  have merge: "q_nums q ++ numbers_of (p # ps) = (q_nums q)(p_name p \<mapsto> int (p_num p)) ++ numbers_of ps"
    by (rule numbers_of_Cons)
  show ?case
    using Cons.IH [of "q\<lparr>q_names := names, q_nums := (q_nums q)(p_name p \<mapsto> int (p_num p)),
        q_elems := q_elems q @ [elem_of p]\<rparr>"] Cons.prems step unfolding merge
    by (simp del: fun_upd_apply)
qed

definition last_elem :: "string \<Rightarrow> parse_elem" where
  "last_elem tail = \<lparr>before = tail, opt_char = CHR '' '', num = - 1\<rparr>"

lemma parse_rendered:
  assumes "list_all piece_ok ps" and "length (q_names q) \<le> 128"
  shows "\<exists>names. parse_loop (render ps tail) [] q =
    Inr (q\<lparr>q_names := names, q_nums := q_nums q ++ numbers_of ps,
      q_elems := q_elems q @ map elem_of ps @ [last_elem tail]\<rparr>)"
proof -
  obtain names where "parse_loop (render ps tail) [] q = parse_loop (escape_percent tail @ []) []
      (q\<lparr>q_names := names, q_nums := q_nums q ++ numbers_of ps, q_elems := q_elems q @ map elem_of ps\<rparr>)"
    using parse_pieces [OF assms, of "escape_percent tail"] by (auto simp: render_def)
  then show ?thesis unfolding parse_escaped by (auto simp: parse_loop.simps last_elem_def)
qed

lemma no_nul:
  assumes "list_all piece_ok ps" and "CHR 0x00 \<notin> set tail"
  shows "CHR 0x00 \<notin> set (render ps tail)"
proof -
  have esc: "CHR 0x00 \<notin> set b \<Longrightarrow> CHR 0x00 \<notin> set (escape_percent b)" for b
    by (auto simp: escape_percent_def)
  have nm: "list_all name_char nm \<Longrightarrow> CHR 0x00 \<notin> set nm" for nm
    by (auto simp: list_all_iff name_char_def is_alnum_def is_digit_def)
  have digits: "n \<le> 127 \<Longrightarrow> CHR 0x00 \<notin> set (three_digits n)" for n
    using three_digits_facts [of n] by (auto simp: list_all_iff is_digit_def)
  have "CHR 0x00 \<notin> set (render_piece p)" if "piece_ok p" for p
    using that esc nm digits by (auto simp: render_piece_def piece_ok_def)
  then show ?thesis using assms esc by (auto simp: render_def list_all_iff)
qed

section \<open>Filling in the values\<close>

lemma insertion_given:
  assumes "ad_buffer S \<noteq> None"
  shows "\<exists>t. insertion E (p_opt p) S False = Inr (t, S) \<and>
    (S = l ! p_num p \<longrightarrow> p_opt p \<in> {CHR '' '', CHR ''q'', CHR ''Q''} \<longrightarrow> p_before p @ t = expand_piece E l p)"
  using assms
  by (auto simp: insertion_def sta_is_null_def pprepare_def expand_piece_def quoted_def Let_def)

lemma proc_pieces:
  assumes "\<And>p. p \<in> set ps \<Longrightarrow> piece_ok p \<and> p_num p < length l \<and> ad_buffer (l ! p_num p) \<noteq> None"
  shows "proc_elems E (map elem_of ps @ [last_elem tail]) (Given False l) q =
    (Inr (Given False l), q\<lparr>q_sbuffer := q_sbuffer q @ expand E l ps tail\<rparr>)"
  using assms
proof (induction ps arbitrary: q)
  case Nil
  show ?case by (simp add: last_elem_def insert_text_def expand_def)
next
  case (Cons p ps)
  have p: "piece_ok p" "p_num p < length l" "ad_buffer (l ! p_num p) \<noteq> None" using Cons.prems by auto
  obtain t where t: "insertion E (p_opt p) (l ! p_num p) False = Inr (t, l ! p_num p)"
    "p_before p @ t = expand_piece E l p"
    using insertion_given [OF p(3), of E p l] p(1) by (auto simp: piece_ok_def)
  have "proc_elems E (elem_of p # map elem_of ps @ [last_elem tail]) (Given False l) q =
      proc_elems E (map elem_of ps @ [last_elem tail]) (Given False l)
        (q\<lparr>q_sbuffer := q_sbuffer q @ expand_piece E l p\<rparr>)"
    using t p(2) by (simp add: elem_of_def insert_text_def proc_param_def bind_assoc)
  then show ?case using Cons.IH Cons.prems by (simp add: expand_def)
qed

lemma parse_text:
  assumes "list_all piece_ok ps" and "CHR 0x00 \<notin> set tail" and "length (q_names q) \<le> 128"
    and "q_sbuffer q = render ps tail"
  shows "\<exists>names. parse q = Inr (q\<lparr>q_names := names, q_nums := q_nums q ++ numbers_of ps,
      q_elems := q_elems q @ map elem_of ps @ [last_elem tail]\<rparr>)"
proof -
  have "takeWhile (\<lambda>c. c \<noteq> CHR 0x00) (render ps tail) = render ps tail"
    using no_nul [OF assms(1,2)] unfolding takeWhile_eq_all_conv by metis
  then show ?thesis using parse_rendered [OF assms(1,3), of tail] unfolding parse_def assms(4) by metis
qed

text \<open>A query that is not a template is one statement.\<close>

lemma str_of_plain: "q_elems q = [] \<Longrightarrow> str_of_query E p q = (Inr (q_sbuffer q), q)"
  by (simp add: str_of_query_def bind_def)

lemma execute_plain:
  assumes "q_elems q = []"
  shows "execute_default E q =
    (let h = q_sent q @ [Db_Query (q_sbuffer q)]; ok = e_ok E h;
         q' = q\<lparr>q_sent := h, q_copacetic := ok, q_processing := False\<rparr> in
     if ok then (Inr True, reset q')
     else (if q_throw q then Inl (Throw (BadQuery (e_error E))) else Inr False, q'))"
  using assms
  by (simp add: execute_default_def with_parms_def with_flag_def at_exit_def bind_Inr [OF str_of_plain] execute_statement_def
      run_statement_def driver_call_def after_success_def complain_def reset_def bind_assoc Let_def)

lemma query_on_execute:
  "query_on te h text (execute_default E) =
    (if e_ok E (h @ [Db_Query text]) then Inr True
     else if te then Inl (Throw (BadQuery (e_error E))) else Inr False, h @ [Db_Query text])"
  by (simp add: query_on_def execute_plain Query_new_def Let_def reset_def)

lemma query_on_append_execute:
  "query_on te h text (bind (insert_text t) (\<lambda>_. execute_default E)) =
    (if e_ok E (h @ [Db_Query (text @ t)]) then Inr True
     else if te then Inl (Throw (BadQuery (e_error E))) else Inr False, h @ [Db_Query (text @ t)])"
  by (simp add: query_on_def execute_plain Query_new_def Let_def reset_def insert_text_def)

section \<open>Properties\<close>

text \<open>C14: a template written out as text, with its percent signs doubled and its parameters as
  numbers of three digits with an option and a name, is parsed back into exactly these parts: one
  element per parameter with the text before it, its option and its number, and a last element
  with the text after the last parameter. Every parameter's name stands for its number.\<close>
theorem template_roundtrip:
  assumes "list_all piece_ok ps" and "CHR 0x00 \<notin> set tail"
  shows "\<exists>q. parse (Query_new te (Some (render ps tail))) = Inr q \<and>
    q_elems q = map elem_of ps @ [last_elem tail] \<and> q_nums q = numbers_of ps \<and>
    q_sbuffer q = render ps tail"
  using parse_text [OF assms, of "Query_new te (Some (render ps tail))"]
  by (auto simp: Query_new_def)

definition example_pieces :: "piece list" where
  "example_pieces = [Piece ''a%b '' CHR ''q'' 0 ''name'', Piece '','' CHR '' '' 12 ''n_2'']"

lemma example_pieces_ok: "list_all piece_ok example_pieces"
  by (simp add: example_pieces_def piece_ok_def name_char_def is_alnum_def is_digit_def)

theorem template_roundtrip_witness:
  "render example_pieces ''.'' = ''a%%b %000q:name:,%012:n_2:.'' \<and>
   (\<exists>q. parse (Query_new True (Some (render example_pieces ''.''))) = Inr q \<and>
     q_elems q = [\<lparr>before = ''a%b '', opt_char = CHR ''q'', num = 0\<rparr>,
       \<lparr>before = '','', opt_char = CHR '' '', num = 12\<rparr>, \<lparr>before = ''.'', opt_char = CHR '' '', num = - 1\<rparr>])"
proof
  show "render example_pieces ''.'' = ''a%%b %000q:name:,%012:n_2:.''"
    by code_simp
  show "\<exists>q. parse (Query_new True (Some (render example_pieces ''.''))) = Inr q \<and>
     q_elems q = [\<lparr>before = ''a%b '', opt_char = CHR ''q'', num = 0\<rparr>,
       \<lparr>before = '','', opt_char = CHR '' '', num = 12\<rparr>, \<lparr>before = ''.'', opt_char = CHR '' '', num = - 1\<rparr>]"
    using template_roundtrip [OF example_pieces_ok, of "''.''" True]
    by (auto simp: example_pieces_def elem_of_def last_elem_def)
qed

text \<open>C12: parsing a template and filling it in with the caller's values gives the same text as
  substituting directly: every parameter becomes the word NULL, or its value quoted and escaped as
  its option and its type ask, or the value as it is when it was processed before; the text
  between the parameters is unchanged, with single percent signs.\<close>
theorem template_expands:
  assumes "list_all piece_ok ps" and "CHR 0x00 \<notin> set tail"
    and "\<And>p. p \<in> set ps \<Longrightarrow> p_num p < length l \<and> ad_buffer (l ! p_num p) \<noteq> None"
  shows "\<exists>q. parse (Query_new te (Some (render ps tail))) = Inr q \<and>
    fst (str_of_query E (Given False l) q) = Inr (expand E l ps tail)"
proof -
  obtain q where q: "parse (Query_new te (Some (render ps tail))) = Inr q"
    "q_elems q = map elem_of ps @ [last_elem tail]"
    using parse_text [OF assms(1,2), of "Query_new te (Some (render ps tail))"]
    by (auto simp: Query_new_def)
  have "piece_ok p \<and> p_num p < length l \<and> ad_buffer (l ! p_num p) \<noteq> None" if "p \<in> set ps" for p
    using assms(1) assms(3) [OF that] that by (simp add: list_all_iff)
  then show ?thesis
    using q proc_pieces [of ps l E tail] by (auto simp: str_of_query_def proc_def bind_assoc bind_def)
qed

definition example_env :: sql_env where
  "example_env = \<lparr>e_platform = \<lparr>int64_is_long = True, mysql_version = 50000\<rparr>,
     e_escape = (\<lambda>s. concat (map (\<lambda>c. if c = CHR 0x27 then [CHR 0x5C, c] else [c]) s)),
     e_ok = (\<lambda>_. True), e_result = (\<lambda>_. True), e_errnum = (\<lambda>_. 0), e_next = (\<lambda>_. - 1), e_error = []\<rparr>"

definition example_text :: "string \<Rightarrow> adapter" where
  "example_text s = STA_string (e_platform example_env) s False"

lemma example_text_quoted:
  "take 5 s \<noteq> ''NOW()'' \<Longrightarrow> sta_quote_q (e_platform example_env) (example_text s)"
  "sta_escape_q (e_platform example_env) (example_text s)"
  by (simp_all add: example_text_def STA_string_def adapter_of_def sta_quote_q_def sta_escape_q_def
      buffer_quote_q_def string_type_quotes)

theorem template_expands_witness:
  "\<exists>q. parse (Query_new True (Some (render [Piece ''x='' CHR ''q'' 0 []] ''.''))) = Inr q \<and>
    fst (str_of_query example_env (Given False [example_text [CHR 0x27]]) q) =
      Inr (''x='' @ [CHR 0x27, CHR 0x5C, CHR 0x27, CHR 0x27] @ ''.'')"
proof -
  let ?l = "[example_text [CHR 0x27]]" and ?ps = "[Piece ''x='' CHR ''q'' 0 []]"
  have "expand example_env ?l ?ps ''.'' = ''x='' @ [CHR 0x27, CHR 0x5C, CHR 0x27, CHR 0x27] @ ''.''"
    using example_text_quoted [of "[CHR 0x27]"]
    by (simp add: expand_def expand_piece_def Let_def quoted_def example_text_def STA_string_def
        adapter_of_def sta_is_null_def sta_data_def) (simp add: example_env_def)
  moreover have "list_all piece_ok ?ps" by (simp add: piece_ok_def)
  ultimately show ?thesis
    using template_expands [of ?ps "''.''" ?l True example_env]
    by (simp add: example_text_def STA_string_def adapter_of_def)
qed

lemma insertion_replacing:
  assumes "sta_is_null S = Inr False"
  shows "\<exists>t S'. insertion E opt S False = Inr (t, S) \<and> insertion E opt S True = Inr (t, S') \<and>
    sta_is_null S' = Inr False \<and> ad_processed S' \<and> sta_data S' = t"
  using assms
  by (cases "ad_buffer S")
    (auto simp: insertion_def pprepare_def sta_is_null_def Let_def set_processed_def STA_assign_def
      STA_string_def adapter_of_def sta_data_def)

lemma insertion_processed:
  assumes "sta_is_null S = Inr False" and "ad_processed S"
  shows "insertion E opt S b = Inr (sta_data S, S)"
  using assms by (simp add: insertion_def pprepare_def)

text \<open>The first use of a default value in a template fixes its text for good. A default that is
  used first with the option \<open>o1\<close> is inserted in the same way at its second place, whatever option
  that place has; so a value used first plainly and then with the option to quote and escape it
  appears there as it is, without quotes.\<close>
theorem default_first_use_decides:
  assumes "q_elems q = [\<lparr>before = b1, opt_char = o1, num = int n\<rparr>,
      \<lparr>before = b2, opt_char = o2, num = int n\<rparr>, last_elem tail]"
    and "n < length (q_defaults q)" and "sta_is_null (q_defaults q ! n) = Inr False"
  shows "\<exists>t. insertion E o1 (q_defaults q ! n) False = Inr (t, q_defaults q ! n) \<and>
    fst (str_of_query E Defaults q) = Inr (b1 @ t @ b2 @ t @ tail)"
proof -
  obtain t S' where first: "insertion E o1 (q_defaults q ! n) False = Inr (t, q_defaults q ! n)"
    "insertion E o1 (q_defaults q ! n) True = Inr (t, S')"
    and S': "sta_is_null S' = Inr False" "ad_processed S'" "sta_data S' = t"
    using insertion_replacing [OF assms(3)] by blast
  have "insertion E o2 S' True = Inr (t, S')" using insertion_processed [OF S'(1,2)] S'(3) by simp
  then show ?thesis
    using first assms(1,2)
    by (simp add: str_of_query_def proc_def proc_param_def default_param_def insert_text_def
        last_elem_def bind_assoc)
qed

theorem default_first_use_decides_witness:
  "fst (str_of_query example_env Defaults
     ((Query_new True None)\<lparr>q_elems := [\<lparr>before = ''a='', opt_char = CHR '' '', num = 0\<rparr>,
        \<lparr>before = '' b='', opt_char = CHR ''q'', num = 0\<rparr>, last_elem []],
      q_defaults := [example_text ''v'']\<rparr>)) = Inr ''a=v b=v''"
  using default_first_use_decides [of "(Query_new True None)\<lparr>q_elems :=
        [\<lparr>before = ''a='', opt_char = CHR '' '', num = 0\<rparr>,
        \<lparr>before = '' b='', opt_char = CHR ''q'', num = 0\<rparr>, last_elem []],
      q_defaults := [example_text ''v'']\<rparr>" "''a=''" "CHR '' ''" 0 "'' b=''" "CHR ''q''" "[]" example_env]
  by (simp add: example_text_def STA_string_def adapter_of_def sta_is_null_def insertion_def pprepare_def
      sta_data_def Let_def)

lemma str_of_pieces:
  assumes "q_elems q = map elem_of ps @ [last_elem tail]"
    and "\<And>p. p \<in> set ps \<Longrightarrow> piece_ok p \<and> p_num p < length l \<and> ad_buffer (l ! p_num p) \<noteq> None"
  shows "str_of_query E (Given False l) q = (Inr (expand E l ps tail), q\<lparr>q_sbuffer := expand E l ps tail\<rparr>)"
  using assms(1) proc_pieces [OF assms(2), where E = E and tail = tail]
  by (simp add: str_of_query_def proc_def bind_assoc bind_def)

text \<open>Executing a template of one parameter with a value sends exactly one statement to the
  server, the template with the value in its place, and leaves the query ready for the next
  value: the elements stay, and the flag that stops the finished statement from being taken for a
  parameter is cleared again, whether the server accepts the statement, the call reports failure
  or an exception is thrown.\<close>
theorem lone_value_is_one_statement:
  assumes "piece_ok p" and "p_num p = 0" and "CHR 0x00 \<notin> set tail" and "ad_buffer s \<noteq> None"
  shows "\<exists>q. parse (Query_new te (Some (render [p] tail))) = Inr q \<and>
    (case execute_value E s q of (r, q') \<Rightarrow>
      q_sent q' = [Db_Query (expand E [STA_copy s] [p] tail)] \<and>
      r = (if e_ok E (q_sent q') then Inr True
           else if te then Inl (Throw (BadQuery (e_error E))) else Inr False) \<and>
      \<not> q_processing q' \<and> q_elems q' = q_elems q \<and> (q_copacetic q' \<longleftrightarrow> e_ok E (q_sent q')))"
proof -
  obtain q where q: "parse (Query_new te (Some (render [p] tail))) = Inr q"
    "q_elems q = map elem_of [p] @ [last_elem tail]" "\<not> q_processing q" "q_throw q = te" "q_sent q = []"
    using parse_text [of "[p]" tail "Query_new te (Some (render [p] tail))"] assms(1,3)
    by (auto simp: Query_new_def)
  have run: "str_of_query E (Given False [STA_copy s]) (q\<lparr>q_processing := True\<rparr>) =
      (Inr (expand E [STA_copy s] [p] tail),
       q\<lparr>q_processing := True, q_sbuffer := expand E [STA_copy s] [p] tail\<rparr>)"
    using str_of_pieces [of "q\<lparr>q_processing := True\<rparr>" "[p]" tail "[STA_copy s]" E] assms q(2)
    by (simp add: STA_copy_def)
  show ?thesis
    using q run
    by (simp add: execute_value_def with_value_def lone_parameter_def with_parms_def with_flag_def at_exit_def
        push_param_def execute_statement_def run_statement_def driver_call_def after_success_def
        complain_def bind_assoc bind_Inr)
qed

theorem lone_value_is_one_statement_witness:
  "\<exists>q. parse (Query_new True (Some ''x=%000q::'')) = Inr q \<and>
    q_sent (snd (execute_value example_env (example_text ''v'') q)) =
      [Db_Query (''x='' @ [CHR 0x27] @ ''v'' @ [CHR 0x27])]"
proof -
  let ?p = "Piece ''x='' CHR ''q'' 0 []"
  have render: "render [?p] [] = ''x=%000q::''" by code_simp
  have "STA_copy (example_text ''v'') = example_text ''v''"
    by (simp add: STA_copy_def example_text_def STA_string_def adapter_of_def)
  then have "expand example_env [STA_copy (example_text ''v'')] [?p] [] = ''x='' @ [CHR 0x27] @ ''v'' @ [CHR 0x27]"
    using example_text_quoted [of "''v''"]
    by (simp add: expand_def expand_piece_def Let_def quoted_def example_text_def STA_string_def
        adapter_of_def sta_is_null_def sta_data_def) (simp add: example_env_def)
  moreover have "piece_ok ?p" by (simp add: piece_ok_def)
  ultimately show ?thesis
    using lone_value_is_one_statement [of ?p "[]" "example_text ''v''" True example_env]
    by (auto simp: example_text_def STA_string_def adapter_of_def render case_prod_beta)
qed

text \<open>Storing the result of a statement has three outcomes. With a result set, that is
  returned; without one, but with no error number, the statement was one that returns no rows and
  the call succeeds with an empty result; otherwise the call fails, with an exception exactly when
  the query throws them. A query that is not a template is reset unless the call failed.\<close>
theorem store_outcome:
  "case store_statement E s q of (r, q') \<Rightarrow>
    let ok = e_ok E (q_sent q @ [Db_Query s]);
        h = q_sent q @ Db_Query s # (if ok then [Db_Store] else []);
        got = (ok \<and> e_result E h); fine = (got \<or> e_errnum E h = 0) in
    q_sent q' = h \<and> q_copacetic q' = fine \<and>
    r = (if got then Inr True else if fine then Inr False
         else if q_throw q then Inl (Throw (BadQuery (e_error E))) else Inr False) \<and>
    q_sbuffer q' = (if fine \<and> q_elems q = [] then [] else q_sbuffer q) \<and>
    q_defaults q' = (if fine \<and> q_elems q = [] then [] else q_defaults q)"
  by (simp add: store_statement_def result_statement_def run_statement_def driver_call_def
      after_success_def complain_def reset_def bind_assoc Let_def)

end
