(* ===== verification/Sql_DateTime.thy ===== *)
theory Sql_DateTime
  imports Codec Sql_Types "HOL-Library.Product_Lexorder"
begin

text \<open>
  Dates and times of MySQL++ (\<open>mysqlpp/lib/datetime.cpp\<close>, \<open>datetime.h\<close>) and the comparison
  operators they inherit (\<open>comparable.h\<close>). A C string is the list of its characters with the
  terminator at the end; reading behind it is out of bounds.
\<close>

section \<open>Comparable\<close>

text \<open>The operators of \<open>Comparable<T>\<close> for a member function \<open>compare\<close>.\<close>

definition cmp_eq :: "('a \<Rightarrow> 'a \<Rightarrow> int) \<Rightarrow> 'a \<Rightarrow> 'a \<Rightarrow> bool" where "cmp_eq compare x y \<longleftrightarrow> compare x y = 0"
definition cmp_neq :: "('a \<Rightarrow> 'a \<Rightarrow> int) \<Rightarrow> 'a \<Rightarrow> 'a \<Rightarrow> bool" where "cmp_neq compare x y \<longleftrightarrow> compare x y \<noteq> 0"
definition cmp_less :: "('a \<Rightarrow> 'a \<Rightarrow> int) \<Rightarrow> 'a \<Rightarrow> 'a \<Rightarrow> bool" where "cmp_less compare x y \<longleftrightarrow> compare x y < 0"
definition cmp_le :: "('a \<Rightarrow> 'a \<Rightarrow> int) \<Rightarrow> 'a \<Rightarrow> 'a \<Rightarrow> bool" where "cmp_le compare x y \<longleftrightarrow> compare x y \<le> 0"
definition cmp_greater :: "('a \<Rightarrow> 'a \<Rightarrow> int) \<Rightarrow> 'a \<Rightarrow> 'a \<Rightarrow> bool" where "cmp_greater compare x y \<longleftrightarrow> 0 < compare x y"
definition cmp_ge :: "('a \<Rightarrow> 'a \<Rightarrow> int) \<Rightarrow> 'a \<Rightarrow> 'a \<Rightarrow> bool" where "cmp_ge compare x y \<longleftrightarrow> 0 \<le> compare x y"

text \<open>
  What the operators rely on: \<open>compare\<close> has the signs of the comparison of two keys of a linear
  order.
\<close>

locale comparable =
  fixes compare :: "'a \<Rightarrow> 'a \<Rightarrow> int" and key :: "'a \<Rightarrow> 'k::linorder"
  assumes negative: "compare x y < 0 \<longleftrightarrow> key x < key y"
    and zero: "compare x y = 0 \<longleftrightarrow> key x = key y"
begin

lemma operators:
  "cmp_eq compare x y \<longleftrightarrow> key x = key y" "cmp_neq compare x y \<longleftrightarrow> key x \<noteq> key y"
  "cmp_less compare x y \<longleftrightarrow> key x < key y" "cmp_le compare x y \<longleftrightarrow> key x \<le> key y"
  "cmp_greater compare x y \<longleftrightarrow> key y < key x" "cmp_ge compare x y \<longleftrightarrow> key y \<le> key x"
  using negative [of x y] zero [of x y]
  by (auto simp: cmp_eq_def cmp_neq_def cmp_less_def cmp_le_def cmp_greater_def cmp_ge_def)

lemma le_total: "cmp_le compare x y \<or> cmp_le compare y x"
  unfolding operators by (rule linear)

lemma le_trans: "cmp_le compare x y \<Longrightarrow> cmp_le compare y z \<Longrightarrow> cmp_le compare x z"
  unfolding operators by (rule order_trans)

end

section \<open>The classes\<close>

datatype date = Date (d_year: "16 word") (d_month: byte) (d_day: byte)

datatype time = Time (t_hour: byte) (t_minute: byte) (t_second: byte)

record datetime =
  dt_year :: "16 word"
  dt_month :: byte
  dt_day :: byte
  dt_hour :: byte
  dt_minute :: byte
  dt_second :: byte
  dt_now :: bool

definition Date_default :: date where "Date_default = Date 0 0 0"

definition Time_default :: time where "Time_default = Time 0 0 0"

definition DateTime_default :: datetime where
  "DateTime_default = \<lparr>dt_year = 0, dt_month = 0, dt_day = 0, dt_hour = 0, dt_minute = 0, dt_second = 0, dt_now = True\<rparr>"

definition DateTime_ymd :: "16 word \<Rightarrow> byte \<Rightarrow> byte \<Rightarrow> byte \<Rightarrow> byte \<Rightarrow> byte \<Rightarrow> datetime" where
  "DateTime_ymd y mon d h mi s = \<lparr>dt_year = y, dt_month = mon, dt_day = d, dt_hour = h, dt_minute = mi,
     dt_second = s, dt_now = False\<rparr>"

definition Date_of_datetime :: "datetime \<Rightarrow> date" where
  "Date_of_datetime dt = Date (dt_year dt) (dt_month dt) (dt_day dt)"

definition Time_of_datetime :: "datetime \<Rightarrow> time" where
  "Time_of_datetime dt = Time (dt_hour dt) (dt_minute dt) (dt_second dt)"

text \<open>Every setter of a \<open>DateTime\<close> makes it an explicit value.\<close>

definition set_dt_year :: "16 word \<Rightarrow> datetime \<Rightarrow> datetime" where "set_dt_year y dt = dt\<lparr>dt_year := y, dt_now := False\<rparr>"
definition set_dt_month :: "byte \<Rightarrow> datetime \<Rightarrow> datetime" where "set_dt_month m dt = dt\<lparr>dt_month := m, dt_now := False\<rparr>"
definition set_dt_day :: "byte \<Rightarrow> datetime \<Rightarrow> datetime" where "set_dt_day d dt = dt\<lparr>dt_day := d, dt_now := False\<rparr>"
definition set_dt_hour :: "byte \<Rightarrow> datetime \<Rightarrow> datetime" where "set_dt_hour h dt = dt\<lparr>dt_hour := h, dt_now := False\<rparr>"
definition set_dt_minute :: "byte \<Rightarrow> datetime \<Rightarrow> datetime" where "set_dt_minute m dt = dt\<lparr>dt_minute := m, dt_now := False\<rparr>"
definition set_dt_second :: "byte \<Rightarrow> datetime \<Rightarrow> datetime" where "set_dt_second s dt = dt\<lparr>dt_second := s, dt_now := False\<rparr>"

section \<open>Comparison\<close>

text \<open>The differences are taken after promotion to \<open>int\<close>.\<close>

definition Date_compare :: "date \<Rightarrow> date \<Rightarrow> int" where
  "Date_compare d other =
     (if d_year d \<noteq> d_year other then uint (d_year d) - uint (d_year other)
      else if d_month d \<noteq> d_month other then uint (d_month d) - uint (d_month other)
      else uint (d_day d) - uint (d_day other))"

definition Time_compare :: "time \<Rightarrow> time \<Rightarrow> int" where
  "Time_compare t other =
     (if t_hour t \<noteq> t_hour other then uint (t_hour t) - uint (t_hour other)
      else if t_minute t \<noteq> t_minute other then uint (t_minute t) - uint (t_minute other)
      else uint (t_second t) - uint (t_second other))"

definition DateTime_compare :: "datetime \<Rightarrow> datetime \<Rightarrow> int" where
  "DateTime_compare dt other =
     (if dt_now dt \<and> dt_now other then 0
      else let x = Date_compare (Date_of_datetime dt) (Date_of_datetime other) in
        if x \<noteq> 0 then x else Time_compare (Time_of_datetime dt) (Time_of_datetime other))"

section \<open>Text\<close>

definition pad0 :: "nat \<Rightarrow> string \<Rightarrow> string" where
  "pad0 w s = replicate (w - length s) (CHR ''0'') @ s"

definition Date_text :: "date \<Rightarrow> string" where
  "Date_text d = pad0 4 (show_nat (unat (d_year d))) @ ''-'' @ pad0 2 (show_nat (unat (d_month d))) @ ''-'' @
     pad0 2 (show_nat (unat (d_day d)))"

definition Time_text :: "time \<Rightarrow> string" where
  "Time_text t = pad0 2 (show_nat (unat (t_hour t))) @ '':'' @ pad0 2 (show_nat (unat (t_minute t))) @ '':'' @
     pad0 2 (show_nat (unat (t_second t)))"

definition DateTime_text :: "datetime \<Rightarrow> string" where
  "DateTime_text dt = (if dt_now dt then ''NOW()''
     else Date_text (Date_of_datetime dt) @ '' '' @ Time_text (Time_of_datetime dt))"

section \<open>Reading\<close>

fun take_chars :: "nat \<Rightarrow> string \<Rightarrow> (string \<times> string) res" where
  "take_chars 0 s = Inr ([], s)"
| "take_chars (Suc n) [] = Inl (UB OutOfBounds)"
| "take_chars (Suc n) (c # s) = rbind (take_chars n s) (\<lambda>(cs, r). Inr (c # cs, r))"

definition skip_char :: "char \<Rightarrow> string \<Rightarrow> string res" where
  "skip_char c s = (case s of [] \<Rightarrow> Inl (UB OutOfBounds) | x # r \<Rightarrow> Inr (if x = c then r else s))"

text \<open>\<open>strtol(num, 0, 10)\<close>: white space, a sign, digits. Four characters cannot overflow.\<close>

definition strtol10 :: "string \<Rightarrow> int" where
  "strtol10 s = (let s = dropWhile is_space s in case s of
       [] \<Rightarrow> 0
     | c # r \<Rightarrow> if c = CHR ''-'' then - int (decimal (takeWhile is_digit r))
         else if c = CHR ''+'' then int (decimal (takeWhile is_digit r))
         else int (decimal (takeWhile is_digit s)))"

definition read_field :: "nat \<Rightarrow> string \<Rightarrow> ('a::len word \<times> string) res" where
  "read_field n s = rbind (take_chars n s) (\<lambda>(num, r). Inr (of_int (strtol10 num), r))"

definition Date_convert :: "string \<Rightarrow> (date \<times> string) res" where
  "Date_convert str = rbind (read_field 4 str) (\<lambda>(y, str).
     rbind (skip_char (CHR ''-'') str) (\<lambda>str. rbind (read_field 2 str) (\<lambda>(m, str).
     rbind (skip_char (CHR ''-'') str) (\<lambda>str. rbind (read_field 2 str) (\<lambda>(d, str).
       Inr (Date y m d, str))))))"

definition Time_convert :: "string \<Rightarrow> (time \<times> string) res" where
  "Time_convert str = rbind (read_field 2 str) (\<lambda>(h, str).
     rbind (skip_char (CHR '':'') str) (\<lambda>str. rbind (read_field 2 str) (\<lambda>(m, str).
     rbind (skip_char (CHR '':'') str) (\<lambda>str. rbind (read_field 2 str) (\<lambda>(s, str).
       Inr (Time h m s, str))))))"

definition DateTime_convert :: "string \<Rightarrow> (datetime \<times> string) res" where
  "DateTime_convert str = rbind (Date_convert str) (\<lambda>(d, str). rbind (skip_char (CHR '' '') str) (\<lambda>str.
     rbind (Time_convert str) (\<lambda>(t, str).
       Inr (DateTime_ymd (d_year d) (d_month d) (d_day d) (t_hour t) (t_minute t) (t_second t), str))))"

section \<open>Calendar time\<close>

text \<open>The broken-down time of the C library, whose conversions are parameters.\<close>

record tm =
  tm_sec :: int
  tm_min :: int
  tm_hour :: int
  tm_mday :: int
  tm_mon :: int
  tm_year :: int
  tm_isdst :: int

definition Date_of_tm :: "tm \<Rightarrow> date" where
  "Date_of_tm t = Date (of_int (tm_year t + 1900)) (of_int (tm_mon t + 1)) (of_int (tm_mday t))"

definition Time_of_tm :: "tm \<Rightarrow> time" where
  "Time_of_tm t = Time (of_int (tm_hour t)) (of_int (tm_min t)) (of_int (tm_sec t))"

definition DateTime_of_tm :: "tm \<Rightarrow> datetime" where
  "DateTime_of_tm t = DateTime_ymd (of_int (tm_year t + 1900)) (of_int (tm_mon t + 1)) (of_int (tm_mday t))
     (of_int (tm_hour t)) (of_int (tm_min t)) (of_int (tm_sec t))"

definition Date_to_time :: "(tm \<Rightarrow> int) \<Rightarrow> tm \<Rightarrow> date \<Rightarrow> int" where
  "Date_to_time mktime now d = mktime (now\<lparr>tm_mday := uint (d_day d), tm_mon := uint (d_month d) - 1,
     tm_year := uint (d_year d) - 1900, tm_isdst := - 1\<rparr>)"

definition Time_to_time :: "(tm \<Rightarrow> int) \<Rightarrow> tm \<Rightarrow> time \<Rightarrow> int" where
  "Time_to_time mktime now t = mktime (now\<lparr>tm_sec := uint (t_second t), tm_min := uint (t_minute t),
     tm_hour := uint (t_hour t), tm_isdst := - 1\<rparr>)"

definition DateTime_to_time :: "(tm \<Rightarrow> int) \<Rightarrow> int \<Rightarrow> datetime \<Rightarrow> int" where
  "DateTime_to_time mktime now dt = (if dt_now dt then now else
     mktime \<lparr>tm_sec = uint (dt_second dt), tm_min = uint (dt_minute dt), tm_hour = uint (dt_hour dt),
       tm_mday = uint (dt_day dt), tm_mon = uint (dt_month dt) - 1, tm_year = uint (dt_year dt) - 1900,
       tm_isdst = - 1\<rparr>)"

section \<open>The order of dates and times\<close>

definition date_key :: "date \<Rightarrow> 16 word \<times> byte \<times> byte" where
  "date_key d = (d_year d, d_month d, d_day d)"

definition time_key :: "time \<Rightarrow> byte \<times> byte \<times> byte" where
  "time_key t = (t_hour t, t_minute t, t_second t)"

lemma uint_difference:
  fixes a b :: "'a::len word"
  shows "uint a - uint b < 0 \<longleftrightarrow> a < b" "uint a - uint b = 0 \<longleftrightarrow> a = b"
  by (simp_all add: word_less_def word_uint_eq_iff)

interpretation date_cmp: comparable Date_compare date_key
  by unfold_locales (auto simp: Date_compare_def date_key_def less_prod_def' uint_difference word_uint_eq_iff [symmetric] simp del: diff_less_0_iff_less)

interpretation time_cmp: comparable Time_compare time_key
  by unfold_locales (auto simp: Time_compare_def time_key_def less_prod_def' uint_difference word_uint_eq_iff [symmetric] simp del: diff_less_0_iff_less)

lemma keys_inject: "date_key d = date_key e \<longleftrightarrow> d = e" "time_key t = time_key u \<longleftrightarrow> t = u"
  by (auto simp: date_key_def time_key_def intro: date.expand time.expand)

instantiation date :: linorder
begin

definition less_eq_date :: "date \<Rightarrow> date \<Rightarrow> bool" where "less_eq_date d e \<longleftrightarrow> cmp_le Date_compare d e"
definition less_date :: "date \<Rightarrow> date \<Rightarrow> bool" where "less_date d e \<longleftrightarrow> cmp_less Date_compare d e"

instance
  by standard (auto simp: less_eq_date_def less_date_def date_cmp.operators keys_inject [symmetric])

end

instantiation time :: linorder
begin

definition less_eq_time :: "time \<Rightarrow> time \<Rightarrow> bool" where "less_eq_time t u \<longleftrightarrow> cmp_le Time_compare t u"
definition less_time :: "time \<Rightarrow> time \<Rightarrow> bool" where "less_time t u \<longleftrightarrow> cmp_less Time_compare t u"

instance
  by standard (auto simp: less_eq_time_def less_time_def time_cmp.operators keys_inject [symmetric])

end

lemma compare_signs:
  "Date_compare d e < 0 \<longleftrightarrow> d < e" "Date_compare d e = 0 \<longleftrightarrow> d = e"
  "Time_compare t u < 0 \<longleftrightarrow> t < u" "Time_compare t u = 0 \<longleftrightarrow> t = u"
  using date_cmp.zero [of d e] time_cmp.zero [of t u]
  by (auto simp: less_date_def less_time_def cmp_less_def keys_inject)

section \<open>Fields written and read\<close>

lemma length_show_nat: "0 < w \<Longrightarrow> n < 10 ^ w \<Longrightarrow> length (show_nat n) \<le> w"
proof (induction n arbitrary: w rule: show_nat.induct)
  case (1 n)
  show ?case
  proof (cases "n < 10")
    case True
    then show ?thesis using 1 by (simp add: show_nat.simps [of n])
  next
    case False
    then have "w \<noteq> 1" "w \<noteq> 0" using 1(2,3) by auto
    then obtain v where v: "w = Suc v" "0 < v" by (cases w) auto
    then have "n div 10 < 10 ^ v" using 1(3) by (simp add: less_mult_imp_div_less mult.commute)
    then have "length (show_nat (n div 10)) \<le> v" using 1(1) [OF False v(2)] by simp
    then show ?thesis using False v by (simp add: show_nat.simps [of n])
  qed
qed

lemma decimal_zeros: "decimal (replicate k (CHR ''0'') @ s) = decimal s"
  by (induction k) (simp_all add: decimal_def digit_value_def)

lemma pad0_facts:
  assumes "0 < w" and "n < 10 ^ w"
  shows "length (pad0 w (show_nat n)) = w" "list_all is_digit (pad0 w (show_nat n))"
    "decimal (pad0 w (show_nat n)) = n"
  using length_show_nat [OF assms] show_nat_digits [of n]
  by (auto simp: pad0_def decimal_zeros list_all_iff is_digit_def)

lemma strtol10_digits:
  assumes "list_all is_digit s" and "s \<noteq> []"
  shows "strtol10 s = int (decimal s)"
proof -
  obtain c r where s: "s = c # r" using assms(2) by (cases s) auto
  have c: "is_digit c" "\<not> is_space c" "c \<noteq> CHR ''-''" "c \<noteq> CHR ''+''"
    using assms(1) s by (auto simp: is_digit_def is_space_def)
  have all: "takeWhile is_digit s = s" using assms(1) unfolding takeWhile_eq_all_conv list_all_iff by blast
  have "strtol10 s = int (decimal (takeWhile is_digit s))"
    unfolding s using c by (simp add: strtol10_def)
  then show ?thesis unfolding all .
qed

lemma take_chars_append: "take_chars (length xs) (xs @ r) = Inr (xs, r)"
  by (induction xs) auto

lemma read_field_written:
  assumes "0 < w" and "n < 10 ^ w"
  shows "read_field w (pad0 w (show_nat n) @ r) = Inr (of_nat n, r)"
proof -
  let ?s = "pad0 w (show_nat n)"
  have "?s \<noteq> []" using pad0_facts(1) [OF assms] assms(1) by auto
  then show ?thesis
    using pad0_facts [OF assms] take_chars_append [of ?s r] strtol10_digits [of ?s]
    by (simp add: read_field_def)
qed

lemma skip_char_here: "skip_char c (c # r) = Inr r"
  by (simp add: skip_char_def)

lemmas read_written = read_field_written [of 4, simplified] read_field_written [of 2, simplified] skip_char_here

definition date_fits :: "date \<Rightarrow> bool" where
  "date_fits d \<longleftrightarrow> unat (d_year d) < 10000 \<and> unat (d_month d) < 100 \<and> unat (d_day d) < 100"

definition time_fits :: "time \<Rightarrow> bool" where
  "time_fits t \<longleftrightarrow> unat (t_hour t) < 100 \<and> unat (t_minute t) < 100 \<and> unat (t_second t) < 100"

lemma Date_read_written: "date_fits d \<Longrightarrow> Date_convert (Date_text d @ r) = Inr (d, r)"
  by (simp add: Date_convert_def Date_text_def date_fits_def read_written)

lemma Time_read_written: "time_fits t \<Longrightarrow> Time_convert (Time_text t @ r) = Inr (t, r)"
  by (simp add: Time_convert_def Time_text_def time_fits_def read_written)

interpretation date_text: codec Date_text Date_convert date_fits
  by unfold_locales (rule Date_read_written)

interpretation time_text: codec Time_text Time_convert time_fits
  by unfold_locales (rule Time_read_written)

lemma DateTime_read_written:
  assumes "\<not> dt_now dt" and "date_fits (Date_of_datetime dt)" and "time_fits (Time_of_datetime dt)"
  shows "DateTime_convert (DateTime_text dt @ r) = Inr (dt, r)"
  using assms date_text.dec_enc [OF assms(2)] time_text.dec_enc [OF assms(3)]
  by (cases dt)
    (simp add: DateTime_convert_def DateTime_text_def skip_char_here DateTime_ymd_def Date_of_datetime_def
      Time_of_datetime_def)

text \<open>Different dates that fit are written differently, in front of whatever follows.\<close>

lemma Date_text_inject:
  "date_fits d \<Longrightarrow> date_fits e \<Longrightarrow> Date_text d @ r = Date_text e @ s \<Longrightarrow> d = e \<and> r = s"
  by (rule date_text.enc_append_inject)

text \<open>An hour of three digits is written in three characters and read back as two fields.\<close>

lemma long_hour_misread:
  "Time_convert (Time_text (Time 123 45 6) @ [CHR 0x00]) = Inr (Time 12 3 45, '':06'' @ [CHR 0x00])"
  by code_simp

text \<open>A time that is not padded is read beyond its terminator.\<close>

lemma unpadded_overread: "Date_convert (''9-1-5'' @ [CHR 0x00]) = Inl (UB OutOfBounds)"
  by code_simp

section \<open>Properties\<close>

text \<open>C32: a date and time with a year of at most four digits and two-digit fields is written and
  read back exactly, and reading stops right behind it.\<close>
theorem datetime_roundtrip:
  assumes "\<not> dt_now dt" and "date_fits (Date_of_datetime dt)" and "time_fits (Time_of_datetime dt)"
  shows "DateTime_convert (DateTime_text dt @ r) = Inr (dt, r)"
  using assms by (rule DateTime_read_written)

theorem datetime_roundtrip_witness:
  "DateTime_convert (DateTime_text (DateTime_ymd 2015 9 4 8 5 59) @ [CHR 0x00]) =
    Inr (DateTime_ymd 2015 9 4 8 5 59, [CHR 0x00])"
  using datetime_roundtrip [of "DateTime_ymd 2015 9 4 8 5 59" "[CHR 0x00]"]
  by (simp add: DateTime_ymd_def date_fits_def time_fits_def Date_of_datetime_def Time_of_datetime_def)

text \<open>Explicit dates and times compare like the pairs of their dates and times in the order of the
  calendar, which is linear; equal means equal in every field. The value that stands for the
  current time counts as the date and time of all zeros.\<close>
theorem datetime_order:
  "(cmp_less DateTime_compare dt other \<longleftrightarrow>
      \<not> (dt_now dt \<and> dt_now other) \<and>
      (Date_of_datetime dt, Time_of_datetime dt) < (Date_of_datetime other, Time_of_datetime other)) \<and>
   (cmp_eq DateTime_compare dt other \<longleftrightarrow>
      (if dt_now dt \<and> dt_now other then True
       else Date_of_datetime dt = Date_of_datetime other \<and> Time_of_datetime dt = Time_of_datetime other)) \<and>
   cmp_eq DateTime_compare DateTime_default (DateTime_ymd 0 0 0 0 0 0)"
proof -
  have neq: "Date_compare d e \<noteq> 0 \<longleftrightarrow> d \<noteq> e" for d e using compare_signs(2) by blast
  show ?thesis
    by (auto simp: cmp_less_def cmp_eq_def DateTime_compare_def Let_def compare_signs less_prod_def' neq
        DateTime_default_def DateTime_ymd_def Date_of_datetime_def Time_of_datetime_def)
qed

end
