(* ===== verification/Sql_Connection.thy ===== *)
theory Sql_Connection
  imports Sql_Driver Sql_Template
begin

text \<open>
  Connections of MySQL++ (\<open>mysqlpp/lib/connection.cpp\<close>, \<open>tcp_connection.cpp\<close>,
  \<open>uds_connection.cpp\<close>, \<open>wnp_connection.cpp\<close>) on a POSIX system: what the server's name
  means, connecting, and the calls that need a connection. The file system and the services
  the system knows are the record \<open>host_env\<close>.
\<close>

section \<open>The system\<close>

record file_status =
  fs_rw :: bool
  fs_stat :: bool
  fs_socket :: bool

record host_env =
  he_file :: "string \<Rightarrow> file_status option"
  he_service :: "string \<Rightarrow> 16 word option"

section \<open>TCP addresses\<close>

definition find_from :: "(char \<Rightarrow> bool) \<Rightarrow> nat \<Rightarrow> string \<Rightarrow> nat option" where
  "find_from P n s = map_option ((+) n) (first_index P (drop n s))"

definition addr_char :: "char \<Rightarrow> bool" where
  "addr_char c \<longleftrightarrow> is_alnum c \<or> c = CHR ''.'' \<or> c = CHR ''-'' \<or> c = CHR '':''"

text \<open>
  The first half of \<open>parse_address\<close>: the address, the service, and the complaint when there is
  one. The address is already taken out of its brackets when its colons are counted.
\<close>

definition split_ipv6 :: "string \<Rightarrow> string \<times> string \<times> string option" where
  "split_ipv6 addr = (case find_from (\<lambda>c. c = CHR '']'') 0 addr of
       None \<Rightarrow> (addr, [], Some ''Malformed IPv6 [address]:service combination'')
     | Some pos \<Rightarrow>
         if find_from (\<lambda>c. c = CHR '':'') (pos + 1) addr \<noteq> Some (pos + 1) \<or>
            find_from (\<lambda>c. c = CHR ''['' \<or> c = CHR '']'') (pos + 2) addr \<noteq> None
         then (addr, [], Some ''Malformed IPv6 [address]:service combination'')
         else let service = drop (pos + 2) addr; a = take (pos - 1) (drop 1 addr) in
           if a \<noteq> [] \<and> (case find_from (\<lambda>c. c = CHR '':'') 0 a of
                None \<Rightarrow> True | Some p \<Rightarrow> find_from (\<lambda>c. c = CHR '':'') (p + 1) a = None)
           then (a, service, Some ''IPv6 literal needs at least two colons'')
           else (a, service, None))"

definition split_ipv4 :: "string \<Rightarrow> string \<times> string \<times> string option" where
  "split_ipv4 addr = (case find_from (\<lambda>c. c = CHR '':'') 0 addr of
       None \<Rightarrow> (addr, [], None)
     | Some pos \<Rightarrow>
         if find_from (\<lambda>c. c = CHR '':'') (pos + 1) addr \<noteq> None
         then (addr, [], Some ''IPv4 address:service combo can have only one colon'')
         else (take pos addr, drop (pos + 1) addr, None))"

definition split_address :: "string \<Rightarrow> string \<times> string \<times> string option" where
  "split_address addr = (if addr \<noteq> [] \<and> hd addr = CHR ''['' then split_ipv6 addr else split_ipv4 addr)"

text \<open>\<open>atoi\<close> reads the leading digits; a number that is no \<open>int\<close> is not defined.\<close>

definition atoi :: "string \<Rightarrow> 32 word res" where
  "atoi s = (let n = decimal (takeWhile is_digit s) in
     if n < 2 ^ 31 then Inr (of_nat n) else Inl (UB NotRepresentable))"

text \<open>The port, and the complaint; a bad number is stored before it is refused.\<close>

definition service_port :: "host_env \<Rightarrow> string \<Rightarrow> 32 word \<Rightarrow> (32 word \<times> string option) res" where
  "service_port H service port =
     (if service = [] then Inr (port, None)
      else if is_digit (hd service) then rbind (atoi service) (\<lambda>p.
        Inr (p, if p < 1 \<or> 65535 < p then Some (''Invalid TCP port number '' @ service) else None))
      else (case he_service H service of
          Some p \<Rightarrow> Inr (ucast p, None)
        | None \<Rightarrow> Inr (port, Some (''Failed to look up TCP service '' @ service))))"

fun bad_character :: "string \<Rightarrow> string option" where
  "bad_character [] = None"
| "bad_character (c # s) = (if addr_char c then bad_character s
     else Some (''Bad character '' @ [CHR 0x27, c, CHR 0x27] @ '' in TCP/IP address''))"

text \<open>Whether the address is good, and the new values of the three reference parameters.\<close>

definition parse_address ::
  "host_env \<Rightarrow> string \<Rightarrow> 32 word \<Rightarrow> (bool \<times> string \<times> 32 word \<times> string) res" where
  "parse_address H addr port = (case split_address addr of
       (a, service, Some e) \<Rightarrow> Inr (False, a, port, e)
     | (a, service, None) \<Rightarrow> rbind (service_port H service port) (\<lambda>(p, e). case e of
           Some e \<Rightarrow> Inr (False, a, p, e)
         | None \<Rightarrow> (case bad_character a of
               Some e \<Rightarrow> Inr (False, a, p, e) | None \<Rightarrow> Inr (True, a, p, []))))"

section \<open>Sockets and pipes\<close>

text \<open>The error text is \<open>None\<close> when it is left alone.\<close>

definition is_socket :: "host_env \<Rightarrow> string option \<Rightarrow> bool \<times> string option" where
  "is_socket H path = (case path of
       None \<Rightarrow> (False, Some ''NULL is not a valid Unix domain socket'')
     | Some p \<Rightarrow> (case he_file H p of
           None \<Rightarrow> (False, Some (p @ '' does not exist''))
         | Some fi \<Rightarrow>
             if \<not> fs_rw fi then (False, Some (''Don'' @ [CHR 0x27] @ ''t have read-write permission for '' @ p))
             else if \<not> fs_stat fi then (False, Some (''Failed to get information for '' @ p))
             else if \<not> fs_socket fi then (False, Some (p @ '' is not a Unix domain socket''))
             else (True, Some [])))"

definition is_wnp :: "string option \<Rightarrow> bool" where
  "is_wnp server = False"

section \<open>Connections\<close>

record connection =
  c_driver :: driver
  c_copacetic :: bool
  c_error :: string
  c_throw :: bool
  c_sent :: "db_call list"

text \<open>\<open>c_sent\<close> is the history of the statements sent by queries on this connection.\<close>

record conn_env =
  ce_host :: host_env
  ce_api :: mysql_api
  ce_sql :: sql_env

type_synonym 'a cn = "(connection, 'a) st"

definition on_driver :: "'a drv \<Rightarrow> 'a cn" where
  "on_driver m c = (case m (c_driver c) of (r, d) \<Rightarrow> (r, c\<lparr>c_driver := d\<rparr>))"

definition set_c_error :: "string \<Rightarrow> unit cn" where
  "set_c_error e = modify (\<lambda>c. c\<lparr>c_error := e\<rparr>)"

definition driver_error :: "mysql_api \<Rightarrow> driver \<Rightarrow> string" where
  "driver_error A d = (if d_error d \<noteq> [] then d_error d else last_error A (d_calls d))"

definition conn_error :: "mysql_api \<Rightarrow> connection \<Rightarrow> string" where
  "conn_error A c = (if c_error c \<noteq> [] then c_error c else driver_error A (c_driver c))"

definition Connection_new :: "bool \<Rightarrow> driver \<Rightarrow> connection" where
  "Connection_new te d = \<lparr>c_driver = d, c_copacetic = True, c_error = [], c_throw = te, c_sent = []\<rparr>"

definition connected :: "bool cn" where
  "connected = gets (\<lambda>c. d_connected (c_driver c))"

definition build_error_message :: "string \<Rightarrow> unit cn" where
  "build_error_message core = set_c_error (''Can'' @ [CHR 0x27] @ ''t '' @ core @ '' while disconnected'')"

text \<open>Whether the server's name makes sense, the host, the port and the socket's name.\<close>

definition parse_ipc_method ::
  "host_env \<Rightarrow> string option \<Rightarrow> 32 word \<Rightarrow> (bool \<times> string \<times> 32 word \<times> string) cn" where
  "parse_ipc_method H server port = (case server of
       None \<Rightarrow> ret (True, [], port, [])
     | Some s \<Rightarrow>
         if is_wnp server then ret (True, s, port, [])
         else if fst (is_socket H server) then ret (True, [], port, s)
         else bind (lift (parse_address H s port)) (\<lambda>(ok, host, port, e).
           bind (set_c_error e) (\<lambda>_. ret (ok, host, port, []))))"

definition conn_connect :: "conn_env \<Rightarrow> string option \<Rightarrow> string option \<Rightarrow> string option \<Rightarrow>
    string option \<Rightarrow> 32 word \<Rightarrow> bool cn" where
  "conn_connect E db server user password port = bind (set_c_error []) (\<lambda>_.
     bind (parse_ipc_method (ce_host E) server port) (\<lambda>(ok, host, port, socket_name).
     bind (if ok then on_driver (connect_driver (ce_api E)
         [Some host, user, password, db, if socket_name = [] then None else Some socket_name] port)
       else ret False) (\<lambda>ok.
     bind (modify (\<lambda>c. c\<lparr>c_copacetic := ok\<rparr>)) (\<lambda>_.
     bind (gets (\<lambda>c. (c_throw c, conn_error (ce_api E) c))) (\<lambda>(te, e).
       if \<not> ok \<and> te then fault (Throw (ConnectionFailed e)) else ret ok)))))"

definition conn_disconnect :: "conn_env \<Rightarrow> unit cn" where
  "conn_disconnect E = bind (set_c_error []) (\<lambda>_. on_driver (disconnect_driver (ce_api E)))"

definition conn_ping :: "conn_env \<Rightarrow> bool cn" where
  "conn_ping E = bind connected (\<lambda>on. if on
     then bind (set_c_error []) (\<lambda>_. on_driver (api_ping (ce_api E)))
     else bind (build_error_message ''ping database server'') (\<lambda>_. ret False))"

definition conn_kill :: "conn_env \<Rightarrow> 64 word \<Rightarrow> bool cn" where
  "conn_kill E tid = bind (set_c_error []) (\<lambda>_. on_driver (api_kill (ce_api E) tid))"

text \<open>The exception of a failed call, or its answer \<open>false\<close>.\<close>

definition fail_with :: "(string \<Rightarrow> exn) \<Rightarrow> conn_env \<Rightarrow> bool cn" where
  "fail_with x E = bind (gets (\<lambda>c. (c_throw c, conn_error (ce_api E) c))) (\<lambda>(te, e).
     if te then fault (Throw (x e)) else ret False)"

definition conn_select_db :: "conn_env \<Rightarrow> string \<Rightarrow> bool cn" where
  "conn_select_db E db = bind (set_c_error []) (\<lambda>_. bind connected (\<lambda>on. if on
     then bind (on_driver (api_select_db (ce_api E) db)) (\<lambda>ok.
       if ok then ret True else fail_with DBSelectionFailed E)
     else bind (build_error_message ''select a database'') (\<lambda>_. fail_with DBSelectionFailed E)))"

definition conn_shutdown :: "conn_env \<Rightarrow> bool cn" where
  "conn_shutdown E = bind (set_c_error []) (\<lambda>_. bind connected (\<lambda>on. if on
     then bind (on_driver (api_shutdown (ce_api E))) (\<lambda>ok.
       if ok then ret True else fail_with ConnectionFailed E)
     else bind (build_error_message ''shutdown database server'') (\<lambda>_. fail_with ConnectionFailed E)))"

text \<open>\<open>typeid( *o)\<close> looks at the option before the driver does.\<close>

definition conn_set_option :: "conn_env \<Rightarrow> address \<Rightarrow> bool cn" where
  "conn_set_option E a = bind (on_driver (deref_option a)) (\<lambda>_.
     bind (on_driver (set_option_driver (ce_api E) a)) (\<lambda>ok. if ok
     then bind (set_c_error []) (\<lambda>_. ret True)
     else bind (gets (\<lambda>c. driver_error (ce_api E) (c_driver c))) (\<lambda>e.
       bind (set_c_error e) (\<lambda>_. bind (gets c_throw) (\<lambda>te.
         if te then fault (Throw (BadOption e)) else ret False)))))"

text \<open>Statements the connection sends itself. The name is not quoted further.\<close>

definition conn_query_exec :: "conn_env \<Rightarrow> string list \<Rightarrow> bool cn" where
  "conn_query_exec E texts = bind (set_c_error []) (\<lambda>_ c.
     case query_on (c_throw c) (c_sent c) [] (bind (block (map insert_text texts)) (\<lambda>_. exec_default (ce_sql E))) of
       (r, h) \<Rightarrow> (r, c\<lparr>c_sent := h\<rparr>))"

definition create_db :: "conn_env \<Rightarrow> string \<Rightarrow> bool cn" where
  "create_db E db = conn_query_exec E [''CREATE DATABASE `'', db, ''`'']"

definition drop_db :: "conn_env \<Rightarrow> string \<Rightarrow> bool cn" where
  "drop_db E db = conn_query_exec E [''DROP DATABASE `'', db, ''`'']"

text \<open>
  Copying: the driver connects like the other one, with the arguments that connection has. The
  copy constructor does so twice, and does not set the flag, which is passed as \<open>junk\<close>.
\<close>

definition conn_copy :: "conn_env \<Rightarrow> connection \<Rightarrow> string option list \<Rightarrow> 32 word \<Rightarrow> unit cn" where
  "conn_copy E other args port = bind (set_c_error []) (\<lambda>_.
     bind (modify (\<lambda>c. c\<lparr>c_throw := c_throw other\<rparr>)) (\<lambda>_.
     on_driver (copy_driver (ce_api E) (c_driver other) args port)))"

definition Connection_copy :: "conn_env \<Rightarrow> connection \<Rightarrow> string option list \<Rightarrow> 32 word \<Rightarrow> bool \<Rightarrow>
    unit res \<times> connection" where
  "Connection_copy E other args port junk =
     (case copy_driver (ce_api E) (c_driver other) args port (DBDriver_new Map.empty) of
        (r, d) \<Rightarrow> bind (lift r) (\<lambda>_. conn_copy E other args port)
          ((Connection_new (c_throw other) d)\<lparr>c_copacetic := junk\<rparr>))"

text \<open>
  The constructor that connects deletes the driver when an exception leaves the connecting, and
  rethrows it.
\<close>

definition Connection_connecting :: "conn_env \<Rightarrow> string option \<Rightarrow> string option \<Rightarrow> string option \<Rightarrow>
    string option \<Rightarrow> 32 word \<Rightarrow> connection res" where
  "Connection_connecting E db server user password port =
     (case conn_connect E db server user password port (Connection_new True (DBDriver_new Map.empty)) of
        (Inr _, c) \<Rightarrow> Inr c
      | (Inl (Throw x), c) \<Rightarrow> rbind (fst (DBDriver_destroy (ce_api E) (c_driver c))) (\<lambda>_. Inl (Throw x))
      | (Inl f, c) \<Rightarrow> Inl f)"

definition Connection_destroy :: "conn_env \<Rightarrow> unit cn" where
  "Connection_destroy E = bind (conn_disconnect E) (\<lambda>_. on_driver (DBDriver_destroy (ce_api E)))"

section \<open>Kinds of connections\<close>

definition TCP_connect :: "conn_env \<Rightarrow> string option \<Rightarrow> string option \<Rightarrow> string option \<Rightarrow>
    string option \<Rightarrow> bool cn" where
  "TCP_connect E addr db user pass = bind (set_c_error []) (\<lambda>_.
     bind (lift (case addr of None \<Rightarrow> Inr (True, [], 0, []) | Some a \<Rightarrow> parse_address (ce_host E) a 0))
       (\<lambda>(ok, address, port, e). bind (set_c_error e) (\<lambda>_.
       if \<not> ok then ret False
       else if e = [] then conn_connect E db (Some address) user pass port
       else bind (gets c_throw) (\<lambda>te. if te then fault (Throw (ConnectionFailed e)) else ret False))))"

definition UDS_connect :: "conn_env \<Rightarrow> string option \<Rightarrow> string option \<Rightarrow> string option \<Rightarrow>
    string option \<Rightarrow> bool cn" where
  "UDS_connect E path db user pass = (case is_socket (ce_host E) path of (ok, e) \<Rightarrow>
     bind (case e of None \<Rightarrow> ret () | Some e \<Rightarrow> set_c_error e) (\<lambda>_.
     if ok then conn_connect E db path user pass 0
     else bind (gets (\<lambda>c. (c_throw c, c_error c))) (\<lambda>(te, e).
       if te then fault (Throw (ConnectionFailed e)) else ret False)))"

definition WNP_connect :: "string option \<Rightarrow> string option \<Rightarrow> string option \<Rightarrow> bool cn" where
  "WNP_connect db user pass = bind (set_c_error ''WindowsNamedPipeConnection only works on Windows'') (\<lambda>_.
     bind (gets (\<lambda>c. (c_throw c, c_error c))) (\<lambda>(te, e).
       if te then fault (Throw (ConnectionFailed e)) else ret False))"

section \<open>Finding characters and reading numbers\<close>

lemma find_first:
  assumes "\<And>x. x \<in> set xs \<Longrightarrow> \<not> P x" and "P c"
  shows "find_from P 0 (xs @ c # ys) = Some (length xs)"
  using assms by (induction xs) (auto simp: find_from_def)

lemma find_none: "(\<And>x. x \<in> set (drop n xs) \<Longrightarrow> \<not> P x) \<Longrightarrow> find_from P n xs = None"
  by (simp add: find_from_def first_index_None)

lemma find_some: "x \<in> set (drop n xs) \<Longrightarrow> P x \<Longrightarrow> find_from P n xs \<noteq> None"
  by (auto simp: find_from_def first_index_None)

lemma find_here: "P c \<Longrightarrow> find_from P (length xs) (xs @ c # ys) = Some (length xs)"
  by (simp add: find_from_def)

lemma service_port_number:
  assumes "1 \<le> n" and "n \<le> 65535"
  shows "service_port H (show_nat n) port = Inr (of_nat n, None)"
proof -
  have d: "list_all is_digit (show_nat n)" "decimal (show_nat n) = n" "show_nat n \<noteq> []"
    using show_nat_digits [of n] by auto
  then have all: "takeWhile is_digit (show_nat n) = show_nat n"
    unfolding takeWhile_eq_all_conv list_all_iff by blast
  have "atoi (show_nat n) = Inr (of_nat n)" using d(2) assms by (simp add: atoi_def all)
  moreover have "is_digit (hd (show_nat n))" using d by (simp add: list_all_iff)
  moreover have "\<not> (of_nat n :: 32 word) < 1" "\<not> 65535 < (of_nat n :: 32 word)"
    using assms by (simp_all add: word_less_nat_alt unat_of_nat)
  ultimately show ?thesis using d by (simp add: service_port_def)
qed

lemma bad_character_None: "bad_character a = None \<longleftrightarrow> list_all addr_char a"
  by (induction a) auto

section \<open>Addresses written out\<close>

definition colon :: char where "colon = CHR '':''"

text \<open>An address with colons stands in brackets.\<close>

definition render_address :: "string \<Rightarrow> nat \<Rightarrow> string" where
  "render_address host n = (if colon \<in> set host then CHR ''['' # host @ '']:'' @ show_nat n
     else host @ '':'' @ show_nat n)"

lemma not_addr_char: "\<not> addr_char (CHR ''['')" "\<not> addr_char (CHR '']'')"
  by (simp_all add: addr_char_def is_alnum_def is_digit_def)

lemma digits_plain:
  assumes "list_all is_digit s"
  shows "CHR '':'' \<notin> set s" "CHR ''['' \<notin> set s" "CHR '']'' \<notin> set s"
  using assms by (auto simp: list_all_iff is_digit_def)

lemma split_ipv4_written:
  assumes "colon \<notin> set host" and "list_all addr_char host" and "list_all is_digit service"
  shows "split_address (host @ '':'' @ service) = (host, service, None)"
proof -
  have "hd (host @ '':'' @ service) \<noteq> CHR ''[''"
    using assms(2) not_addr_char by (cases host) (auto simp: list_all_iff)
  moreover have "find_from (\<lambda>c. c = CHR '':'') 0 (host @ CHR '':'' # service) = Some (length host)"
    using assms(1) by (intro find_first) (auto simp: colon_def)
  moreover have "find_from (\<lambda>c. c = CHR '':'') (Suc (length host)) (host @ CHR '':'' # service) = None"
    using digits_plain(1) [OF assms(3)] by (intro find_none) auto
  ultimately show ?thesis by (simp add: split_address_def split_ipv4_def)
qed

lemma split_ipv4_many_colons:
  assumes "list_all addr_char host" and "2 \<le> count_list host colon"
  shows "split_address host = (host, [], Some ''IPv4 address:service combo can have only one colon'')"
proof -
  obtain u v where host: "host = u @ colon # v" and u: "colon \<notin> set u"
    using assms(2) by (metis count_notin not_numeral_le_zero split_list_first)
  then have "1 \<le> count_list v colon" using assms(2) by simp
  then have v: "colon \<in> set v" by (metis count_notin not_one_le_zero)
  have "find_from (\<lambda>c. c = CHR '':'') 0 host = Some (length u)"
    unfolding host using u by (intro find_first) (auto simp: colon_def)
  moreover have "find_from (\<lambda>c. c = CHR '':'') (length u + 1) host \<noteq> None"
    unfolding host using v by (intro find_some [of "CHR '':''"]) (auto simp: colon_def)
  moreover have "host \<noteq> []" using host by simp
  then have "addr_char (hd host)" using assms(1) by (simp add: list_all_iff)
  then have "hd host \<noteq> CHR ''[''" using not_addr_char by metis
  ultimately show ?thesis by (simp add: split_address_def split_ipv4_def)
qed

lemma split_ipv6_written:
  assumes "list_all addr_char host" and "2 \<le> count_list host colon" and "list_all is_digit service"
  shows "split_address (CHR ''['' # host @ '']:'' @ service) = (host, service, None)"
proof -
  let ?addr = "CHR ''['' # host @ '']:'' @ service"
  have close: "find_from (\<lambda>c. c = CHR '']'') 0 ((CHR ''['' # host) @ CHR '']'' # (CHR '':'' # service)) =
      Some (length (CHR ''['' # host))"
    using assms(1) not_addr_char by (intro find_first) (auto simp: list_all_iff)
  have colon: "find_from (\<lambda>c. c = CHR '':'') (length (CHR ''['' # host @ '']'')) ((CHR ''['' # host @ '']'') @ CHR '':'' # service) =
      Some (length (CHR ''['' # host @ '']''))"
    by (rule find_here) simp
  have brackets: "find_from (\<lambda>c. c = CHR ''['' \<or> c = CHR '']'') (length host + 3) ?addr = None"
    using digits_plain [OF assms(3)] by (intro find_none) (auto simp: numeral_3_eq_3)
  obtain u v where host: "host = u @ colon # v" and u: "colon \<notin> set u"
    using assms(2) by (metis count_notin not_numeral_le_zero split_list_first)
  then have "1 \<le> count_list v colon" using assms(2) by simp
  then have v: "colon \<in> set v" by (metis count_notin not_one_le_zero)
  have first: "find_from (\<lambda>c. c = CHR '':'') 0 host = Some (length u)"
    unfolding host using u by (intro find_first) (auto simp: colon_def)
  have second: "find_from (\<lambda>c. c = CHR '':'') (Suc (length u)) host \<noteq> None"
    unfolding host using v by (intro find_some [of "CHR '':''"]) (auto simp: colon_def)
  show ?thesis
    using close colon brackets first second
    by (simp add: split_address_def split_ipv6_def Let_def numeral_3_eq_3 add.commute)
qed

section \<open>Properties\<close>

text \<open>C28: an address and a port number written out are read back exactly. An address without colons
  is written in front of a colon, one with at least two in brackets, and the port is any number
  from 1 to 65535.\<close>
theorem address_roundtrip:
  assumes "list_all addr_char host" and "count_list host colon \<noteq> 1" and "1 \<le> n" and "n \<le> 65535"
  shows "parse_address H (render_address host n) port = Inr (True, host, of_nat n, [])"
proof -
  have digits: "list_all is_digit (show_nat n)" using show_nat_digits by blast
  have good: "bad_character host = None" using assms(1) by (simp add: bad_character_None)
  have "split_address (render_address host n) = (host, show_nat n, None)"
  proof (cases "colon \<in> set host")
    case True
    then have "2 \<le> count_list host colon"
      using assms(2) by (metis One_nat_def Suc_1 count_list_0_iff not_less_eq_eq le_Suc_eq le_zero_eq)
    then show ?thesis using split_ipv6_written [OF assms(1) _ digits] True by (simp add: render_address_def)
  next
    case False
    then show ?thesis using split_ipv4_written [OF False assms(1) digits] by (simp add: render_address_def)
  qed
  then show ?thesis
    using service_port_number [OF assms(3,4)] good by (simp add: parse_address_def)
qed

theorem address_roundtrip_witness:
  "parse_address \<lparr>he_file = Map.empty, he_service = Map.empty\<rparr> (render_address ''::1'' 3306) 0 =
    Inr (True, ''::1'', 3306, [])"
  using address_roundtrip [of "''::1''" 3306 "\<lparr>he_file = Map.empty, he_service = Map.empty\<rparr>" 0]
  by (simp add: addr_char_def is_alnum_def is_digit_def colon_def)

text \<open>A TCP connection to an IPv6 address is never made. The brackets are taken off when the
  address is looked at first, and what is left is then refused as an IPv4 address with too many
  colons; the driver is not called, and the call fails, with an exception exactly when they are
  enabled.\<close>
theorem tcp_ipv6_never_connects:
  assumes "list_all addr_char host" and "2 \<le> count_list host colon" and "1 \<le> n" and "n \<le> 65535"
    and "\<not> fst (is_socket (ce_host E) (Some host))"
  shows "case TCP_connect E (Some (render_address host n)) db user pass c of (r, c') \<Rightarrow>
    c_driver c' = c_driver c \<and> \<not> c_copacetic c' \<and>
    r = (if c_throw c
         then Inl (Throw (ConnectionFailed ''IPv4 address:service combo can have only one colon''))
         else Inr False)"
proof -
  have "colon \<in> set host" using assms(2) by (metis count_notin not_numeral_le_zero)
  moreover have "list_all is_digit (show_nat n)" using show_nat_digits by blast
  ultimately have "split_address (render_address host n) = (host, show_nat n, None)"
    using split_ipv6_written [OF assms(1,2)] by (simp add: render_address_def)
  moreover have "bad_character host = None" using assms(1) by (simp add: bad_character_None)
  ultimately have outer: "parse_address (ce_host E) (render_address host n) 0 = Inr (True, host, of_nat n, [])"
    using service_port_number [OF assms(3,4)] by (simp add: parse_address_def)
  have inner: "parse_address (ce_host E) host port =
      Inr (False, host, port, ''IPv4 address:service combo can have only one colon'')" for port
    using split_ipv4_many_colons [OF assms(1,2)] by (simp add: parse_address_def)
  show ?thesis
    using assms(5)
    by (simp add: TCP_connect_def outer inner conn_connect_def parse_ipc_method_def is_wnp_def
        set_c_error_def conn_error_def bind_assoc)
qed

theorem tcp_ipv6_never_connects_witness:
  "fst (TCP_connect \<lparr>ce_host = \<lparr>he_file = Map.empty, he_service = Map.empty\<rparr>, ce_api = example_api,
       ce_sql = example_env\<rparr> (Some ''[::1]:3306'') None None None
     (Connection_new False (DBDriver_new Map.empty))) = Inr False"
proof -
  have "render_address ''::1'' 3306 = ''[::1]:3306''" by code_simp
  then show ?thesis
    using tcp_ipv6_never_connects [where host = "''::1''" and n = 3306
        and E = "\<lparr>ce_host = \<lparr>he_file = Map.empty, he_service = Map.empty\<rparr>, ce_api = example_api, ce_sql = example_env\<rparr>"
        and db = None and user = None and pass = None and c = "Connection_new False (DBDriver_new Map.empty)"]
    by (simp add: addr_char_def is_alnum_def is_digit_def colon_def is_socket_def Connection_new_def
        case_prod_beta)
qed

end
