(* ===== verification/Sql_Transaction.thy ===== *)
theory Sql_Transaction
  imports Sql_Template
begin

text \<open>
  Transactions of MySQL++ (\<open>mysqlpp/lib/transaction.cpp\<close>): an object that begins a transaction
  when it is made and rolls it back when it is destroyed without a commit. The state is the
  history and the exception setting of its connection, and the object's own flag.
\<close>

section \<open>The object\<close>

record txn =
  t_sent :: "db_call list"
  t_throw :: bool
  finished :: bool

type_synonym 'a tx = "(txn, 'a) st"

datatype isolation_level = read_uncommitted | read_committed | repeatable_read | serializable

datatype isolation_scope = this_transaction | session | global

definition conn_query :: "string \<Rightarrow> 'a qry \<Rightarrow> 'a tx" where
  "conn_query text m t = (case query_on (t_throw t) (t_sent t) text m of (r, h) \<Rightarrow> (r, t\<lparr>t_sent := h\<rparr>))"

definition set_finished :: "bool \<Rightarrow> unit tx" where
  "set_finished b = modify (\<lambda>t. t\<lparr>finished := b\<rparr>)"

definition snapshot_text :: "bool \<Rightarrow> string" where
  "snapshot_text consistent = (if consistent then '' WITH CONSISTENT SNAPSHOT'' else [])"

definition Transaction_begin :: "sql_env \<Rightarrow> bool \<Rightarrow> unit tx" where
  "Transaction_begin E consistent = bind (set_finished True) (\<lambda>_.
     bind (conn_query ''START TRANSACTION'' (bind (insert_text (snapshot_text consistent)) (\<lambda>_.
       execute_default E))) (\<lambda>_. set_finished False))"

definition scope_text :: "isolation_scope \<Rightarrow> string" where
  "scope_text scope = (case scope of this_transaction \<Rightarrow> [] | session \<Rightarrow> ''SESSION '' | global \<Rightarrow> ''GLOBAL '')"

fun level_text :: "isolation_level \<Rightarrow> string" where
  "level_text read_uncommitted = ''READ UNCOMMITTED''"
| "level_text read_committed = ''READ COMMITTED''"
| "level_text repeatable_read = ''REPEATABLE READ''"
| "level_text serializable = ''SERIALIZABLE''"

text \<open>Both statements are written into the same query object.\<close>

definition Transaction_begin_level :: "sql_env \<Rightarrow> isolation_level \<Rightarrow> isolation_scope \<Rightarrow> bool \<Rightarrow> unit tx" where
  "Transaction_begin_level E level scope consistent = bind (set_finished True) (\<lambda>_.
     bind (conn_query ''SET '' (block
       [insert_text (scope_text scope),
        insert_text ''TRANSACTION ISOLATION LEVEL '',
        insert_text (level_text level),
        bind (execute_default E) (\<lambda>_. ret ()),
        insert_text ''START TRANSACTION'',
        insert_text (snapshot_text consistent),
        bind (execute_default E) (\<lambda>_. ret ())])) (\<lambda>_. set_finished False))"

definition commit :: "sql_env \<Rightarrow> unit tx" where
  "commit E = bind (conn_query ''COMMIT'' (execute_default E)) (\<lambda>_. set_finished True)"

definition rollback :: "sql_env \<Rightarrow> unit tx" where
  "rollback E = bind (conn_query ''ROLLBACK'' (execute_default E)) (\<lambda>_. set_finished True)"

definition Transaction_destroy :: "sql_env \<Rightarrow> unit tx" where
  "Transaction_destroy E = bind (gets finished) (\<lambda>f. if f then ret () else try_catch (rollback E) (ret ()))"

section \<open>A scope with a transaction\<close>

text \<open>
  The block \<open>{ Transaction t(conn); body; t.commit(); }\<close>: the destructor runs on every way out
  of the scope, by a return or an exception, once the constructor has returned.
\<close>

definition with_transaction :: "sql_env \<Rightarrow> bool \<Rightarrow> 'a tx \<Rightarrow> 'a tx" where
  "with_transaction E consistent body = bind (Transaction_begin E consistent) (\<lambda>_.
     at_exit (bind body (\<lambda>x. bind (commit E) (\<lambda>_. ret x))) (\<lambda>t. snd (Transaction_destroy E t)))"

text \<open>A body that only sends statements.\<close>

definition only_sends :: "'a tx \<Rightarrow> bool" where
  "only_sends m \<longleftrightarrow> (\<forall>t. \<exists>sent. snd (m t) = t\<lparr>t_sent := t_sent t @ sent\<rparr>)"

section \<open>Facts\<close>

definition outcome :: "sql_env \<Rightarrow> bool \<Rightarrow> db_call list \<Rightarrow> bool res" where
  "outcome E te h = (if e_ok E h then Inr True else if te then Inl (Throw (BadQuery (e_error E))) else Inr False)"

lemma conn_query_run:
  "conn_query text (execute_default E) t =
    (outcome E (t_throw t) (t_sent t @ [Db_Query text]), t\<lparr>t_sent := t_sent t @ [Db_Query text]\<rparr>)"
  "conn_query text (bind (insert_text s) (\<lambda>_. execute_default E)) t =
    (outcome E (t_throw t) (t_sent t @ [Db_Query (text @ s)]), t\<lparr>t_sent := t_sent t @ [Db_Query (text @ s)]\<rparr>)"
  by (simp_all add: conn_query_def query_on_execute query_on_append_execute outcome_def)

lemma Transaction_begin_run:
  "Transaction_begin E consistent t =
    (let h = t_sent t @ [Db_Query (''START TRANSACTION'' @ snapshot_text consistent)];
         started = (e_ok E h \<or> \<not> t_throw t) in
     (if started then Inr () else Inl (Throw (BadQuery (e_error E))),
      t\<lparr>t_sent := h, finished := \<not> started\<rparr>))"
  by (cases t) (simp add: Transaction_begin_def set_finished_def conn_query_run outcome_def bind_def Let_def)

lemma commit_run:
  "commit E t = (let h = t_sent t @ [Db_Query ''COMMIT'']; done = (e_ok E h \<or> \<not> t_throw t) in
     (if done then Inr () else Inl (Throw (BadQuery (e_error E))),
      t\<lparr>t_sent := h, finished := (done \<or> finished t)\<rparr>))"
  by (cases t) (simp add: commit_def set_finished_def conn_query_run outcome_def bind_def Let_def)

lemma Transaction_destroy_run:
  "snd (Transaction_destroy E t) =
    (if finished t then t else
     let h = t_sent t @ [Db_Query ''ROLLBACK''] in
     t\<lparr>t_sent := h, finished := (e_ok E h \<or> \<not> t_throw t)\<rparr>)"
  by (cases t) (simp add: Transaction_destroy_def rollback_def set_finished_def conn_query_run outcome_def
      try_catch_def bind_def Let_def)

text \<open>With exceptions disabled a commit that the server refuses ends the transaction silently.\<close>

lemma refused_commit_is_silent:
  assumes "\<not> t_throw t"
  shows "fst (commit E t) = Inr () \<and> finished (snd (commit E t)) \<and>
    snd (Transaction_destroy E (snd (commit E t))) = snd (commit E t)"
  using assms by (simp add: commit_run Transaction_destroy_run Let_def)

text \<open>
  With exceptions disabled and a refused level, the text of the first statement is still in the
  query when the second one is written into it, and what is sent is neither of the two.
\<close>

lemma refused_level_garbles_start:
  assumes "\<not> t_throw t"
    and "set_text = ''SET '' @ scope_text scope @ ''TRANSACTION ISOLATION LEVEL '' @ level_text level"
    and "\<not> e_ok E (t_sent t @ [Db_Query set_text])"
  shows "t_sent (snd (Transaction_begin_level E level scope False t)) =
    t_sent t @ [Db_Query set_text, Db_Query (set_text @ ''START TRANSACTION'')]"
proof -
  have "execute_default E q = (Inr (e_ok E h), if e_ok E h then reset q' else q')"
    if "q_elems q = []" "\<not> q_throw q" "h = q_sent q @ [Db_Query (q_sbuffer q)]"
      "q' = q\<lparr>q_sent := h, q_copacetic := e_ok E h, q_processing := False\<rparr>" for q h q'
    using that execute_plain [OF that(1), of E] by (simp add: Let_def)
  then show ?thesis
    using assms
    by (simp add: Transaction_begin_level_def set_finished_def conn_query_def query_on_def Query_new_def
        insert_text_def snapshot_text_def reset_def bind_def)
qed

section \<open>Properties\<close>

text \<open>C16: on a connection with exceptions enabled, a scope with a transaction whose body only sends
  statements, and leaves the flags of the transaction alone, is all or nothing. If the server
  refuses to begin the transaction, nothing more is sent and the exception leaves the scope. If
  the body throws, or the server refuses the COMMIT, ROLLBACK is the last statement. If the body
  ends the program, breaks a rule of the language or does not return, the destructor does not run
  and nothing is sent after the body's own statements. The scope returns exactly when the body
  does and the server accepts the COMMIT, which is then the last statement; and the body's
  statements stand between the beginning and the end.\<close>
theorem transaction_all_or_nothing:
  assumes "t_throw t" and "only_sends body"
  shows "case with_transaction E consistent body t of (r, t') \<Rightarrow>
    let start = t_sent t @ [Db_Query (''START TRANSACTION'' @ snapshot_text consistent)] in
    if e_ok E start then
      \<exists>sent. t_sent (snd (body (t\<lparr>t_sent := start, finished := False\<rparr>))) = start @ sent \<and>
        (case fst (body (t\<lparr>t_sent := start, finished := False\<rparr>)) of
           Inl (Throw e) \<Rightarrow> r = Inl (Throw e) \<and> t_sent t' = start @ sent @ [Db_Query ''ROLLBACK'']
         | Inl (UB u) \<Rightarrow> r = Inl (UB u) \<and> t_sent t' = start @ sent
         | Inl Diverge \<Rightarrow> r = Inl Diverge \<and> t_sent t' = start @ sent
         | Inr x \<Rightarrow> if e_ok E (start @ sent @ [Db_Query ''COMMIT''])
             then r = Inr x \<and> t_sent t' = start @ sent @ [Db_Query ''COMMIT'']
             else r = Inl (Throw (BadQuery (e_error E))) \<and>
               t_sent t' = start @ sent @ [Db_Query ''COMMIT'', Db_Query ''ROLLBACK''])
    else r = Inl (Throw (BadQuery (e_error E))) \<and> t_sent t' = start"
proof -
  let ?start = "t_sent t @ [Db_Query (''START TRANSACTION'' @ snapshot_text consistent)]"
  let ?t = "t\<lparr>t_sent := ?start, finished := False\<rparr>"
  obtain r1 t1 where b: "body ?t = (r1, t1)" by (cases "body ?t")
  obtain sent where sent: "t1 = ?t\<lparr>t_sent := ?start @ sent\<rparr>"
    using assms(2) b by (force simp: only_sends_def dest!: spec [of _ ?t])
  show ?thesis
    using assms(1) b sent
    by (cases r1 rule: leaves_scope.cases)
      (auto simp: with_transaction_def at_exit_def Transaction_begin_run commit_run Transaction_destroy_run bind_def Let_def)
qed

theorem transaction_all_or_nothing_witness:
  "t_sent (snd (with_transaction example_env False
     (bind (conn_query ''UPDATE'' (execute_default example_env)) (\<lambda>_. fault (Throw OutOfRange)) :: unit tx)
     \<lparr>t_sent = [], t_throw = True, finished = True\<rparr>)) =
   [Db_Query ''START TRANSACTION'', Db_Query ''UPDATE'', Db_Query ''ROLLBACK'']"
proof -
  let ?t = "\<lparr>t_sent = [], t_throw = True, finished = True\<rparr>"
  let ?body = "bind (conn_query ''UPDATE'' (execute_default example_env)) (\<lambda>_. fault (Throw OutOfRange)) :: unit tx"
  have ok: "e_ok example_env h" for h by (simp add: example_env_def)
  have "only_sends ?body"
    by (auto simp: only_sends_def conn_query_run outcome_def ok bind_def)
  then show ?thesis
    using transaction_all_or_nothing [where t = ?t and body = ?body and E = example_env and consistent = False]
    by (auto simp: conn_query_run outcome_def ok bind_def snapshot_text_def Let_def case_prod_beta)
qed

end
