(* ===== verification/Sql_Manip.thy ===== *)
theory Sql_Manip
  imports Sql_Template Sql_Driver Codec
begin

text \<open>
  Building statements from values: the stream manipulators of MySQL++ (\<open>mysqlpp/lib/manip.cpp\<close>),
  escaping (\<open>dbdriver.cpp\<close>, \<open>query.cpp\<close>, \<open>sqlstream.cpp\<close>, \<open>qparms.cpp\<close>), lists of values and of
  equations (\<open>vallist.h\<close>, \<open>vallist.cpp\<close>), and sets (\<open>myset.h\<close>). The two escape functions of the C
  library are parameters: that of the connection is in \<open>sql_env\<close>, the other one is for streams
  without a connection.
\<close>

section \<open>Escaping\<close>

record manip_env =
  m_sql :: sql_env
  m_no_conn :: "string \<Rightarrow> string"

text \<open>
  \<open>escape_string(ps, original, length)\<close> around a C function \<open>esc\<close>. A null pointer is \<open>None\<close>; a length
  of zero means a text that ends at its zero byte. The C function writes into a buffer of twice the
  length and one.
\<close>

definition escape_source :: "string \<Rightarrow> string option \<Rightarrow> nat \<Rightarrow> string" where
  "escape_source s original len = (case original of
     None \<Rightarrow> s
   | Some t \<Rightarrow> if len = 0 then takeWhile (\<lambda>c. c \<noteq> CHR 0x00) t else take len t)"

definition escape_into ::
  "(string \<Rightarrow> string) \<Rightarrow> string option \<Rightarrow> string option \<Rightarrow> nat \<Rightarrow> (nat \<times> string option) res" where
  "escape_into esc ps original len = (case ps of
     None \<Rightarrow> Inr (0, None)
   | Some s \<Rightarrow> (let t = escape_source s original len in
       if 2 * length t < length (esc t) then Inl (UB OutOfBounds)
       else Inr (length (esc t), Some (esc t))))"

definition DBDriver_escape_string ::
  "(string \<Rightarrow> string) \<Rightarrow> string option \<Rightarrow> string option \<Rightarrow> nat \<Rightarrow> (nat \<times> string option) drv" where
  "DBDriver_escape_string esc ps original len =
     bind clear_error (\<lambda>_. lift (escape_into esc ps original len))"

section \<open>Streams\<close>

text \<open>
  What \<open>dynamic_cast\<close> finds out about a stream: a \<open>Query\<close> or a \<open>SQLStream\<close>, with or without a live
  connection, or another stream. The text driver's error message, which escaping clears, is not
  part of a stream.
\<close>

datatype stream_class = Of_Query (live: bool) | Of_SQLStream (live: bool) | Other_Stream

record stream =
  s_class :: stream_class
  s_text :: string
  s_width :: nat
  s_fill :: char
  s_left :: bool

definition is_sql :: "stream \<Rightarrow> bool" where
  "is_sql o1 \<longleftrightarrow> s_class o1 \<noteq> Other_Stream"

text \<open>Unformatted output, and formatted output, which pads the text and resets the width.\<close>

definition put_text :: "string \<Rightarrow> stream \<Rightarrow> stream" where
  "put_text t o1 = o1\<lparr>s_text := s_text o1 @ t\<rparr>"

definition formatted :: "string \<Rightarrow> stream \<Rightarrow> stream" where
  "formatted t o1 = (let pad = replicate (s_width o1 - length t) (s_fill o1) in
     o1\<lparr>s_text := s_text o1 @ (if s_left o1 then t @ pad else pad @ t), s_width := 0\<rparr>)"

definition class_escape :: "manip_env \<Rightarrow> stream_class \<Rightarrow> string \<Rightarrow> string" where
  "class_escape M cls = (case cls of Other_Stream \<Rightarrow> id
     | _ \<Rightarrow> if live cls then e_escape (m_sql M) else m_no_conn M)"

definition Query_escape_string ::
  "manip_env \<Rightarrow> bool \<Rightarrow> string option \<Rightarrow> string option \<Rightarrow> nat \<Rightarrow> (nat \<times> string option) res" where
  "Query_escape_string M conn = escape_into (class_escape M (Of_Query conn))"

definition SQLStream_escape_string ::
  "manip_env \<Rightarrow> bool \<Rightarrow> string option \<Rightarrow> string option \<Rightarrow> nat \<Rightarrow> (nat \<times> string option) res" where
  "SQLStream_escape_string M conn = escape_into (class_escape M (Of_SQLStream conn))"

text \<open>\<open>in.data()\<close> and \<open>in.length()\<close> of a value.\<close>

definition data_ptr :: "adapter \<Rightarrow> string option" where
  "data_ptr a = map_option buf_data (ad_buffer a)"

definition escaped_on :: "manip_env \<Rightarrow> stream \<Rightarrow> adapter \<Rightarrow> string res" where
  "escaped_on M o1 a = rbind
     (case s_class o1 of
        Of_Query c \<Rightarrow> Query_escape_string M c (Some []) (data_ptr a) (length (sta_data a))
      | Of_SQLStream c \<Rightarrow> SQLStream_escape_string M c (Some []) (data_ptr a) (length (sta_data a))
      | Other_Stream \<Rightarrow> Inr (0, Some []))
     (\<lambda>(n, ps). Inr (the ps))"

definition SQLStream_new :: "bool \<Rightarrow> string option \<Rightarrow> stream" where
  "SQLStream_new conn pstr = \<lparr>s_class = Of_SQLStream conn, s_text = (case pstr of None \<Rightarrow> [] | Some s \<Rightarrow> s),
     s_width = 0, s_fill = CHR '' '', s_left = False\<rparr>"

section \<open>Manipulators on streams\<close>

definition in_quotes :: "bool \<Rightarrow> char \<Rightarrow> string \<Rightarrow> string" where
  "in_quotes b c s = (if b then [c] @ s @ [c] else s)"

definition plain_stream :: "adapter \<Rightarrow> stream \<Rightarrow> stream" where
  "plain_stream a o1 = (if is_sql o1 then put_text (sta_data a) o1 else formatted (sta_data a) o1)"

definition content :: "manip_env \<Rightarrow> adapter \<Rightarrow> stream \<Rightarrow> string res" where
  "content M a o1 = (if sta_escape_q (e_platform (m_sql M)) a then escaped_on M o1 a else Inr (sta_data a))"

definition quote_stream :: "manip_env \<Rightarrow> adapter \<Rightarrow> stream \<Rightarrow> stream res" where
  "quote_stream M a o1 = (if is_sql o1 then
       rbind (content M a o1) (\<lambda>s. Inr (put_text (in_quotes (sta_quote_q (e_platform (m_sql M)) a) (CHR 0x27) s) o1))
     else Inr (formatted (sta_data a) o1))"

definition quote_only_with :: "char \<Rightarrow> manip_env \<Rightarrow> adapter \<Rightarrow> stream \<Rightarrow> stream res" where
  "quote_only_with c M a o1 = Inr (if is_sql o1 then
       put_text (in_quotes (sta_quote_q (e_platform (m_sql M)) a) c (sta_data a)) o1
     else formatted [c] (plain_stream a (formatted [c] o1)))"

definition quote_only_stream :: "manip_env \<Rightarrow> adapter \<Rightarrow> stream \<Rightarrow> stream res" where
  "quote_only_stream = quote_only_with (CHR 0x27)"

definition quote_double_only_stream :: "manip_env \<Rightarrow> adapter \<Rightarrow> stream \<Rightarrow> stream res" where
  "quote_double_only_stream = quote_only_with (CHR 0x22)"

definition escape_stream :: "manip_env \<Rightarrow> adapter \<Rightarrow> stream \<Rightarrow> stream res" where
  "escape_stream M a o1 = (if is_sql o1 then rbind (content M a o1) (\<lambda>s. Inr (put_text s o1))
     else Inr (formatted (sta_data a) o1))"

definition do_nothing_stream :: "adapter \<Rightarrow> stream \<Rightarrow> stream" where
  "do_nothing_stream a o1 = (if is_sql o1 then put_text (sta_data a) o1 else plain_stream a o1)"

datatype manip = Quote | Quote_only | Quote_double_only | Escape | Do_nothing

fun manipulate :: "manip_env \<Rightarrow> manip \<Rightarrow> adapter \<Rightarrow> stream \<Rightarrow> stream res" where
  "manipulate M Quote a o1 = quote_stream M a o1"
| "manipulate M Quote_only a o1 = quote_only_stream M a o1"
| "manipulate M Quote_double_only a o1 = quote_double_only_stream M a o1"
| "manipulate M Escape a o1 = escape_stream M a o1"
| "manipulate M Do_nothing a o1 = Inr (do_nothing_stream a o1)"

section \<open>Manipulators on parameter lists\<close>

text \<open>
  A list knows the query it belongs to, or none; then escaping leaves the receiving text as it is.
  The operators change the value they insert, and insert a copy of it.
\<close>

record qparms =
  qp_parent :: "stream_class option"
  qp_list :: "adapter list"

definition SQLQueryParms_escape_string ::
  "manip_env \<Rightarrow> qparms \<Rightarrow> string option \<Rightarrow> string option \<Rightarrow> nat \<Rightarrow> (nat \<times> string option) res" where
  "SQLQueryParms_escape_string M p ps original len = (case qp_parent p of
     Some cls \<Rightarrow> escape_into (class_escape M cls) ps original len
   | None \<Rightarrow> Inr (0, ps))"

definition insert_param :: "adapter \<Rightarrow> qparms \<Rightarrow> qparms" where
  "insert_param a p = p\<lparr>qp_list := push_param a (qp_list p)\<rparr>"

definition unchanged_param :: "adapter \<Rightarrow> qparms \<Rightarrow> adapter \<times> qparms" where
  "unchanged_param a p = (set_processed a, insert_param (set_processed a) p)"

definition escaped_param :: "manip_env \<Rightarrow> adapter \<Rightarrow> qparms \<Rightarrow> string res" where
  "escaped_param M a p = rbind (SQLQueryParms_escape_string M p (Some []) (data_ptr a) (length (sta_data a)))
     (\<lambda>(n, ps). Inr (the ps))"

definition quote_param :: "manip_env \<Rightarrow> adapter \<Rightarrow> qparms \<Rightarrow> (adapter \<times> qparms) res" where
  "quote_param M a p = (let pl = e_platform (m_sql M) in
     if sta_quote_q pl a then rbind (escaped_param M a p) (\<lambda>s.
       Inr (a, insert_param (STA_string pl (in_quotes True (CHR 0x27) s) True) p))
     else Inr (unchanged_param a p))"

definition quote_only_param_with :: "char \<Rightarrow> manip_env \<Rightarrow> adapter \<Rightarrow> qparms \<Rightarrow> (adapter \<times> qparms) res" where
  "quote_only_param_with c M a p = (let pl = e_platform (m_sql M) in
     Inr (if sta_quote_q pl a
       then (a, insert_param (STA_string pl (in_quotes True c (sta_data a)) True) p)
       else unchanged_param a p))"

definition quote_only_param :: "manip_env \<Rightarrow> adapter \<Rightarrow> qparms \<Rightarrow> (adapter \<times> qparms) res" where
  "quote_only_param = quote_only_param_with (CHR 0x27)"

definition quote_double_only_param :: "manip_env \<Rightarrow> adapter \<Rightarrow> qparms \<Rightarrow> (adapter \<times> qparms) res" where
  "quote_double_only_param = quote_only_param_with (CHR 0x22)"

definition escape_param :: "manip_env \<Rightarrow> adapter \<Rightarrow> qparms \<Rightarrow> (adapter \<times> qparms) res" where
  "escape_param M a p = (let pl = e_platform (m_sql M) in
     if sta_escape_q pl a then rbind (escaped_param M a p) (\<lambda>s. Inr (a, insert_param (STA_string pl s True) p))
     else Inr (unchanged_param a p))"

definition do_nothing_param :: "adapter \<Rightarrow> qparms \<Rightarrow> adapter \<times> qparms" where
  "do_nothing_param = unchanged_param"

definition ignore_param :: "adapter \<Rightarrow> qparms \<Rightarrow> adapter \<times> qparms" where
  "ignore_param a p = (a, insert_param a p)"

section \<open>Lists of values and of equations\<close>

text \<open>Both loops start with the first element without asking whether there is one.\<close>

fun value_list_ba :: "manip_env \<Rightarrow> manip \<Rightarrow> string \<Rightarrow> adapter list \<Rightarrow> stream \<Rightarrow> stream res" where
  "value_list_ba M m d [] o1 = Inl (UB OutOfBounds)"
| "value_list_ba M m d (a # as) o1 = rbind (manipulate M m a o1) (\<lambda>o2.
     if as = [] then Inr o2 else value_list_ba M m d as (formatted d o2))"

text \<open>With a vector of flags; reading the vector beyond its end is undefined.\<close>

fun value_list_b :: "manip_env \<Rightarrow> manip \<Rightarrow> string \<Rightarrow> adapter list \<Rightarrow> bool list \<Rightarrow> stream \<Rightarrow> stream res" where
  "value_list_b M m d [] fs o1 = Inl (UB OutOfBounds)"
| "value_list_b M m d (a # as) [] o1 = Inl (UB OutOfBounds)"
| "value_list_b M m d (a # as) (f # fs) o1 = rbind (if f then manipulate M m a o1 else Inr o1) (\<lambda>o2.
     if as = [] then Inr o2
     else if fs = [] then Inl (UB OutOfBounds)
     else value_list_b M m d as fs (if hd fs then formatted d o2 else o2))"

definition equation :: "manip_env \<Rightarrow> manip \<Rightarrow> string \<Rightarrow> string \<Rightarrow> adapter \<Rightarrow> stream \<Rightarrow> stream res" where
  "equation M m e x a o1 = manipulate M m a (formatted e (formatted x o1))"

fun equal_list_ba ::
  "manip_env \<Rightarrow> manip \<Rightarrow> string \<Rightarrow> string \<Rightarrow> string list \<Rightarrow> adapter list \<Rightarrow> stream \<Rightarrow> stream res" where
  "equal_list_ba M m d e (x # xs) (a # as) o1 = rbind (equation M m e x a o1) (\<lambda>o2.
     if xs = [] \<or> as = [] then Inr o2 else equal_list_ba M m d e xs as (formatted d o2))"
| "equal_list_ba M m d e xs as o1 = Inl (UB OutOfBounds)"

fun equal_list_b ::
  "manip_env \<Rightarrow> manip \<Rightarrow> string \<Rightarrow> string \<Rightarrow> string list \<Rightarrow> adapter list \<Rightarrow> bool list \<Rightarrow> stream \<Rightarrow> stream res" where
  "equal_list_b M m d e (x # xs) (a # as) (f # fs) o1 =
     rbind (if f then equation M m e x a o1 else Inr o1) (\<lambda>o2.
     if xs = [] \<or> as = [] then Inr o2
     else if fs = [] then Inl (UB OutOfBounds)
     else equal_list_b M m d e xs as fs (if hd fs then formatted d o2 else o2))"
| "equal_list_b M m d e xs as fs o1 = Inl (UB OutOfBounds)"

text \<open>
  \<open>create_vector\<close>: from at most thirteen flags, the missing ones false, and from the names of
  fields, of which the first empty one ends the list. \<open>field_num\<close> is the caller's.
\<close>

definition thirteen :: "bool list \<Rightarrow> bool list" where
  "thirteen ts = take 13 (ts @ replicate 13 False)"

definition create_vector :: "nat \<Rightarrow> bool list \<Rightarrow> bool list" where
  "create_vector n ts = (if 1 \<le> n \<and> n \<le> 12 then take n (thirteen ts) else thirteen ts)"

fun set_named :: "(string \<Rightarrow> nat) \<Rightarrow> string list \<Rightarrow> bool list \<Rightarrow> bool list res" where
  "set_named field_num [] v = Inr v"
| "set_named field_num (s # ss) v =
     (if length v \<le> field_num s then Inl (UB OutOfBounds)
      else let v' = v[field_num s := True] in
        if ss \<noteq> [] \<and> hd ss = [] then Inr v' else set_named field_num ss v')"

definition create_vector_named :: "(string \<Rightarrow> nat) \<Rightarrow> nat \<Rightarrow> string list \<Rightarrow> bool list res" where
  "create_vector_named field_num n ss = set_named field_num ss (replicate n False)"

text \<open>The forms with flags given one by one.\<close>

definition value_list_flags :: "manip_env \<Rightarrow> manip \<Rightarrow> string \<Rightarrow> adapter list \<Rightarrow> bool list \<Rightarrow> stream \<Rightarrow> stream res" where
  "value_list_flags M m d s ts = value_list_b M m d s (create_vector (length s) ts)"

definition equal_list_flags ::
  "manip_env \<Rightarrow> manip \<Rightarrow> string \<Rightarrow> string \<Rightarrow> string list \<Rightarrow> adapter list \<Rightarrow> bool list \<Rightarrow> stream \<Rightarrow> stream res" where
  "equal_list_flags M m d e s1 s2 ts = equal_list_b M m d e s1 s2 (create_vector (length s1) ts)"

section \<open>Sets\<close>

text \<open>
  A set by its elements in order: the text it is written as, and the elements that are inserted when
  a text is read.
\<close>

fun show_set :: "string list \<Rightarrow> stream \<Rightarrow> stream" where
  "show_set [] o1 = o1"
| "show_set (x # xs) o1 = (if xs = [] then formatted x o1 else show_set xs (formatted '','' (formatted x o1)))"

fun set2container :: "string \<Rightarrow> string \<Rightarrow> string list" where
  "set2container [] temp = (if temp = [] then [] else [temp])"
| "set2container (c # s) temp =
     (if c = CHR 0x00 then (if temp = [] then [] else [temp])
      else if c = CHR '','' then temp # (case s of [] \<Rightarrow> set2container [] []
        | b # s' \<Rightarrow> if b = CHR 0x00 then [] else set2container s' [])
      else set2container s (temp @ [c]))"

definition Set_of_text :: "string \<Rightarrow> string list" where
  "Set_of_text str = set2container str []"

text \<open>The quoting manipulators write a set between two quotes as it is.\<close>

definition quote_set :: "char \<Rightarrow> string list \<Rightarrow> stream \<Rightarrow> stream" where
  "quote_set c xs o1 = formatted [c] (show_set xs (formatted [c] o1))"

section \<open>Reading literals back\<close>

text \<open>
  A string literal of a statement: from a quote to the next quote that no backslash stands before.
  Lists of literals are separated by commas.
\<close>

fun literal_body :: "string \<Rightarrow> (string \<times> string) res" where
  "literal_body [] = Inl (Throw InvalidArgument)"
| "literal_body (c # s) =
     (if c = CHR 0x27 then Inr ([], s)
      else if c = CHR 0x5C then (case s of [] \<Rightarrow> Inl (Throw InvalidArgument)
        | d # s' \<Rightarrow> rbind (literal_body s') (\<lambda>(b, r). Inr (c # d # b, r)))
      else rbind (literal_body s) (\<lambda>(b, r). Inr (c # b, r)))"

definition read_literal :: "string \<Rightarrow> (string \<times> string) res" where
  "read_literal s = (case s of c # r \<Rightarrow> if c = CHR 0x27 then literal_body r else Inl (Throw InvalidArgument)
     | [] \<Rightarrow> Inl (Throw InvalidArgument))"

lemma rbind_cong [fundef_cong]:
  "m = n \<Longrightarrow> (\<And>x. n = Inr x \<Longrightarrow> f x = g x) \<Longrightarrow> rbind m f = rbind n g"
  by (cases n) auto

lemma literal_body_shorter: "literal_body s = Inr (b, r) \<Longrightarrow> length r < length s"
proof (induction s arbitrary: b r rule: literal_body.induct)
  case (2 c s)
  then show ?case
    by (auto simp: rbind_def split: if_splits list.splits sum.splits prod.splits) fastforce+
qed simp

lemma read_literal_shorter: "read_literal s = Inr (b, r) \<Longrightarrow> length r < length s"
  using literal_body_shorter by (fastforce simp: read_literal_def split: list.splits if_splits)

function read_literals :: "string \<Rightarrow> string list res" where
  "read_literals s = rbind (read_literal s) (\<lambda>(b, r). case r of
       [] \<Rightarrow> Inr [b]
     | c # r' \<Rightarrow> if c = CHR '','' then rbind (read_literals r') (\<lambda>bs. Inr (b # bs)) else Inl (Throw InvalidArgument))"
  by pat_completeness auto

termination
  by (relation "measure length") (auto dest!: read_literal_shorter)

declare read_literals.simps [simp del]

lemma literal_body_append: "literal_body s = Inr (b, r) \<Longrightarrow> literal_body (s @ t) = Inr (b, r @ t)"
  by (induction s arbitrary: b r rule: literal_body.induct)
    (auto simp: rbind_eq_Inr_iff split: if_splits list.splits)

definition quote_text :: "string \<Rightarrow> string" where
  "quote_text b = [CHR 0x27] @ b @ [CHR 0x27]"

definition closed_body :: "string \<Rightarrow> bool" where
  "closed_body b \<longleftrightarrow> literal_body (b @ [CHR 0x27]) = Inr (b, [])"

interpretation literal: codec quote_text read_literal closed_body
proof unfold_locales
  fix b rest
  assume "closed_body b"
  then show "read_literal (quote_text b @ rest) = Inr (b, rest)"
    using literal_body_append [of "b @ [CHR 0x27]" b "[]" rest]
    by (simp add: closed_body_def quote_text_def read_literal_def)
qed

fun joined :: "string \<Rightarrow> string list \<Rightarrow> string" where
  "joined d [] = []"
| "joined d (x # xs) = (if xs = [] then x else x @ d @ joined d xs)"

lemma read_literals_joined:
  assumes "bs \<noteq> []" and "list_all closed_body bs"
  shows "read_literals (joined '','' (map quote_text bs)) = Inr bs"
  using assms
proof (induction bs)
  case (Cons b bs)
  then show ?case
    using literal.dec_enc [of b] literal.dec_enc_Nil [of b]
    by (cases "bs = []") (simp_all add: read_literals.simps [of "quote_text b"]
      read_literals.simps [of "quote_text b @ s" for s])
qed simp

text \<open>
  What the C library documents of its escape functions: every character is kept, unless it is a
  quote or a backslash, or replaced by a backslash and one character, which tells it from the others.
\<close>

definition escapes_characters :: "(string \<Rightarrow> string) \<Rightarrow> bool" where
  "escapes_characters esc \<longleftrightarrow> (\<exists>ec. inj ec \<and> (\<forall>s. esc s = concat (map ec s)) \<and>
     (\<forall>c. ec c = [c] \<and> c \<noteq> CHR 0x27 \<and> c \<noteq> CHR 0x5C \<or> (\<exists>d. ec c = [CHR 0x5C, d])))"

lemma escaped_closed: "escapes_characters esc \<Longrightarrow> closed_body (esc s)"
proof -
  assume "escapes_characters esc"
  then obtain ec where "\<And>s. esc s = concat (map ec s)"
    and ec: "\<And>c. ec c = [c] \<and> c \<noteq> CHR 0x27 \<and> c \<noteq> CHR 0x5C \<or> (\<exists>d. ec c = [CHR 0x5C, d])"
    unfolding escapes_characters_def by blast
  moreover have "literal_body (concat (map ec s) @ [CHR 0x27]) = Inr (concat (map ec s), [])"
  proof (induction s)
    case (Cons c s)
    then show ?case using ec [of c] by auto
  qed simp
  ultimately show ?thesis by (simp add: closed_body_def)
qed

lemma escaped_length: "escapes_characters esc \<Longrightarrow> length (esc s) \<le> 2 * length s"
proof -
  assume "escapes_characters esc"
  then obtain ec where esc: "\<And>s. esc s = concat (map ec s)"
    and ec: "\<And>c. ec c = [c] \<and> c \<noteq> CHR 0x27 \<and> c \<noteq> CHR 0x5C \<or> (\<exists>d. ec c = [CHR 0x5C, d])"
    unfolding escapes_characters_def by blast
  have "length (ec c) \<le> 2" for c using ec [of c] by auto
  then have "length (concat (map ec s)) \<le> 2 * length s"
    by (induction s) (auto, metis add_2_eq_Suc add_mono)
  then show ?thesis by (simp add: esc)
qed

lemma escaped_inject: "escapes_characters esc \<Longrightarrow> inj esc"
proof
  fix s t
  assume "escapes_characters esc" and eq: "esc s = esc t"
  then obtain ec where ec: "inj ec" "\<And>s. esc s = concat (map ec s)"
    "\<And>c. ec c = [c] \<and> c \<noteq> CHR 0x27 \<and> c \<noteq> CHR 0x5C \<or> (\<exists>d. ec c = [CHR 0x5C, d])"
    unfolding escapes_characters_def by blast
  have "concat (map ec s) = concat (map ec t) \<Longrightarrow> s = t"
  proof (induction s arbitrary: t)
    case Nil
    have "ec d \<noteq> []" for d using ec(3) [of d] by auto
    then show ?case using Nil by (cases t) auto
  next
    case (Cons c s)
    then obtain d t' where t: "t = d # t'" using ec(3) [of c] by (cases t) auto
    have "ec c = ec d \<and> concat (map ec s) = concat (map ec t')"
      using Cons.prems ec(3) [of c] ec(3) [of d] unfolding t by auto
    then show ?case using Cons.IH ec(1) t by (auto dest: injD)
  qed
  then show "s = t" using eq ec(2) by simp
qed

section \<open>Text on a stream of statements\<close>

lemma put_text_append [simp]: "put_text t (put_text s o1) = put_text (s @ t) o1"
  by (simp add: put_text_def)

lemma put_text_fields [simp]:
  "s_class (put_text t o1) = s_class o1" "s_width (put_text t o1) = s_width o1"
  "put_text [] o1 = o1" "is_sql (put_text t o1) = is_sql o1"
  by (simp_all add: put_text_def is_sql_def)

lemma put_text_inject: "put_text s o1 = put_text t o1 \<longleftrightarrow> s = t"
  by (auto simp: put_text_def dest!: arg_cong [of _ _ s_text])

lemma formatted_narrow: "s_width o1 = 0 \<Longrightarrow> formatted t o1 = put_text t o1"
  by (cases o1) (simp add: formatted_def put_text_def)

lemma string_value_facts [simp]:
  "sta_quote_q pl (STA_string pl s b)" "sta_escape_q pl (STA_string pl s b)"
  "sta_data (STA_string pl s b) = s" "data_ptr (STA_string pl s b) = Some s"
  "sta_is_null (STA_string pl s b) = Inr False" "ad_processed (STA_string pl s b) = b"
proof -
  have "c_type (types pl ! base_type pl (string_type pl)) \<noteq> Plain T_DateTime"
    using string_type_quotes(2) [of pl] by (auto simp: type_escape_q_def escape_types_def)
  then show "sta_quote_q pl (STA_string pl s b)"
    by (simp add: STA_string_def adapter_of_def sta_quote_q_def buffer_quote_q_def string_type_quotes)
qed (simp_all add: STA_string_def adapter_of_def sta_escape_q_def string_type_quotes sta_data_def
    data_ptr_def sta_is_null_def)

lemma STA_copy_string [simp]: "STA_copy (STA_string pl s b) = STA_string pl s False"
  by (simp add: STA_copy_def STA_string_def adapter_of_def)

lemma escape_into_all:
  assumes "length (esc t) \<le> 2 * length t"
  shows "escape_into esc (Some r) (Some t) (length t) = Inr (length (esc t), Some (esc t))"
  using assms by (auto simp: escape_into_def escape_source_def Let_def)

text \<open>What a manipulator writes on a stream of statements.\<close>

definition item_content :: "manip_env \<Rightarrow> stream_class \<Rightarrow> adapter \<Rightarrow> string" where
  "item_content M cls a = (if sta_escape_q (e_platform (m_sql M)) a then class_escape M cls (sta_data a)
     else sta_data a)"

fun item_text :: "manip_env \<Rightarrow> stream_class \<Rightarrow> manip \<Rightarrow> adapter \<Rightarrow> string" where
  "item_text M cls Quote a = in_quotes (sta_quote_q (e_platform (m_sql M)) a) (CHR 0x27) (item_content M cls a)"
| "item_text M cls Quote_only a = in_quotes (sta_quote_q (e_platform (m_sql M)) a) (CHR 0x27) (sta_data a)"
| "item_text M cls Quote_double_only a = in_quotes (sta_quote_q (e_platform (m_sql M)) a) (CHR 0x22) (sta_data a)"
| "item_text M cls Escape a = item_content M cls a"
| "item_text M cls Do_nothing a = sta_data a"

definition fits_buffer :: "(string \<Rightarrow> string) \<Rightarrow> bool" where
  "fits_buffer esc \<longleftrightarrow> (\<forall>t. length (esc t) \<le> 2 * length t)"

lemma content_sql:
  assumes "is_sql o1" and "fits_buffer (class_escape M (s_class o1))"
  shows "content M a o1 = Inr (item_content M (s_class o1) a)"
proof -
  have "length (class_escape M (s_class o1) (sta_data a)) \<le> 2 * length (sta_data a)"
    using assms(2) by (simp add: fits_buffer_def)
  moreover have "sta_escape_q (e_platform (m_sql M)) a \<Longrightarrow> data_ptr a = Some (sta_data a)"
    by (auto simp: sta_escape_q_def data_ptr_def sta_data_def split: option.splits)
  ultimately show ?thesis
    using assms(1)
    by (cases "s_class o1")
      (auto simp: content_def escaped_on_def item_content_def Query_escape_string_def
        SQLStream_escape_string_def escape_into_all is_sql_def)
qed

lemma manipulate_sql:
  assumes "is_sql o1" and "fits_buffer (class_escape M (s_class o1))"
  shows "manipulate M m a o1 = Inr (put_text (item_text M (s_class o1) m a) o1)"
  using assms content_sql [OF assms, of a]
  by (cases m) (simp_all add: quote_stream_def quote_only_stream_def quote_double_only_stream_def
      quote_only_with_def escape_stream_def do_nothing_stream_def)

lemma value_list_ba_text:
  assumes "is_sql o1" and "s_width o1 = 0" and "fits_buffer (class_escape M (s_class o1))" and "as \<noteq> []"
  shows "value_list_ba M m d as o1 = Inr (put_text (joined d (map (item_text M (s_class o1) m) as)) o1)"
  using assms
  by (induction as arbitrary: o1) (simp_all add: manipulate_sql formatted_narrow)

text \<open>The elements of a list whose flag is set.\<close>

definition selected :: "'a list \<Rightarrow> bool list \<Rightarrow> 'a list" where
  "selected as fs = map fst (filter snd (zip as fs))"

lemma selected_simps [simp]:
  "selected [] fs = []"
  "selected (a # as) (f # fs) = (if f then a # selected as fs else selected as fs)"
  by (simp_all add: selected_def)

lemma joined_Cons: "joined d (x # xs) = x @ concat (map (\<lambda>y. d @ y) xs)"
  by (induction xs arbitrary: x) simp_all

lemma value_list_b_text:
  assumes "is_sql o1" and "s_width o1 = 0" and "fits_buffer (class_escape M (s_class o1))"
    and "length as < length fs"
  shows "value_list_b M m d (a # as) fs o1 = Inr (put_text
    ((if hd fs then item_text M (s_class o1) m a else []) @
     concat (map (\<lambda>b. d @ item_text M (s_class o1) m b) (selected as (tl fs)))) o1)"
  using assms
proof (induction as arbitrary: a fs o1)
  case Nil
  then show ?case by (cases fs) (simp_all add: manipulate_sql)
next
  case (Cons b as)
  then obtain f g fs' where "fs = f # g # fs'"
    by (cases fs; cases "tl fs") auto
  moreover have "value_list_b M m d (a # b # as) (f # g # fs') o1 =
      rbind (if f then manipulate M m a o1 else Inr o1) (\<lambda>o2.
        value_list_b M m d (b # as) (g # fs') (if g then formatted d o2 else o2))"
    by (subst value_list_b.simps) (simp del: value_list_b.simps)
  ultimately show ?case
    using Cons.prems Cons.IH by (simp add: manipulate_sql formatted_narrow del: value_list_b.simps)
qed

section \<open>Properties\<close>

text \<open>C29: string values put into a statement with the quote manipulator, as a list separated by
  commas, are read back exactly, whatever characters they contain: the text consists of as many
  string literals as there are values, the body of each is the escaped value, and no other list of
  values gives the same text.\<close>
theorem quoted_values_roundtrip:
  assumes "is_sql o1" and "s_width o1 = 0" and "escapes_characters (class_escape M (s_class o1))"
    and "ss \<noteq> []"
  shows "\<exists>t. value_list_ba M Quote '','' (map (\<lambda>s. STA_string (e_platform (m_sql M)) s False) ss) o1 =
      Inr (put_text t o1) \<and>
    read_literals t = Inr (map (class_escape M (s_class o1)) ss) \<and>
    (\<forall>ss'. ss' \<noteq> [] \<longrightarrow> value_list_ba M Quote '','' (map (\<lambda>s. STA_string (e_platform (m_sql M)) s False) ss') o1 =
      Inr (put_text t o1) \<longrightarrow> ss' = ss)"
proof -
  let ?esc = "class_escape M (s_class o1)" and ?val = "\<lambda>s. STA_string (e_platform (m_sql M)) s False"
  let ?t = "\<lambda>ss. joined '','' (map quote_text (map ?esc ss))"
  have fits: "fits_buffer ?esc" using escaped_length [OF assms(3)] by (simp add: fits_buffer_def)
  have items: "map (item_text M (s_class o1) Quote) (map ?val ss) = map quote_text (map ?esc ss)" for ss
    by (simp add: in_quotes_def item_content_def quote_text_def)
  have written: "value_list_ba M Quote '','' (map ?val ss) o1 = Inr (put_text (?t ss) o1)" if "ss \<noteq> []" for ss
    using value_list_ba_text [OF assms(1,2) fits, of "map ?val ss" Quote "'',''"] that unfolding items by simp
  have read: "read_literals (?t ss) = Inr (map ?esc ss)" if "ss \<noteq> []" for ss
    using read_literals_joined [of "map ?esc ss"] escaped_closed [OF assms(3)] that
    by (simp add: list_all_iff)
  have unique: "ss' = ss" if "ss' \<noteq> []" "?t ss' = ?t ss" for ss'
  proof -
    have "(Inr (map ?esc ss') :: string list res) = Inr (map ?esc ss)"
      using read [OF that(1)] read [OF assms(4)] that(2) by metis
    then have "map ?esc ss' = map ?esc ss" by (rule sum.inject(2) [THEN iffD1])
    then show ?thesis by (rule inj_map_eq_map [OF escaped_inject [OF assms(3)], THEN iffD1])
  qed
  have "ss' = ss" if "ss' \<noteq> []" "value_list_ba M Quote '','' (map ?val ss') o1 = Inr (put_text (?t ss) o1)" for ss'
  proof -
    have "(Inr (put_text (?t ss') o1) :: stream res) = Inr (put_text (?t ss) o1)"
      using written [OF that(1)] that(2) by (rule trans [OF sym])
    then have "put_text (?t ss') o1 = put_text (?t ss) o1" by (rule sum.inject(2) [THEN iffD1])
    then show ?thesis by (intro unique that(1) put_text_inject [THEN iffD1])
  qed
  then show ?thesis using written [OF assms(4)] read [OF assms(4)] by blast
qed

text \<open>The characters that \<open>mysql_escape_string\<close> is documented to escape.\<close>

definition escape_char :: "char \<Rightarrow> string" where
  "escape_char c = (if c = CHR 0x00 then [CHR 0x5C, CHR ''0''] else if c = CHR 0x0A then [CHR 0x5C, CHR ''n'']
     else if c = CHR 0x0D then [CHR 0x5C, CHR ''r''] else if c = CHR 0x1A then [CHR 0x5C, CHR ''Z'']
     else if c \<in> {CHR 0x5C, CHR 0x27, CHR 0x22} then [CHR 0x5C, c] else [c])"

definition documented_escape :: "string \<Rightarrow> string" where
  "documented_escape s = concat (map escape_char s)"

lemma documented_escapes: "escapes_characters documented_escape"
  unfolding escapes_characters_def
  by (intro exI [of _ escape_char]) (auto simp: inj_def escape_char_def documented_escape_def)

definition example_manip :: manip_env where
  "example_manip = \<lparr>m_sql = example_env\<lparr>e_escape := documented_escape\<rparr>, m_no_conn = documented_escape\<rparr>"

definition example_stream :: stream where
  "example_stream = SQLStream_new False None"

lemma example_stream_facts:
  "is_sql example_stream" "s_width example_stream = 0"
  "class_escape example_manip (s_class example_stream) = documented_escape"
  "fits_buffer (class_escape example_manip (s_class example_stream))"
  using escaped_length [OF documented_escapes]
  by (simp_all add: example_stream_def SQLStream_new_def is_sql_def class_escape_def example_manip_def fits_buffer_def)

theorem quoted_values_roundtrip_witness:
  "\<exists>t. value_list_ba example_manip Quote '',''
      (map (\<lambda>s. STA_string (e_platform example_env) s False) [''it'' @ [CHR 0x27] @ ''s'', [CHR 0x5C]]) example_stream =
      Inr (put_text t example_stream) \<and>
    read_literals t = Inr [''it'' @ [CHR 0x5C, CHR 0x27] @ ''s'', [CHR 0x5C, CHR 0x5C]]"
proof -
  have "map documented_escape [''it'' @ [CHR 0x27] @ ''s'', [CHR 0x5C]] =
      [''it'' @ [CHR 0x5C, CHR 0x27] @ ''s'', [CHR 0x5C, CHR 0x5C]]"
    by (simp add: documented_escape_def escape_char_def)
  then show ?thesis
    using quoted_values_roundtrip [of example_stream example_manip "[''it'' @ [CHR 0x27] @ ''s'', [CHR 0x5C]]"]
      example_stream_facts documented_escapes
    by (auto simp: example_manip_def)
qed

text \<open>A list of values with some of them left out, written on a stream of statements, is the
  list of the values that are kept, with the delimiter between them, if the first value is kept or
  none is; otherwise the text begins with a delimiter.\<close>
theorem sparse_list_text:
  assumes "is_sql o1" and "s_width o1 = 0" and "fits_buffer (class_escape M (s_class o1))"
    and "as \<noteq> []" and "length as \<le> length fs"
  shows "value_list_b M m d as fs o1 =
    (if selected as fs = [] then Inr o1
     else value_list_ba M m d (selected as fs) (if hd fs then o1 else put_text d o1))"
proof -
  obtain a as' f fs' where split: "as = a # as'" "fs = f # fs'" "length as' \<le> length fs'"
    using assms(4,5) by (cases as; cases fs) auto
  let ?item = "item_text M (s_class o1) m"
  have whole: "value_list_b M m d as fs o1 = Inr (put_text ((if f then ?item a else []) @
      concat (map (\<lambda>b. d @ ?item b) (selected as' fs'))) o1)"
    using value_list_b_text [OF assms(1-3), of as' fs m d a] split by simp
  show ?thesis
  proof (cases "selected as fs")
    case Nil
    then show ?thesis using whole split by (cases f) simp_all
  next
    case (Cons b bs)
    have "value_list_ba M m d (b # bs) (put_text s o1) =
        Inr (put_text (s @ ?item b @ concat (map (\<lambda>c. d @ ?item c) bs)) o1)" for s
      using value_list_ba_text [of "put_text s o1" M "b # bs" m d] assms
      by (simp add: joined_Cons comp_def del: value_list_ba.simps joined.simps)
    from this [of d] this [of "[]"] show ?thesis
      using whole Cons split by (cases f) (simp_all del: value_list_ba.simps)
  qed
qed

theorem sparse_list_text_witness:
  "value_list_b example_manip Do_nothing '',''
     (map (\<lambda>s. STA_string (e_platform example_env) s False) [''a'', ''b'', ''c'']) [False, True, True] example_stream =
   Inr (put_text '',b,c'' example_stream)"
  using sparse_list_text [OF example_stream_facts(1,2,4), of
      "map (\<lambda>s. STA_string (e_platform example_env) s False) [''a'', ''b'', ''c'']" "[False, True, True]" Do_nothing "'',''"]
    example_stream_facts formatted_narrow [of "put_text s example_stream" for s]
  by (simp add: selected_def do_nothing_stream_def)

lemma show_set_text:
  "s_width o1 = 0 \<Longrightarrow> show_set xs o1 = put_text (joined '','' xs) o1"
  by (induction xs arbitrary: o1) (simp_all add: formatted_narrow)

definition set_item :: "string \<Rightarrow> bool" where
  "set_item x \<longleftrightarrow> CHR 0x00 \<notin> set x \<and> CHR '','' \<notin> set x \<and> 2 \<le> length x"

lemma set2container_item:
  "CHR 0x00 \<notin> set x \<Longrightarrow> CHR '','' \<notin> set x \<Longrightarrow> set2container (x @ s) t = set2container s (t @ x)"
  by (induction x arbitrary: t) auto

text \<open>Reading back the text of a set loses the first letter of every element but the first
  one: the loop steps over the comma and then over one more character.\<close>
theorem set_text_loses_letters:
  assumes "list_all set_item xs" and "s_width o1 = 0" and "s_text o1 = []"
  shows "Set_of_text (s_text (show_set xs o1)) = (case xs of [] \<Rightarrow> [] | x # ys \<Rightarrow> x # map tl ys)"
proof -
  have step: "set2container (joined '','' (x # ys)) t = (t @ x) # map tl ys"
    if "list_all set_item ys" "CHR 0x00 \<notin> set x" "CHR '','' \<notin> set x" "t @ x \<noteq> []" for x ys t
    using that
  proof (induction ys arbitrary: x t)
    case Nil
    then show ?case using set2container_item [of x "[]" t] by simp
  next
    case (Cons y ys)
    obtain c y' where y: "y = c # y'" "y' \<noteq> []" "c \<noteq> CHR 0x00" "CHR 0x00 \<notin> set y'" "CHR '','' \<notin> set y'"
      using Cons.prems(1) by (cases y; cases "tl y") (auto simp: set_item_def)
    have "joined '','' (y # ys) = c # joined '','' (y' # ys)" using y(1) by simp
    then show ?case
      using Cons.IH [of y' "[]"] Cons.prems y set2container_item [of x "'','' @ c # joined '','' (y' # ys)" t]
      by (simp del: joined.simps) (simp add: joined.simps(2) [of _ x])
  qed
  show ?thesis
  proof (cases xs)
    case (Cons x ys)
    then have "x \<noteq> []" using assms(1) by (auto simp: set_item_def)
    then show ?thesis
      using Cons step [of ys x "[]"] assms
      by (auto simp: show_set_text put_text_def Set_of_text_def set_item_def simp del: joined.simps show_set.simps)
  qed (simp add: assms Set_of_text_def)
qed

theorem set_text_loses_letters_witness:
  "Set_of_text (s_text (show_set [''green'', ''red''] example_stream)) = [''green'', ''ed'']"
  using set_text_loses_letters [of "[''green'', ''red'']" example_stream]
  by (simp add: set_item_def example_stream_def SQLStream_new_def)

text \<open>A value put into the parameters of a connected template query with the quote manipulator
  is quoted and escaped there, but the list holds a copy of it, and a copy is not marked as processed:
  where the template asks for quotes, its text is quoted and escaped a second time.\<close>
theorem quoted_parameter_quoted_twice:
  assumes "qp_parent p = Some (Of_Query True)" and "fits_buffer (e_escape (m_sql M))"
  shows "\<exists>S. quote_param M (STA_string (e_platform (m_sql M)) s b) p =
      Inr (STA_string (e_platform (m_sql M)) s b, p\<lparr>qp_list := qp_list p @ [S]\<rparr>) \<and>
    sta_data S = quote_text (e_escape (m_sql M) s) \<and>
    insertion (m_sql M) CHR ''q'' S False =
      Inr (quote_text (e_escape (m_sql M) (quote_text (e_escape (m_sql M) s))), S)"
proof -
  let ?pl = "e_platform (m_sql M)"
  let ?S = "STA_string ?pl (quote_text (e_escape (m_sql M) s)) False"
  have "length (e_escape (m_sql M) s) \<le> 2 * length s" using assms(2) by (simp add: fits_buffer_def)
  then have "quote_param M (STA_string ?pl s b) p = Inr (STA_string ?pl s b, p\<lparr>qp_list := qp_list p @ [?S]\<rparr>)"
    using assms(1)
    by (simp add: quote_param_def escaped_param_def SQLQueryParms_escape_string_def class_escape_def
        escape_into_all insert_param_def push_param_def in_quotes_def quote_text_def Let_def)
  then show ?thesis
    by (intro exI [of _ ?S]) (simp add: insertion_def pprepare_def quoted_def quote_text_def Let_def)
qed

text \<open>Without a query of its own, a list of parameters receives two quotes with nothing between them.\<close>

lemma unbound_parameter_emptied:
  assumes "qp_parent p = None"
  shows "quote_param M (STA_string (e_platform (m_sql M)) s b) p =
    Inr (STA_string (e_platform (m_sql M)) s b,
      p\<lparr>qp_list := qp_list p @ [STA_string (e_platform (m_sql M)) (quote_text []) False]\<rparr>)"
  using assms
  by (simp add: quote_param_def escaped_param_def SQLQueryParms_escape_string_def insert_param_def
      push_param_def in_quotes_def quote_text_def Let_def)

text \<open>More than thirteen values cannot be selected by flags: the vector is too short for them.\<close>

lemma flags_overread:
  assumes "13 < length as" and "is_sql o1" and "s_width o1 = 0"
  shows "value_list_flags M Do_nothing d as ts o1 = Inl (UB OutOfBounds)"
proof -
  have "value_list_b M Do_nothing d as fs o1 = Inl (UB OutOfBounds)" if "length fs < length as" for as fs o1
    using that by (induction M Do_nothing d as fs o1 rule: value_list_b.induct) auto
  then show ?thesis using assms(1) by (simp add: value_list_flags_def create_vector_def thirteen_def)
qed

end
