(* ===== verification/Sql_Insert.thy ===== *)
theory Sql_Insert
  imports Sql_Manip Sql_Transaction
begin

text \<open>
  Statements that write rows (\<open>mysqlpp/lib/query.h\<close>): \<open>insert\<close>, \<open>replace\<close>, \<open>update\<close>, and \<open>insertfrom\<close>
  and \<open>replacefrom\<close>, which spread the rows over several statements as an insert policy
  (\<open>insertpolicy.h\<close>) allows. A row is the template parameter of these functions; it is given by the
  texts its member functions write.
\<close>

section \<open>Rows and statements\<close>

text \<open>The texts of a row's values depend on the escape function of the stream they are written to.\<close>

record row =
  r_table :: string
  r_fields :: string
  r_values :: "(string \<Rightarrow> string) \<Rightarrow> string"
  r_equals :: "(string \<Rightarrow> string) \<Rightarrow> string"
  r_where :: "(string \<Rightarrow> string) \<Rightarrow> string"

definition reset_query :: "unit qry" where
  "reset_query = modify reset"

definition backquoted :: "string \<Rightarrow> string" where
  "backquoted s = [CHR 0x60] @ s @ [CHR 0x60]"

definition row_head :: "string \<Rightarrow> row \<Rightarrow> string" where
  "row_head verb r = verb @ '' INTO '' @ backquoted (r_table r) @ '' ('' @ r_fields r @ '') VALUES (''"

definition next_values :: "sql_env \<Rightarrow> row \<Rightarrow> string" where
  "next_values E r = '',('' @ r_values r (e_escape E) @ '')''"

definition query_update :: "sql_env \<Rightarrow> row \<Rightarrow> row \<Rightarrow> unit qry" where
  "query_update E old new = block [reset_query,
     insert_text (''UPDATE '' @ backquoted (r_table old) @ '' SET '' @ r_equals new (e_escape E) @
       '' WHERE '' @ r_where old (e_escape E))]"

definition query_insert :: "sql_env \<Rightarrow> row \<Rightarrow> unit qry" where
  "query_insert E v = block [reset_query,
     insert_text (row_head ''INSERT'' v @ r_values v (e_escape E) @ '')'')]"

definition query_replace :: "sql_env \<Rightarrow> row \<Rightarrow> unit qry" where
  "query_replace E v = block [reset_query,
     insert_text (row_head ''REPLACE'' v @ r_values v (e_escape E) @ '')'')]"

definition query_insert_range :: "sql_env \<Rightarrow> row list \<Rightarrow> unit qry" where
  "query_insert_range E rows = bind reset_query (\<lambda>_. case rows of [] \<Rightarrow> ret ()
     | r # rs \<Rightarrow> bind (insert_text (row_head ''INSERT'' r @ r_values r (e_escape E) @ '')'')) (\<lambda>_.
         for_each (\<lambda>r. insert_text (next_values E r)) rs))"

text \<open>Here the name of the table is written without quotes.\<close>

definition query_replace_range :: "sql_env \<Rightarrow> row list \<Rightarrow> unit qry" where
  "query_replace_range E rows = bind reset_query (\<lambda>_. case rows of [] \<Rightarrow> ret ()
     | r # rs \<Rightarrow> bind (insert_text (''REPLACE INTO '' @ r_table r @ '' ('' @ r_fields r @ '') VALUES ('' @
           r_values r (e_escape E) @ '')'')) (\<lambda>_.
         for_each (\<lambda>r. insert_text (next_values E r)) rs))"

section \<open>Insert policies\<close>

text \<open>
  The policy of the largest packet writes the values to a stream of its own, whose escape function
  depends on the connection it was given.
\<close>

datatype policy =
    RowCount "32 word" "32 word"
  | SizeThreshold int32
  | MaxPacket "string \<Rightarrow> string" int32

definition RowCount_can_add :: "32 word \<Rightarrow> 32 word \<Rightarrow> bool \<times> policy" where
  "RowCount_can_add cur limit = (if limit < cur + 1 then (False, RowCount 0 limit) else (True, RowCount (cur + 1) limit))"

definition SizeThreshold_can_add :: "int32 \<Rightarrow> int32 \<Rightarrow> bool \<times> policy" where
  "SizeThreshold_can_add limit len = (len <s limit, SizeThreshold limit)"

definition MaxPacket_can_add :: "(string \<Rightarrow> string) \<Rightarrow> int32 \<Rightarrow> int32 \<Rightarrow> row \<Rightarrow> bool \<times> policy" where
  "MaxPacket_can_add esc limit len r =
     (len <s limit \<and> word_of_nat (length ('',('' @ r_values r esc @ '')'')) \<le>s limit - len, MaxPacket esc limit)"

fun can_add :: "policy \<Rightarrow> int32 \<Rightarrow> row \<Rightarrow> bool \<times> policy" where
  "can_add (RowCount cur limit) len r = RowCount_can_add cur limit"
| "can_add (SizeThreshold limit) len r = SizeThreshold_can_add limit len"
| "can_add (MaxPacket esc limit) len r = MaxPacket_can_add esc limit len r"

section \<open>Inserting with a policy\<close>

text \<open>
  The state: the query, the policy, the exception setting of the connection, and the flag of the
  transaction object, if there is one (\<open>Transaction\<close> or \<open>NoTransaction\<close>).
\<close>

record bulk =
  b_query :: query
  b_policy :: policy
  b_conn_throw :: bool
  b_finished :: bool
  b_real :: bool

type_synonym 'a blk = "(bulk, 'a) st"

definition on_query :: "'a qry \<Rightarrow> 'a blk" where
  "on_query m s = (case m (b_query s) of (r, q) \<Rightarrow> (r, s\<lparr>b_query := q\<rparr>))"

definition txn_of :: "bulk \<Rightarrow> txn" where
  "txn_of s = \<lparr>t_sent = q_sent (b_query s), t_throw = b_conn_throw s, finished = b_finished s\<rparr>"

definition on_access :: "unit tx \<Rightarrow> unit blk" where
  "on_access m s = (if b_real s then case m (txn_of s) of (r, t) \<Rightarrow>
       (r, s\<lparr>b_query := (b_query s)\<lparr>q_sent := t_sent t\<rparr>, b_finished := finished t\<rparr>)
     else (Inr (), s))"

definition ask_policy :: "row \<Rightarrow> bool blk" where
  "ask_policy r s = (case can_add (b_policy s) (word_of_nat (length (q_sbuffer (b_query s)))) r of
     (ok, p) \<Rightarrow> (Inr ok, s\<lparr>b_policy := p\<rparr>))"

definition write_row :: "sql_env \<Rightarrow> string \<Rightarrow> bool \<Rightarrow> row \<Rightarrow> unit blk" where
  "write_row E verb fresh r = on_query (insert_text
     ((if fresh then row_head verb r else '',('') @ r_values r (e_escape E) @ '')''))"

text \<open>The loop, which gives back \<open>success\<close> and \<open>fresh\<close> as they are when it is left.\<close>

fun insert_loop :: "sql_env \<Rightarrow> string \<Rightarrow> row list \<Rightarrow> bool \<Rightarrow> (bool \<times> bool) blk" where
  "insert_loop E verb [] fresh = ret (True, fresh)"
| "insert_loop E verb (r # rs) fresh = bind (ask_policy r) (\<lambda>ok.
     if ok then bind (write_row E verb fresh r) (\<lambda>_. insert_loop E verb rs False)
     else bind (if fresh then ret True else on_query (exec_default E)) (\<lambda>done.
       if \<not> done then ret (False, fresh)
       else bind (ask_policy r) (\<lambda>ok.
         if ok then bind (write_row E verb True r) (\<lambda>_. insert_loop E verb rs False)
         else bind (gets (\<lambda>s. q_throw (b_query s))) (\<lambda>te.
           if te then fault (Throw (BadInsertPolicy ''Insert policy is too strict''))
           else ret (False, True)))))"

definition send_rows :: "sql_env \<Rightarrow> string \<Rightarrow> row list \<Rightarrow> bool blk" where
  "send_rows E verb rows = bind (insert_loop E verb rows True) (\<lambda>(success, fresh).
     if success \<and> \<not> fresh then on_query (exec_default E) else ret success)"

definition insert_body :: "sql_env \<Rightarrow> string \<Rightarrow> row list \<Rightarrow> unit blk" where
  "insert_body E verb rows = bind (send_rows E verb rows) (\<lambda>success.
     if success then on_access (commit E) else on_access (rollback E))"

definition writefrom :: "sql_env \<Rightarrow> string \<Rightarrow> row list \<Rightarrow> unit blk" where
  "writefrom E verb rows = bind (on_query reset_query) (\<lambda>_.
     if rows = [] then ret ()
     else bind (on_access (Transaction_begin E False)) (\<lambda>_.
       at_exit (insert_body E verb rows) (\<lambda>s. snd (on_access (Transaction_destroy E) s))))"

definition insertfrom :: "sql_env \<Rightarrow> row list \<Rightarrow> unit blk" where
  "insertfrom E = writefrom E ''INSERT''"

definition replacefrom :: "sql_env \<Rightarrow> row list \<Rightarrow> unit blk" where
  "replacefrom E = writefrom E ''REPLACE''"

section \<open>Groups of rows\<close>

text \<open>The statement that writes a group of rows.\<close>

definition stmt :: "sql_env \<Rightarrow> string \<Rightarrow> row list \<Rightarrow> string" where
  "stmt E verb g = (case g of [] \<Rightarrow> []
     | r # rs \<Rightarrow> row_head verb r @ r_values r (e_escape E) @ '')'' @ concat (map (next_values E) rs))"

lemma stmt_Nil [simp]: "stmt E verb [] = []"
  by (simp add: stmt_def)

lemma stmt_snoc: "stmt E verb (g @ [r]) =
    stmt E verb g @ (if g = [] then row_head verb r else '',('') @ r_values r (e_escape E) @ '')''"
  by (cases g) (simp_all add: stmt_def next_values_def)

fun accepted_all :: "sql_env \<Rightarrow> db_call list \<Rightarrow> string list \<Rightarrow> bool" where
  "accepted_all E h [] = True"
| "accepted_all E h (t # ts) = (e_ok E (h @ [Db_Query t]) \<and> accepted_all E (h @ [Db_Query t]) ts)"

lemma accepted_append: "accepted_all E h (ts @ us) \<longleftrightarrow> accepted_all E h ts \<and> accepted_all E (h @ map Db_Query ts) us"
  by (induction ts arbitrary: h) simp_all

lemma exec_plain:
  assumes "q_elems q = []"
  shows "exec_default E q =
    (let h = q_sent q @ [Db_Query (q_sbuffer q)]; q' = q\<lparr>q_sent := h, q_copacetic := e_ok E h\<rparr> in
     if e_ok E h then (Inr True, reset q')
     else (if q_throw q then Inl (Throw (BadQuery (e_error E))) else Inr False, q'))"
  using assms
  by (simp add: exec_default_def bind_Inr [OF str_of_plain] exec_def run_statement_def driver_call_def
      after_success_def complain_def reset_def bind_assoc Let_def)

lemma on_query_run: "m (b_query s) = (r, q) \<Longrightarrow> on_query m s = (r, s\<lparr>b_query := q\<rparr>)"
  by (simp add: on_query_def)

lemma write_row_run:
  assumes "q_sbuffer (b_query s) = stmt E verb g"
  shows "write_row E verb (g = []) r s =
    (Inr (), s\<lparr>b_query := (b_query s)\<lparr>q_sbuffer := stmt E verb (g @ [r])\<rparr>\<rparr>)"
  by (simp add: write_row_def on_query_def insert_text_def assms stmt_snoc)

text \<open>The parts of the state that writing rows leaves alone.\<close>

definition frame :: "bulk \<Rightarrow> bulk \<Rightarrow> bool" where
  "frame s s' \<longleftrightarrow> b_conn_throw s' = b_conn_throw s \<and> b_finished s' = b_finished s \<and> b_real s' = b_real s \<and>
     q_throw (b_query s') = q_throw (b_query s)"

text \<open>How a transaction of a connection with or without exceptions ends after the calls \<open>h\<close>.\<close>

definition ending :: "sql_env \<Rightarrow> bool \<Rightarrow> bool \<Rightarrow> db_call list \<Rightarrow> unit res \<Rightarrow> db_call list \<Rightarrow> bool" where
  "ending E te written h r h' \<longleftrightarrow>
     (if \<not> written then h' = h @ [Db_Query ''ROLLBACK''] \<and> (if te then \<exists>x. r = Inl (Throw x) else r = Inr ())
      else if te \<and> \<not> e_ok E (h @ [Db_Query ''COMMIT'']) then
        r = Inl (Throw (BadQuery (e_error E))) \<and> h' = h @ [Db_Query ''COMMIT'', Db_Query ''ROLLBACK'']
      else r = Inr () \<and> h' = h @ [Db_Query ''COMMIT''])"

lemma ending_leaves: "ending E te written h r h' \<Longrightarrow> leaves_scope r"
  by (auto simp: ending_def split: if_splits)

lemma on_access_run:
  assumes "b_real s"
  shows "on_access m s = (case m (txn_of s) of (r, t) \<Rightarrow>
    (r, s\<lparr>b_query := (b_query s)\<lparr>q_sent := t_sent t\<rparr>, b_finished := finished t\<rparr>))"
  using assms by (simp add: on_access_def)

lemma destroy_sent:
  "b_real s \<Longrightarrow> q_sent (b_query (snd (on_access (Transaction_destroy E) s))) =
    t_sent (snd (Transaction_destroy E (txn_of s)))"
  by (simp add: on_access_run case_prod_beta)

lemma rollback_run:
  "rollback E t = (let h = t_sent t @ [Db_Query ''ROLLBACK'']; done = (e_ok E h \<or> \<not> t_throw t) in
     (if done then Inr () else Inl (Throw (BadQuery (e_error E))),
      t\<lparr>t_sent := h, finished := (done \<or> finished t)\<rparr>))"
  by (cases t) (simp add: rollback_def set_finished_def conn_query_run outcome_def bind_def Let_def)

lemmas access_runs = on_access_run [where m = "commit E" for E] on_access_run [where m = "rollback E" for E]
  commit_run rollback_run destroy_sent Transaction_destroy_run

text \<open>The calls after the transaction has begun.\<close>

definition started :: "query \<Rightarrow> db_call list" where
  "started q = q_sent q @ [Db_Query ''START TRANSACTION'']"

lemma writefrom_started:
  assumes "rows \<noteq> []" and "b_real s" and "b_conn_throw s = q_throw (b_query s)" and "h = started (b_query s)"
    and "q_throw (b_query s) \<longrightarrow> e_ok E h"
  shows "writefrom E verb rows s =
    at_exit (insert_body E verb rows) (\<lambda>s. snd (on_access (Transaction_destroy E) s))
      (s\<lparr>b_query := (reset (b_query s))\<lparr>q_sent := h\<rparr>, b_finished := False\<rparr>)"
  using assms
  by (auto simp: writefrom_def on_query_def reset_query_def bind_def on_access_run Transaction_begin_run
      txn_of_def reset_def snapshot_text_def started_def Let_def)

lemma writefrom_refused:
  assumes "rows \<noteq> []" and "b_real s" and "b_conn_throw s" and "\<not> e_ok E (started (b_query s))"
  shows "\<exists>s'. writefrom E verb rows s = (Inl (Throw (BadQuery (e_error E))), s') \<and>
    q_sent (b_query s') = started (b_query s)"
  using assms
  by (simp add: writefrom_def on_query_def reset_query_def bind_def on_access_run Transaction_begin_run
      txn_of_def reset_def snapshot_text_def started_def Let_def)

text \<open>
  What the proof needs of a policy: an invariant of its state and the rows in the current statement.
  Statements that are full (\<open>full\<close>) or sent at all (\<open>good\<close>) have the properties that
  follow from it.
\<close>

locale insert_policy =
  fixes E :: sql_env and verb :: string
    and Inv :: "policy \<Rightarrow> row list \<Rightarrow> bool" and row_ok :: "row \<Rightarrow> bool"
    and full :: "row list \<Rightarrow> bool" and good :: "row list \<Rightarrow> bool"
  assumes added: "Inv p g \<Longrightarrow> row_ok r \<Longrightarrow> can_add p (word_of_nat (length (stmt E verb g))) r = (True, p') \<Longrightarrow>
      Inv p' (g @ [r])"
    and refused: "Inv p g \<Longrightarrow> row_ok r \<Longrightarrow> can_add p (word_of_nat (length (stmt E verb g))) r = (False, p') \<Longrightarrow>
      Inv p' [] \<and> (g \<noteq> [] \<longrightarrow> full g)"
    and sent_good: "Inv p g \<Longrightarrow> g \<noteq> [] \<Longrightarrow> good g"
begin

definition ready :: "bulk \<Rightarrow> row list \<Rightarrow> bool" where
  "ready s g \<longleftrightarrow> Inv (b_policy s) g \<and> q_sbuffer (b_query s) = stmt E verb g \<and> q_elems (b_query s) = []"

definition too_strict :: bool where
  "too_strict \<longleftrightarrow> (\<exists>p p' r. Inv p [] \<and> row_ok r \<and> can_add p 0 r = (False, p'))"

definition failed :: "db_call list \<Rightarrow> row list list \<Rightarrow> row list \<Rightarrow> bool" where
  "failed h gs rest \<longleftrightarrow> \<not> accepted_all E h (map (stmt E verb) gs) \<or> rest \<noteq> [] \<and> too_strict"

definition groups :: "bulk \<Rightarrow> bulk \<Rightarrow> row list list \<Rightarrow> bool" where
  "groups s s' gs \<longleftrightarrow> frame s s' \<and>
     q_sent (b_query s') = q_sent (b_query s) @ map (\<lambda>g. Db_Query (stmt E verb g)) gs \<and>
     (\<forall>g \<in> set gs. g \<noteq> [] \<and> good g)"

definition loop_result ::
  "bool \<Rightarrow> db_call list \<Rightarrow> row list list \<Rightarrow> row list \<Rightarrow> (bool \<times> bool) res \<Rightarrow> bulk \<Rightarrow> bool" where
  "loop_result te h gs rest res s' = (case res of
      Inr (True, fresh) \<Rightarrow> accepted_all E h (map (stmt E verb) gs) \<and> fresh = (rest = []) \<and> ready s' rest
    | Inr (False, _) \<Rightarrow> \<not> te \<and> failed h gs rest
    | Inl f \<Rightarrow> te \<and> (\<exists>x. f = Throw x) \<and> failed h gs rest)"

definition loop_post :: "bulk \<Rightarrow> row list \<Rightarrow> (bool \<times> bool) res \<times> bulk \<Rightarrow> bool" where
  "loop_post s rows out \<longleftrightarrow> (\<exists>gs rest. groups s (snd out) gs \<and> concat gs @ rest = rows \<and> (\<forall>g \<in> set gs. full g) \<and>
     loop_result (q_throw (b_query s)) (q_sent (b_query s)) gs rest (fst out) (snd out))"

lemma loop_postI:
  assumes "groups s s' gs" and "concat gs @ rest = rows" and "\<forall>g \<in> set gs. full g"
    and "loop_result (q_throw (b_query s)) (q_sent (b_query s)) gs rest res s'"
  shows "loop_post s rows (res, s')"
  using assms by (auto simp: loop_post_def)

lemma groups_frame:
  "b_query s1 = b_query s\<lparr>q_sbuffer := t\<rparr> \<Longrightarrow> frame s s1 \<Longrightarrow> groups s1 s' gs = groups s s' gs"
  by (auto simp: groups_def frame_def)

lemma loop_post_frame:
  assumes "loop_post s1 rows out" and "b_query s1 = b_query s\<lparr>q_sbuffer := t\<rparr>" and "frame s s1"
  shows "loop_post s rows out"
  using assms groups_frame [OF assms(2,3)] by (simp add: loop_post_def)

lemma loop_result_sent:
  assumes "loop_result te (h @ [Db_Query (stmt E verb g)]) gs rest res s'"
    and "e_ok E (h @ [Db_Query (stmt E verb g)])"
  shows "loop_result te h (g # gs) rest res s'"
  using assms by (auto simp: loop_result_def failed_def split: sum.splits prod.splits bool.splits)

lemma loop_post_sent:
  assumes "loop_post s1 rows out" and "frame s s1" and "q_sent (b_query s1) = q_sent (b_query s) @ [Db_Query (stmt E verb g)]"
    and "e_ok E (q_sent (b_query s1))" and "g \<noteq> []" "good g" "full g"
  shows "loop_post s (g @ rows) out"
proof -
  obtain gs rest where post: "groups s1 (snd out) gs" "concat gs @ rest = rows" "\<forall>g \<in> set gs. full g"
    "loop_result (q_throw (b_query s)) (q_sent (b_query s) @ [Db_Query (stmt E verb g)]) gs rest (fst out) (snd out)"
    using assms(1-3) by (auto simp: loop_post_def frame_def)
  have "groups s (snd out) (g # gs)"
    using post(1) assms(2,3,5,6) by (auto simp: groups_def frame_def)
  moreover have "loop_result (q_throw (b_query s)) (q_sent (b_query s)) (g # gs) rest (fst out) (snd out)"
    using loop_result_sent [OF post(4)] assms(3,4) by simp
  ultimately show ?thesis
    using post(2,3) assms(7) unfolding loop_post_def by (intro exI [of _ "g # gs"] exI [of _ rest]) auto
qed

lemma ask_policy_run:
  assumes "ready s g" and "row_ok r"
  obtains p where "ask_policy r s = (Inr True, s\<lparr>b_policy := p\<rparr>)" "Inv p (g @ [r])"
  | p where "ask_policy r s = (Inr False, s\<lparr>b_policy := p\<rparr>)" "Inv p []" "g \<noteq> [] \<longrightarrow> full g"
      "can_add (b_policy s) (word_of_nat (length (stmt E verb g))) r = (False, p)"
proof -
  obtain ok p where c: "can_add (b_policy s) (word_of_nat (length (stmt E verb g))) r = (ok, p)" by fastforce
  then have ask: "ask_policy r s = (Inr ok, s\<lparr>b_policy := p\<rparr>)"
    using assms(1) by (simp add: ask_policy_def ready_def)
  show thesis
  proof (cases ok)
    case True
    then have "Inv p (g @ [r])" using added [of "b_policy s" g r p] c assms by (simp add: ready_def)
    with True show thesis using that(1) [of p] ask by simp
  next
    case False
    then have "Inv p [] \<and> (g \<noteq> [] \<longrightarrow> full g)" using refused [of "b_policy s" g r p] c assms by (simp add: ready_def)
    with False show thesis using that(2) [of p] ask c by simp
  qed
qed

lemma loop_post_refl:
  "loop_result (q_throw (b_query s)) (q_sent (b_query s)) [] rows res s' \<Longrightarrow> frame s s' \<Longrightarrow>
    q_sent (b_query s') = q_sent (b_query s) \<Longrightarrow> loop_post s rows (res, s')"
  by (rule loop_postI [of s s' "[]" rows]) (simp_all add: groups_def)

lemma write_then_loop:
  assumes "q_sbuffer (b_query s) = stmt E verb g" and "q_elems (b_query s) = []" and "Inv (b_policy s) (g @ [r])"
    and IH: "\<And>s. ready s (g @ [r]) \<Longrightarrow> loop_post s ((g @ [r]) @ rs) (insert_loop E verb rs False s)"
  shows "loop_post s (g @ r # rs) (bind (write_row E verb (g = []) r) (\<lambda>_. insert_loop E verb rs False) s)"
proof -
  let ?s = "s\<lparr>b_query := (b_query s)\<lparr>q_sbuffer := stmt E verb (g @ [r])\<rparr>\<rparr>"
  have "loop_post ?s ((g @ [r]) @ rs) (insert_loop E verb rs False ?s)"
    using assms(2,3) by (intro IH) (simp add: ready_def)
  then have "loop_post s ((g @ [r]) @ rs) (insert_loop E verb rs False ?s)"
    by (rule loop_post_frame) (simp_all add: frame_def)
  then show ?thesis by (simp add: bind_Inr [where m = "write_row E verb (g = []) r", OF write_row_run [OF assms(1)]])
qed

text \<open>The second question, after the statement so far has been sent.\<close>

lemma ask_again:
  assumes "ready s []" and "row_ok r"
    and IH: "\<And>s. ready s [r] \<Longrightarrow> loop_post s (r # rs) (insert_loop E verb rs False s)"
  shows "loop_post s (r # rs) (bind (ask_policy r) (\<lambda>ok.
         if ok then bind (write_row E verb True r) (\<lambda>_. insert_loop E verb rs False)
         else bind (gets (\<lambda>s. q_throw (b_query s))) (\<lambda>te.
           if te then fault (Throw (BadInsertPolicy ''Insert policy is too strict''))
           else ret (False, True))) s)"
  using ask_policy_run [OF assms(1,2)]
proof cases
  case (1 p)
  have "loop_post (s\<lparr>b_policy := p\<rparr>) ([] @ r # rs) (bind (write_row E verb ([] = ([] :: row list)) r)
      (\<lambda>_. insert_loop E verb rs False) (s\<lparr>b_policy := p\<rparr>))"
    using assms(1) 1(2) IH by (intro write_then_loop) (auto simp: ready_def)
  from loop_post_frame [OF this, where s = s and t = "q_sbuffer (b_query s)"] show ?thesis
    using 1(1) by (simp add: bind_Inr frame_def)
next
  case (2 p)
  then have too_strict using assms unfolding too_strict_def ready_def by fastforce
  then show ?thesis
    using 2(1) by (auto simp: bind_def loop_result_def failed_def frame_def intro!: loop_post_refl)
qed

lemma insert_loop_post:
  assumes "ready s g" and "list_all row_ok rows"
  shows "loop_post s (g @ rows) (insert_loop E verb rows (g = []) s)"
  using assms
proof (induction rows arbitrary: s g)
  case Nil
  then show ?case by (auto simp: loop_result_def frame_def intro!: loop_post_refl)
next
  case (Cons r rs)
  have IH: "loop_post s (g @ r # rs) (insert_loop E verb rs False s)" if "ready s (g @ [r])" for s g
    using Cons.IH [OF that] Cons.prems(2) by simp
  have r: "row_ok r" using Cons.prems(2) by simp
  from ask_policy_run [OF Cons.prems(1) r] show ?case
  proof cases
    case (1 p)
    have "loop_post (s\<lparr>b_policy := p\<rparr>) (g @ r # rs) (bind (write_row E verb (g = []) r)
        (\<lambda>_. insert_loop E verb rs False) (s\<lparr>b_policy := p\<rparr>))"
      using Cons.prems(1) 1(2) IH by (intro write_then_loop) (auto simp: ready_def)
    from loop_post_frame [OF this, where s = s and t = "q_sbuffer (b_query s)"] show ?thesis
      using 1(1) by (simp add: bind_Inr frame_def)
  next
    case (2 p)
    let ?h = "q_sent (b_query s) @ [Db_Query (stmt E verb g)]"
    let ?q = "(b_query s)\<lparr>q_sent := ?h, q_copacetic := e_ok E ?h\<rparr>"
    let ?again = "bind (ask_policy r) (\<lambda>ok.
         if ok then bind (write_row E verb True r) (\<lambda>_. insert_loop E verb rs False)
         else bind (gets (\<lambda>s. q_throw (b_query s))) (\<lambda>te.
           if te then fault (Throw (BadInsertPolicy ''Insert policy is too strict''))
           else ret (False, True)))"
    have exec: "on_query (exec_default E) (s\<lparr>b_policy := p\<rparr>) =
      (if e_ok E ?h then (Inr True, s\<lparr>b_policy := p, b_query := reset ?q\<rparr>)
       else (if q_throw (b_query s) then Inl (Throw (BadQuery (e_error E))) else Inr False,
         s\<lparr>b_policy := p, b_query := ?q\<rparr>))"
      using Cons.prems(1) by (simp add: on_query_def exec_plain ready_def Let_def)
    show ?thesis
    proof (cases "g = []")
      case True
      have "loop_post (s\<lparr>b_policy := p\<rparr>) (r # rs) (?again (s\<lparr>b_policy := p\<rparr>))"
        using Cons.prems(1) 2(2) True r IH [of _ "[]"] by (intro ask_again) (auto simp: ready_def)
      then have "loop_post s (r # rs) (?again (s\<lparr>b_policy := p\<rparr>))"
        by (rule loop_post_frame [where t = "q_sbuffer (b_query s)"]) (simp_all add: frame_def)
      then show ?thesis using True by (simp add: bind_Inr [where m = "ask_policy r", OF 2(1)])
    next
      case False
      have good: "good g" "full g" using sent_good [of "b_policy s" g] Cons.prems(1) 2(3) False by (simp_all add: ready_def)
      show ?thesis
      proof (cases "e_ok E ?h")
        case True
        let ?s = "s\<lparr>b_policy := p, b_query := reset ?q\<rparr>"
        have "loop_post ?s (r # rs) (?again ?s)"
          using 2(2) r IH [of _ "[]"] by (intro ask_again) (auto simp: ready_def reset_def)
        then have "loop_post s (g @ r # rs) (?again ?s)"
          by (rule loop_post_sent) (use True False good in \<open>simp_all add: frame_def reset_def\<close>)
        then show ?thesis
          using exec True False by (simp add: bind_Inr [where m = "ask_policy r", OF 2(1)] bind_Inr)
      next
        case False
        have "groups s (s\<lparr>b_policy := p, b_query := ?q\<rparr>) [g]"
          using good \<open>g \<noteq> []\<close> by (simp add: groups_def frame_def)
        then have "loop_post s (g @ r # rs) (if q_throw (b_query s) then Inl (Throw (BadQuery (e_error E)))
            else Inr (False, False), s\<lparr>b_policy := p, b_query := ?q\<rparr>)"
          using False good by (intro loop_postI [of _ _ "[g]" "r # rs"]) (simp_all add: loop_result_def failed_def)
        then show ?thesis
          using 2(1) exec False \<open>g \<noteq> []\<close> by (cases "q_throw (b_query s)") (simp_all add: bind_def)
      qed
    qed
  qed
qed

definition send_result :: "bool \<Rightarrow> db_call list \<Rightarrow> row list list \<Rightarrow> row list \<Rightarrow> bool res \<Rightarrow> bool" where
  "send_result te h gs rest res = (case res of
      Inr True \<Rightarrow> rest = [] \<and> accepted_all E h (map (stmt E verb) gs)
    | Inr False \<Rightarrow> \<not> te \<and> failed h gs rest
    | Inl f \<Rightarrow> te \<and> (\<exists>x. f = Throw x) \<and> failed h gs rest)"

lemma send_rows_post:
  assumes "ready s []" and "list_all row_ok rows"
  obtains gs rest where "groups s (snd (send_rows E verb rows s)) gs" "concat gs @ rest = rows"
    "\<forall>g \<in> set (butlast gs). full g"
    "send_result (q_throw (b_query s)) (q_sent (b_query s)) gs rest (fst (send_rows E verb rows s))"
proof -
  let ?te = "q_throw (b_query s)" and ?h = "q_sent (b_query s)"
  obtain res s1 where run: "insert_loop E verb rows True s = (res, s1)" by fastforce
  obtain gs rest where gs: "groups s s1 gs" "concat gs @ rest = rows" "\<forall>g \<in> set gs. full g"
    and res: "loop_result ?te ?h gs rest res s1"
    using insert_loop_post [OF assms] run by (auto simp: loop_post_def)
  have early: "\<forall>g \<in> set (butlast gs). full g" using gs(3) by (auto dest: in_set_butlastD)
  consider (sent) "res = Inr (True, False)" | (all) "res = Inr (True, True)"
    | (stop) b where "res = Inr (False, b)" | (throw) f where "res = Inl f"
    by (metis (full_types) sum.exhaust surj_pair)
  then show thesis
  proof cases
    case sent
    let ?h' = "?h @ map (\<lambda>g. Db_Query (stmt E verb g)) (gs @ [rest])"
    have r: "accepted_all E ?h (map (stmt E verb) gs)" "rest \<noteq> []" "ready s1 rest"
      using res sent by (auto simp: loop_result_def)
    have s1: "q_sent (b_query s1) = ?h @ map (\<lambda>g. Db_Query (stmt E verb g)) gs" "q_throw (b_query s1) = ?te"
      using gs(1) by (simp_all add: groups_def frame_def)
    have exec: "on_query (exec_default E) s1 = (if e_ok E ?h' then (Inr True,
        s1\<lparr>b_query := reset ((b_query s1)\<lparr>q_sent := ?h', q_copacetic := True\<rparr>)\<rparr>)
      else (if ?te then Inl (Throw (BadQuery (e_error E))) else Inr False,
        s1\<lparr>b_query := (b_query s1)\<lparr>q_sent := ?h', q_copacetic := False\<rparr>\<rparr>))"
      using r(3) s1 by (simp add: on_query_def exec_plain ready_def Let_def)
    have "good rest" using sent_good [of "b_policy s1" rest] r by (simp add: ready_def)
    then have "groups s (snd (on_query (exec_default E) s1)) (gs @ [rest])"
      using exec gs(1) r(2) by (auto simp: groups_def frame_def reset_def)
    moreover have "accepted_all E ?h (map (stmt E verb) (gs @ [rest])) \<longleftrightarrow> e_ok E ?h'"
      using r(1) by (simp add: accepted_append comp_def)
    then have "send_result ?te ?h (gs @ [rest]) [] (fst (on_query (exec_default E) s1))"
      using exec by (cases ?te) (auto simp: send_result_def failed_def)
    ultimately show thesis
      using that [of "gs @ [rest]" "[]"] gs(2,3) run sent by (simp add: send_rows_def bind_Inr)
  next
    case all
    then show thesis
      using that [OF _ gs(2) early] gs(1) run res by (auto simp: send_rows_def bind_def loop_result_def send_result_def)
  next
    case (stop b)
    then show thesis
      using that [OF _ gs(2) early] gs(1) run res by (auto simp: send_rows_def bind_def loop_result_def send_result_def)
  next
    case (throw f)
    then show thesis
      using that [OF _ gs(2) early] gs(1) run res by (auto simp: send_rows_def bind_def loop_result_def send_result_def)
  qed
qed

lemma insert_body_post:
  assumes "ready s []" and "list_all row_ok rows" and "b_real s" and "b_conn_throw s = q_throw (b_query s)"
    and "\<not> b_finished s"
  shows "\<exists>gs rest. concat gs @ rest = rows \<and> (\<forall>g \<in> set gs. g \<noteq> [] \<and> good g) \<and> (\<forall>g \<in> set (butlast gs). full g) \<and>
    (let h = q_sent (b_query s); te = q_throw (b_query s); acc = accepted_all E h (map (stmt E verb) gs) in
     (acc \<and> rest \<noteq> [] \<longrightarrow> too_strict) \<and>
     (case insert_body E verb rows s of (r, s') \<Rightarrow>
       ending E te (acc \<and> rest = []) (h @ map (\<lambda>g. Db_Query (stmt E verb g)) gs) r
         (q_sent (b_query (snd (on_access (Transaction_destroy E) s'))))))"
proof -
  obtain res s2 where run: "send_rows E verb rows s = (res, s2)" by fastforce
  obtain gs rest where gs: "groups s s2 gs" "concat gs @ rest = rows" "\<forall>g \<in> set (butlast gs). full g"
    and res: "send_result (q_throw (b_query s)) (q_sent (b_query s)) gs rest res"
    using send_rows_post [OF assms(1,2)] run by auto
  have s2: "b_real s2" "b_conn_throw s2 = q_throw (b_query s)" "\<not> b_finished s2"
    "q_sent (b_query s2) = q_sent (b_query s) @ map (\<lambda>g. Db_Query (stmt E verb g)) gs"
    using gs(1) assms(3-5) by (simp_all add: groups_def frame_def)
  have body: "insert_body E verb rows s = (case res of Inl f \<Rightarrow> (Inl f, s2)
      | Inr b \<Rightarrow> if b then on_access (commit E) s2 else on_access (rollback E) s2)"
    using run by (simp add: insert_body_def bind_def split: sum.split)
  consider (ok) "res = Inr True" | (stop) "res = Inr False" | (throw) x where "res = Inl (Throw x)"
    using res by (cases res) (auto simp: send_result_def)
  then show ?thesis
  proof cases
    case ok
    then show ?thesis
      using res gs s2 body
      by (intro exI [of _ gs] exI [of _ "[]"])
        (simp add: send_result_def groups_def access_runs txn_of_def
          ending_def Let_def)
  next
    case stop
    then show ?thesis
      using res gs s2 body
      by (intro exI [of _ gs] exI [of _ rest])
        (auto simp: send_result_def failed_def groups_def access_runs
          txn_of_def ending_def Let_def)
  next
    case (throw x)
    then show ?thesis
      using res gs s2 body
      by (intro exI [of _ gs] exI [of _ rest])
        (auto simp: send_result_def failed_def groups_def access_runs
          txn_of_def ending_def Let_def)
  qed
qed

lemma writefrom_post:
  assumes "rows \<noteq> []" and "list_all row_ok rows" and "Inv (b_policy s) []" and "b_real s"
    and "b_conn_throw s = q_throw (b_query s)" and "h = started (b_query s)" and "q_throw (b_query s) \<longrightarrow> e_ok E h"
  obtains gs rest where "concat gs @ rest = rows" "\<forall>g \<in> set gs. g \<noteq> [] \<and> good g"
    "\<forall>g \<in> set (butlast gs). full g"
    "accepted_all E h (map (stmt E verb) gs) \<Longrightarrow> rest \<noteq> [] \<Longrightarrow> too_strict"
    "ending E (q_throw (b_query s)) (accepted_all E h (map (stmt E verb) gs) \<and> rest = [])
       (h @ map (\<lambda>g. Db_Query (stmt E verb g)) gs) (fst (writefrom E verb rows s))
       (q_sent (b_query (snd (writefrom E verb rows s))))"
proof -
  let ?s = "s\<lparr>b_query := (reset (b_query s))\<lparr>q_sent := h\<rparr>, b_finished := False\<rparr>"
  have run: "writefrom E verb rows s =
      at_exit (insert_body E verb rows) (\<lambda>s. snd (on_access (Transaction_destroy E) s)) ?s"
    using writefrom_started assms(1,4-7) by blast
  have "ready ?s []" using assms(3) by (simp add: ready_def reset_def)
  then obtain gs rest where "concat gs @ rest = rows \<and> (\<forall>g \<in> set gs. g \<noteq> [] \<and> good g) \<and>
    (\<forall>g \<in> set (butlast gs). full g) \<and>
    (let h = q_sent (b_query ?s); te = q_throw (b_query ?s); acc = accepted_all E h (map (stmt E verb) gs) in
     (acc \<and> rest \<noteq> [] \<longrightarrow> too_strict) \<and>
     (case insert_body E verb rows ?s of (r, s') \<Rightarrow>
       ending E te (acc \<and> rest = []) (h @ map (\<lambda>g. Db_Query (stmt E verb g)) gs) r
         (q_sent (b_query (snd (on_access (Transaction_destroy E) s'))))))"
    using insert_body_post [of ?s rows] assms(2,4,5) by (auto simp: reset_def)
  then show thesis
    using run by (intro that [of gs rest])
        (auto simp: reset_def at_exit_def case_prod_beta Let_def dest: ending_leaves)
qed

end

section \<open>The policies\<close>

interpretation any: insert_policy E verb "\<lambda>_ _. True" "\<lambda>_. True" "\<lambda>_. True" "\<lambda>_. True" for E verb
  by unfold_locales simp_all

text \<open>Counting rows.\<close>

definition counted :: "32 word \<Rightarrow> policy \<Rightarrow> row list \<Rightarrow> bool" where
  "counted n p g \<longleftrightarrow> p = RowCount (word_of_nat (length g)) n \<and> length g \<le> unat n \<and> unat n < 2 ^ 32 - 1"

lemma counted_add:
  assumes "counted n p g"
  shows "can_add p len r = (if length g < unat n then (True, RowCount (word_of_nat (Suc (length g))) n)
    else (False, RowCount 0 n))"
proof -
  have "unat (word_of_nat (length g) + 1 :: 32 word) = Suc (length g)"
    using assms by (simp add: counted_def unat_word_ariths unat_of_nat take_bit_nat_eq_self)
  then have "n < word_of_nat (length g) + 1 \<longleftrightarrow> unat n < Suc (length g)" by (simp add: word_less_nat_alt)
  then show ?thesis using assms by (auto simp: counted_def RowCount_can_add_def add.commute)
qed

interpretation rows: insert_policy E verb "counted n" "\<lambda>_. True" "\<lambda>g. length g = unat n" "\<lambda>g. length g \<le> unat n"
  for E verb n
proof unfold_locales
  fix p g r p' and E verb
  assume "counted n p g" and "can_add p (word_of_nat (length (stmt E verb g))) r = (True, p')"
  then show "counted n p' (g @ [r])" using counted_add by (auto simp: counted_def split: if_splits)
next
  fix p g r p' and E verb
  assume "counted n p g" and "can_add p (word_of_nat (length (stmt E verb g))) r = (False, p')"
  then show "counted n p' [] \<and> (g \<noteq> [] \<longrightarrow> length g = unat n)" using counted_add by (auto simp: counted_def split: if_splits)
qed (simp add: counted_def)

text \<open>The largest packet, with the query's own escape function, for rows of less than two gigabytes.\<close>

definition packet_row :: "sql_env \<Rightarrow> string \<Rightarrow> row \<Rightarrow> bool" where
  "packet_row E verb r \<longleftrightarrow> length (stmt E verb [r]) < 2 ^ 31"

definition packet_fits :: "sql_env \<Rightarrow> string \<Rightarrow> int32 \<Rightarrow> row list \<Rightarrow> bool" where
  "packet_fits E verb limit g \<longleftrightarrow> int (length (stmt E verb g)) \<le> sint limit \<or> length g = 1"

definition packeted :: "sql_env \<Rightarrow> string \<Rightarrow> int32 \<Rightarrow> policy \<Rightarrow> row list \<Rightarrow> bool" where
  "packeted E verb limit p g \<longleftrightarrow> p = MaxPacket (e_escape E) limit \<and> length (stmt E verb g) < 2 ^ 31 \<and>
     (g \<noteq> [] \<longrightarrow> packet_fits E verb limit g)"

lemma sint_length: "n < 2 ^ 31 \<Longrightarrow> sint (word_of_nat n :: int32) = int n"
  by (simp add: signed_of_nat) (intro signed_take_bit_int_eq_self, auto)

lemma packet_add:
  assumes "packeted E verb limit p g" and "packet_row E verb r"
    and "can_add p (word_of_nat (length (stmt E verb g))) r = (True, p')"
  shows "packeted E verb limit p' (g @ [r])"
proof (cases "g = []")
  case True
  then show ?thesis
    using assms by (auto simp: packeted_def packet_row_def packet_fits_def MaxPacket_can_add_def)
next
  case False
  let ?len = "length (stmt E verb g)" and ?add = "length (next_values E r)"
  have add: "?add < 2 ^ 31"
    using assms(2) by (simp add: packet_row_def stmt_def next_values_def row_head_def backquoted_def)
  have p: "p = MaxPacket (e_escape E) limit" "?len < 2 ^ 31" using assms(1) by (simp_all add: packeted_def)
  have less: "int ?len < sint limit" and le: "(word_of_nat ?add :: int32) \<le>s limit - word_of_nat ?len"
    and p': "p' = MaxPacket (e_escape E) limit"
    using assms(3) p by (simp_all add: MaxPacket_can_add_def word_sless_alt sint_length next_values_def)
  have "sint limit < 2 ^ 31" using sint_lt [of limit] by simp
  then have "sint (limit - word_of_nat ?len) = sint limit - int ?len"
    using less p(2) by (simp add: sint_word_ariths sint_length) (intro signed_take_bit_int_eq_self, auto)
  then have "int ?add \<le> sint limit - int ?len"
    using le add by (simp add: word_sle_eq sint_length)
  then show ?thesis
    using p' False \<open>sint limit < 2 ^ 31\<close>
    by (simp add: packeted_def packet_fits_def stmt_snoc next_values_def)
qed

interpretation packets: insert_policy E verb "packeted E verb limit" "packet_row E verb" "\<lambda>_. True"
  "packet_fits E verb limit" for E verb limit
proof unfold_locales
  fix E verb limit p g r p'
  assume "packeted E verb limit p g" and "can_add p (word_of_nat (length (stmt E verb g))) r = (False, p')"
  then show "packeted E verb limit p' [] \<and> (g \<noteq> [] \<longrightarrow> True)"
    by (simp add: packeted_def MaxPacket_can_add_def)
next
  fix E verb limit p g r p'
  assume "packeted E verb limit p g" and "packet_row E verb r"
    and "can_add p (word_of_nat (length (stmt E verb g))) r = (True, p')"
  then show "packeted E verb limit p' (g @ [r])" by (rule packet_add)
qed (simp add: packeted_def)

text \<open>A list cut into pieces of the same length, the last one possibly shorter.\<close>

function chunks :: "nat \<Rightarrow> 'a list \<Rightarrow> 'a list list" where
  "chunks n xs = (if n = 0 \<or> xs = [] then [] else take n xs # chunks n (drop n xs))"
  by pat_completeness auto

termination by (relation "measure (\<lambda>(n, xs). length xs)") auto

declare chunks.simps [simp del]

lemma chunks_concat:
  assumes "0 < n" and "\<forall>g \<in> set gs. g \<noteq> [] \<and> length g \<le> n" and "\<forall>g \<in> set (butlast gs). length g = n"
  shows "chunks n (concat gs) = gs"
  using assms(2,3)
proof (induction gs)
  case (Cons g gs)
  then show ?case
    using assms(1) by (cases "gs = []") (simp_all add: chunks.simps [of n "g @ concat gs"] chunks.simps [of n g]
        chunks.simps [of n "[]"])
qed (simp add: chunks.simps)

section \<open>Properties\<close>

text \<open>C17: \<open>insertfrom\<close> with a transaction writes all the rows or none, whatever its policy and whatever the
  server refuses. The statements it sends hold the rows in their order, each once, from the first
  row on. COMMIT is sent exactly when all the rows were sent and every statement was accepted;
  otherwise ROLLBACK is the last statement, and the call fails with an exception exactly when
  exceptions are enabled. A COMMIT that is refused with exceptions enabled is followed by ROLLBACK.\<close>
theorem insertfrom_all_or_nothing:
  assumes "rows \<noteq> []" and "b_real s" and "b_conn_throw s = q_throw (b_query s)" and "h = started (b_query s)"
    and "q_throw (b_query s) \<longrightarrow> e_ok E h"
  shows "\<exists>gs rest. rows = concat gs @ rest \<and> [] \<notin> set gs \<and>
    (let sent = h @ map (\<lambda>g. Db_Query (stmt E ''INSERT'' g)) gs;
         written = (rest = [] \<and> accepted_all E h (map (stmt E ''INSERT'') gs)) in
     case insertfrom E rows s of (r, s') \<Rightarrow>
       if \<not> written then q_sent (b_query s') = sent @ [Db_Query ''ROLLBACK''] \<and>
         (if q_throw (b_query s) then \<exists>x. r = Inl (Throw x) else r = Inr ())
       else if q_throw (b_query s) \<and> \<not> e_ok E (sent @ [Db_Query ''COMMIT'']) then
         q_sent (b_query s') = sent @ [Db_Query ''COMMIT'', Db_Query ''ROLLBACK''] \<and>
         r = Inl (Throw (BadQuery (e_error E)))
       else q_sent (b_query s') = sent @ [Db_Query ''COMMIT''] \<and> r = Inr ())"
proof -
  have all: "list_all (\<lambda>_. True) rows" by (simp add: list_all_iff)
  obtain gs rest where gs: "concat gs @ rest = rows" "\<forall>g \<in> set gs. g \<noteq> [] \<and> True"
    and post: "ending E (q_throw (b_query s)) (accepted_all E h (map (stmt E ''INSERT'') gs) \<and> rest = [])
      (h @ map (\<lambda>g. Db_Query (stmt E ''INSERT'' g)) gs) (fst (insertfrom E rows s))
      (q_sent (b_query (snd (insertfrom E rows s))))"
    unfolding insertfrom_def by (rule any.writefrom_post [OF assms(1) all TrueI assms(2-5), of "''INSERT''"])
  show ?thesis
  proof (rule exI [of _ gs], rule exI [of _ rest], intro conjI)
    show "rows = concat gs @ rest" "[] \<notin> set gs" using gs by auto
  qed (use post in \<open>auto simp: ending_def Let_def case_prod_beta\<close>)
qed

definition example_row :: "string \<Rightarrow> row" where
  "example_row v = \<lparr>r_table = ''t'', r_fields = ''f'', r_values = (\<lambda>esc. quote_text (esc v)),
     r_equals = (\<lambda>esc. ''f='' @ quote_text (esc v)), r_where = (\<lambda>esc. ''f='' @ quote_text (esc v))\<rparr>"

definition example_bulk :: "policy \<Rightarrow> bulk" where
  "example_bulk p = \<lparr>b_query = Query_new True None, b_policy = p, b_conn_throw = True, b_finished = True, b_real = True\<rparr>"

text \<open>A server that accepts the beginning of a transaction and nothing else.\<close>

definition refusing_env :: sql_env where
  "refusing_env = example_env\<lparr>e_ok := (\<lambda>h. length h = 1)\<rparr>"

theorem insertfrom_all_or_nothing_witness:
  "\<exists>x s'. insertfrom refusing_env [example_row ''a'', example_row ''b''] (example_bulk (SizeThreshold 1000)) = (Inl (Throw x), s') \<and>
    last (q_sent (b_query s')) = Db_Query ''ROLLBACK''"
proof -
  let ?rows = "[example_row ''a'', example_row ''b'']" and ?s = "example_bulk (SizeThreshold 1000)"
  have s: "b_real ?s" "b_conn_throw ?s = q_throw (b_query ?s)" "q_throw (b_query ?s)"
    by (simp_all add: example_bulk_def Query_new_def)
  have "started (b_query ?s) = [Db_Query ''START TRANSACTION'']"
    by (simp add: example_bulk_def Query_new_def started_def)
  then have start: "length (started (b_query ?s)) = 1" by simp
  then have ok: "e_ok refusing_env (started (b_query ?s))" by (simp add: refusing_env_def)
  obtain gs rest where gs: "?rows = concat gs @ rest"
    and post: "let sent = started (b_query ?s) @ map (\<lambda>g. Db_Query (stmt refusing_env ''INSERT'' g)) gs;
         written = (rest = [] \<and> accepted_all refusing_env (started (b_query ?s)) (map (stmt refusing_env ''INSERT'') gs)) in
     case insertfrom refusing_env ?rows ?s of (r, s') \<Rightarrow>
       if \<not> written then q_sent (b_query s') = sent @ [Db_Query ''ROLLBACK''] \<and>
         (if q_throw (b_query ?s) then \<exists>x. r = Inl (Throw x) else r = Inr ())
       else if q_throw (b_query ?s) \<and> \<not> e_ok refusing_env (sent @ [Db_Query ''COMMIT'']) then
         q_sent (b_query s') = sent @ [Db_Query ''COMMIT'', Db_Query ''ROLLBACK''] \<and>
         r = Inl (Throw (BadQuery (e_error refusing_env)))
       else q_sent (b_query s') = sent @ [Db_Query ''COMMIT''] \<and> r = Inr ()"
    using insertfrom_all_or_nothing [of ?rows ?s _ refusing_env, OF list.distinct(2) s(1,2) refl] ok by blast
  have "\<not> (rest = [] \<and> accepted_all refusing_env (started (b_query ?s)) (map (stmt refusing_env ''INSERT'') gs))"
    using gs start by (cases gs) (auto simp: refusing_env_def)
  then show ?thesis
    using post s(3) by (cases "insertfrom refusing_env ?rows ?s") (auto simp: Let_def)
qed

text \<open>\<open>insertfrom\<close> with a policy that counts rows, on a server that accepts everything, sends one
  INSERT statement for every group of so many rows, in order, and one for the rest, between START
  TRANSACTION and COMMIT, and succeeds.\<close>
theorem row_count_statements:
  assumes "rows \<noteq> []" and "b_real s" and "b_conn_throw s = q_throw (b_query s)"
    and "b_policy s = RowCount 0 n" and "0 < n" and "unat n < 2 ^ 32 - 1" and "\<And>h. e_ok E h"
  shows "case insertfrom E rows s of (r, s') \<Rightarrow> r = Inr () \<and>
    q_sent (b_query s') = q_sent (b_query s) @ Db_Query ''START TRANSACTION'' #
      map (\<lambda>g. Db_Query (stmt E ''INSERT'' g)) (chunks (unat n) rows) @ [Db_Query ''COMMIT'']"
proof -
  have all: "list_all (\<lambda>_. True) rows" and start: "counted n (b_policy s) []" and n: "0 < unat n"
    using assms(4-6) by (simp_all add: list_all_iff counted_def unat_gt_0)
  obtain gs rest where gs: "concat gs @ rest = rows" "\<forall>g \<in> set gs. g \<noteq> [] \<and> length g \<le> unat n"
      "\<forall>g \<in> set (butlast gs). length g = unat n"
    and strict: "accepted_all E (started (b_query s)) (map (stmt E ''INSERT'') gs) \<Longrightarrow> rest \<noteq> [] \<Longrightarrow> rows.too_strict n"
    and post: "ending E (q_throw (b_query s)) (accepted_all E (started (b_query s)) (map (stmt E ''INSERT'') gs) \<and> rest = [])
      (started (b_query s) @ map (\<lambda>g. Db_Query (stmt E ''INSERT'' g)) gs) (fst (insertfrom E rows s))
      (q_sent (b_query (snd (insertfrom E rows s))))"
    unfolding insertfrom_def
    by (rule rows.writefrom_post [OF assms(1) all start assms(2,3) refl, of E "''INSERT''"]) (simp_all add: assms(7))
  have acc: "accepted_all E h ts" for h ts by (induction ts arbitrary: h) (simp_all add: assms(7))
  have "\<not> rows.too_strict n"
    using n counted_add [of n _ "[]"] by (auto simp: rows.too_strict_def)
  then have "rest = []" using strict acc by blast
  then have "chunks (unat n) rows = gs" using chunks_concat [OF n gs(2,3)] gs(1) by simp
  then show ?thesis
    using post acc \<open>rest = []\<close> by (auto simp: ending_def assms(7) started_def)
qed

theorem row_count_statements_witness:
  "q_sent (b_query (snd (insertfrom example_env (map example_row [''a'', ''b'', ''c'']) (example_bulk (RowCount 0 2))))) =
    Db_Query ''START TRANSACTION'' #
    [Db_Query (stmt example_env ''INSERT'' [example_row ''a'', example_row ''b'']),
     Db_Query (stmt example_env ''INSERT'' [example_row ''c'']), Db_Query ''COMMIT'']"
  using row_count_statements [of "map example_row [''a'', ''b'', ''c'']" "example_bulk (RowCount 0 2)" 2 example_env]
  by (simp add: example_bulk_def Query_new_def example_env_def chunks.simps case_prod_beta)

text \<open>C23: \<open>insertfrom\<close> with a policy of a largest packet, made with the query's own connection, cuts the
  rows, or the rows up to a failure, into groups in their order and sends one statement for each
  group. No statement is longer than the limit, except statements of a single row: the check of
  the first row of a statement counts the row's values but not the head of the statement. What
  follows the statements is a COMMIT only when no row is left.\<close>
theorem max_packet_bound:
  assumes "rows \<noteq> []" and "b_real s" and "b_conn_throw s = q_throw (b_query s)" and "h = started (b_query s)"
    and "q_throw (b_query s) \<longrightarrow> e_ok E h" and "b_policy s = MaxPacket (e_escape E) limit"
    and "list_all (\<lambda>r. length (stmt E ''INSERT'' [r]) < 2 ^ 31) rows"
  shows "\<exists>gs rest ends. concat gs @ rest = rows \<and> [] \<notin> set gs \<and>
    q_sent (b_query (snd (insertfrom E rows s))) = h @ map (\<lambda>g. Db_Query (stmt E ''INSERT'' g)) gs @ ends \<and>
    (ends = [Db_Query ''ROLLBACK''] \<or>
      rest = [] \<and> (ends = [Db_Query ''COMMIT''] \<or> ends = [Db_Query ''COMMIT'', Db_Query ''ROLLBACK''])) \<and>
    (\<forall>g \<in> set gs. int (length (stmt E ''INSERT'' g)) \<le> sint limit \<or> length g = 1)"
proof -
  have all: "list_all (packet_row E ''INSERT'') rows" and start: "packeted E ''INSERT'' limit (b_policy s) []"
    using assms(6,7) by (simp_all add: list_all_iff packet_row_def packeted_def)
  obtain gs rest where gs: "concat gs @ rest = rows" "\<forall>g \<in> set gs. g \<noteq> [] \<and> packet_fits E ''INSERT'' limit g"
    and post: "ending E (q_throw (b_query s)) (accepted_all E h (map (stmt E ''INSERT'') gs) \<and> rest = [])
      (h @ map (\<lambda>g. Db_Query (stmt E ''INSERT'' g)) gs) (fst (insertfrom E rows s))
      (q_sent (b_query (snd (insertfrom E rows s))))"
    unfolding insertfrom_def by (rule packets.writefrom_post [OF assms(1) all start assms(2-5)])
  obtain ends where ends: "q_sent (b_query (snd (insertfrom E rows s))) =
      h @ map (\<lambda>g. Db_Query (stmt E ''INSERT'' g)) gs @ ends"
    "ends = [Db_Query ''ROLLBACK''] \<or>
      rest = [] \<and> (ends = [Db_Query ''COMMIT''] \<or> ends = [Db_Query ''COMMIT'', Db_Query ''ROLLBACK''])"
    using post by (auto simp: ending_def split: if_splits)
  have "[] \<notin> set gs" "\<forall>g \<in> set gs. int (length (stmt E ''INSERT'' g)) \<le> sint limit \<or> length g = 1"
    using gs(2) unfolding packet_fits_def by blast+
  with gs(1) ends show ?thesis by blast
qed

theorem max_packet_bound_witness:
  "\<exists>gs rest ends. concat gs @ rest = [example_row ''a'', example_row ''b''] \<and>
    q_sent (b_query (snd (insertfrom example_env [example_row ''a'', example_row ''b'']
      (example_bulk (MaxPacket (e_escape example_env) 20))))) =
      Db_Query ''START TRANSACTION'' # map (\<lambda>g. Db_Query (stmt example_env ''INSERT'' g)) gs @ ends \<and>
    (\<forall>g \<in> set gs. length (stmt example_env ''INSERT'' g) \<le> 20 \<or> length g = 1)"
proof -
  let ?s = "example_bulk (MaxPacket (e_escape example_env) 20)"
  have s: "b_real ?s" "b_conn_throw ?s = q_throw (b_query ?s)" "b_policy ?s = MaxPacket (e_escape example_env) 20"
    "started (b_query ?s) = [Db_Query ''START TRANSACTION'']" "e_ok example_env h" for h
    by (simp_all add: example_bulk_def Query_new_def started_def example_env_def)
  have short: "list_all (\<lambda>r. length (stmt example_env ''INSERT'' [r]) < 2 ^ 31) [example_row ''a'', example_row ''b'']"
    by (simp add: stmt_def row_head_def backquoted_def example_row_def quote_text_def example_env_def)
  show ?thesis
    using max_packet_bound [of "[example_row ''a'', example_row ''b'']" ?s _ example_env 20,
        OF list.distinct(2) s(1,2) s(4) [symmetric] _ s(3) short] s(5) by fastforce
qed

text \<open>A single row whose statement is longer than the limit is accepted by the policy.\<close>

lemma single_row_exceeds_packet:
  "sint (20 :: int32) < int (length (stmt example_env ''INSERT'' [example_row ''a'']))"
  "fst (can_add (MaxPacket (e_escape example_env) 20) 0 (example_row ''a''))"
  by (simp_all add: stmt_def row_head_def backquoted_def example_row_def quote_text_def example_env_def
      MaxPacket_can_add_def word_sless_alt word_sle_eq)

end
