(* ===== verification/Ref_Counted.thy ===== *)
theory Ref_Counted
  imports Effects Owning_Map
begin

text \<open>
  The reference-counted pointer of MySQL++ (\<open>mysqlpp/lib/refcounted.h\<close>), which holds the buffers of
  strings and the shared parts of results. Objects and counters live in a heap; a counter and the
  object it counts for are two allocations. A count is a natural number: the heap cannot hold
  \<open>2 ^ 64\<close> pointers.
\<close>

section \<open>Heap and pointers\<close>

text \<open>A pointer variable of the program, or the temporary of an assignment.\<close>

datatype 'x var = Var 'x | Temp

record ('x, 'v) rc =
  rc_objs :: "address \<rightharpoonup> 'v"
  rc_counts :: "address \<rightharpoonup> nat"
  rc_ptrs :: "'x var \<rightharpoonup> address option \<times> address option"
  rc_fresh :: address

type_synonym ('x, 'v, 'a) rcm = "(('x, 'v) rc, 'a) st"

definition rc_empty :: "('x, 'v) rc" where
  "rc_empty = \<lparr>rc_objs = Map.empty, rc_counts = Map.empty, rc_ptrs = Map.empty, rc_fresh = 0\<rparr>"

definition set_ptr :: "'x var \<Rightarrow> address option \<times> address option \<Rightarrow> ('x, 'v, unit) rcm" where
  "set_ptr x p = modify (\<lambda>s. s\<lparr>rc_ptrs := (rc_ptrs s)(x \<mapsto> p)\<rparr>)"

definition read_ptr :: "'x var \<Rightarrow> ('x, 'v, address option \<times> address option) rcm" where
  "read_ptr x = bind (gets (\<lambda>s. rc_ptrs s x)) (\<lambda>p. case p of None \<Rightarrow> fault (UB UseAfterFree) | Some p \<Rightarrow> ret p)"

definition read_count :: "address \<Rightarrow> ('x, 'v, nat) rcm" where
  "read_count k = bind (gets (\<lambda>s. rc_counts s k)) (\<lambda>n. case n of None \<Rightarrow> fault (UB UseAfterFree) | Some n \<Rightarrow> ret n)"

definition write_count :: "address \<Rightarrow> nat \<Rightarrow> ('x, 'v, unit) rcm" where
  "write_count k n = modify (\<lambda>s. s\<lparr>rc_counts := (rc_counts s)(k \<mapsto> n)\<rparr>)"

definition delete_count :: "address \<Rightarrow> ('x, 'v, unit) rcm" where
  "delete_count k = modify (\<lambda>s. s\<lparr>rc_counts := (rc_counts s)(k := None)\<rparr>)"

text \<open>
  \<open>new T(v)\<close> in the client, the plain \<open>delete\<close> of an object, which does nothing for a null pointer,
  and the destroyer that a class has unless it names another one, which is that \<open>delete\<close>.
\<close>

definition new_object :: "'v \<Rightarrow> ('x, 'v, address) rcm" where
  "new_object v = bind (gets rc_fresh) (\<lambda>a.
     bind (modify (\<lambda>s. s\<lparr>rc_objs := (rc_objs s)(a \<mapsto> v), rc_fresh := Suc a\<rparr>)) (\<lambda>_. ret a))"

definition delete_object :: "address option \<Rightarrow> ('x, 'v, unit) rcm" where
  "delete_object c = (case c of None \<Rightarrow> ret ()
     | Some a \<Rightarrow> bind (gets (\<lambda>s. rc_objs s a)) (\<lambda>v. case v of None \<Rightarrow> fault (UB DoubleFree)
         | Some _ \<Rightarrow> modify (\<lambda>s. s\<lparr>rc_objs := (rc_objs s)(a := None)\<rparr>)))"

definition destroyer :: "address option \<Rightarrow> ('x, 'v, unit) rcm" where
  "destroyer doomed = delete_object doomed"

section \<open>The class\<close>

definition rc_default :: "'x var \<Rightarrow> ('x, 'v, unit) rcm" where
  "rc_default x = set_ptr x (None, None)"

text \<open>
  The constructor from a raw pointer. When there is no memory for the counter, the guard, an
  \<open>auto_ptr\<close>, deletes the object, whatever its destroyer is, and the exception goes on.
\<close>

definition rc_wrap :: "bool \<Rightarrow> 'x var \<Rightarrow> address option \<Rightarrow> ('x, 'v, unit) rcm" where
  "rc_wrap memory x c = (case c of
     None \<Rightarrow> set_ptr x (None, None)
   | Some a \<Rightarrow> if \<not> memory then bind (delete_object c) (\<lambda>_. fault (Throw (RuntimeError ''bad_alloc'')))
       else bind (gets rc_fresh) (\<lambda>k. bind (modify (\<lambda>s. s\<lparr>rc_fresh := Suc (rc_fresh s)\<rparr>)) (\<lambda>_.
         bind (write_count k 1) (\<lambda>_. set_ptr x (Some a, Some k)))))"

definition rc_copy :: "'x var \<Rightarrow> 'x var \<Rightarrow> ('x, 'v, unit) rcm" where
  "rc_copy x other = bind (read_ptr other) (\<lambda>(c, k). case (c, k) of
       (None, _) \<Rightarrow> set_ptr x (None, None)
     | (Some a, None) \<Rightarrow> fault (UB NullDeref)
     | (Some a, Some k) \<Rightarrow> bind (read_count k) (\<lambda>n. bind (write_count k (n + 1)) (\<lambda>_.
         set_ptr x (Some a, Some k))))"

definition rc_destroy :: "'x var \<Rightarrow> ('x, 'v, unit) rcm" where
  "rc_destroy x = bind (read_ptr x) (\<lambda>(c, k).
     bind (case k of None \<Rightarrow> ret ()
       | Some k \<Rightarrow> bind (read_count k) (\<lambda>n. bind (write_count k (n - 1)) (\<lambda>_.
           if n - 1 = 0 then bind (destroyer c) (\<lambda>_. delete_count k) else ret ())))
     (\<lambda>_. modify (\<lambda>s. s\<lparr>rc_ptrs := (rc_ptrs s)(x := None)\<rparr>)))"

definition rc_swap :: "'x var \<Rightarrow> 'x var \<Rightarrow> ('x, 'v, unit) rcm" where
  "rc_swap x y = bind (read_ptr x) (\<lambda>p. bind (read_ptr y) (\<lambda>q. bind (set_ptr x q) (\<lambda>_. set_ptr y p)))"

definition rc_assign_raw :: "bool \<Rightarrow> 'x var \<Rightarrow> address option \<Rightarrow> ('x, 'v, unit) rcm" where
  "rc_assign_raw memory x c = block [rc_wrap memory Temp c, rc_swap Temp x, rc_destroy Temp]"

definition rc_assign :: "'x var \<Rightarrow> 'x var \<Rightarrow> ('x, 'v, unit) rcm" where
  "rc_assign x other = block [rc_copy Temp other, rc_swap Temp x, rc_destroy Temp]"

definition raw :: "'x var \<Rightarrow> ('x, 'v, address option) rcm" where
  "raw x = bind (read_ptr x) (\<lambda>(c, k). ret c)"

definition deref :: "'x var \<Rightarrow> ('x, 'v, 'v) rcm" where
  "deref x = bind (raw x) (\<lambda>c. case c of None \<Rightarrow> fault (UB NullDeref)
     | Some a \<Rightarrow> bind (gets (\<lambda>s. rc_objs s a)) (\<lambda>v. case v of None \<Rightarrow> fault (UB UseAfterFree) | Some v \<Rightarrow> ret v))"

text \<open>A change of the object through \<open>operator->\<close>.\<close>

definition update_object :: "'x var \<Rightarrow> ('v \<Rightarrow> 'v) \<Rightarrow> ('x, 'v, unit) rcm" where
  "update_object x f = bind (raw x) (\<lambda>c. case c of None \<Rightarrow> fault (UB NullDeref)
     | Some a \<Rightarrow> bind (gets (\<lambda>s. rc_objs s a)) (\<lambda>v. case v of None \<Rightarrow> fault (UB UseAfterFree)
         | Some v \<Rightarrow> modify (\<lambda>s. s\<lparr>rc_objs := (rc_objs s)(a \<mapsto> f v)\<rparr>)))"

section \<open>A program that uses the class\<close>

text \<open>
  What a client does that wraps only objects it has just made: its pointers are variables, each made
  before it is used and destroyed at most once.
\<close>

datatype ('x, 'v) rc_op =
    Make_Null 'x
  | Make bool 'v 'x
  | Make_Copy 'x 'x
  | Assign_New bool 'v 'x
  | Assign_Null 'x
  | Assign 'x 'x
  | Swap 'x 'x
  | Change 'x "'v \<Rightarrow> 'v"
  | Leave 'x

fun run_op :: "('x, 'v) rc_op \<Rightarrow> ('x, 'v, unit) rcm" where
  "run_op (Make_Null x) = rc_default (Var x)"
| "run_op (Make memory v x) = bind (new_object v) (\<lambda>a. rc_wrap memory (Var x) (Some a))"
| "run_op (Make_Copy x y) = rc_copy (Var x) (Var y)"
| "run_op (Assign_New memory v x) = bind (new_object v) (\<lambda>a. rc_assign_raw memory (Var x) (Some a))"
| "run_op (Assign_Null x) = rc_assign_raw True (Var x) None"
| "run_op (Assign x y) = rc_assign (Var x) (Var y)"
| "run_op (Swap x y) = rc_swap (Var x) (Var y)"
| "run_op (Change x f) = update_object (Var x) f"
| "run_op (Leave x) = rc_destroy (Var x)"

definition live_var :: "('x, 'v) rc \<Rightarrow> 'x \<Rightarrow> bool" where
  "live_var s x \<longleftrightarrow> rc_ptrs s (Var x) \<noteq> None"

fun enabled :: "('x, 'v) rc \<Rightarrow> ('x, 'v) rc_op \<Rightarrow> bool" where
  "enabled s (Make_Null x) = (\<not> live_var s x)"
| "enabled s (Make memory v x) = (\<not> live_var s x)"
| "enabled s (Make_Copy x y) = (\<not> live_var s x \<and> live_var s y)"
| "enabled s (Assign_New memory v x) = live_var s x"
| "enabled s (Assign_Null x) = live_var s x"
| "enabled s (Assign x y) = (live_var s x \<and> live_var s y)"
| "enabled s (Swap x y) = (live_var s x \<and> live_var s y)"
| "enabled s (Change x f) = (live_var s x \<and> fst (raw (Var x) s) \<noteq> Inr None)"
| "enabled s (Leave x) = live_var s x"

inductive reachable_rc :: "('x, 'v) rc \<Rightarrow> bool" where
  start: "reachable_rc rc_empty"
| step: "reachable_rc s \<Longrightarrow> enabled s op \<Longrightarrow> run_op op s = (r, s') \<Longrightarrow> reachable_rc s'"

section \<open>The invariant\<close>

definition linked :: "('x, 'v) rc \<Rightarrow> 'x var \<Rightarrow> address \<Rightarrow> address \<Rightarrow> bool" where
  "linked s x a k \<longleftrightarrow> rc_ptrs s x = Some (Some a, Some k)"

definition holders :: "('x, 'v) rc \<Rightarrow> address \<Rightarrow> 'x var set" where
  "holders s k = {x. \<exists>a. linked s x a k}"

definition rc_inv :: "('x, 'v) rc \<Rightarrow> bool" where
  "rc_inv s \<longleftrightarrow> finite (dom (rc_ptrs s)) \<and>
     (\<forall>x p. rc_ptrs s x = Some p \<longrightarrow> p = (None, None) \<or> (\<exists>a k. p = (Some a, Some k))) \<and>
     (\<forall>x a k. linked s x a k \<longrightarrow> rc_objs s a \<noteq> None \<and> rc_counts s k = Some (card (holders s k))) \<and>
     (\<forall>x y a b k j. linked s x a k \<longrightarrow> linked s y b j \<longrightarrow> (a = b \<longleftrightarrow> k = j)) \<and>
     (\<forall>k. rc_counts s k \<noteq> None \<longrightarrow> holders s k \<noteq> {}) \<and>
     (\<forall>a. rc_objs s a \<noteq> None \<longrightarrow> (\<exists>x k. linked s x a k)) \<and>
     (\<forall>a. rc_fresh s \<le> a \<longrightarrow> rc_objs s a = None \<and> rc_counts s a = None)"

lemma rc_invD:
  assumes "rc_inv s"
  shows "finite (dom (rc_ptrs s))"
    and "rc_ptrs s x = Some p \<Longrightarrow> p = (None, None) \<or> (\<exists>a k. p = (Some a, Some k))"
    and "linked s x a k \<Longrightarrow> \<exists>v. rc_objs s a = Some v"
    and "linked s x a k \<Longrightarrow> rc_counts s k = Some (card (holders s k))"
    and "linked s x a k \<Longrightarrow> linked s y b j \<Longrightarrow> a = b \<longleftrightarrow> k = j"
    and "rc_counts s k = Some n \<Longrightarrow> holders s k \<noteq> {}"
    and "rc_objs s a = Some v \<Longrightarrow> \<exists>x k. linked s x a k"
    and "rc_fresh s \<le> a \<Longrightarrow> rc_objs s a = None \<and> rc_counts s a = None"
  using assms unfolding rc_inv_def by blast+

lemma finite_holders: "rc_inv s \<Longrightarrow> finite (holders s k)"
  using rc_invD(1) [of s] by (rule rev_finite_subset) (auto simp: holders_def linked_def)

lemma rc_inv_empty: "rc_inv rc_empty"
  by (simp add: rc_inv_def rc_empty_def linked_def holders_def)

text \<open>The changes of the state that the operations are made of.\<close>

lemma inv_null:
  assumes "rc_inv s" and "rc_ptrs s x = None \<or> rc_ptrs s x = Some (None, None)" and "p = None \<or> p = Some (None, None)"
    and t: "rc_ptrs t = (rc_ptrs s)(x := p)" "rc_counts t = rc_counts s" "rc_objs t = rc_objs s" "rc_fresh t = rc_fresh s"
  shows "rc_inv t"
proof -
  have same: "linked t = linked s"
    using assms(2,3) t(1) by (auto simp: linked_def fun_eq_iff)
  have fin: "finite (dom (rc_ptrs t))"
    using rc_invD(1) [OF assms(1)] unfolding t(1)
    by (auto intro: finite_subset [of _ "insert x (dom (rc_ptrs s))"] split: if_splits)
  have form: "q = (None, None) \<or> (\<exists>a k. q = (Some a, Some k))" if "rc_ptrs t y = Some q" for y q
    using that assms(3) rc_invD(2) [OF assms(1)] unfolding t(1) by (auto split: if_splits)
  have hold: "holders t = holders s" by (simp add: holders_def fun_eq_iff same)
  show ?thesis
    using assms(1) fin form unfolding rc_inv_def same hold t(2-4) by blast
qed

text \<open>A further pointer to a counted object.\<close>

lemma inv_share:
  assumes "rc_inv s" and "linked s y a k" and "rc_ptrs s x = None"
    and t: "rc_ptrs t = (rc_ptrs s)(x \<mapsto> (Some a, Some k))" "rc_counts t = (rc_counts s)(k \<mapsto> Suc (card (holders s k)))"
      "rc_objs t = rc_objs s" "rc_fresh t = rc_fresh s"
  shows "rc_inv t"
proof -
  have link: "linked t z b j \<longleftrightarrow> linked s z b j \<or> z = x \<and> b = a \<and> j = k" for z b j
    using assms(3) t(1) by (auto simp: linked_def)
  have "x \<notin> holders s k" using assms(3) by (simp add: holders_def linked_def)
  moreover have hold: "holders t j = (if j = k then insert x (holders s k) else holders s j)" for j
    by (auto simp: holders_def link)
  ultimately have card: "card (holders t j) = (if j = k then Suc (card (holders s k)) else card (holders s j))" for j
    using finite_holders [OF assms(1)] by simp
  have exist: "rc_counts s k \<noteq> None" "rc_objs s a \<noteq> None" using rc_invD(3,4) [OF assms(1,2)] by auto
  then have fresh: "k < rc_fresh s" using rc_invD(8) [OF assms(1), of k] by (metis not_le)
  have form: "q = (None, None) \<or> (\<exists>a k. q = (Some a, Some k))" if "rc_ptrs t z = Some q" for z q
    using that rc_invD(2) [OF assms(1)] unfolding t(1) by (auto split: if_splits)
  have fin: "finite (dom (rc_ptrs t))" using rc_invD(1) [OF assms(1)] unfolding t(1) by simp
  have alive: "rc_objs t b \<noteq> None \<and> rc_counts t j = Some (card (holders t j))" if "linked t z b j" for z b j
    using that rc_invD(3,4) [OF assms(1)] exist unfolding link card t(2,3) by auto
  have pair: "b = c \<longleftrightarrow> i = j" if "linked t z b i" "linked t w c j" for z w b c i j
    using that rc_invD(5) [OF assms(1)] assms(2) unfolding link by metis
  have counted: "holders t j \<noteq> {}" if "rc_counts t j \<noteq> None" for j
    using that rc_invD(6) [OF assms(1), of j] unfolding hold t(2) by (auto split: if_splits)
  have owned: "\<exists>z j. linked t z b j" if "rc_objs t b \<noteq> None" for b
    using that rc_invD(7) [OF assms(1), of b] unfolding link t(3) by blast
  have unused': "rc_objs t b = None \<and> rc_counts t b = None" if "rc_fresh t \<le> b" for b
    using that rc_invD(8) [OF assms(1), of b] fresh unfolding t(2-4) by auto
  show ?thesis
    unfolding rc_inv_def using fin form alive pair counted owned unused' by blast
qed

text \<open>The first pointer to an object.\<close>

lemma inv_fresh:
  assumes "rc_inv s" and "rc_ptrs s x = None"
    and t: "rc_ptrs t = (rc_ptrs s)(x \<mapsto> (Some (rc_fresh s), Some (Suc (rc_fresh s))))"
      "rc_counts t = (rc_counts s)(Suc (rc_fresh s) \<mapsto> 1)" "rc_objs t = (rc_objs s)(rc_fresh s \<mapsto> v)"
      "rc_fresh t = Suc (Suc (rc_fresh s))"
  shows "rc_inv t"
proof -
  let ?a = "rc_fresh s" and ?k = "Suc (rc_fresh s)"
  have unused: "rc_objs s ?a = None" "rc_counts s ?k = None"
    using rc_invD(8) [OF assms(1), of ?a] rc_invD(8) [OF assms(1), of ?k] by simp_all
  then have no: "\<not> linked s z ?a j" "\<not> linked s z b ?k" for z b j
    using rc_invD(3,4) [OF assms(1)] by fastforce+
  have link: "linked t z b j \<longleftrightarrow> linked s z b j \<or> z = x \<and> b = ?a \<and> j = ?k" for z b j
    using assms(2) t(1) by (auto simp: linked_def)
  have hold: "holders t j = (if j = ?k then {x} else holders s j)" for j
    using no by (auto simp: holders_def link)
  have form: "q = (None, None) \<or> (\<exists>a k. q = (Some a, Some k))" if "rc_ptrs t z = Some q" for z q
    using that rc_invD(2) [OF assms(1)] unfolding t(1) by (auto split: if_splits)
  have fin: "finite (dom (rc_ptrs t))" using rc_invD(1) [OF assms(1)] unfolding t(1) by simp
  have alive: "rc_objs t b \<noteq> None \<and> rc_counts t j = Some (card (holders t j))" if "linked t z b j" for z b j
    using that rc_invD(3,4) [OF assms(1)] no unfolding link hold t(2,3) by fastforce
  have pair: "b = c \<longleftrightarrow> i = j" if "linked t z b i" "linked t w c j" for z w b c i j
    using that rc_invD(5) [OF assms(1)] no unfolding link by metis
  have counted: "holders t j \<noteq> {}" if "rc_counts t j \<noteq> None" for j
    using that rc_invD(6) [OF assms(1)] unfolding hold t(2) by (auto split: if_splits)
  have owned: "\<exists>z j. linked t z b j" if "rc_objs t b \<noteq> None" for b
    using that rc_invD(7) [OF assms(1)] unfolding link t(3) by (auto split: if_splits)
  have unused': "rc_objs t b = None \<and> rc_counts t b = None" if "rc_fresh t \<le> b" for b
    using that rc_invD(8) [OF assms(1), of b] unfolding t(2-4) by auto
  show ?thesis
    unfolding rc_inv_def using fin form alive pair counted owned unused' by blast
qed

text \<open>One pointer less, of several or the last one.\<close>

lemma inv_unlink:
  assumes "rc_inv s" and "linked s x a k" and "holders s k \<noteq> {x}"
    and t: "rc_ptrs t = (rc_ptrs s)(x := None)" "rc_counts t = (rc_counts s)(k \<mapsto> card (holders s k) - 1)"
      "rc_objs t = rc_objs s" "rc_fresh t = rc_fresh s"
  shows "rc_inv t"
proof -
  have link: "linked t z b j \<longleftrightarrow> linked s z b j \<and> z \<noteq> x" for z b j
    using t(1) by (auto simp: linked_def)
  have x: "x \<in> holders s k" using assms(2) by (auto simp: holders_def)
  have hold: "holders t j = (if j = k then holders s k - {x} else holders s j)" for j
    using assms(2) by (auto simp: holders_def link) (auto simp: linked_def)
  then have card: "card (holders t j) = (if j = k then card (holders s k) - 1 else card (holders s j))" for j
    using finite_holders [OF assms(1), of k] x by simp
  obtain y where y: "y \<noteq> x" "y \<in> holders s k" using assms(3) x by blast
  then have y: "y \<noteq> x" "linked s y a k"
    using rc_invD(5) [OF assms(1,2)] by (auto simp: holders_def)
  have fresh: "k < rc_fresh s" using rc_invD(4) [OF assms(1,2)] rc_invD(8) [OF assms(1), of k] by (metis not_le option.distinct(1))
  have form: "q = (None, None) \<or> (\<exists>a k. q = (Some a, Some k))" if "rc_ptrs t z = Some q" for z q
    using that rc_invD(2) [OF assms(1)] unfolding t(1) by (auto split: if_splits)
  have fin: "finite (dom (rc_ptrs t))" using rc_invD(1) [OF assms(1)] unfolding t(1) by simp
  have alive: "rc_objs t b \<noteq> None \<and> rc_counts t j = Some (card (holders t j))" if "linked t z b j" for z b j
    using that rc_invD(3,4) [OF assms(1)] unfolding link card t(2,3) by fastforce
  have pair: "b = c \<longleftrightarrow> i = j" if "linked t z b i" "linked t w c j" for z w b c i j
    using that rc_invD(5) [OF assms(1)] unfolding link by metis
  have counted: "holders t j \<noteq> {}" if "rc_counts t j \<noteq> None" for j
    using that rc_invD(6) [OF assms(1)] y x unfolding hold t(2) by (auto simp: holders_def split: if_splits)
  have owned: "\<exists>z j. linked t z b j" if some: "rc_objs t b \<noteq> None" for b
  proof -
    obtain z j where z: "linked s z b j" using some rc_invD(7) [OF assms(1), of b] unfolding t(3) by blast
    have "b = a" if "z = x" using z assms(2) that by (simp add: linked_def)
    then show ?thesis using z y unfolding link by blast
  qed
  have unused': "rc_objs t b = None \<and> rc_counts t b = None" if "rc_fresh t \<le> b" for b
    using that rc_invD(8) [OF assms(1), of b] fresh unfolding t(2-4) by auto
  show ?thesis
    unfolding rc_inv_def using fin form alive pair counted owned unused' by blast
qed

lemma inv_last:
  assumes "rc_inv s" and "linked s x a k" and "holders s k = {x}"
    and t: "rc_ptrs t = (rc_ptrs s)(x := None)" "rc_counts t = (rc_counts s)(k := None)"
      "rc_objs t = (rc_objs s)(a := None)" "rc_fresh t = rc_fresh s"
  shows "rc_inv t"
proof -
  have only: "z = x" if "linked s z b j" "b = a \<or> j = k" for z b j
    using rc_invD(5) [OF assms(1,2) that(1)] that assms(3) by (auto simp: holders_def)
  have link: "linked t z b j \<longleftrightarrow> linked s z b j \<and> z \<noteq> x" for z b j
    using t(1) by (auto simp: linked_def)
  have other: "b \<noteq> a \<and> j \<noteq> k" if "linked t z b j" for z b j
    using that only unfolding link by blast
  have hold: "holders t j = holders s j" if "j \<noteq> k" for j
    using that assms(2) by (auto simp: holders_def link) (auto simp: linked_def)
  have form: "q = (None, None) \<or> (\<exists>a k. q = (Some a, Some k))" if "rc_ptrs t z = Some q" for z q
    using that rc_invD(2) [OF assms(1)] unfolding t(1) by (auto split: if_splits)
  have fin: "finite (dom (rc_ptrs t))" using rc_invD(1) [OF assms(1)] unfolding t(1) by simp
  have alive: "rc_objs t b \<noteq> None \<and> rc_counts t j = Some (card (holders t j))" if "linked t z b j" for z b j
    using other [OF that] hold that rc_invD(3,4) [OF assms(1)] unfolding link t(2,3) by fastforce
  have pair: "b = c \<longleftrightarrow> i = j" if "linked t z b i" "linked t w c j" for z w b c i j
    using that rc_invD(5) [OF assms(1)] unfolding link by metis
  have counted: "holders t j \<noteq> {}" if "rc_counts t j \<noteq> None" for j
    using that rc_invD(6) [OF assms(1), of j] hold [of j] unfolding t(2) by (auto split: if_splits)
  have owned: "\<exists>z j. linked t z b j" if "rc_objs t b \<noteq> None" for b
  proof -
    have b: "rc_objs s b \<noteq> None" "b \<noteq> a" using that unfolding t(3) by (cases "b = a"; simp)+
    then obtain z j where z: "linked s z b j" using rc_invD(7) [OF assms(1), of b] by blast
    have "z \<noteq> x" using z assms(2) b(2) by (auto simp: linked_def)
    then show ?thesis using z unfolding link by blast
  qed
  have unused': "rc_objs t b = None \<and> rc_counts t b = None" if "rc_fresh t \<le> b" for b
    using that rc_invD(8) [OF assms(1), of b] unfolding t(2-4) by auto
  show ?thesis
    unfolding rc_inv_def using fin form alive pair counted owned unused' by blast
qed

lemma inv_swap:
  assumes "rc_inv s" and "rc_ptrs s x = Some p" and "rc_ptrs s y = Some q"
    and t: "rc_ptrs t = (rc_ptrs s)(x \<mapsto> q, y \<mapsto> p)" "rc_counts t = rc_counts s" "rc_objs t = rc_objs s"
      "rc_fresh t = rc_fresh s"
  shows "rc_inv t"
proof -
  define u where "u z = (if z = x then y else if z = y then x else z)" for z
  have uu: "u (u z) = z" for z by (simp add: u_def)
  have ptrs: "rc_ptrs t z = rc_ptrs s (u z)" for z using assms(2,3) unfolding t(1) by (auto simp: u_def)
  have link: "linked t z b j \<longleftrightarrow> linked s (u z) b j" for z b j by (simp add: linked_def ptrs)
  have hold: "holders t j = u ` holders s j" for j
    unfolding holders_def link using uu by (force simp: image_iff)
  have card: "card (holders t j) = card (holders s j)" for j
    unfolding hold by (rule card_image) (metis inj_onI uu)
  have fin: "finite (dom (rc_ptrs t))" using rc_invD(1) [OF assms(1)] unfolding t(1) by simp
  have form: "r = (None, None) \<or> (\<exists>a k. r = (Some a, Some k))" if "rc_ptrs t z = Some r" for z r
    using that rc_invD(2) [OF assms(1)] unfolding ptrs by blast
  have alive: "rc_objs t b \<noteq> None \<and> rc_counts t j = Some (card (holders t j))" if "linked t z b j" for z b j
    using that rc_invD(3,4) [OF assms(1)] unfolding link card t(2,3) by fastforce
  have pair: "b = c \<longleftrightarrow> i = j" if "linked t z b i" "linked t w c j" for z w b c i j
    using that rc_invD(5) [OF assms(1)] unfolding link by metis
  have counted: "holders t j \<noteq> {}" if "rc_counts t j \<noteq> None" for j
    using that rc_invD(6) [OF assms(1), of j] unfolding hold t(2) by auto
  have owned: "\<exists>z j. linked t z b j" if "rc_objs t b \<noteq> None" for b
    using that rc_invD(7) [OF assms(1), of b] uu unfolding link t(3) by (metis option.exhaust)
  show ?thesis
    unfolding rc_inv_def using fin form alive pair counted owned rc_invD(8) [OF assms(1)] unfolding t(2-4) by blast
qed

lemma inv_skip:
  assumes "rc_inv s" and t: "rc_ptrs t = rc_ptrs s" "rc_counts t = rc_counts s" "rc_objs t = rc_objs s"
    "rc_fresh s \<le> rc_fresh t"
  shows "rc_inv t"
proof -
  have "linked t = linked s" by (simp add: linked_def fun_eq_iff t(1))
  moreover from this have "holders t = holders s" by (simp add: holders_def fun_eq_iff)
  ultimately show ?thesis using assms(1) t(4) unfolding rc_inv_def t(1-3) by fastforce
qed

lemma inv_update:
  assumes "rc_inv s" and "rc_objs s a \<noteq> None"
    and t: "rc_ptrs t = rc_ptrs s" "rc_counts t = rc_counts s" "rc_objs t = (rc_objs s)(a \<mapsto> v)" "rc_fresh t = rc_fresh s"
  shows "rc_inv t"
proof -
  have "linked t = linked s" by (simp add: linked_def fun_eq_iff t(1))
  moreover from this have "holders t = holders s" by (simp add: holders_def fun_eq_iff)
  moreover have "rc_objs t b = None \<longleftrightarrow> rc_objs s b = None" for b using assms(2) unfolding t(3) by auto
  ultimately show ?thesis using assms(1) unfolding rc_inv_def t(1,2,4) by simp
qed

section \<open>The operations\<close>

lemma read_ptr_run: "rc_ptrs s x = Some p \<Longrightarrow> bind (read_ptr x) f s = f p s"
  by (simp add: read_ptr_def bind_assoc)

lemma read_count_run: "rc_counts s k = Some n \<Longrightarrow> bind (read_count k) f s = f n s"
  by (simp add: read_count_def bind_assoc)

lemmas rc_runs = read_ptr_run read_count_run bind_assoc

lemma destroy_spec:
  assumes "rc_inv s" and "rc_ptrs s x = Some p"
  shows "\<exists>t. rc_destroy x s = (Inr (), t) \<and> rc_inv t \<and> rc_ptrs t = (rc_ptrs s)(x := None)"
  using rc_invD(2) [OF assms]
proof (elim disjE exE)
  assume "p = (None, None)"
  then show ?thesis
    using assms inv_null [OF assms(1), of x None "s\<lparr>rc_ptrs := (rc_ptrs s)(x := None)\<rparr>"]
    by (simp add: rc_destroy_def rc_runs)
next
  fix a k
  assume p: "p = (Some a, Some k)"
  then have l: "linked s x a k" using assms(2) by (simp add: linked_def)
  obtain v where v: "rc_objs s a = Some v" using rc_invD(3) [OF assms(1) l] by blast
  have count: "rc_counts s k = Some (card (holders s k))" using rc_invD(4) [OF assms(1) l] .
  have x: "x \<in> holders s k" using l by (auto simp: holders_def)
  show ?thesis
  proof (cases "holders s k = {x}")
    case True
    let ?t = "s\<lparr>rc_objs := (rc_objs s)(a := None), rc_counts := (rc_counts s)(k := None),
      rc_ptrs := (rc_ptrs s)(x := None)\<rparr>"
    have "rc_inv ?t" by (rule inv_last [OF assms(1) l True]) simp_all
    then show ?thesis
      using assms(2) p v count True
      by (simp add: rc_destroy_def rc_runs write_count_def destroyer_def delete_object_def delete_count_def)
  next
    case False
    then have "card (holders s k) \<noteq> 1" using x by (auto simp: card_1_singleton_iff)
    moreover have "card (holders s k) \<noteq> 0" using x finite_holders [OF assms(1)] by auto
    ultimately have "card (holders s k) - 1 \<noteq> 0" by linarith
    moreover let ?t = "s\<lparr>rc_counts := (rc_counts s)(k \<mapsto> card (holders s k) - 1), rc_ptrs := (rc_ptrs s)(x := None)\<rparr>"
    have "rc_inv ?t" by (rule inv_unlink [OF assms(1) l False]) simp_all
    ultimately show ?thesis
      using assms(2) p count
      by (simp add: rc_destroy_def rc_runs write_count_def)
  qed
qed

lemma copy_spec:
  assumes "rc_inv s" and "rc_ptrs s x = None" and "rc_ptrs s y = Some p"
  shows "\<exists>t. rc_copy x y s = (Inr (), t) \<and> rc_inv t \<and> rc_ptrs t = (rc_ptrs s)(x \<mapsto> p)"
  using rc_invD(2) [OF assms(1,3)]
proof (elim disjE exE)
  assume "p = (None, None)"
  then show ?thesis
    using assms inv_null [OF assms(1), of x "Some (None, None)" "s\<lparr>rc_ptrs := (rc_ptrs s)(x \<mapsto> (None, None))\<rparr>"]
    by (simp add: rc_copy_def rc_runs set_ptr_def)
next
  fix a k
  assume p: "p = (Some a, Some k)"
  then have l: "linked s y a k" using assms(3) by (simp add: linked_def)
  let ?t = "s\<lparr>rc_counts := (rc_counts s)(k \<mapsto> Suc (card (holders s k))), rc_ptrs := (rc_ptrs s)(x \<mapsto> p)\<rparr>"
  have "rc_inv ?t" by (rule inv_share [OF assms(1) l assms(2)]) (simp_all add: p)
  then show ?thesis
    using assms(3) p rc_invD(4) [OF assms(1) l]
    by (simp add: rc_copy_def rc_runs write_count_def set_ptr_def)
qed

lemma swap_spec:
  assumes "rc_inv s" and "rc_ptrs s x = Some p" and "rc_ptrs s y = Some q"
  shows "\<exists>t. rc_swap x y s = (Inr (), t) \<and> rc_inv t \<and> rc_ptrs t = (rc_ptrs s)(x \<mapsto> q, y \<mapsto> p)"
  using assms inv_swap [OF assms, of "s\<lparr>rc_ptrs := (rc_ptrs s)(x \<mapsto> q, y \<mapsto> p)\<rparr>"]
  by (simp add: rc_swap_def rc_runs set_ptr_def)

lemma make_spec:
  assumes "rc_inv s" and "rc_ptrs s x = None"
  shows "\<exists>t r. bind (new_object v) (\<lambda>a. rc_wrap memory x (Some a)) s = (r, t) \<and> rc_inv t \<and>
    (if memory then r = Inr () \<and> rc_ptrs t = (rc_ptrs s)(x \<mapsto> (Some (rc_fresh s), Some (Suc (rc_fresh s))))
     else (\<exists>e. r = Inl (Throw e)) \<and> rc_ptrs t = rc_ptrs s)"
proof (cases memory)
  case True
  let ?t = "s\<lparr>rc_objs := (rc_objs s)(rc_fresh s \<mapsto> v), rc_fresh := Suc (Suc (rc_fresh s)),
    rc_counts := (rc_counts s)(Suc (rc_fresh s) \<mapsto> 1), rc_ptrs := (rc_ptrs s)(x \<mapsto> (Some (rc_fresh s), Some (Suc (rc_fresh s))))\<rparr>"
  have "rc_inv ?t" by (rule inv_fresh [OF assms]) simp_all
  then show ?thesis
    using True by (simp add: new_object_def rc_wrap_def write_count_def set_ptr_def bind_assoc)
next
  case False
  have "rc_objs s (rc_fresh s) = None" using rc_invD(8) [OF assms(1)] by simp
  then have "(rc_objs s)(rc_fresh s := None) = rc_objs s" by (simp add: fun_eq_iff)
  then have "rc_inv (s\<lparr>rc_fresh := Suc (rc_fresh s), rc_objs := (rc_objs s)(rc_fresh s := None)\<rparr>)"
    by (intro inv_skip [OF assms(1)]) simp_all
  then show ?thesis
    using False by (simp add: new_object_def rc_wrap_def destroyer_def delete_object_def bind_assoc)
qed

text \<open>An assignment makes a temporary, swaps, and destroys the temporary.\<close>

lemma swap_and_destroy:
  assumes "rc_inv s" and "rc_ptrs s Temp = Some p" and "rc_ptrs s (Var x) = Some q"
  shows "\<exists>t. block [rc_swap Temp (Var x), rc_destroy Temp] s = (Inr (), t) \<and> rc_inv t \<and>
    rc_ptrs t = (rc_ptrs s)(Var x \<mapsto> p, Temp := None)"
proof -
  obtain t1 where t1: "rc_swap Temp (Var x) s = (Inr (), t1)" "rc_inv t1"
    "rc_ptrs t1 = (rc_ptrs s)(Temp \<mapsto> q, Var x \<mapsto> p)"
    using swap_spec [OF assms] by blast
  then have "rc_ptrs t1 Temp = Some q" by simp
  from destroy_spec [OF t1(2) this] obtain t2 where t2: "rc_destroy Temp t1 = (Inr (), t2)" "rc_inv t2"
    "rc_ptrs t2 = (rc_ptrs t1)(Temp := None)"
    by blast
  have "block [rc_swap Temp (Var x), rc_destroy Temp] s = (Inr (), t2)"
    using t1(1) t2(1) by (simp add: bind_def)
  then show ?thesis using t2(2,3) t1(3) by (auto simp: fun_eq_iff)
qed

definition client_inv :: "('x, 'v) rc \<Rightarrow> bool" where
  "client_inv s \<longleftrightarrow> rc_inv s \<and> rc_ptrs s Temp = None"

lemma assign_from:
  assumes "client_inv s" and "live_var s x"
    and "m s = (r, t)" and "rc_inv t" and "r = Inr () \<and> rc_ptrs t = (rc_ptrs s)(Temp \<mapsto> p) \<or>
      (\<exists>e. r = Inl (Throw e)) \<and> rc_ptrs t = rc_ptrs s"
  shows "\<exists>u r. block [m, rc_swap Temp (Var x), rc_destroy Temp] s = (r, u) \<and> client_inv u \<and>
    (r = Inr () \<or> (\<exists>e. r = Inl (Throw e)))"
  using assms(5)
proof
  assume r: "r = Inr () \<and> rc_ptrs t = (rc_ptrs s)(Temp \<mapsto> p)"
  obtain q where "rc_ptrs s (Var x) = Some q" using assms(2) by (auto simp: live_var_def)
  then have "rc_ptrs t (Var x) = Some q" "rc_ptrs t Temp = Some p" using r by simp_all
  from swap_and_destroy [OF assms(4) this(2,1)] show ?thesis
    using assms(3) r by (auto simp: client_inv_def bind_def)
next
  assume "(\<exists>e. r = Inl (Throw e)) \<and> rc_ptrs t = rc_ptrs s"
  then show ?thesis using assms(1,3,4) by (auto simp: client_inv_def bind_def)
qed

lemma wrap_null: "rc_wrap memory x None s = (Inr (), s\<lparr>rc_ptrs := (rc_ptrs s)(x \<mapsto> (None, None))\<rparr>)"
  by (simp add: rc_wrap_def set_ptr_def)

lemma run_op_spec:
  assumes "client_inv s" and "enabled s op"
  shows "\<exists>r t. run_op op s = (r, t) \<and> client_inv t \<and> (r = Inr () \<or> (\<exists>e. r = Inl (Throw e)))"
proof -
  have inv: "rc_inv s" and temp: "rc_ptrs s Temp = None" using assms(1) by (simp_all add: client_inv_def)
  have null: "rc_inv (s\<lparr>rc_ptrs := (rc_ptrs s)(x \<mapsto> (None, None))\<rparr>)" if "rc_ptrs s x = None" for x
    by (rule inv_null [OF inv, of x "Some (None, None)"]) (simp_all add: that)
  show ?thesis
  proof (cases op)
    case (Make_Null x)
    then have "rc_ptrs s (Var x) = None" using assms(2) by (simp only: enabled.simps live_var_def not_not)
    from null [OF this] show ?thesis
      using Make_Null temp by (simp add: rc_default_def set_ptr_def client_inv_def)
  next
    case (Make memory v x)
    then show ?thesis
      using assms(2) make_spec [OF inv, of "Var x" v memory] temp
      by (fastforce simp: live_var_def client_inv_def split: if_splits)
  next
    case (Make_Copy x y)
    then have "rc_ptrs s (Var x) = None" "rc_ptrs s (Var y) \<noteq> None"
      using assms(2) by (simp_all only: enabled.simps live_var_def not_not simp_thms)
    then obtain p where "rc_ptrs s (Var y) = Some p" by blast
    from copy_spec [OF inv \<open>rc_ptrs s (Var x) = None\<close> this] show ?thesis
      using Make_Copy temp by (auto simp: client_inv_def)
  next
    case (Assign_New memory v x)
    obtain t r where t: "bind (new_object v) (\<lambda>a. rc_wrap memory Temp (Some a)) s = (r, t)" "rc_inv t"
      "if memory then r = Inr () \<and> rc_ptrs t = (rc_ptrs s)(Temp \<mapsto> (Some (rc_fresh s), Some (Suc (rc_fresh s))))
       else (\<exists>e. r = Inl (Throw e)) \<and> rc_ptrs t = rc_ptrs s"
      using make_spec [OF inv temp, of v memory] by blast
    have run: "run_op op s = block [bind (new_object v) (\<lambda>a. rc_wrap memory Temp (Some a)), rc_swap Temp (Var x), rc_destroy Temp] s"
      by (simp add: Assign_New rc_assign_raw_def bind_assoc)
    have "live_var s x" using assms(2) Assign_New by simp
    note from_new = assign_from [where m = "bind (new_object v) (\<lambda>a. rc_wrap memory Temp (Some a))", OF assms(1) this t(1,2),
        of "(Some (rc_fresh s), Some (Suc (rc_fresh s)))"]
    have "r = Inr () \<and> rc_ptrs t = (rc_ptrs s)(Temp \<mapsto> (Some (rc_fresh s), Some (Suc (rc_fresh s)))) \<or>
        (\<exists>e. r = Inl (Throw e)) \<and> rc_ptrs t = rc_ptrs s"
      using t(3) by (cases memory) auto
    from from_new [OF this] show ?thesis unfolding run by blast
  next
    case (Assign_Null x)
    then have "live_var s x" using assms(2) by simp
    from assign_from [where m = "rc_wrap True Temp None", OF assms(1) this wrap_null, of "(None, None)"] show ?thesis
      using null [OF temp] Assign_Null by (simp add: rc_assign_raw_def) blast
  next
    case (Assign x y)
    then obtain p where p: "rc_ptrs s (Var y) = Some p" and x: "live_var s x" using assms(2) by (auto simp: live_var_def)
    obtain t where "rc_copy Temp (Var y) s = (Inr (), t)" "rc_inv t" "rc_ptrs t = (rc_ptrs s)(Temp \<mapsto> p)"
      using copy_spec [OF inv temp p] by blast
    from assign_from [where m = "rc_copy Temp (Var y)", OF assms(1) x this(1,2), of p] this(3) show ?thesis
      using Assign by (simp add: rc_assign_def) blast
  next
    case (Swap x y)
    then obtain p q where "rc_ptrs s (Var x) = Some p" "rc_ptrs s (Var y) = Some q"
      using assms(2) by (auto simp: live_var_def)
    from swap_spec [OF inv this] show ?thesis using Swap temp by (auto simp: client_inv_def)
  next
    case (Change x f)
    then obtain p where p: "rc_ptrs s (Var x) = Some p" "fst (raw (Var x) s) \<noteq> Inr None"
      using assms(2) by (auto simp: live_var_def)
    then have "fst p \<noteq> None" by (auto simp: raw_def rc_runs split: prod.splits)
    then obtain a k where a: "p = (Some a, Some k)" using rc_invD(2) [OF inv p(1)] by auto
    then obtain v where v: "rc_objs s a = Some v" using rc_invD(3) [OF inv, of "Var x" a k] p(1) by (auto simp: linked_def)
    have "rc_inv (s\<lparr>rc_objs := (rc_objs s)(a \<mapsto> f v)\<rparr>)" by (rule inv_update [OF inv, of a]) (simp_all add: v)
    then show ?thesis
      using Change a p(1) v temp by (simp add: update_object_def raw_def rc_runs client_inv_def)
  next
    case (Leave x)
    then obtain p where "rc_ptrs s (Var x) = Some p" using assms(2) by (auto simp: live_var_def)
    from destroy_spec [OF inv this] show ?thesis using Leave temp by (auto simp: client_inv_def)
  qed
qed

lemma reachable_client_inv: "reachable_rc s \<Longrightarrow> client_inv s"
proof (induction rule: reachable_rc.induct)
  case start
  show ?case using rc_inv_empty by (simp add: client_inv_def) (simp add: rc_empty_def)
next
  case (step s op r s')
  then show ?case using run_op_spec [of s op] by auto
qed

section \<open>What an operation leaves alone\<close>

text \<open>The object a variable refers to.\<close>

definition object_of :: "('x, 'v) rc \<Rightarrow> 'x \<Rightarrow> 'v option" where
  "object_of s x = (case rc_ptrs s (Var x) of Some (Some a, _) \<Rightarrow> rc_objs s a | _ \<Rightarrow> None)"

fun targets :: "('x, 'v) rc_op \<Rightarrow> 'x set" where
  "targets (Make_Null x) = {x}"
| "targets (Make memory v x) = {x}"
| "targets (Make_Copy x y) = {x}"
| "targets (Assign_New memory v x) = {x}"
| "targets (Assign_Null x) = {x}"
| "targets (Assign x y) = {x}"
| "targets (Swap x y) = {x, y}"
| "targets (Change x f) = {}"
| "targets (Leave x) = {x}"

text \<open>Code that makes and deletes objects, but changes none and does not touch the pointer.\<close>

definition kept_from :: "'x var \<Rightarrow> ('x, 'v) rc \<Rightarrow> ('x, 'v) rc \<Rightarrow> bool" where
  "kept_from z s t \<longleftrightarrow> rc_ptrs t z = rc_ptrs s z \<and> rc_fresh s \<le> rc_fresh t \<and>
     (\<forall>a v. rc_objs t a = Some v \<longrightarrow> rc_objs s a = Some v \<or> rc_fresh s \<le> a)"

definition leaves :: "'x var \<Rightarrow> ('x, 'v, 'a) rcm \<Rightarrow> bool" where
  "leaves z m \<longleftrightarrow> (\<forall>s. kept_from z s (snd (m s)))"

lemma kept_from_trans: "kept_from z s t \<Longrightarrow> kept_from z t u \<Longrightarrow> kept_from z s u"
proof -
  assume st: "kept_from z s t" and tu: "kept_from z t u"
  have "rc_objs s a = Some v \<or> rc_fresh s \<le> a" if "rc_objs u a = Some v" for a v
  proof -
    from tu that have "rc_objs t a = Some v \<or> rc_fresh t \<le> a" by (simp add: kept_from_def)
    moreover from st have "rc_fresh s \<le> rc_fresh t" by (simp add: kept_from_def)
    moreover from st have "rc_objs t a = Some v \<Longrightarrow> ?thesis" by (simp add: kept_from_def)
    ultimately show ?thesis by linarith
  qed
  moreover have "rc_ptrs u z = rc_ptrs s z" "rc_fresh s \<le> rc_fresh u"
    using st tu by (simp_all add: kept_from_def)
  ultimately show ?thesis by (simp add: kept_from_def)
qed

lemma leaves_bind: "leaves z m \<Longrightarrow> (\<And>x. leaves z (f x)) \<Longrightarrow> leaves z (bind m f)"
proof -
  assume m: "leaves z m" and f: "\<And>x. leaves z (f x)"
  have "kept_from z s (snd (bind m f s))" for s
  proof (cases "m s")
    case (Pair r t)
    with m have t: "kept_from z s t" by (metis leaves_def snd_conv)
    show ?thesis
    proof (cases r)
      case (Inl e)
      then show ?thesis using Pair t by (simp add: bind_Inl)
    next
      case (Inr x)
      then show ?thesis using Pair kept_from_trans [OF t] f by (simp add: bind_Inr leaves_def)
    qed
  qed
  then show ?thesis by (simp add: leaves_def)
qed

lemma leaves_basic:
  "leaves z (ret x)" "leaves z (fault e)" "leaves z (gets h)"
  "leaves z (write_count k n)" "leaves z (delete_count k)" "leaves z (new_object v)"
  "y \<noteq> z \<Longrightarrow> leaves z (set_ptr y p)"
  "y \<noteq> z \<Longrightarrow> leaves z (modify (\<lambda>s. s\<lparr>rc_ptrs := (rc_ptrs s)(y := None)\<rparr>))"
  "leaves z (modify (\<lambda>s. s\<lparr>rc_fresh := Suc (rc_fresh s)\<rparr>))"
  "leaves z (modify (\<lambda>s. s\<lparr>rc_objs := (rc_objs s)(a := None)\<rparr>))"
  by (simp_all add: leaves_def kept_from_def write_count_def delete_count_def set_ptr_def new_object_def)

lemma leaves_read: "leaves z (read_ptr y)" "leaves z (read_count k)"
  by (auto simp: read_ptr_def read_count_def intro!: leaves_bind leaves_basic split: option.split)

lemma leaves_destroyer: "leaves z (destroyer c)" "leaves z (delete_object c)"
  by (auto simp: destroyer_def delete_object_def intro!: leaves_bind leaves_basic split: option.split)

lemmas leaves_intros = leaves_bind leaves_basic leaves_read leaves_destroyer

lemma leaves_wrap: "x \<noteq> z \<Longrightarrow> leaves z (rc_wrap memory x c)"
  by (auto simp: rc_wrap_def intro!: leaves_intros split: option.split)

lemma leaves_copy: "x \<noteq> z \<Longrightarrow> leaves z (rc_copy x y)"
  by (auto simp: rc_copy_def intro!: leaves_intros split: option.split prod.split)

lemma leaves_destroy: "x \<noteq> z \<Longrightarrow> leaves z (rc_destroy x)"
  by (auto simp: rc_destroy_def intro!: leaves_intros split: option.split prod.split)

lemma leaves_swap: "x \<noteq> z \<Longrightarrow> y \<noteq> z \<Longrightarrow> leaves z (rc_swap x y)"
  by (auto simp: rc_swap_def intro!: leaves_intros)

lemma leaves_run_op:
  assumes "z \<notin> targets op" and "\<And>x f. op \<noteq> Change x f"
  shows "leaves (Var z) (run_op op)"
  using assms
  by (cases op) (auto simp: rc_default_def rc_assign_raw_def rc_assign_def
      intro!: leaves_intros leaves_wrap leaves_copy leaves_destroy leaves_swap)

section \<open>Properties\<close>

text \<open>C5: in every state that a client which wraps only its own new objects can reach, the counter of
  an object is the number of the pointers to it, every object a pointer refers to is alive, and no
  object outlives its last pointer; and every further operation of such a client returns or throws
  an exception, without a double deletion and without touching anything that was deleted.\<close>
theorem reference_counts_sound:
  assumes "reachable_rc s"
  shows "(linked s x a k \<longrightarrow> rc_objs s a \<noteq> None \<and> rc_counts s k = Some (card (holders s k))) \<and>
    (rc_objs s a \<noteq> None \<longrightarrow> (\<exists>x k. linked s x a k)) \<and>
    (enabled s op \<longrightarrow> fst (run_op op s) = Inr () \<or> (\<exists>e. fst (run_op op s) = Inl (Throw e)))"
proof -
  have inv: "client_inv s" using assms by (rule reachable_client_inv)
  then have "rc_inv s" by (simp add: client_inv_def)
  then show ?thesis using rc_invD(3,4,7) [of s] run_op_spec [OF inv, of op] by fastforce
qed

text \<open>An operation on one pointer, changes through the pointer apart, leaves the object of every other
  pointer as it is: assigning to a copy, destroying it or swapping it is never seen through another.\<close>
theorem others_unchanged:
  assumes "reachable_rc s" and "enabled s op" and "z \<notin> targets op" and "\<And>x f. op \<noteq> Change x f"
  shows "object_of (snd (run_op op s)) z = object_of s z"
proof -
  let ?t = "snd (run_op op s)"
  have kept: "kept_from (Var z) s ?t"
    using leaves_run_op [OF assms(3,4)] by (simp add: leaves_def)
  have inv: "client_inv s" using assms(1) by (rule reachable_client_inv)
  then have "client_inv ?t" using run_op_spec [OF inv assms(2)] by auto
  then have "rc_inv s" "rc_inv ?t" using inv by (simp_all add: client_inv_def)
  note inv = this
  show ?thesis
  proof (cases "\<exists>a k. linked s (Var z) a k")
    case True
    then obtain a k where l: "linked s (Var z) a k" "linked ?t (Var z) a k"
      using kept by (auto simp: linked_def kept_from_def)
    then obtain v w where v: "rc_objs s a = Some v" "rc_objs ?t a = Some w"
      using rc_invD(3) inv by metis
    moreover have "a < rc_fresh s" using v(1) rc_invD(8) [OF inv(1), of a] by (metis not_le option.simps(3))
    moreover have "rc_objs s a = Some w \<or> rc_fresh s \<le> a" using kept v(2) by (simp add: kept_from_def)
    ultimately have "w = v" by simp
    then show ?thesis using v l by (simp add: object_of_def linked_def)
  next
    case False
    then have "rc_ptrs s (Var z) = None \<or> rc_ptrs s (Var z) = Some (None, None)"
      using rc_invD(2) [OF inv(1), of "Var z"] by (cases "rc_ptrs s (Var z)") (auto simp: linked_def)
    then show ?thesis using kept by (auto simp: object_of_def kept_from_def)
  qed
qed

definition one_pointer :: "(nat, string) rc" where
  "one_pointer = \<lparr>rc_objs = [0 \<mapsto> ''v''], rc_counts = [1 \<mapsto> 1], rc_ptrs = [Var 0 \<mapsto> (Some 0, Some 1)], rc_fresh = 2\<rparr>"

definition two_pointers :: "(nat, string) rc" where
  "two_pointers = \<lparr>rc_objs = [0 \<mapsto> ''v''], rc_counts = [1 \<mapsto> 2],
     rc_ptrs = [Var 0 \<mapsto> (Some 0, Some 1), Var 1 \<mapsto> (Some 0, Some 1)], rc_fresh = 2\<rparr>"

lemma make_one: "run_op (Make True ''v'' 0) rc_empty = (Inr (), one_pointer)"
  by (simp add: one_pointer_def rc_empty_def new_object_def rc_wrap_def write_count_def set_ptr_def bind_assoc
      numeral_2_eq_2)

lemma copy_one: "run_op (Make_Copy 1 0) one_pointer = (Inr (), two_pointers)"
  by (simp add: one_pointer_def two_pointers_def rc_copy_def read_ptr_def read_count_def write_count_def set_ptr_def
      bind_assoc numeral_2_eq_2)

lemma two_pointers_reachable: "reachable_rc two_pointers"
proof -
  have "reachable_rc one_pointer"
    by (rule reachable_rc.step [OF reachable_rc.start _ make_one]) (simp add: live_var_def rc_empty_def)
  then show ?thesis
    by (rule reachable_rc.step [OF _ _ copy_one]) (simp add: live_var_def one_pointer_def)
qed

theorem reference_counts_sound_witness:
  "rc_counts two_pointers 1 = Some (card (holders two_pointers 1)) \<and>
   (fst (run_op (Leave 0) two_pointers) = Inr () \<or> (\<exists>e. fst (run_op (Leave 0) two_pointers) = Inl (Throw e)))"
proof -
  have "linked two_pointers (Var 1) 0 1" "enabled two_pointers (Leave 0)"
    by (simp_all add: two_pointers_def linked_def live_var_def)
  then show ?thesis
    using reference_counts_sound [OF two_pointers_reachable, of "Var 1" 0 1 "Leave 0"] by blast
qed

theorem others_unchanged_witness:
  "object_of (snd (run_op (Leave 0) two_pointers)) 1 = object_of two_pointers 1 \<and> object_of two_pointers 1 = Some ''v''"
proof -
  have "enabled two_pointers (Leave 0)" "object_of two_pointers 1 = Some ''v''"
    by (simp_all add: two_pointers_def live_var_def object_of_def)
  then show ?thesis using others_unchanged [OF two_pointers_reachable, of "Leave 0" 1] by simp
qed

text \<open>Assigning to a pointer the raw pointer it already holds, when it is the only one that holds
  it, destroys the object and keeps the pointer: using the object afterwards is a use after free,
  and destroying the pointer deletes the object a second time.\<close>
theorem self_assignment_destroys:
  assumes "rc_ptrs s (Var x) = Some (Some a, Some k)" and "rc_objs s a = Some v" and "rc_counts s k = Some 1"
    and "rc_ptrs s Temp = None" and "k < rc_fresh s"
  shows "\<exists>t. rc_assign_raw True (Var x) (Some a) s = (Inr (), t) \<and> raw (Var x) t = (Inr (Some a), t) \<and>
    fst (deref (Var x) t) = Inl (UB UseAfterFree) \<and> fst (rc_destroy (Var x) t) = Inl (UB DoubleFree)"
  using assms
  by (simp add: rc_assign_raw_def rc_wrap_def rc_swap_def rc_destroy_def rc_runs set_ptr_def write_count_def
      delete_count_def destroyer_def delete_object_def raw_def deref_def)

theorem self_assignment_destroys_witness:
  "\<exists>t. bind (run_op (Make True ''v'' (0 :: nat))) (\<lambda>_. rc_assign_raw True (Var 0) (Some 0)) rc_empty = (Inr (), t) \<and>
    fst (deref (Var 0) t) = Inl (UB UseAfterFree)"
proof -
  have "rc_ptrs one_pointer (Var 0) = Some (Some 0, Some 1)" "rc_objs one_pointer 0 = Some ''v''"
    "rc_counts one_pointer 1 = Some 1" "rc_ptrs one_pointer Temp = None" "1 < rc_fresh one_pointer"
    by (simp_all add: one_pointer_def)
  from self_assignment_destroys [OF this] show ?thesis
    unfolding bind_Inr [where m = "run_op (Make True ''v'' 0)", OF make_one] by blast
qed

end
