(* ===== verification/Sql_String.thy ===== *)
theory Sql_String
  imports Sql_Manip Sql_DateTime Ref_Counted
begin

text \<open>
  The \<open>String\<close> of MySQL++ (\<open>mysqlpp/lib/mystring.h\<close>, \<open>mystring.cpp\<close>): a field of a
  result, which converts itself to C++ types. A string has a buffer or none; the data pointer of a
  buffer can be null. The reading operations are functions of the buffer; the operations that share,
  replace or mark a buffer are operations of reference-counted pointers. Integers are those of a
  64-bit Unix platform: \<open>long\<close> and \<open>long long\<close> both have 64 bits.
\<close>

section \<open>Buffers\<close>

record str_buffer =
  str_data :: "string option"
  str_type :: nat
  str_null :: bool

type_synonym mstring = "str_buffer option"

definition SQLBuffer_new :: "string option \<Rightarrow> nat \<Rightarrow> bool \<Rightarrow> str_buffer" where
  "SQLBuffer_new str ty nul = \<lparr>str_data = str, str_type = ty, str_null = nul\<rparr>"

definition SQLBuffer_assign :: "string option \<Rightarrow> nat \<Rightarrow> bool \<Rightarrow> str_buffer \<Rightarrow> str_buffer" where
  "SQLBuffer_assign str ty nul b = b\<lparr>str_data := str, str_type := ty, str_null := nul\<rparr>"

definition set_null :: "str_buffer \<Rightarrow> str_buffer" where
  "set_null b = b\<lparr>str_null := True\<rparr>"

definition String_default :: mstring where "String_default = None"

text \<open>The constructor with a length copies that many bytes, and keeps a null pointer.\<close>

definition String_raw :: "string option \<Rightarrow> nat \<Rightarrow> nat \<Rightarrow> bool \<Rightarrow> mstring" where
  "String_raw str len ty nul = Some (SQLBuffer_new (map_option (take len) str) ty nul)"

definition String_string :: "string \<Rightarrow> nat \<Rightarrow> bool \<Rightarrow> mstring" where
  "String_string str ty nul = Some (SQLBuffer_new (Some str) ty nul)"

definition String_cstr :: "string \<Rightarrow> nat \<Rightarrow> bool \<Rightarrow> mstring" where
  "String_cstr str ty nul = Some (SQLBuffer_new (Some (takeWhile (\<lambda>c. c \<noteq> CHR 0x00) str)) ty nul)"

section \<open>Access\<close>

definition buffer_text :: "str_buffer \<Rightarrow> string" where
  "buffer_text b = (case str_data b of None \<Rightarrow> [] | Some d \<Rightarrow> d)"

definition String_data :: "mstring \<Rightarrow> string option" where
  "String_data s = (case s of None \<Rightarrow> None | Some b \<Rightarrow> str_data b)"

definition String_length :: "mstring \<Rightarrow> nat" where
  "String_length s = (case s of None \<Rightarrow> 0 | Some b \<Rightarrow> length (buffer_text b))"

definition String_empty :: "mstring \<Rightarrow> bool" where
  "String_empty s \<longleftrightarrow> String_length s = 0"

definition String_at :: "mstring \<Rightarrow> nat \<Rightarrow> char res" where
  "String_at s pos = (if String_length s \<le> pos then Inl (Throw BadIndex)
     else case String_data s of None \<Rightarrow> Inl (UB NullDeref) | Some d \<Rightarrow> Inr (d ! pos))"

definition String_is_null :: "mstring \<Rightarrow> bool" where
  "String_is_null s = (case s of None \<Rightarrow> False | Some b \<Rightarrow> str_null b)"

definition String_type :: "platform \<Rightarrow> mstring \<Rightarrow> nat" where
  "String_type pl s = (case s of None \<Rightarrow> string_type pl | Some b \<Rightarrow> str_type b)"

definition String_escape_q :: "platform \<Rightarrow> mstring \<Rightarrow> bool" where
  "String_escape_q pl s = (case s of None \<Rightarrow> False | Some b \<Rightarrow> type_escape_q pl (str_type b))"

definition String_quote_q :: "platform \<Rightarrow> mstring \<Rightarrow> bool" where
  "String_quote_q pl s = (case s of None \<Rightarrow> True | Some b \<Rightarrow> type_quote_q pl (str_type b))"

definition to_string :: "mstring \<Rightarrow> string" where
  "to_string s = (case s of None \<Rightarrow> [] | Some b \<Rightarrow> buffer_text b)"

definition strip_leading_blanks :: "mstring \<Rightarrow> string" where
  "strip_leading_blanks s = (case String_data s of None \<Rightarrow> [] | Some d \<Rightarrow> dropWhile (\<lambda>c. c = CHR '' '') d)"

text \<open>The insertion into a query or another stream; no field width is set.\<close>

definition String_insert :: "string \<Rightarrow> mstring \<Rightarrow> string" where
  "String_insert out s = out @ to_string s"

text \<open>Comparison with a C string, which can be null.\<close>

definition String_compare_at :: "mstring \<Rightarrow> nat \<Rightarrow> nat \<Rightarrow> string option \<Rightarrow> int res" where
  "String_compare_at s pos len other = (case (s, other) of
       (Some b, Some t) \<Rightarrow> (case str_data b of
           None \<Rightarrow> Inl (UB NullDeref)
         | Some d \<Rightarrow> if length d < pos then Inl (UB OutOfBounds) else Inr (strncmp len (drop pos d) t))
     | (_, None) \<Rightarrow> Inr (if 0 < String_length s then 1 else 0)
     | (None, Some t) \<Rightarrow> Inr (if t = [] \<or> hd t = CHR 0x00 then 0 else - 1))"

definition String_compare :: "mstring \<Rightarrow> mstring \<Rightarrow> int res" where
  "String_compare s other = (case other of
       Some b \<Rightarrow> String_compare_at s 0 (max (String_length s) (String_length other)) (str_data b)
     | None \<Rightarrow> Inr (if 0 < String_length s then 1 else 0))"

definition String_compare_string :: "mstring \<Rightarrow> string \<Rightarrow> int res" where
  "String_compare_string s other = String_compare_at s 0 (max (String_length s) (length other)) (Some other)"

definition String_compare_cstr :: "mstring \<Rightarrow> string \<Rightarrow> int res" where
  "String_compare_cstr s other =
     String_compare_at s 0 (max (String_length s) (length (takeWhile (\<lambda>c. c \<noteq> CHR 0x00) other))) (Some other)"

definition String_equals_string :: "mstring \<Rightarrow> string \<Rightarrow> bool res" where
  "String_equals_string s other = rbind (String_compare_string s other) (\<lambda>n. Inr (n = 0))"

definition String_equals_null :: "mstring \<Rightarrow> bool" where
  "String_equals_null s = String_is_null s"

section \<open>Conversion to numbers\<close>

text \<open>
  \<open>buf >> num\<close> of the standard library in the classic locale: white space is skipped, then a sign
  and decimal digits are taken. No digits, or a number out of range, set the fail bit; a number out
  of range stores the nearest limit. A negative number of an unsigned type is the negation in that
  type. The end-of-file bit is set when nothing is left.
\<close>

definition read_integer :: "bool \<Rightarrow> string \<Rightarrow> 64 word \<times> bool \<times> string" where
  "read_integer signed_type s = (let t = dropWhile is_space s;
     neg = (take 1 t = ''-'');
     u = (if take 1 t = ''-'' \<or> take 1 t = ''+'' then drop 1 t else t);
     n = decimal (takeWhile is_digit u);
     rest = dropWhile is_digit u
   in if takeWhile is_digit u = [] then (0, True, rest)
      else if signed_type then
        (if neg then if n \<le> 2 ^ 63 then (- of_nat n, False, rest) else (- (2 ^ 63), True, rest)
         else if n < 2 ^ 63 then (of_nat n, False, rest) else (2 ^ 63 - 1, True, rest))
      else if n < 2 ^ 64 then ((if neg then - of_nat n else of_nat n), False, rest)
      else (- 1, True, rest))"

text \<open>The loop that looks for anything but zeros after the decimal point; it skips white space.\<close>

fun only_zeros :: "string \<Rightarrow> bool" where
  "only_zeros [] = True"
| "only_zeros (c # r) = (if is_space c then only_zeros r else c = CHR ''0'' \<and> only_zeros r)"

definition do_conv :: "bool \<Rightarrow> mstring \<Rightarrow> 64 word res" where
  "do_conv signed_type s = (case s of None \<Rightarrow> Inr 0 | Some b \<Rightarrow>
     (case read_integer signed_type (buffer_text b) of (n, failed, rest) \<Rightarrow>
        let bad = Inl (Throw (BadConversion (buffer_text b))) in
        if \<not> failed then
          (case dropWhile is_space rest of
             [] \<Rightarrow> Inr n
           | c # r \<Rightarrow> if c = CHR ''.'' \<and> only_zeros r then Inr n else bad)
        else if rest = [] then Inr n
        else bad))"

text \<open>The instances of \<open>conv\<close>: the wide integer is converted to the type without a check.\<close>

definition conv_char :: "mstring \<Rightarrow> 8 word res" where
  "conv_char s = rbind (do_conv True s) (\<lambda>n. Inr (ucast n))"

definition conv_schar :: "mstring \<Rightarrow> 8 word res" where
  "conv_schar s = rbind (do_conv True s) (\<lambda>n. Inr (ucast n))"

definition conv_uchar :: "mstring \<Rightarrow> 8 word res" where
  "conv_uchar s = rbind (do_conv False s) (\<lambda>n. Inr (ucast n))"

definition conv_short :: "mstring \<Rightarrow> 16 word res" where
  "conv_short s = rbind (do_conv True s) (\<lambda>n. Inr (ucast n))"

definition conv_ushort :: "mstring \<Rightarrow> 16 word res" where
  "conv_ushort s = rbind (do_conv False s) (\<lambda>n. Inr (ucast n))"

definition conv_int :: "mstring \<Rightarrow> 32 word res" where
  "conv_int s = rbind (do_conv True s) (\<lambda>n. Inr (ucast n))"

definition conv_uint :: "mstring \<Rightarrow> 32 word res" where
  "conv_uint s = rbind (do_conv False s) (\<lambda>n. Inr (ucast n))"

definition conv_long :: "mstring \<Rightarrow> 64 word res" where
  "conv_long s = do_conv True s"

definition conv_ulong :: "mstring \<Rightarrow> 64 word res" where
  "conv_ulong s = do_conv False s"

definition conv_longlong :: "mstring \<Rightarrow> 64 word res" where
  "conv_longlong s = do_conv True s"

definition conv_ulonglong :: "mstring \<Rightarrow> 64 word res" where
  "conv_ulonglong s = do_conv False s"

text \<open>
  The small integers of the library are classes without numeric limits of their own, so that both
  are converted as an \<open>unsigned long\<close>, whose low byte is kept.
\<close>

definition conv_tiny :: "mstring \<Rightarrow> 8 word res" where
  "conv_tiny s = rbind (do_conv False s) (\<lambda>n. Inr (ucast n))"

definition conv_utiny :: "mstring \<Rightarrow> 8 word res" where
  "conv_utiny s = rbind (do_conv False s) (\<lambda>n. Inr (ucast n))"

text \<open>\<open>atoi\<close> of the C string; a number that is no \<open>int\<close> is not defined.\<close>

definition String_bool :: "mstring \<Rightarrow> bool res" where
  "String_bool s = (case s of None \<Rightarrow> Inr False | Some b \<Rightarrow> (case str_data b of
       None \<Rightarrow> Inl (UB NullDeref)
     | Some d \<Rightarrow> let n = strtol10 (takeWhile (\<lambda>c. c \<noteq> CHR 0x00) d) in
         if - (2 ^ 31) \<le> n \<and> n < 2 ^ 31 then Inr (n \<noteq> 0) else Inl (UB NotRepresentable)))"

section \<open>Other conversions\<close>

definition conv_string :: "mstring \<Rightarrow> string res" where
  "conv_string s = Inr (case s of None \<Rightarrow> [] | Some b \<Rightarrow> buffer_text b)"

text \<open>\<open>T(c_str())\<close> for the types of dates and times: the parser runs over the terminated buffer.\<close>

definition parse_buffer :: "(string \<Rightarrow> ('a \<times> string) res) \<Rightarrow> 'a \<Rightarrow> mstring \<Rightarrow> 'a res" where
  "parse_buffer convert initial s = (case s of None \<Rightarrow> Inr initial | Some b \<Rightarrow>
     (case str_data b of None \<Rightarrow> Inl (UB NullDeref)
      | Some d \<Rightarrow> rbind (convert (d @ [CHR 0x00])) (\<lambda>(v, _). Inr v)))"

definition conv_date :: "mstring \<Rightarrow> date res" where
  "conv_date = parse_buffer Date_convert Date_default"

definition conv_time :: "mstring \<Rightarrow> time res" where
  "conv_time = parse_buffer Time_convert Time_default"

definition conv_datetime :: "mstring \<Rightarrow> datetime res" where
  "conv_datetime = parse_buffer DateTime_convert DateTime_default"

text \<open>\<open>conv\<close> to a nullable type.\<close>

definition conv_nullable :: "(mstring \<Rightarrow> 'a res) \<Rightarrow> mstring \<Rightarrow> 'a option res" where
  "conv_nullable conv s = (if String_is_null s then Inr None else rbind (conv s) (\<lambda>v. Inr (Some v)))"

section \<open>Shared buffers\<close>

text \<open>
  A copy shares the buffer, an assignment of text makes a new one, and marking a string as null
  changes the buffer it has.
\<close>

type_synonym 'x strings = "('x, str_buffer) rc"

definition String_copy :: "'x \<Rightarrow> 'x \<Rightarrow> ('x, str_buffer, unit) rcm" where
  "String_copy x other = run_op (Make_Copy x other)"

definition String_assign :: "'x \<Rightarrow> 'x \<Rightarrow> ('x, str_buffer, unit) rcm" where
  "String_assign x other = run_op (Assign x other)"

definition String_assign_text :: "bool \<Rightarrow> 'x \<Rightarrow> string option \<Rightarrow> nat \<Rightarrow> bool \<Rightarrow> ('x, str_buffer, unit) rcm" where
  "String_assign_text memory x str ty nul = run_op (Assign_New memory (SQLBuffer_new str ty nul) x)"

definition it_is_null :: "platform \<Rightarrow> bool \<Rightarrow> 'x \<Rightarrow> ('x, str_buffer, unit) rcm" where
  "it_is_null pl memory x = bind (raw (Var x)) (\<lambda>p. case p of
       Some _ \<Rightarrow> run_op (Change x set_null)
     | None \<Rightarrow> run_op (Assign_New memory (SQLBuffer_new None (string_type pl) True) x))"

section \<open>Integers\<close>

definition text_of :: "string \<Rightarrow> mstring" where
  "text_of t = Some \<lparr>str_data = Some t, str_type = 0, str_null = False\<rparr>"

lemma shown_digits:
  "takeWhile is_digit (show_nat n @ r) = show_nat n @ takeWhile is_digit r"
  "dropWhile is_digit (show_nat n @ r) = dropWhile is_digit r"
  "decimal (show_nat n) = n" "show_nat n \<noteq> []"
  using show_nat_digits [of n] by (simp_all add: list_all_iff)

lemma shown_start:
  "dropWhile is_space (show_nat n @ r) = show_nat n @ r" "take 1 (show_nat n @ r) \<noteq> ''-''"
  "take 1 (show_nat n @ r) \<noteq> ''+''"
proof -
  obtain c t where s: "show_nat n = c # t" "is_digit c"
    using show_nat_digits [of n] by (cases "show_nat n") auto
  then have "\<not> is_space c" "c \<noteq> CHR ''-''" "c \<noteq> CHR ''+''" by (auto simp: is_digit_def is_space_def)
  then show "dropWhile is_space (show_nat n @ r) = show_nat n @ r" "take 1 (show_nat n @ r) \<noteq> ''-''"
    "take 1 (show_nat n @ r) \<noteq> ''+''"
    using s by simp_all
qed

text \<open>What is read from a number as the library writes it, and anything that is no digit after it.\<close>

lemma read_shown:
  assumes "r = [] \<or> \<not> is_digit (hd r)"
  shows "read_integer signed_type (show_nat n @ r) =
    (if n < (if signed_type then 2 ^ 63 else 2 ^ 64) then (of_nat n, False, r)
     else ((if signed_type then 2 ^ 63 - 1 else - 1), True, r))"
proof -
  have "takeWhile is_digit r = []" "dropWhile is_digit r = r" using assms by (cases r; simp)+
  then show ?thesis
    by (simp only: read_integer_def shown_start shown_digits Let_def append_Nil2 simp_thms if_False) simp
qed

lemma read_shown_negative:
  assumes "r = [] \<or> \<not> is_digit (hd r)"
  shows "read_integer signed_type (CHR ''-'' # show_nat n @ r) =
    (if signed_type then if n \<le> 2 ^ 63 then (- of_nat n, False, r) else (- (2 ^ 63), True, r)
     else if n < 2 ^ 64 then (- of_nat n, False, r) else (- 1, True, r))"
proof -
  have "takeWhile is_digit r = []" "dropWhile is_digit r = r" using assms by (cases r; simp)+
  moreover have "\<not> is_space (CHR ''-'')" by (simp add: is_space_def)
  ultimately show ?thesis
    unfolding read_integer_def Let_def by (simp add: shown_digits)
qed

lemma conv_shown_signed:
  assumes "- (2 ^ 63) \<le> i" and "i < 2 ^ 63"
  shows "do_conv True (Some \<lparr>str_data = Some (show_int i), str_type = ty, str_null = nul\<rparr>) = Inr (of_int i)"
proof (cases "i < 0")
  case True
  then have "nat (- i) \<le> 2 ^ 63" using assms(1) by simp
  moreover have "- of_nat (nat (- i)) = (of_int i :: 64 word)" using True by simp
  ultimately show ?thesis
    using True read_shown_negative [of "[]" True "nat (- i)"]
    by (simp add: do_conv_def buffer_text_def show_int_def)
next
  case False
  then have "nat i < 2 ^ 63" using assms(2) by simp
  then show ?thesis
    using False read_shown [of "[]" True "nat i"] by (simp add: do_conv_def buffer_text_def show_int_def)
qed

lemma conv_shown_unsigned:
  assumes "0 \<le> i" and "i < 2 ^ 64"
  shows "do_conv False (Some \<lparr>str_data = Some (show_int i), str_type = ty, str_null = nul\<rparr>) = Inr (of_int i)"
proof -
  have "nat i < 2 ^ 64" using assms by simp
  then show ?thesis
    using assms(1) read_shown [of "[]" False "nat i"] by (simp add: do_conv_def buffer_text_def show_int_def)
qed

section \<open>What can be converted\<close>

text \<open>
  White space, a sign, digits and a rest that starts with something else. A number that fits can be
  followed by white space and a decimal point with zeros; if there is no number, or it does not fit,
  nothing may follow.
\<close>

definition integer_fits :: "bool \<Rightarrow> string \<Rightarrow> nat \<Rightarrow> bool" where
  "integer_fits signed_type sign n \<longleftrightarrow>
     n < (if \<not> signed_type then 2 ^ 64 else if sign = ''-'' then 2 ^ 63 + 1 else 2 ^ 63)"

definition integer_tail :: "string \<Rightarrow> bool" where
  "integer_tail r \<longleftrightarrow> list_all is_space r \<or>
     (\<exists>v z. r = v @ ''.'' @ z \<and> list_all is_space v \<and> list_all (\<lambda>c. c = CHR ''0'' \<or> is_space c) z)"

definition integer_parts :: "string \<Rightarrow> string \<Rightarrow> string \<Rightarrow> string \<Rightarrow> bool" where
  "integer_parts w sign ds r \<longleftrightarrow> list_all is_space w \<and> sign \<in> {[], ''-'', ''+''} \<and> list_all is_digit ds \<and>
     (r = [] \<or> \<not> is_digit (hd r)) \<and>
     (sign = [] \<and> ds = [] \<longrightarrow> r = [] \<or> \<not> is_space (hd r) \<and> hd r \<noteq> CHR ''-'' \<and> hd r \<noteq> CHR ''+'')"

definition reads_as_integer :: "bool \<Rightarrow> string \<Rightarrow> bool" where
  "reads_as_integer signed_type s \<longleftrightarrow> (\<exists>w sign ds r. s = w @ sign @ ds @ r \<and> integer_parts w sign ds r \<and>
     (if ds \<noteq> [] \<and> integer_fits signed_type sign (decimal ds) then integer_tail r else r = []))"

lemma number_char_facts: "is_digit c \<Longrightarrow> \<not> is_space c \<and> c \<noteq> CHR ''-'' \<and> c \<noteq> CHR ''+'' \<and> c \<noteq> CHR ''.''"
  by (auto simp: is_digit_def is_space_def)

lemma parts_start:
  assumes "integer_parts w sign ds r"
  shows "dropWhile is_space (w @ sign @ ds @ r) = sign @ ds @ r"
    and "take 1 (sign @ ds @ r) = ''-'' \<longleftrightarrow> sign = ''-''" and "take 1 (sign @ ds @ r) = ''+'' \<longleftrightarrow> sign = ''+''"
    and "takeWhile is_digit (ds @ r) = ds" and "dropWhile is_digit (ds @ r) = r"
proof -
  have signs: "\<not> is_space (CHR ''-'')" "\<not> is_space (CHR ''+'')" by (simp_all add: is_space_def)
  have w: "dropWhile is_space (w @ t) = dropWhile is_space t" for t
    using assms by (simp add: integer_parts_def list_all_iff)
  have "sign @ ds @ r = [] \<or> \<not> is_space (hd (sign @ ds @ r))"
    using assms signs number_char_facts by (cases ds; cases r) (auto simp: integer_parts_def)
  then show "dropWhile is_space (w @ sign @ ds @ r) = sign @ ds @ r"
    unfolding w by (cases "sign @ ds @ r") auto
  show "take 1 (sign @ ds @ r) = ''-'' \<longleftrightarrow> sign = ''-''" "take 1 (sign @ ds @ r) = ''+'' \<longleftrightarrow> sign = ''+''"
    using assms number_char_facts by (cases ds; cases r; auto simp: integer_parts_def)+
  show "takeWhile is_digit (ds @ r) = ds" "dropWhile is_digit (ds @ r) = r"
    using assms by (cases r; auto simp: integer_parts_def list_all_iff)+
qed

lemma read_parts:
  assumes "integer_parts w sign ds r"
  shows "\<exists>n. read_integer signed_type (w @ sign @ ds @ r) =
    (n, \<not> (ds \<noteq> [] \<and> integer_fits signed_type sign (decimal ds)), r)"
proof -
  have "sign \<in> {[], ''-'', ''+''}" using assms by (simp add: integer_parts_def)
  then have "(if sign = ''-'' \<or> sign = ''+'' then drop 1 (sign @ ds @ r) else sign @ ds @ r) = ds @ r" by auto
  then show ?thesis
    by (simp only: read_integer_def parts_start [OF assms] Let_def)
      (simp only: parts_start [OF assms] integer_fits_def, simp)
qed

lemma sign_split:
  "t = (if take 1 t = ''-'' \<or> take 1 t = ''+'' then take 1 t else []) @
     drop (length (if take 1 t = ''-'' \<or> take 1 t = ''+'' then take 1 t else [])) t"
  by (cases t) auto

lemma parts_exist: "\<exists>w sign ds r. s = w @ sign @ ds @ r \<and> integer_parts w sign ds r"
proof -
  define t where "t = dropWhile is_space s"
  define sign where "sign = (if take 1 t = ''-'' \<or> take 1 t = ''+'' then take 1 t else [])"
  define u where "u = drop (length sign) t"
  define ds where "ds = takeWhile is_digit u"
  define r where "r = dropWhile is_digit u"
  have "t = sign @ u" unfolding u_def sign_def by (rule sign_split)
  moreover have "u = ds @ r" by (simp add: ds_def r_def)
  moreover have "s = takeWhile is_space s @ t" by (simp add: t_def)
  ultimately have s: "s = takeWhile is_space s @ sign @ ds @ r" by simp
  have "list_all is_space (takeWhile is_space s)" "list_all is_digit ds"
    by (auto simp: list_all_iff ds_def dest: set_takeWhileD)
  moreover have "r = [] \<or> \<not> is_digit (hd r)" using hd_dropWhile [of is_digit u] by (auto simp: r_def)
  moreover have "t = [] \<or> \<not> is_space (hd t)" using hd_dropWhile [of is_space s] by (auto simp: t_def)
  moreover have "sign \<in> {[], ''-'', ''+''}" by (simp add: sign_def)
  moreover have "t = [] \<or> hd t \<noteq> CHR ''-'' \<and> hd t \<noteq> CHR ''+''" if "sign = []"
    using that by (cases t) (auto simp: sign_def split: if_splits)
  moreover have "t = r" if "sign = []" "ds = []" using \<open>t = sign @ u\<close> \<open>u = ds @ r\<close> that by simp
  ultimately have "integer_parts (takeWhile is_space s) sign ds r" unfolding integer_parts_def by blast
  with s show ?thesis by blast
qed

lemma only_zeros_iff: "only_zeros z \<longleftrightarrow> list_all (\<lambda>c. c = CHR ''0'' \<or> is_space c) z"
  by (induction z) (auto simp: is_space_def)

lemma tail_iff:
  "(case dropWhile is_space r of [] \<Rightarrow> True | c # z \<Rightarrow> c = CHR ''.'' \<and> only_zeros z) \<longleftrightarrow> integer_tail r"
proof -
  have dot: "\<not> is_space (CHR ''.'')" by (simp add: is_space_def)
  show ?thesis
  proof (cases "dropWhile is_space r")
    case Nil
    then have "list_all is_space r" by (simp add: list_all_iff)
    then have "integer_tail r" by (simp add: integer_tail_def)
    then show ?thesis unfolding Nil by simp
  next
    case (Cons c z)
    then have r: "r = takeWhile is_space r @ c # z" "\<not> is_space c"
      by (metis takeWhile_dropWhile_id, metis hd_dropWhile list.sel(1) list.simps(3))
    have "\<not> list_all is_space r" using Cons by (metis dropWhile_eq_Nil_conv list.discI list_all_iff)
    moreover have "v = takeWhile is_space r \<and> c = CHR ''.'' \<and> y = z"
      if "r = v @ ''.'' @ y" "list_all is_space v" for v y
      using that Cons dot by (simp add: list_all_iff)
    moreover have "list_all is_space (takeWhile is_space r)" by (auto simp: list_all_iff dest: set_takeWhileD)
    ultimately show ?thesis
      using Cons r(1) unfolding integer_tail_def only_zeros_iff by auto
  qed
qed

lemma tail_result:
  "(case dropWhile is_space r of [] \<Rightarrow> x | c # z \<Rightarrow> if c = CHR ''.'' \<and> only_zeros z then x else y) =
     (if integer_tail r then x else y)"
  using tail_iff [of r] by (cases "dropWhile is_space r") (simp_all only: list.case if_True)

lemma do_conv_parts:
  assumes "integer_parts w sign ds r"
  shows "(\<exists>n. do_conv signed_type (text_of (w @ sign @ ds @ r)) = Inr n) \<longleftrightarrow>
    (if ds \<noteq> [] \<and> integer_fits signed_type sign (decimal ds) then integer_tail r else r = [])"
proof -
  obtain n where n: "read_integer signed_type (w @ sign @ ds @ r) =
      (n, \<not> (ds \<noteq> [] \<and> integer_fits signed_type sign (decimal ds)), r)"
    using read_parts [OF assms] by blast
  show ?thesis
    unfolding do_conv_def text_of_def by (simp add: buffer_text_def n Let_def tail_result)
qed

section \<open>Properties\<close>

text \<open>C34: a string converts to a signed or unsigned integer, instead of throwing, exactly when its text is
  white space, a sign and a number that fits, followed by white space or by a decimal point with
  only zeros and white space behind it; or when there is no number, or one that does not fit, and
  nothing follows.\<close>
theorem conversion_accepts:
  "(\<exists>n. do_conv signed_type (text_of s) = Inr n) \<longleftrightarrow> reads_as_integer signed_type s"
proof
  assume conv: "\<exists>n. do_conv signed_type (text_of s) = Inr n"
  obtain w sign ds r where "s = w @ sign @ ds @ r" "integer_parts w sign ds r"
    using parts_exist by blast
  then show "reads_as_integer signed_type s"
    using conv do_conv_parts [of w sign ds r signed_type] unfolding reads_as_integer_def by metis
next
  assume "reads_as_integer signed_type s"
  then show "\<exists>n. do_conv signed_type (text_of s) = Inr n"
    unfolding reads_as_integer_def using do_conv_parts by blast
qed

text \<open>A run of digits whose number does not fit converts to the largest value of the type without
  any error when it is all the text there is, and is rejected when a blank or \<open>.0\<close> follows.\<close>
theorem overflow_is_silent:
  assumes "2 ^ 64 \<le> n"
  shows "conv_long (text_of (show_nat n)) = Inr (2 ^ 63 - 1) \<and> conv_ulong (text_of (show_nat n)) = Inr (- 1) \<and>
    conv_long (text_of (show_nat n @ '' '')) = Inl (Throw (BadConversion (show_nat n @ '' ''))) \<and>
    conv_ulong (text_of (show_nat n @ ''.0'')) = Inl (Throw (BadConversion (show_nat n @ ''.0'')))"
  using assms read_shown [of "[]" True n] read_shown [of "[]" False n] read_shown [of "'' ''" True n]
    read_shown [of "''.0''" False n]
  by (simp add: conv_long_def conv_ulong_def do_conv_def text_of_def buffer_text_def is_digit_def)

theorem overflow_is_silent_witness:
  "conv_long (text_of (show_nat (2 ^ 64))) = Inr (2 ^ 63 - 1)"
  using overflow_is_silent [of "2 ^ 64"] by blast

text \<open>A field with the text and type of a value.\<close>

definition field_of :: "adapter \<Rightarrow> mstring" where
  "field_of a = map_option (\<lambda>b. \<lparr>str_data = Some (buf_data b), str_type = buf_type b, str_null = buf_null b\<rparr>) (ad_buffer a)"

lemma word_range:
  "- (2 ^ 63) \<le> sint (w :: 'a::len word) \<and> sint w < 2 ^ 63" "0 \<le> uint w \<and> uint w < 2 ^ 64" if "LENGTH('a) \<le> 64"
proof -
  have "(2 :: int) ^ (LENGTH('a) - Suc 0) \<le> 2 ^ 63" using that by (intro power_increasing) auto
  then show "- (2 ^ 63) \<le> sint w \<and> sint w < 2 ^ 63"
    using sint_greater_eq [of w] sint_less [of w] by linarith
  have "(2 :: int) ^ LENGTH('a) \<le> 2 ^ 64" using that by (intro power_increasing) auto
  then show "0 \<le> uint w \<and> uint w < 2 ^ 64" using uint_bounded [of w] uint_nonnegative [of w] by (meson less_le_trans)
qed

lemma narrow_of_int: "(ucast (word_of_int i :: 64 word) :: 'a::len word) = word_of_int i" if "LENGTH('a) \<le> 64"
  using that by (simp add: unsigned_of_int) (simp add: word_of_int_eq_iff take_bit_take_bit min_def)

lemma shown_back:
  "do_conv True (Some \<lparr>str_data = Some (show_int (sint (w :: 'a::len word))), str_type = ty, str_null = nul\<rparr>) = Inr (word_of_int (sint w))"
  "do_conv False (Some \<lparr>str_data = Some (show_int (uint w)), str_type = ty, str_null = nul\<rparr>) = Inr (word_of_int (uint w))"
  if "LENGTH('a) \<le> 64"
  using word_range [OF that, of w] conv_shown_signed conv_shown_unsigned by auto

lemma narrow_back:
  "ucast (word_of_int (sint (w :: 'a::len word)) :: 64 word) = w" "ucast (word_of_int (uint w) :: 64 word) = w"
  if "LENGTH('a) \<le> 64"
  unfolding narrow_of_int [OF that] by simp_all

lemma read_back:
  "rbind (do_conv True (Some \<lparr>str_data = Some (show_int (sint (w :: 'a::len word))), str_type = ty, str_null = nul\<rparr>))
     (\<lambda>n. Inr (ucast n)) = Inr w"
  "rbind (do_conv False (Some \<lparr>str_data = Some (show_int (uint w)), str_type = ty, str_null = nul\<rparr>))
     (\<lambda>n. Inr (ucast n)) = Inr w"
  if "LENGTH('a) \<le> 64"
  by (simp_all only: shown_back [OF that] rbind_Inr narrow_back [OF that])

lemma conv_shown_any:
  assumes "- (2 ^ 64) < i" and "i < 2 ^ 64"
  shows "do_conv False (Some \<lparr>str_data = Some (show_int i), str_type = ty, str_null = nul\<rparr>) = Inr (of_int i)"
proof (cases "i < 0")
  case True
  then have "nat (- i) < 2 ^ 64" using assms(1) by simp
  moreover have "- of_nat (nat (- i)) = (of_int i :: 64 word)" using True by simp
  ultimately show ?thesis
    using True read_shown_negative [of "[]" False "nat (- i)"] by (simp add: do_conv_def buffer_text_def show_int_def)
next
  case False
  then show ?thesis using conv_shown_unsigned assms(2) by simp
qed

lemma plain_field:
  assumes "ty \<in> numbered pl" and "\<And>n. f (Some \<lparr>str_data = Some t, str_type = n, str_null = False\<rparr>) = x"
  shows "\<exists>a. plain_adapter pl t ty = Inr a \<and> f (field_of a) = x"
  using assms lookup_found [of pl ty] by (auto simp: plain_adapter_def field_of_def adapter_of_def)

lemma conv_back:
  "conv_schar (Some \<lparr>str_data = Some (show_int (sint i1)), str_type = ty, str_null = False\<rparr>) = Inr i1"
  "conv_uchar (Some \<lparr>str_data = Some (show_int (uint i2)), str_type = ty, str_null = False\<rparr>) = Inr i2"
  "conv_short (Some \<lparr>str_data = Some (show_int (sint i3)), str_type = ty, str_null = False\<rparr>) = Inr i3"
  "conv_ushort (Some \<lparr>str_data = Some (show_int (uint i4)), str_type = ty, str_null = False\<rparr>) = Inr i4"
  "conv_int (Some \<lparr>str_data = Some (show_int (sint i5)), str_type = ty, str_null = False\<rparr>) = Inr i5"
  "conv_uint (Some \<lparr>str_data = Some (show_int (uint i6)), str_type = ty, str_null = False\<rparr>) = Inr i6"
  "conv_long (Some \<lparr>str_data = Some (show_int (sint i7)), str_type = ty, str_null = False\<rparr>) = Inr i7"
  "conv_ulong (Some \<lparr>str_data = Some (show_int (uint i8)), str_type = ty, str_null = False\<rparr>) = Inr i8"
  unfolding conv_schar_def conv_uchar_def conv_short_def conv_ushort_def conv_int_def conv_uint_def
    conv_long_def conv_ulong_def
  by (rule read_back; simp | simp add: shown_back)+

lemma tiny_back:
  "conv_tiny (Some \<lparr>str_data = Some (show_int (sint i)), str_type = ty, str_null = False\<rparr>) = Inr i"
  "conv_utiny (Some \<lparr>str_data = Some (show_int (uint j)), str_type = ty, str_null = False\<rparr>) = Inr j"
proof -
  have "- (2 ^ 64) < sint i" "sint i < 2 ^ 64" using word_range(1) [where w = i] by simp_all
  then show "conv_tiny (Some \<lparr>str_data = Some (show_int (sint i)), str_type = ty, str_null = False\<rparr>) = Inr i"
    using conv_shown_any narrow_of_int [where 'a = 8, of "sint i"] by (simp add: conv_tiny_def)
  show "conv_utiny (Some \<lparr>str_data = Some (show_int (uint j)), str_type = ty, str_null = False\<rparr>) = Inr j"
    unfolding conv_utiny_def by (rule read_back) simp
qed

lemma longlong_back:
  "conv_longlong (Some \<lparr>str_data = Some (show_int (sint i)), str_type = ty, str_null = False\<rparr>) = Inr i"
  "conv_ulonglong (Some \<lparr>str_data = Some (show_int (uint j)), str_type = ty, str_null = False\<rparr>) = Inr j"
  using conv_back(7,8) by (simp_all add: conv_longlong_def conv_ulonglong_def conv_long_def conv_ulong_def)

lemma always_numbered: "{T_tiny, T_utiny, T_short, T_ushort, T_int, T_uint} \<subseteq> numbered pl"
  by (simp add: numbered_def)

text \<open>C33: an integer written as the value of a query, and read back from a field with its text into the same
  C++ type, is the same integer: for the small integers of the library, short, int and their unsigned
  forms on every platform, for long and unsigned long where they are the 64-bit integers, and for long
  long and unsigned long long where those are. The other two of the four throw when they are written,
  because their type has no number.\<close>
theorem integers_read_back:
  "(\<exists>a. STA_tiny pl i1 = Inr a \<and> conv_tiny (field_of a) = Inr i1) \<and>
   (\<exists>a. STA_utiny pl i2 = Inr a \<and> conv_utiny (field_of a) = Inr i2) \<and>
   (\<exists>a. STA_short pl i3 = Inr a \<and> conv_short (field_of a) = Inr i3) \<and>
   (\<exists>a. STA_ushort pl i4 = Inr a \<and> conv_ushort (field_of a) = Inr i4) \<and>
   (\<exists>a. STA_int pl i5 = Inr a \<and> conv_int (field_of a) = Inr i5) \<and>
   (\<exists>a. STA_unsigned pl i6 = Inr a \<and> conv_uint (field_of a) = Inr i6) \<and>
   (if int64_is_long pl
    then (\<exists>a. STA_long pl i7 = Inr a \<and> conv_long (field_of a) = Inr i7) \<and>
      (\<exists>a. STA_ulong pl i8 = Inr a \<and> conv_ulong (field_of a) = Inr i8) \<and>
      (\<exists>msg. STA_longlong pl i9 = Inl (Throw (TypeLookupFailed msg))) \<and>
      (\<exists>msg. STA_ulonglong pl i10 = Inl (Throw (TypeLookupFailed msg)))
    else (\<exists>a. STA_longlong pl i9 = Inr a \<and> conv_longlong (field_of a) = Inr i9) \<and>
      (\<exists>a. STA_ulonglong pl i10 = Inr a \<and> conv_ulonglong (field_of a) = Inr i10) \<and>
      (\<exists>msg. STA_long pl i7 = Inl (Throw (TypeLookupFailed msg))) \<and>
      (\<exists>msg. STA_ulong pl i8 = Inl (Throw (TypeLookupFailed msg))))"
  unfolding STA_tiny_def STA_utiny_def STA_short_def STA_ushort_def STA_int_def STA_unsigned_def STA_long_def
    STA_ulong_def STA_longlong_def STA_ulonglong_def
  using always_numbered [of pl] wide_numbered [of pl]
  by (auto intro!: plain_field conv_back tiny_back longlong_back unnumbered_throws)

text \<open>A narrower integer type takes the low bits of any number of the wide type, so that a field that
  does not fit the type converts to another number without an error.\<close>
theorem narrowing_is_silent:
  assumes "- (2 ^ 63) \<le> i" and "i < 2 ^ 63"
  shows "conv_schar (text_of (show_int i)) = Inr (word_of_int i) \<and> conv_short (text_of (show_int i)) = Inr (word_of_int i) \<and>
    conv_int (text_of (show_int i)) = Inr (word_of_int i)"
  using conv_shown_signed [OF assms]
  by (simp add: conv_schar_def conv_short_def conv_int_def text_of_def narrow_of_int)

theorem narrowing_is_silent_witness: "conv_schar (text_of (show_int 300)) = Inr 44"
  using narrowing_is_silent [of 300] by simp

text \<open>Dates and times written into a query are read back from a field, and a null field reads as the
  null value whatever its text.\<close>
theorem dates_read_back:
  assumes "date_fits d" and "time_fits t"
  shows "conv_nullable conv_date (text_of (Date_text d)) = Inr (Some d) \<and>
    conv_nullable conv_time (text_of (Time_text t)) = Inr (Some t) \<and>
    conv_nullable conv_date (String_string s ty True) = Inr None"
  using Date_read_written [OF assms(1), of "[CHR 0x00]"] Time_read_written [OF assms(2), of "[CHR 0x00]"]
  by (simp add: conv_nullable_def String_is_null_def text_of_def conv_date_def conv_time_def parse_buffer_def
      String_string_def SQLBuffer_new_def)

theorem dates_read_back_witness:
  "conv_nullable conv_date (text_of (Date_text (Date 2016 2 29))) = Inr (Some (Date 2016 2 29))"
  using dates_read_back [of "Date 2016 2 29" "Time 1 2 3"] by (simp add: date_fits_def time_fits_def)

text \<open>Marking a string as null marks every string that shares its buffer, and no other.\<close>
theorem null_is_shared:
  assumes "rc_ptrs s (Var x) = Some (Some a, k)" and "rc_objs s a = Some b"
  shows "object_of (snd (it_is_null pl memory x s)) y =
    (if fst (raw (Var y) s) = Inr (Some a) then Some (set_null b) else object_of s y)"
  using assms
  by (auto simp: it_is_null_def raw_def rc_runs update_object_def object_of_def read_ptr_def bind_assoc
      split: option.splits prod.splits)

definition shared_strings :: "nat strings" where
  "shared_strings = \<lparr>rc_objs = [0 \<mapsto> SQLBuffer_new (Some ''x'') 0 False, 2 \<mapsto> SQLBuffer_new (Some ''y'') 0 False],
     rc_counts = [1 \<mapsto> 2, 3 \<mapsto> 1],
     rc_ptrs = [Var 0 \<mapsto> (Some 0, Some 1), Var 1 \<mapsto> (Some 0, Some 1), Var 2 \<mapsto> (Some 2, Some 3)], rc_fresh = 4\<rparr>"

theorem null_is_shared_witness:
  "object_of (snd (it_is_null (e_platform example_env) True 1 shared_strings)) 0 = Some (SQLBuffer_new (Some ''x'') 0 True) \<and>
   object_of (snd (it_is_null (e_platform example_env) True 1 shared_strings)) 2 = Some (SQLBuffer_new (Some ''y'') 0 False)"
proof -
  have "rc_ptrs shared_strings (Var 1) = Some (Some 0, Some 1)"
    "rc_objs shared_strings 0 = Some (SQLBuffer_new (Some ''x'') 0 False)"
    by (simp_all add: shared_strings_def)
  note shared = null_is_shared [OF this, of "e_platform example_env" True]
  show ?thesis
    unfolding shared
    by (simp add: shared_strings_def raw_def read_ptr_def bind_assoc object_of_def set_null_def SQLBuffer_new_def)
qed

end
