(* ===== verification/Sql_Result.thy ===== *)
theory Sql_Result
  imports Sql_String
begin

text \<open>
  Rows and results of MySQL++: field names and types (\<open>mysqlpp/lib/field_names.cpp\<close>,
  \<open>field_types.cpp\<close>, \<open>field.h\<close>), \<open>Row\<close> (\<open>row.cpp\<close>, \<open>row.h\<close>), the stored and the used result
  (\<open>result.cpp\<close>, \<open>result.h\<close>), and the loops of \<open>Query\<close> over them (\<open>query.h\<close>). A result set of the C
  library is a handle; the library is the record \<open>result_api\<close> of what its functions answer. A loop
  that the library can keep running for ever is a partial function.
\<close>

section \<open>The C library\<close>

datatype field_flag =
    NOT_NULL_FLAG | PRI_KEY_FLAG | UNIQUE_KEY_FLAG | MULTIPLE_KEY_FLAG | BLOB_FLAG | UNSIGNED_FLAG
  | ZEROFILL_FLAG | BINARY_FLAG | ENUM_FLAG | AUTO_INCREMENT_FLAG | TIMESTAMP_FLAG | SET_FLAG

record mysql_field =
  mf_name :: string
  mf_table :: string
  mf_db :: string
  mf_type :: field_type
  mf_length :: nat
  mf_max_length :: nat
  mf_flags :: "32 word"

type_synonym raw_row = "string option list"

record 'r result_api =
  field_flag_value :: "field_flag \<Rightarrow> 32 word"
  api_num_fields :: "'r \<Rightarrow> nat"
  api_num_rows :: "'r \<Rightarrow> nat"
  api_fetch_field :: "'r \<Rightarrow> mysql_field option \<times> 'r"
  api_field_seek :: "'r \<Rightarrow> nat \<Rightarrow> 'r"
  api_fetch_row :: "'r \<Rightarrow> raw_row option \<times> 'r"
  api_fetch_lengths :: "'r \<Rightarrow> nat list option"

section \<open>Fields\<close>

record field =
  f_name :: string
  f_table :: string
  f_db :: string
  f_type :: nat
  f_length :: nat
  f_max_length :: nat
  f_flags :: "32 word"

definition Field_default :: field where
  "Field_default = \<lparr>f_name = [], f_table = [], f_db = [], f_type = 0, f_length = 0, f_max_length = 0, f_flags = 0\<rparr>"

definition Field_new :: "'r result_api \<Rightarrow> platform \<Rightarrow> mysql_field \<Rightarrow> field" where
  "Field_new A pl pf = \<lparr>f_name = mf_name pf, f_table = mf_table pf,
     f_db = (if 40000 < mysql_version pl then mf_db pf else []),
     f_type = type_of pl (mf_type pf) (mf_flags pf AND field_flag_value A UNSIGNED_FLAG \<noteq> 0)
       (mf_flags pf AND field_flag_value A NOT_NULL_FLAG = 0),
     f_length = mf_length pf, f_max_length = mf_max_length pf, f_flags = mf_flags pf\<rparr>"

text \<open>The predicates on the flags: \<open>auto_increment\<close>, \<open>binary_type\<close>, \<open>blob_type\<close> and so on.\<close>

definition has_flag :: "'r result_api \<Rightarrow> field_flag \<Rightarrow> field \<Rightarrow> bool" where
  "has_flag A fl f \<longleftrightarrow> f_flags f AND field_flag_value A fl \<noteq> 0"

text \<open>The index of a name, or the number of names when there is none.\<close>

fun FieldNames_index :: "string list \<Rightarrow> string \<Rightarrow> nat" where
  "FieldNames_index [] s = 0"
| "FieldNames_index (x # xs) s = (if str_to_lwr x = str_to_lwr s then 0 else Suc (FieldNames_index xs s))"

definition FieldNames_at :: "string list \<Rightarrow> nat \<Rightarrow> string res" where
  "FieldNames_at ns i = (if i < length ns then Inr (ns ! i) else Inl (Throw OutOfRange))"

definition FieldNames_init :: "string list \<Rightarrow> field list \<Rightarrow> string list" where
  "FieldNames_init ns fs = ns @ map f_name fs"

definition FieldNames_blank :: "string list \<Rightarrow> nat \<Rightarrow> string list" where
  "FieldNames_blank ns i = replicate i [] @ ns"

definition FieldTypes_init :: "nat list \<Rightarrow> field list \<Rightarrow> nat list" where
  "FieldTypes_init ts fs = ts @ map f_type fs"

section \<open>The common part of results\<close>

record result_base =
  rb_driver :: bool
  rb_fields :: "field list"
  rb_names :: "string list option"
  rb_types :: "nat list option"
  rb_current :: nat
  rb_throw :: bool

definition ResultBase_default :: result_base where
  "ResultBase_default = \<lparr>rb_driver = False, rb_fields = [], rb_names = None, rb_types = None, rb_current = 0,
     rb_throw = True\<rparr>"

text \<open>The loop that fills the vector of fields, which has its final size from the start.\<close>

fun fill_fields :: "'r result_api \<Rightarrow> platform \<Rightarrow> nat \<Rightarrow> 'r \<Rightarrow> field list \<times> 'r" where
  "fill_fields A pl 0 r = ([], r)"
| "fill_fields A pl (Suc n) r = (case api_fetch_field A r of
       (None, r') \<Rightarrow> (replicate (Suc n) Field_default, r')
     | (Some pf, r') \<Rightarrow> (case fill_fields A pl n r' of (fs, r'') \<Rightarrow> (Field_new A pl pf # fs, r'')))"

definition ResultBase_new :: "'r result_api \<Rightarrow> platform \<Rightarrow> 'r option \<Rightarrow> bool \<Rightarrow> bool \<Rightarrow> (result_base \<times> 'r option) res" where
  "ResultBase_new A pl res dbd te = (case res of
       None \<Rightarrow> Inr (ResultBase_default\<lparr>rb_throw := te\<rparr>, None)
     | Some r \<Rightarrow> if \<not> dbd then Inl (UB NullDeref)
         else (case fill_fields A pl (api_num_fields A r) r of (fs, r') \<Rightarrow>
           Inr (\<lparr>rb_driver = True, rb_fields = fs, rb_names = Some (FieldNames_init [] fs),
             rb_types = Some (FieldTypes_init [] fs), rb_current = 0, rb_throw = te\<rparr>,
             Some (api_field_seek A r' 0))))"

definition ResultBase_copy :: "result_base \<Rightarrow> result_base \<Rightarrow> result_base" where
  "ResultBase_copy this other = (if rb_driver other then other
     else \<lparr>rb_driver = False, rb_fields = [], rb_names = None, rb_types = None, rb_current = 0,
       rb_throw = rb_throw other\<rparr>)"

text \<open>The index is a number past the end for an unknown name when there are no exceptions.\<close>

definition ResultBase_field_num :: "result_base \<Rightarrow> string \<Rightarrow> int32 res" where
  "ResultBase_field_num rb i = (case rb_names rb of
       None \<Rightarrow> Inl (UB NullDeref)
     | Some ns \<Rightarrow> let index = FieldNames_index ns i in
         if length ns \<le> index \<and> rb_throw rb then Inl (Throw (BadFieldName i)) else Inr (of_nat index))"

definition ResultBase_field :: "result_base \<Rightarrow> nat \<Rightarrow> field res" where
  "ResultBase_field rb i = (if i < length (rb_fields rb) then Inr (rb_fields rb ! i) else Inl (Throw OutOfRange))"

text \<open>The cursor moves on before the access is checked.\<close>

definition ResultBase_fetch_field :: "(result_base, field) st" where
  "ResultBase_fetch_field = bind (gets rb_current) (\<lambda>i. bind (modify (\<lambda>rb. rb\<lparr>rb_current := Suc i\<rparr>)) (\<lambda>_.
     bind (gets (\<lambda>rb. ResultBase_field rb i)) lift))"

definition ResultBase_field_name :: "result_base \<Rightarrow> nat \<Rightarrow> string res" where
  "ResultBase_field_name rb i = (case rb_names rb of None \<Rightarrow> Inl (UB NullDeref) | Some ns \<Rightarrow> FieldNames_at ns i)"

definition ResultBase_field_type :: "result_base \<Rightarrow> nat \<Rightarrow> nat res" where
  "ResultBase_field_type rb i = (case rb_types rb of None \<Rightarrow> Inl (UB NullDeref)
     | Some ts \<Rightarrow> if i < length ts then Inr (ts ! i) else Inl (Throw OutOfRange))"

definition ResultBase_table :: "result_base \<Rightarrow> string" where
  "ResultBase_table rb = (case rb_fields rb of [] \<Rightarrow> [] | f # _ \<Rightarrow> f_table f)"

section \<open>Rows\<close>

record sql_row =
  row_data :: "mstring list"
  row_names :: "string list option"
  row_init :: bool
  row_throw :: bool

definition Row_default :: sql_row where
  "Row_default = \<lparr>row_data = [], row_names = None, row_init = False, row_throw = True\<rparr>"

text \<open>The cells of a row from position \<open>i\<close> on; their bytes are counted by the lengths.\<close>

definition row_cell :: "result_base \<Rightarrow> raw_row \<Rightarrow> nat list option \<Rightarrow> nat \<Rightarrow> mstring res" where
  "row_cell rb row lengths i = (if length row \<le> i then Inl (UB OutOfBounds)
     else case row ! i of
       None \<Rightarrow> rbind (ResultBase_field_type rb i) (\<lambda>ty. Inr (String_raw (Some null_str) 4 ty True))
     | Some bytes \<Rightarrow> (case lengths of None \<Rightarrow> Inl (UB NullDeref) | Some ls \<Rightarrow>
         if length ls \<le> i then Inl (UB OutOfBounds)
         else rbind (ResultBase_field_type rb i) (\<lambda>ty.
           if length bytes < ls ! i then Inl (UB OutOfBounds)
           else Inr (String_raw (Some bytes) (ls ! i) ty False))))"

fun row_cells :: "result_base \<Rightarrow> raw_row \<Rightarrow> nat list option \<Rightarrow> nat list \<Rightarrow> mstring list res" where
  "row_cells rb row lengths [] = Inr []"
| "row_cells rb row lengths (i # is) = rbind (row_cell rb row lengths i) (\<lambda>c.
     rbind (row_cells rb row lengths is) (\<lambda>cs. Inr (c # cs)))"

definition Row_new :: "raw_row option \<Rightarrow> result_base option \<Rightarrow> nat list option \<Rightarrow> bool \<Rightarrow> sql_row res" where
  "Row_new row res lengths te = (case row of
       None \<Rightarrow> if te then Inl (Throw (ObjectNotInitialized ''ROW is NULL'')) else Inr (Row_default\<lparr>row_throw := te\<rparr>)
     | Some cells \<Rightarrow> (case res of
         None \<Rightarrow> if te then Inl (Throw (ObjectNotInitialized ''RES is NULL'')) else Inr (Row_default\<lparr>row_throw := te\<rparr>)
       | Some rb \<Rightarrow> rbind (row_cells rb cells lengths [0..<length (rb_fields rb)]) (\<lambda>data.
           Inr \<lparr>row_data = data, row_names = rb_names rb, row_init = True, row_throw = te\<rparr>)))"

text \<open>A copy throws exceptions whatever its original does; an assignment keeps the setting.\<close>

definition Row_copy :: "sql_row \<Rightarrow> sql_row" where
  "Row_copy r = r\<lparr>row_throw := True\<rparr>"

definition Row_assign :: "sql_row \<Rightarrow> sql_row \<Rightarrow> sql_row" where
  "Row_assign this rhs = rhs\<lparr>row_throw := row_throw this\<rparr>"

definition Row_bool :: "sql_row \<Rightarrow> bool" where
  "Row_bool r \<longleftrightarrow> row_data r \<noteq> [] \<and> row_init r"

definition Row_at :: "sql_row \<Rightarrow> nat \<Rightarrow> mstring res" where
  "Row_at r i = (if i < length (row_data r) then Inr (row_data r ! i) else Inl (Throw BadIndex))"

text \<open>A negative index becomes a large one.\<close>

definition Row_index :: "sql_row \<Rightarrow> int32 \<Rightarrow> mstring res" where
  "Row_index r i = Row_at r (unat (scast i :: 64 word))"

definition Row_field_num :: "sql_row \<Rightarrow> string \<Rightarrow> nat res" where
  "Row_field_num r field = (case row_names r of
       Some ns \<Rightarrow> Inr (FieldNames_index ns field)
     | None \<Rightarrow> if row_throw r then Inl (Throw (BadFieldName field)) else Inr 0)"

definition Row_named :: "sql_row \<Rightarrow> string \<Rightarrow> mstring res" where
  "Row_named r field = rbind (Row_field_num r field) (\<lambda>si.
     if si < length (row_data r) then Row_at r si
     else if row_throw r then Inl (Throw (BadFieldName field))
     else Inr String_default)"

text \<open>The lists of a row for a query; the names are reached through a pointer that can be null.\<close>

definition cell_adapter :: "mstring \<Rightarrow> adapter" where
  "cell_adapter s = STA_String (map_option
     (\<lambda>b. \<lparr>buf_data = buffer_text b, buf_type = str_type b, buf_null = str_null b\<rparr>) s) False"

definition row_values :: "sql_row \<Rightarrow> adapter list" where
  "row_values r = map cell_adapter (row_data r)"

definition name_values :: "platform \<Rightarrow> string list \<Rightarrow> adapter list" where
  "name_values pl ns = map (\<lambda>n. STA_string pl n False) ns"

definition with_names :: "sql_row \<Rightarrow> (string list \<Rightarrow> 'a res) \<Rightarrow> 'a res" where
  "with_names r f = (case row_names r of None \<Rightarrow> Inl (UB NullDeref) | Some ns \<Rightarrow> f ns)"

definition Row_equal_list :: "manip_env \<Rightarrow> manip \<Rightarrow> string \<Rightarrow> string \<Rightarrow> sql_row \<Rightarrow> stream \<Rightarrow> stream res" where
  "Row_equal_list M m d e r o1 = with_names r (\<lambda>ns. equal_list_ba M m d e ns (row_values r) o1)"

definition Row_field_list :: "manip_env \<Rightarrow> manip \<Rightarrow> string \<Rightarrow> sql_row \<Rightarrow> stream \<Rightarrow> stream res" where
  "Row_field_list M m d r o1 = with_names r (\<lambda>ns. value_list_ba M m d (name_values (e_platform (m_sql M)) ns) o1)"

definition Row_field_list_vector :: "manip_env \<Rightarrow> manip \<Rightarrow> string \<Rightarrow> bool list \<Rightarrow> sql_row \<Rightarrow> stream \<Rightarrow> stream res" where
  "Row_field_list_vector M m d vb r o1 =
     with_names r (\<lambda>ns. value_list_b M m d (name_values (e_platform (m_sql M)) ns) vb o1)"

definition Row_field_list_flags :: "manip_env \<Rightarrow> manip \<Rightarrow> string \<Rightarrow> bool list \<Rightarrow> sql_row \<Rightarrow> stream \<Rightarrow> stream res" where
  "Row_field_list_flags M m d ts r o1 =
     with_names r (\<lambda>ns. Row_field_list_vector M m d (create_vector (length ns) ts) r o1)"

definition Row_value_list :: "manip_env \<Rightarrow> manip \<Rightarrow> string \<Rightarrow> sql_row \<Rightarrow> stream \<Rightarrow> stream res" where
  "Row_value_list M m d r o1 = value_list_ba M m d (row_values r) o1"

definition Row_value_list_vector :: "manip_env \<Rightarrow> manip \<Rightarrow> string \<Rightarrow> bool list \<Rightarrow> sql_row \<Rightarrow> stream \<Rightarrow> stream res" where
  "Row_value_list_vector M m d vb r o1 = value_list_b M m d (row_values r) vb o1"

definition Row_value_list_flags :: "manip_env \<Rightarrow> manip \<Rightarrow> string \<Rightarrow> bool list \<Rightarrow> sql_row \<Rightarrow> stream \<Rightarrow> stream res" where
  "Row_value_list_flags M m d ts r o1 = Row_value_list_vector M m d (create_vector (length (row_data r)) ts) r o1"

text \<open>The fields named in the call; the flags are set at the positions of the names.\<close>

definition Row_value_list_named :: "manip_env \<Rightarrow> manip \<Rightarrow> string \<Rightarrow> string list \<Rightarrow> sql_row \<Rightarrow> stream \<Rightarrow> stream res" where
  "Row_value_list_named M m d ss r o1 = (case row_names r of
       None \<Rightarrow> if row_throw r \<and> ss \<noteq> [] then Inl (Throw (BadFieldName (hd ss)))
         else rbind (create_vector_named (\<lambda>_. 0) (length (row_data r)) ss) (\<lambda>vb. Row_value_list_vector M m d vb r o1)
     | Some ns \<Rightarrow> rbind (create_vector_named (FieldNames_index ns) (length (row_data r)) ss) (\<lambda>vb.
         Row_value_list_vector M m d vb r o1))"

section \<open>Stored results\<close>

record store_result =
  st_base :: result_base
  st_rows :: "sql_row list"
  st_copacetic :: bool

definition StoreQueryResult_default :: store_result where
  "StoreQueryResult_default = \<lparr>st_base = ResultBase_default, st_rows = [], st_copacetic = False\<rparr>"

text \<open>
  The loop of the constructor: \<open>done\<close> are the rows already assigned, \<open>left\<close> the default rows behind
  the iterator. A row whose lengths are missing is dropped.
\<close>

partial_function (option) store_loop ::
  "'r result_api \<Rightarrow> result_base \<Rightarrow> sql_row list \<Rightarrow> sql_row list \<Rightarrow> 'r \<Rightarrow> sql_row list res option" where
  "store_loop A rb finished left r = (case api_fetch_row A r of
       (None, r') \<Rightarrow> Some (Inr (finished @ left))
     | (Some row, r') \<Rightarrow> (case api_fetch_lengths A r' of
         None \<Rightarrow> store_loop A rb finished left r'
       | Some ls \<Rightarrow> (case Row_new (Some row) (Some rb) (Some ls) (rb_throw rb) of
           Inl e \<Rightarrow> Some (Inl e)
         | Inr new \<Rightarrow> (case left of
             [] \<Rightarrow> Some (Inl (UB OutOfBounds))
           | old # rest \<Rightarrow> store_loop A rb (finished @ [Row_assign old new]) rest r'))))"

definition returned :: "'a res option \<Rightarrow> 'a res" where
  "returned m = (case m of None \<Rightarrow> Inl Diverge | Some r \<Rightarrow> r)"

definition StoreQueryResult_new :: "'r result_api \<Rightarrow> platform \<Rightarrow> 'r option \<Rightarrow> bool \<Rightarrow> bool \<Rightarrow> store_result res" where
  "StoreQueryResult_new A pl res dbd te = rbind (ResultBase_new A pl res dbd te) (\<lambda>(rb, res').
     case res' of
       Some r \<Rightarrow> rbind (returned (store_loop A rb [] (replicate (api_num_rows A r) Row_default) r)) (\<lambda>rows.
         Inr \<lparr>st_base = rb, st_rows = rows, st_copacetic = True\<rparr>)
     | None \<Rightarrow> Inr \<lparr>st_base = rb, st_rows = [], st_copacetic = False\<rparr>)"

text \<open>The rows of a copied result are copied one by one into fresh rows.\<close>

definition StoreQueryResult_copy :: "store_result \<Rightarrow> store_result \<Rightarrow> store_result" where
  "StoreQueryResult_copy this other = \<lparr>st_base = ResultBase_copy (st_base this) (st_base other),
     st_rows = map Row_copy (st_rows other), st_copacetic = st_copacetic other\<rparr>"

section \<open>Used results\<close>

record 'r use_result =
  us_base :: result_base
  us_result :: "'r option"

definition UseQueryResult_default :: "'r use_result" where
  "UseQueryResult_default = \<lparr>us_base = ResultBase_default, us_result = None\<rparr>"

definition UseQueryResult_new :: "'r result_api \<Rightarrow> platform \<Rightarrow> 'r option \<Rightarrow> bool \<Rightarrow> bool \<Rightarrow> 'r use_result res" where
  "UseQueryResult_new A pl res dbd te =
     rbind (ResultBase_new A pl res dbd te) (\<lambda>(rb, res'). Inr \<lparr>us_base = rb, us_result = res'\<rparr>)"

definition UseQueryResult_copy :: "'r use_result \<Rightarrow> 'r use_result \<Rightarrow> 'r use_result" where
  "UseQueryResult_copy this other =
     \<lparr>us_base = ResultBase_copy (us_base this) (us_base other), us_result = us_result other\<rparr>"

definition UseQueryResult_field_seek :: "nat \<Rightarrow> ('r use_result, unit) st" where
  "UseQueryResult_field_seek field = modify (\<lambda>u. u\<lparr>us_base := (us_base u)\<lparr>rb_current := field\<rparr>\<rparr>)"

text \<open>A copy shares the handle of the library; the rows one of them takes are gone for the other.\<close>

definition fetch_raw_row :: "'r result_api \<Rightarrow> ('r use_result, raw_row option) st" where
  "fetch_raw_row A u = (if \<not> rb_driver (us_base u) then (Inl (UB NullDeref), u)
     else case us_result u of None \<Rightarrow> (Inl (UB NullDeref), u)
       | Some r \<Rightarrow> (case api_fetch_row A r of (row, r') \<Rightarrow> (Inr row, u\<lparr>us_result := Some r'\<rparr>)))"

definition fetch_lengths :: "'r result_api \<Rightarrow> ('r use_result, nat list option) st" where
  "fetch_lengths A u = (if \<not> rb_driver (us_base u) then (Inl (UB NullDeref), u)
     else case us_result u of None \<Rightarrow> (Inl (UB NullDeref), u) | Some r \<Rightarrow> (Inr (api_fetch_lengths A r), u))"

definition no_row :: "string \<Rightarrow> ('r use_result, sql_row) st" where
  "no_row e = bind (gets (\<lambda>u. rb_throw (us_base u))) (\<lambda>t.
     if t then fault (Throw (UseQueryError e)) else ret Row_default)"

definition UseQueryResult_fetch_row :: "'r result_api \<Rightarrow> ('r use_result, sql_row) st" where
  "UseQueryResult_fetch_row A = bind (gets us_result) (\<lambda>res. if res = None then no_row ''Results not fetched''
     else bind (fetch_raw_row A) (\<lambda>row. case row of
         None \<Rightarrow> ret Row_default
       | Some cells \<Rightarrow> bind (fetch_lengths A) (\<lambda>lengths. case lengths of
           None \<Rightarrow> no_row ''Failed to get field lengths''
         | Some ls \<Rightarrow> bind (gets us_base) (\<lambda>rb.
             lift (Row_new (Some cells) (Some rb) (Some ls) (rb_throw rb))))))"

section \<open>The loops of a query\<close>

text \<open>
  \<open>while (Row row = res.fetch_row())\<close> with a body that has a state. The row the body sees is the
  one that was returned: the compiler constructs it in place.
\<close>

partial_function (option) rows_loop ::
  "'r result_api \<Rightarrow> (sql_row \<Rightarrow> 's \<Rightarrow> 's) \<Rightarrow> 's \<Rightarrow> 'r use_result \<Rightarrow> 's res option" where
  "rows_loop A body s u = (case UseQueryResult_fetch_row A u of
       (Inl e, u') \<Rightarrow> Some (Inl e)
     | (Inr row, u') \<Rightarrow> if Row_bool row then rows_loop A body (body row s) u' else Some (Inr s))"

text \<open>\<open>NoExceptions ne(res)\<close> holds for the loop.\<close>

definition without_exceptions :: "'r use_result \<Rightarrow> 'r use_result" where
  "without_exceptions u = u\<lparr>us_base := (us_base u)\<lparr>rb_throw := False\<rparr>\<rparr>"

definition for_each_row :: "'r result_api \<Rightarrow> (sql_row \<Rightarrow> 's \<Rightarrow> 's) \<Rightarrow> 'r use_result \<Rightarrow> 's \<Rightarrow> 's res" where
  "for_each_row A fn u s = (if us_result u = None then Inr s
     else returned (rows_loop A fn s (without_exceptions u)))"

text \<open>The rows a function accepts are copied to the end of a container.\<close>

definition store_if_body :: "(sql_row \<Rightarrow> 's \<Rightarrow> bool \<times> 's) \<Rightarrow> sql_row \<Rightarrow> sql_row list \<times> 's \<Rightarrow> sql_row list \<times> 's" where
  "store_if_body fn row p = (case p of (con, s) \<Rightarrow> (case fn row s of (ok, s') \<Rightarrow>
     (if ok then con @ [Row_copy row] else con, s')))"

definition store_if_rows ::
  "'r result_api \<Rightarrow> (sql_row \<Rightarrow> 's \<Rightarrow> bool \<times> 's) \<Rightarrow> 'r use_result \<Rightarrow> sql_row list \<times> 's \<Rightarrow> (sql_row list \<times> 's) res" where
  "store_if_rows A fn u p = for_each_row A (store_if_body fn) u p"

text \<open>The loop of \<open>storein\<close>: raw rows, the lengths taken as they come, the query's own setting.\<close>

partial_function (option) storein_loop ::
  "'r result_api \<Rightarrow> bool \<Rightarrow> (sql_row \<Rightarrow> 'v res) \<Rightarrow> ('v \<Rightarrow> 'c \<Rightarrow> 'c) \<Rightarrow> 'c \<Rightarrow> 'r use_result \<Rightarrow> 'c res option" where
  "storein_loop A te value_type add con u = (case fetch_raw_row A u of
       (Inl e, u') \<Rightarrow> Some (Inl e)
     | (Inr None, u') \<Rightarrow> Some (Inr con)
     | (Inr (Some d), u') \<Rightarrow> (case fetch_lengths A u' of
         (Inl e, _) \<Rightarrow> Some (Inl e)
       | (Inr ls, _) \<Rightarrow> (case Row_new (Some d) (Some (us_base u')) ls te of
           Inl e \<Rightarrow> Some (Inl e)
         | Inr row \<Rightarrow> if \<not> Row_bool row then Some (Inr con)
             else (case value_type row of
               Inl e \<Rightarrow> Some (Inl e)
             | Inr v \<Rightarrow> storein_loop A te value_type add (add v con) u'))))"

definition storein_sequence_rows :: "'r result_api \<Rightarrow> bool \<Rightarrow> (sql_row \<Rightarrow> 'v res) \<Rightarrow> 'r use_result \<Rightarrow> 'v list \<Rightarrow> 'v list res" where
  "storein_sequence_rows A te value_type u con = returned (storein_loop A te value_type (\<lambda>v c. c @ [v]) con u)"

definition storein_set_rows :: "'r result_api \<Rightarrow> bool \<Rightarrow> (sql_row \<Rightarrow> 'v res) \<Rightarrow> 'r use_result \<Rightarrow> 'v set \<Rightarrow> 'v set res" where
  "storein_set_rows A te value_type u con = returned (storein_loop A te value_type insert con u)"

section \<open>At the query\<close>

text \<open>
  The handle of a result is what the library answers after the calls of the connection so far. The
  function objects return through their state.
\<close>

definition query_use :: "sql_env \<Rightarrow> 'r result_api \<Rightarrow> (db_call list \<Rightarrow> 'r) \<Rightarrow> bool qry \<Rightarrow> 'r use_result qry" where
  "query_use E A handle statement = bind statement (\<lambda>ok. if \<not> ok then ret UseQueryResult_default
     else bind (gets (\<lambda>q. (handle (q_sent q), q_throw q))) (\<lambda>(r, te).
       lift (UseQueryResult_new A (e_platform E) (Some r) True te)))"

definition query_store :: "sql_env \<Rightarrow> 'r result_api \<Rightarrow> (db_call list \<Rightarrow> 'r) \<Rightarrow> bool qry \<Rightarrow> store_result qry" where
  "query_store E A handle statement = bind statement (\<lambda>ok. if \<not> ok then ret StoreQueryResult_default
     else bind (gets (\<lambda>q. (handle (q_sent q), q_throw q))) (\<lambda>(r, te).
       lift (StoreQueryResult_new A (e_platform E) (Some r) True te)))"

definition select_all :: "sql_env \<Rightarrow> string \<Rightarrow> adapter" where
  "select_all E table = STA_string (e_platform E) (''select * from `'' @ table @ ''`'') False"

definition query_for_each where
  "query_for_each E A handle query fn s = bind (query_use E A handle (use_value E query)) (\<lambda>u. lift (for_each_row A fn u s))"

definition query_for_each_default where
  "query_for_each_default E A handle fn s = bind (query_use E A handle (use_default E)) (\<lambda>u. lift (for_each_row A fn u s))"

definition query_for_each_table where
  "query_for_each_table E A handle table fn s = query_for_each E A handle (select_all E table) fn s"

definition query_store_if where
  "query_store_if E A handle con query fn s =
     bind (query_use E A handle (use_value E query)) (\<lambda>u. lift (store_if_rows A fn u (con, s)))"

definition query_store_if_default where
  "query_store_if_default E A handle con fn s =
     bind (query_use E A handle (use_default E)) (\<lambda>u. lift (store_if_rows A fn u (con, s)))"

definition query_store_if_table where
  "query_store_if_table E A handle con table fn s = query_store_if E A handle con (select_all E table) fn s"

text \<open>An empty answer is an error when the statement should have had a result.\<close>

definition storein_with ::
  "sql_env \<Rightarrow> 'r result_api \<Rightarrow> (db_call list \<Rightarrow> 'r) \<Rightarrow> (db_call list \<Rightarrow> bool) \<Rightarrow>
   (bool \<Rightarrow> 'r use_result \<Rightarrow> 'c \<Rightarrow> 'c res) \<Rightarrow> adapter \<Rightarrow> 'c \<Rightarrow> 'c qry" where
  "storein_with E A handle result_empty rows s con = bind (query_use E A handle (use_value E s)) (\<lambda>u.
     if us_result u \<noteq> None then bind (gets q_throw) (\<lambda>te. lift (rows te u con))
     else bind (gets (\<lambda>q. result_empty (q_sent q))) (\<lambda>empty. if empty then ret con
       else bind (modify (\<lambda>q. q\<lparr>q_copacetic := False\<rparr>)) (\<lambda>_. bind (gets q_throw) (\<lambda>te.
         if te then fault (Throw (UseQueryError ''Bogus empty result'')) else ret con))))"

definition storein_sequence where
  "storein_sequence E A handle result_empty value_type con s =
     storein_with E A handle result_empty (\<lambda>te. storein_sequence_rows A te value_type) s con"

definition storein_set where
  "storein_set E A handle result_empty value_type con s =
     storein_with E A handle result_empty (\<lambda>te. storein_set_rows A te value_type) s con"

text \<open>With a list of parameters, or the default ones.\<close>

definition storein_sequence_parms where
  "storein_sequence_parms E A handle result_empty value_type con p = bind (str_of_query E p) (\<lambda>t.
     storein_sequence E A handle result_empty value_type con (STA_string (e_platform E) t False))"

definition storein_set_parms where
  "storein_set_parms E A handle result_empty value_type con p = bind (str_of_query E p) (\<lambda>t.
     storein_set E A handle result_empty value_type con (STA_string (e_platform E) t False))"

section \<open>The rows of a result\<close>

text \<open>What the library documents: the rows come one by one, with their lengths, and then none.\<close>

definition cell_lengths :: "raw_row \<Rightarrow> nat list" where
  "cell_lengths row = map (\<lambda>c. case c of None \<Rightarrow> 0 | Some s \<Rightarrow> length s) row"

fun delivers :: "'r result_api \<Rightarrow> (raw_row \<Rightarrow> nat list option) \<Rightarrow> raw_row list \<Rightarrow> 'r \<Rightarrow> bool" where
  "delivers A lens [] r = (fst (api_fetch_row A r) = None)"
| "delivers A lens (row # rows) r = (fst (api_fetch_row A r) = Some row \<and>
     api_fetch_lengths A (snd (api_fetch_row A r)) = lens row \<and> delivers A lens rows (snd (api_fetch_row A r)))"

definition serves :: "'r result_api \<Rightarrow> raw_row list \<Rightarrow> 'r \<Rightarrow> bool" where
  "serves A rows r \<longleftrightarrow> delivers A (\<lambda>row. Some (cell_lengths row)) rows r"

definition the_cell :: "nat list \<Rightarrow> raw_row \<Rightarrow> nat \<Rightarrow> mstring" where
  "the_cell ts row i = (case row ! i of None \<Rightarrow> String_string null_str (ts ! i) True
     | Some s \<Rightarrow> String_string s (ts ! i) False)"

definition the_row :: "result_base \<Rightarrow> bool \<Rightarrow> raw_row \<Rightarrow> sql_row" where
  "the_row rb te row = \<lparr>row_data = map (the_cell (map f_type (rb_fields rb)) row) [0..<length (rb_fields rb)],
     row_names = rb_names rb, row_init = True, row_throw = te\<rparr>"

definition base_ok :: "result_base \<Rightarrow> bool" where
  "base_ok rb \<longleftrightarrow> rb_driver rb \<and> rb_types rb = Some (map f_type (rb_fields rb)) \<and>
     rb_names rb = Some (map f_name (rb_fields rb)) \<and> rb_fields rb \<noteq> []"

lemma row_cells_ok:
  assumes "base_ok rb" and "length row = length (rb_fields rb)" and "\<forall>i \<in> set is. i < length row"
  shows "row_cells rb row (Some (cell_lengths row)) is = Inr (map (the_cell (map f_type (rb_fields rb)) row) is)"
  using assms(3)
proof (induction "is")
  case (Cons i "is")
  then have i: "i < length row" by simp
  have "row_cell rb row (Some (cell_lengths row)) i = Inr (the_cell (map f_type (rb_fields rb)) row i)"
    using assms(1,2) i
    by (cases "row ! i") (simp_all add: row_cell_def the_cell_def cell_lengths_def base_ok_def ResultBase_field_type_def
        String_raw_def String_string_def null_str_def)
  then show ?case using Cons by simp
qed simp

lemma Row_new_ok:
  assumes "base_ok rb" and "length row = length (rb_fields rb)"
  shows "Row_new (Some row) (Some rb) (Some (cell_lengths row)) te = Inr (the_row rb te row)"
  using row_cells_ok [OF assms, of "[0..<length (rb_fields rb)]"] assms(2)
  by (simp add: Row_new_def the_row_def)

lemma the_row_bool: "base_ok rb \<Longrightarrow> Row_bool (the_row rb te row)"
  by (simp add: Row_bool_def the_row_def base_ok_def)

definition wide :: "result_base \<Rightarrow> raw_row list \<Rightarrow> bool" where
  "wide rb rows \<longleftrightarrow> list_all (\<lambda>row. length row = length (rb_fields rb)) rows"

lemma store_loop_ok:
  assumes "base_ok rb" and "wide rb rows" and "serves A rows r" and "length left = length rows"
  shows "store_loop A rb finished left r =
    Some (Inr (finished @ map (\<lambda>(old, row). Row_assign old (the_row rb (rb_throw rb) row)) (zip left rows)))"
  using assms(2-4)
proof (induction rows arbitrary: left r finished)
  case Nil
  then show ?case
    by (subst store_loop.simps) (auto simp: serves_def split: prod.splits)
next
  case (Cons row rows)
  then obtain old rest where left: "left = old # rest" by (cases left) auto
  obtain r' where r': "api_fetch_row A r = (Some row, r')" "api_fetch_lengths A r' = Some (cell_lengths row)"
    "serves A rows r'"
    using Cons.prems(2) by (cases "api_fetch_row A r") (auto simp: serves_def)
  have "length row = length (rb_fields rb)" "wide rb rows" using Cons.prems(1) by (simp_all add: wide_def)
  then show ?case
    using Cons.IH [of r' rest] Cons.prems(3) r' left Row_new_ok [OF assms(1)]
    by (subst store_loop.simps) simp
qed

lemma store_loop_overrun:
  assumes "base_ok rb" and "wide rb rows" and "serves A rows r" and "length left < length rows"
  shows "store_loop A rb finished left r = Some (Inl (UB OutOfBounds))"
  using assms(2-4)
proof (induction rows arbitrary: left r finished)
  case (Cons row rows)
  obtain r' where r': "api_fetch_row A r = (Some row, r')" "api_fetch_lengths A r' = Some (cell_lengths row)"
    "serves A rows r'"
    using Cons.prems(2) by (cases "api_fetch_row A r") (auto simp: serves_def)
  have "length row = length (rb_fields rb)" "wide rb rows" using Cons.prems(1) by (simp_all add: wide_def)
  then show ?case
    using Cons.IH [of r'] Cons.prems(3) r' Row_new_ok [OF assms(1)]
    by (subst store_loop.simps) (auto split: list.split)
qed simp

lemma rows_loop_ok:
  assumes "base_ok rb" and "wide rb rows" and "serves A rows r"
  shows "rows_loop A body s \<lparr>us_base = rb, us_result = Some r\<rparr> = Some (Inr (fold (\<lambda>row. body (the_row rb (rb_throw rb) row)) rows s))"
  using assms(2,3)
proof (induction rows arbitrary: r s)
  case Nil
  obtain r' where "api_fetch_row A r = (None, r')"
    using Nil(2) by (cases "api_fetch_row A r") (simp add: serves_def)
  then show ?case
    using assms(1) by (subst rows_loop.simps)
      (simp add: UseQueryResult_fetch_row_def fetch_raw_row_def base_ok_def bind_def Row_bool_def Row_default_def)
next
  case (Cons row rows)
  obtain r' where r': "api_fetch_row A r = (Some row, r')" "api_fetch_lengths A r' = Some (cell_lengths row)"
    "serves A rows r'"
    using Cons.prems(2) by (cases "api_fetch_row A r") (auto simp: serves_def)
  have "length row = length (rb_fields rb)" "wide rb rows" using Cons.prems(1) by (simp_all add: wide_def)
  moreover have "rb_driver rb" using assms(1) by (simp add: base_ok_def)
  ultimately have "UseQueryResult_fetch_row A \<lparr>us_base = rb, us_result = Some r\<rparr> =
      (Inr (the_row rb (rb_throw rb) row), \<lparr>us_base = rb, us_result = Some r'\<rparr>)"
    using r' Row_new_ok [OF assms(1)]
    by (simp add: UseQueryResult_fetch_row_def fetch_raw_row_def fetch_lengths_def bind_def)
  then show ?case
    using Cons.IH [OF \<open>wide rb rows\<close> r'(3)] the_row_bool [OF assms(1)]
    by (subst rows_loop.simps) simp
qed

lemma storein_loop_ok:
  assumes "base_ok rb" and "wide rb rows" and "serves A rows r"
  shows "storein_loop A te (\<lambda>row. Inr (f row)) add con \<lparr>us_base = rb, us_result = Some r\<rparr> =
    Some (Inr (fold (\<lambda>row. add (f (the_row rb te row))) rows con))"
  using assms(2,3)
proof (induction rows arbitrary: r con)
  case Nil
  obtain r' where "api_fetch_row A r = (None, r')"
    using Nil(2) by (cases "api_fetch_row A r") (simp add: serves_def)
  then show ?case
    using assms(1) by (subst storein_loop.simps) (simp add: fetch_raw_row_def base_ok_def)
next
  case (Cons row rows)
  obtain r' where r': "api_fetch_row A r = (Some row, r')" "api_fetch_lengths A r' = Some (cell_lengths row)"
    "serves A rows r'"
    using Cons.prems(2) by (cases "api_fetch_row A r") (auto simp: serves_def)
  have "length row = length (rb_fields rb)" "wide rb rows" using Cons.prems(1) by (simp_all add: wide_def)
  moreover have "rb_driver rb" using assms(1) by (simp add: base_ok_def)
  ultimately show ?case
    using Cons.IH [OF \<open>wide rb rows\<close> r'(3)] the_row_bool [OF assms(1)] r' Row_new_ok [OF assms(1)]
    by (subst storein_loop.simps) (simp add: fetch_raw_row_def fetch_lengths_def)
qed

section \<open>Properties\<close>

text \<open>The common part of a result opened on a handle, and the handle after that.\<close>

definition base_of :: "'r result_api \<Rightarrow> platform \<Rightarrow> 'r \<Rightarrow> bool \<Rightarrow> result_base" where
  "base_of A pl r te = (let fs = fst (fill_fields A pl (api_num_fields A r) r) in
     \<lparr>rb_driver = True, rb_fields = fs, rb_names = Some (map f_name fs), rb_types = Some (map f_type fs),
      rb_current = 0, rb_throw = te\<rparr>)"

definition handle_after :: "'r result_api \<Rightarrow> platform \<Rightarrow> 'r \<Rightarrow> 'r" where
  "handle_after A pl r = api_field_seek A (snd (fill_fields A pl (api_num_fields A r) r)) 0"

lemma opened: "ResultBase_new A pl (Some r) True te = Inr (base_of A pl r te, Some (handle_after A pl r))"
  by (simp add: ResultBase_new_def base_of_def handle_after_def Let_def FieldNames_init_def FieldTypes_init_def
      split: prod.split)

lemma length_fill_fields: "length (fst (fill_fields A pl n r)) = n"
  by (induction A pl n r rule: fill_fields.induct) (auto split: prod.splits option.splits)

lemma base_of_ok:
  assumes "0 < api_num_fields A r"
  shows "base_ok (base_of A pl r te)"
  using assms length_fill_fields [of A pl "api_num_fields A r" r] by (auto simp: base_ok_def base_of_def Let_def)

text \<open>A result set of the library: rows of the width of its fields, one at least, and their number.\<close>

definition result_set :: "'r result_api \<Rightarrow> platform \<Rightarrow> 'r \<Rightarrow> raw_row list \<Rightarrow> bool" where
  "result_set A pl r rows \<longleftrightarrow> 0 < api_num_fields A r \<and> list_all (\<lambda>row. length row = api_num_fields A r) rows \<and>
     serves A rows (handle_after A pl r)"

lemma result_setD:
  assumes "result_set A pl r rows"
  shows "base_ok (base_of A pl r te)" "wide (base_of A pl r te) rows" "serves A rows (handle_after A pl r)"
  using assms base_of_ok [of A r pl te] length_fill_fields [of A pl "api_num_fields A r" r]
  by (simp_all add: result_set_def wide_def base_of_def Let_def)

definition quiet :: "bool \<Rightarrow> sql_row \<Rightarrow> sql_row" where
  "quiet te row = row\<lparr>row_throw := te\<rparr>"

lemma quiet_row: "quiet te (Row_assign old (the_row rb te' row)) = the_row rb te row"
  by (simp add: quiet_def Row_assign_def the_row_def)

lemma stored:
  assumes "result_set A pl r rows" and "api_num_rows A (handle_after A pl r) = length rows"
  shows "StoreQueryResult_new A pl (Some r) True te = Inr \<lparr>st_base = base_of A pl r te,
    st_rows = map (\<lambda>row. Row_assign Row_default (the_row (base_of A pl r te) te row)) rows, st_copacetic = True\<rparr>"
proof -
  have throw: "rb_throw (base_of A pl r te) = te" by (simp add: base_of_def Let_def)
  have zip: "zip (replicate (length rows) Row_default) rows = map (\<lambda>row. (Row_default, row)) rows"
    by (induction rows) auto
  show ?thesis
    using store_loop_ok [OF result_setD(1,2) [OF assms(1), of te] result_setD(3) [OF assms(1)], of "replicate (length rows) Row_default" "[]"] assms(2)
    by (simp add: StoreQueryResult_new_def opened returned_def throw zip o_def)
qed

lemma used: "UseQueryResult_new A pl (Some r) True te =
    Inr \<lparr>us_base = base_of A pl r te, us_result = Some (handle_after A pl r)\<rparr>"
  by (simp add: UseQueryResult_new_def opened)

lemma quieted: "without_exceptions \<lparr>us_base = base_of A pl r te, us_result = h\<rparr> = \<lparr>us_base = base_of A pl r False, us_result = h\<rparr>"
  by (simp add: without_exceptions_def base_of_def Let_def)

lemma the_row_base: "the_row (base_of A pl r te) t row = the_row (base_of A pl r te') t row"
  by (simp add: the_row_def base_of_def Let_def)

text \<open>C30: going through a used result row by row does what going through the stored result does: the
  body sees the rows of the stored result in their order, each without exceptions, and the loop
  ends.\<close>
theorem use_equals_store:
  assumes "result_set A pl r rows" and "api_num_rows A (handle_after A pl r) = length rows"
  shows "\<exists>sr u. StoreQueryResult_new A pl (Some r) True te = Inr sr \<and> UseQueryResult_new A pl (Some r) True te = Inr u \<and>
    length (st_rows sr) = length rows \<and> for_each_row A fn u s = Inr (fold (\<lambda>row. fn (quiet False row)) (st_rows sr) s)"
proof -
  have throw: "rb_throw (base_of A pl r False) = False" by (simp add: base_of_def Let_def)
  have "for_each_row A fn \<lparr>us_base = base_of A pl r te, us_result = Some (handle_after A pl r)\<rparr> s =
      Inr (fold (\<lambda>row. fn (the_row (base_of A pl r False) False row)) rows s)"
    using rows_loop_ok [OF result_setD(1,2) [OF assms(1), of False] result_setD(3) [OF assms(1)], of fn s]
    by (simp add: for_each_row_def quieted returned_def throw)
  then show ?thesis
    using the_row_base [of A pl r False False _ te]
    by (simp add: stored [OF assms] used fold_map o_def quiet_row)
qed

text \<open>The sequence loop appends to the container the conversion of every row of the stored result, in
  order, with the setting of the query; the set loop adds the same values.\<close>
theorem storein_collects:
  assumes "result_set A pl r rows" and "api_num_rows A (handle_after A pl r) = length rows"
  shows "\<exists>sr u. StoreQueryResult_new A pl (Some r) True te = Inr sr \<and> UseQueryResult_new A pl (Some r) True te = Inr u \<and>
    storein_sequence_rows A te (\<lambda>row. Inr (f row)) u con = Inr (con @ map (\<lambda>row. f (quiet te row)) (st_rows sr)) \<and>
    storein_set_rows A te (\<lambda>row. Inr (f row)) u c = Inr (c \<union> set (map (\<lambda>row. f (quiet te row)) (st_rows sr)))"
proof -
  have append: "fold (\<lambda>row c. c @ [g row]) rows con = con @ map g rows" for g con
    by (induction rows arbitrary: con) auto
  have insert: "fold (\<lambda>row. insert (g row)) rows c = c \<union> set (map g rows)" for g c
    by (induction rows arbitrary: c) auto
  note loop = storein_loop_ok [OF result_setD(1,2) [OF assms(1), of te] result_setD(3) [OF assms(1)], of te f]
  show ?thesis
    by (simp add: stored [OF assms] used storein_sequence_rows_def storein_set_rows_def loop append insert returned_def
        quiet_row o_def image_image)
qed

text \<open>A library that delivers more rows than it counted makes the stored result write behind the end
  of its vector.\<close>
theorem store_overruns:
  assumes "result_set A pl r rows" and "api_num_rows A (handle_after A pl r) < length rows"
  shows "StoreQueryResult_new A pl (Some r) True te = Inl (UB OutOfBounds)"
  using store_loop_overrun [OF result_setD(1,2) [OF assms(1), of te] result_setD(3) [OF assms(1)],
      of "replicate (api_num_rows A (handle_after A pl r)) Row_default" "[]"] assms(2)
  by (simp add: StoreQueryResult_new_def opened returned_def)

text \<open>A field is found by its name whatever the case of the letters, the first one when several agree;
  an unknown name throws, or gives an empty string when the row has exceptions disabled.\<close>
theorem row_lookup:
  assumes "row_names row = Some ns" and "length ns = length (row_data row)"
  shows "(\<forall>i < length ns. str_to_lwr (ns ! i) = str_to_lwr name \<and> (\<forall>j < i. str_to_lwr (ns ! j) \<noteq> str_to_lwr name) \<longrightarrow>
      Row_named row name = Inr (row_data row ! i)) \<and>
    (str_to_lwr name \<notin> str_to_lwr ` set ns \<longrightarrow>
      Row_named row name = (if row_throw row then Inl (Throw (BadFieldName name)) else Inr String_default))"
proof -
  have found: "FieldNames_index ns name = i"
    if "i < length ns" "str_to_lwr (ns ! i) = str_to_lwr name" "\<forall>j < i. str_to_lwr (ns ! j) \<noteq> str_to_lwr name" for i ns
    using that
  proof (induction ns arbitrary: i)
    case (Cons x xs)
    show ?case
    proof (cases i)
      case 0
      then show ?thesis using Cons.prems(2) by simp
    next
      case (Suc j)
      then have "str_to_lwr x \<noteq> str_to_lwr name" using Cons.prems(3) by auto
      moreover have "FieldNames_index xs name = j" using Cons.prems Suc by (intro Cons.IH) auto
      ultimately show ?thesis using Suc by simp
    qed
  qed simp
  have unknown: "FieldNames_index ns name = length ns" if "str_to_lwr name \<notin> str_to_lwr ` set ns" for ns
    using that by (induction ns) auto
  show ?thesis
    using assms found [of _ ns] unknown [of ns] by (auto simp: Row_named_def Row_field_num_def Row_at_def)
qed

text \<open>The rows of a stored result throw for an unknown field even when the result was made with
  exceptions disabled, while the rows of a loop over the used result give an empty string.\<close>
theorem stored_rows_throw:
  assumes "result_set A pl r rows" and "api_num_rows A (handle_after A pl r) = length rows"
    and "str_to_lwr name \<notin> str_to_lwr ` set (map f_name (rb_fields (base_of A pl r False)))"
  shows "\<exists>sr u. StoreQueryResult_new A pl (Some r) True False = Inr sr \<and> \<not> rb_throw (st_base sr) \<and>
    list_all (\<lambda>row. Row_named row name = Inl (Throw (BadFieldName name))) (st_rows sr) \<and>
    UseQueryResult_new A pl (Some r) True False = Inr u \<and>
    for_each_row A (\<lambda>row got. got @ [Row_named row name]) u [] = Inr (map (\<lambda>_. Inr String_default) rows)"
proof -
  let ?rb = "base_of A pl r False"
  have throw: "rb_throw ?rb = False" by (simp add: base_of_def Let_def)
  have unknown: "FieldNames_index ns name = length ns" if "str_to_lwr name \<notin> str_to_lwr ` set ns" for ns
    using that by (induction ns) auto
  have named: "Row_named (quiet te (the_row ?rb te' row)) name =
      (if te then Inl (Throw (BadFieldName name)) else Inr String_default)" for te te' row
    using unknown [OF assms(3)] result_setD(1) [OF assms(1), of False]
    by (simp add: Row_named_def Row_field_num_def the_row_def quiet_def base_ok_def)
  have assigned: "Row_assign Row_default row = quiet True row" for row
    by (simp add: Row_assign_def Row_default_def quiet_def)
  have same: "the_row ?rb False row = quiet False (the_row ?rb False row)" for row
    by (simp add: quiet_def the_row_def)
  have "fold (\<lambda>row got. got @ [Row_named (the_row ?rb False row) name]) rows got =
      got @ map (\<lambda>_. Inr String_default) rows" for got
    by (subst same, induction rows arbitrary: got) (simp_all add: named)
  then have "for_each_row A (\<lambda>row got. got @ [Row_named row name]) \<lparr>us_base = ?rb, us_result = Some (handle_after A pl r)\<rparr> [] =
      Inr (map (\<lambda>_. Inr String_default) rows)"
    using rows_loop_ok [OF result_setD(1,2) [OF assms(1), of False] result_setD(3) [OF assms(1)], of "\<lambda>row got. got @ [Row_named row name]" "[]"]
    by (simp add: for_each_row_def quieted returned_def throw)
  then show ?thesis
    by (simp add: stored [OF assms(1,2)] used throw assigned named list_all_iff)
qed

text \<open>Without lengths the store loop drops every row, and the loop over a used result ends at once.\<close>

lemma store_loop_dropped:
  assumes "delivers A (\<lambda>_. None) rows r"
  shows "store_loop A rb finished left r = Some (Inr (finished @ left))"
  using assms
proof (induction rows arbitrary: r)
  case Nil
  then show ?case by (subst store_loop.simps) (auto split: prod.splits)
next
  case (Cons row rows)
  then show ?case by (subst store_loop.simps) (auto split: prod.splits)
qed

lemma fetch_without_lengths:
  assumes "delivers A (\<lambda>_. None) (row # rows) r" and "rb_driver rb"
  shows "fst (UseQueryResult_fetch_row A \<lparr>us_base = rb, us_result = Some r\<rparr>) =
    (if rb_throw rb then Inl (Throw (UseQueryError ''Failed to get field lengths'')) else Inr Row_default)"
  using assms
  by (cases "api_fetch_row A r")
    (simp add: UseQueryResult_fetch_row_def fetch_raw_row_def fetch_lengths_def no_row_def bind_def)

text \<open>When the lengths of the rows cannot be had, the stored result counts every row and is marked as
  good, but its rows are uninitialised, whether exceptions are enabled or not; the row-by-row form
  throws when they are enabled, and else a loop over it ends without having seen a row.\<close>
theorem lengths_missing:
  assumes "delivers A (\<lambda>_. None) (row # rows) (handle_after A pl r)"
    and "api_num_rows A (handle_after A pl r) = Suc (length rows)"
  shows "\<exists>sr u. StoreQueryResult_new A pl (Some r) True te = Inr sr \<and> st_copacetic sr \<and>
    st_rows sr = replicate (Suc (length rows)) Row_default \<and> \<not> Row_bool Row_default \<and>
    UseQueryResult_new A pl (Some r) True te = Inr u \<and>
    (te \<longrightarrow> fst (UseQueryResult_fetch_row A u) = Inl (Throw (UseQueryError ''Failed to get field lengths''))) \<and>
    for_each_row A fn u s = Inr s"
proof -
  have base: "rb_driver (base_of A pl r t)" "rb_throw (base_of A pl r t) = t" for t
    by (simp_all add: base_of_def Let_def)
  note fetch = fetch_without_lengths [OF assms(1) base(1)]
  obtain u' where "UseQueryResult_fetch_row A \<lparr>us_base = base_of A pl r False, us_result = Some (handle_after A pl r)\<rparr> =
      (Inr Row_default, u')"
    using fetch [of False] base(2) by (metis prod.collapse)
  moreover have "\<not> Row_bool Row_default" by (simp add: Row_bool_def Row_default_def)
  ultimately have "rows_loop A fn s \<lparr>us_base = base_of A pl r False, us_result = Some (handle_after A pl r)\<rparr> = Some (Inr s)"
    by (subst rows_loop.simps) simp
  then show ?thesis
    using store_loop_dropped [OF assms(1), of "base_of A pl r te" "[]"] fetch [of True] base(2) \<open>\<not> Row_bool Row_default\<close>
    by (simp add: StoreQueryResult_new_def opened returned_def used for_each_row_def quieted assms(2))
qed

section \<open>A library\<close>

text \<open>A result with two fields, its rows in a list; the handle is the field cursor, the row and the rest.\<close>

type_synonym cursor = "nat \<times> raw_row \<times> raw_row list"

definition example_field :: "string \<Rightarrow> mysql_field" where
  "example_field name = \<lparr>mf_name = name, mf_table = ''t'', mf_db = ''d'', mf_type = MYSQL_TYPE_VAR_STRING,
     mf_length = 0, mf_max_length = 0, mf_flags = 0\<rparr>"

definition example_api :: "bool \<Rightarrow> (nat \<Rightarrow> nat) \<Rightarrow> cursor result_api" where
  "example_api good claim = \<lparr>field_flag_value = (\<lambda>_. 1), api_num_fields = (\<lambda>_. 2),
     api_num_rows = (\<lambda>(i, c, rows). claim (length rows)),
     api_fetch_field = (\<lambda>(i, x). (if i = 0 then Some (example_field ''id'')
       else if i = 1 then Some (example_field ''Name'') else None, (Suc i, x))),
     api_field_seek = (\<lambda>(i, x) n. (n, x)),
     api_fetch_row = (\<lambda>(i, c, rows). case rows of [] \<Rightarrow> (None, (i, c, [])) | x # xs \<Rightarrow> (Some x, (i, x, xs))),
     api_fetch_lengths = (\<lambda>(i, c, rows). if good then Some (cell_lengths c) else None)\<rparr>"

definition example_rows :: "raw_row list" where
  "example_rows = [[Some ''1'', Some ''a''], [Some ''2'', None]]"

lemma example_handle: "handle_after (example_api good claim) pl (0, [], rows) = (0, [], rows)"
  by (simp add: handle_after_def example_api_def numeral_2_eq_2)

lemma example_set: "result_set (example_api True claim) pl (0, [], example_rows) example_rows"
  unfolding result_set_def example_handle by (simp add: example_api_def example_rows_def serves_def)

lemma length_example: "length example_rows = 2"
  by (simp add: example_rows_def)

lemma example_count: "api_num_rows (example_api good claim) (0, [], example_rows) = claim 2"
  by (simp add: example_api_def length_example)

abbreviation example_platform :: platform where
  "example_platform \<equiv> e_platform example_env"

theorem use_equals_store_witness:
  "\<exists>sr u. StoreQueryResult_new (example_api True id) example_platform (Some (0, [], example_rows)) True True = Inr sr \<and>
    UseQueryResult_new (example_api True id) example_platform (Some (0, [], example_rows)) True True = Inr u \<and> length (st_rows sr) = 2 \<and>
    for_each_row (example_api True id) (\<lambda>row n. n + length (row_data row)) u 0 =
      Inr (fold (\<lambda>row n. n + length (row_data (quiet False row))) (st_rows sr) 0)"
proof -
  have "api_num_rows (example_api True id) (handle_after (example_api True id) example_platform (0, [], example_rows)) = length example_rows"
    unfolding example_handle example_count by (simp add: length_example)
  from use_equals_store [OF example_set this, of True "\<lambda>row n. n + length (row_data row)" 0]
  show ?thesis by (simp only: length_example)
qed

theorem storein_collects_witness:
  "\<exists>sr u. StoreQueryResult_new (example_api True id) example_platform (Some (0, [], example_rows)) True True = Inr sr \<and>
    UseQueryResult_new (example_api True id) example_platform (Some (0, [], example_rows)) True True = Inr u \<and>
    storein_sequence_rows (example_api True id) True (\<lambda>row. Inr (length (row_data row))) u [7] =
      Inr ([7] @ map (\<lambda>row. length (row_data (quiet True row))) (st_rows sr))"
proof -
  have "api_num_rows (example_api True id) (handle_after (example_api True id) example_platform (0, [], example_rows)) = length example_rows"
    unfolding example_handle example_count by (simp add: length_example)
  from storein_collects [OF example_set this, of True "\<lambda>row. length (row_data row)" "[7]" "{}"]
  show ?thesis by blast
qed

theorem store_overruns_witness:
  "StoreQueryResult_new (example_api True (\<lambda>_. 1)) example_platform (Some (0, [], example_rows)) True True = Inl (UB OutOfBounds)"
proof -
  have "api_num_rows (example_api True (\<lambda>_. 1)) (handle_after (example_api True (\<lambda>_. 1)) example_platform (0, [], example_rows)) < length example_rows"
    unfolding example_handle example_count by (simp add: length_example)
  from store_overruns [OF example_set this] show ?thesis .
qed

theorem row_lookup_witness:
  "Row_named \<lparr>row_data = [None, String_string ''x'' 0 False], row_names = Some [''id'', ''Name''], row_init = True,
     row_throw = True\<rparr> ''NAME'' = Inr (String_string ''x'' 0 False)"
proof -
  let ?row = "\<lparr>row_data = [None, String_string ''x'' 0 False], row_names = Some [''id'', ''Name''], row_init = True,
     row_throw = True\<rparr>"
  have "str_to_lwr ''Name'' = str_to_lwr ''NAME''" "str_to_lwr ''id'' \<noteq> str_to_lwr ''NAME''"
    by code_simp+
  with row_lookup [of ?row "[''id'', ''Name'']" "''NAME''"] show ?thesis by (auto dest!: spec [of _ 1])
qed

theorem stored_rows_throw_witness:
  "\<exists>sr. StoreQueryResult_new (example_api True id) example_platform (Some (0, [], example_rows)) True False = Inr sr \<and>
    list_all (\<lambda>row. Row_named row ''zz'' = Inl (Throw (BadFieldName ''zz''))) (st_rows sr)"
proof -
  have count: "api_num_rows (example_api True id) (handle_after (example_api True id) example_platform (0, [], example_rows)) = length example_rows"
    unfolding example_handle example_count by (simp add: length_example)
  have names: "set (map f_name (rb_fields (base_of (example_api True id) example_platform (0, [], example_rows) False))) = {''id'', ''Name''}"
    by (simp add: base_of_def example_api_def numeral_2_eq_2 Let_def Field_new_def example_field_def)
  have "str_to_lwr ''zz'' \<notin> str_to_lwr ` set (map f_name (rb_fields (base_of (example_api True id) example_platform (0, [], example_rows) False)))"
    unfolding names by code_simp
  from stored_rows_throw [OF example_set count this] show ?thesis by blast
qed

theorem lengths_missing_witness:
  "\<exists>sr. StoreQueryResult_new (example_api False id) example_platform (Some (0, [], example_rows)) True True = Inr sr \<and> st_copacetic sr \<and>
    st_rows sr = [Row_default, Row_default]"
proof -
  have "delivers (example_api False id) (\<lambda>_. None) ([Some ''1'', Some ''a''] # [[Some ''2'', None]])
      (handle_after (example_api False id) example_platform (0, [], example_rows))"
    unfolding example_handle by (simp add: example_api_def example_rows_def)
  moreover have "api_num_rows (example_api False id) (handle_after (example_api False id) example_platform (0, [], example_rows)) =
      Suc (length [[Some ''2'', None]])"
    unfolding example_handle example_count by simp
  ultimately show ?thesis using lengths_missing by fastforce
qed

end
