(* ===== verification/Ssx_Parser.thy ===== *)
theory Ssx_Parser
  imports Sql_Types
begin

text \<open>
  The translator of SSQLS v2 documents (\<open>mysqlpp/ssx/parsev2.cpp\<close>, \<open>parsev2.h\<close>, \<open>genv2.cpp\<close>): it
  reads a file of directives, follows the includes, and writes the parsed lines out again. The
  file system is a function from paths to contents; what the class keeps in static variables, the
  search path and the kind of the last directive, is the state. Nested includes are followed to a
  given depth: a file that includes itself has no end. Warnings on the error stream are left out,
  and so is the raw text of an option whose parsed value is kept.
\<close>

section \<open>Lines\<close>

datatype ft_value =
    ft_tinyint | ft_smallint | ft_mediumint | ft_bigint | ft_float | ft_double | ft_string | ft_blob
  | ft_date | ft_datetime | ft_time | ft_set

datatype accessor_style = camel_case_lower | camel_case_upper | stroustrup | overloaded_style

record ssx_field =
  fd_name :: string
  fd_type :: ft_value
  fd_autoinc :: bool
  fd_key :: bool
  fd_null :: bool
  fd_unsigned :: bool
  fd_alias :: string

datatype ssx_line =
    Field ssx_field
  | Accessor_Style_Option accessor_style
  | Exception_On_Schema_Mismatch_Option bool
  | Header_Extension_Option string
  | Implementation_Extension_Option string
  | Table string string string

text \<open>A parsed line, or the name of a file whose lines take its place.\<close>

datatype ssx_item = Parsed ssx_line | Include string

record ssx_state =
  search_path :: "string list"
  last_tld_was_table :: bool

definition ssx_start :: ssx_state where
  "ssx_start = \<lparr>search_path = [], last_tld_was_table = False\<rparr>"

text \<open>
  The two ways an error is reported from a place in a file: a fixed message is a parse error there,
  a message that was put together with a stream is reported as a file error.
\<close>

record place =
  pl_file :: string
  pl_line :: nat

definition parse_error :: "place \<Rightarrow> string \<Rightarrow> 'a res" where
  "parse_error p msg = Inl (Throw (ParseException msg (pl_file p) (pl_line p)))"

definition stream_error :: "place \<Rightarrow> string \<Rightarrow> 'a res" where
  "stream_error p msg = Inl (Throw (FileException msg))"

definition tick :: "string \<Rightarrow> string" where
  "tick s = [CHR 0x27] @ s @ [CHR 0x27]"

section \<open>Directives\<close>

definition starts :: "string \<Rightarrow> string \<Rightarrow> bool" where
  "starts p s \<longleftrightarrow> take (length p) s = p"

definition Type_of :: "string \<Rightarrow> ft_value" where
  "Type_of s = (let ls = str_to_lwr s in
     if contains ''blob'' ls \<or> contains ''varbinary'' ls then ft_blob
     else if starts ''bool'' ls then ft_tinyint
     else if starts ''date'' ls then (if ls = ''datetime'' then ft_datetime else ft_date)
     else if contains ''decimal'' ls \<or> contains ''double'' ls \<or> contains ''fixed'' ls \<or> contains ''numeric'' ls
       then ft_double
     else if contains ''float'' ls then ft_float
     else if contains ''int'' ls then
       (if starts ''tiny'' ls then ft_tinyint
        else if ls = ''int1'' then ft_tinyint
        else if starts ''small'' ls then ft_smallint
        else if ls = ''int2'' then ft_smallint
        else if starts ''big'' ls then ft_bigint
        else if ls = ''int8'' then ft_bigint
        else ft_mediumint)
     else if contains ''set'' ls then ft_set
     else if starts ''time'' ls then (if ls = ''timestamp'' then ft_datetime else ft_time)
     else ft_string)"

text \<open>The attributes of a field, by pairs; a last word without a partner is left over.\<close>

fun field_attrs :: "place \<Rightarrow> string list \<Rightarrow> string \<Rightarrow> ssx_field \<Rightarrow> (string \<times> ssx_field) res" where
  "field_attrs p (a # v # r) type f = (let attr = str_to_lwr a in
     if attr = ''alias'' then field_attrs p r type (f\<lparr>fd_alias := v\<rparr>)
     else if attr = ''is'' then
       (if v = ''autoinc'' then field_attrs p r type (f\<lparr>fd_autoinc := True\<rparr>)
        else if v = ''key'' then field_attrs p r type (f\<lparr>fd_key := True\<rparr>)
        else if v = ''null'' then field_attrs p r type (f\<lparr>fd_null := True\<rparr>)
        else if v = ''unsigned'' then field_attrs p r type (f\<lparr>fd_unsigned := True\<rparr>)
        else stream_error p (''unknown is-attribute '' @ tick v @ '' for field '' @ tick (fd_name f)))
     else if attr = ''type'' then field_attrs p r v f
     else stream_error p (''bad attribute '' @ tick attr @ '' for field '' @ fd_name f))"
| "field_attrs p r type f = Inr (type, f)"

definition Field_parse :: "place \<Rightarrow> bool \<Rightarrow> string list \<Rightarrow> ssx_line res" where
  "Field_parse p sub ts = (if length ts < 2 then parse_error p (tick ''field'' @ '' directive requires at least one argument'')
     else if \<not> sub then parse_error p (tick ''field'' @ '' must be a subdirective'')
     else rbind (field_attrs p (drop 2 ts) [] \<lparr>fd_name = ts ! 1, fd_type = ft_string, fd_autoinc = False, fd_key = False,
         fd_null = False, fd_unsigned = False, fd_alias = []\<rparr>) (\<lambda>(type, f).
       Inr (Field (f\<lparr>fd_type := Type_of type\<rparr>))))"

fun table_attrs :: "place \<Rightarrow> string \<Rightarrow> string list \<Rightarrow> string \<Rightarrow> string \<Rightarrow> (string \<times> string) res" where
  "table_attrs p name (a # v # r) alias filebase = (let attr = str_to_lwr a in
     if attr = ''alias'' then table_attrs p name r v filebase
     else if attr = ''filebase'' then table_attrs p name r alias v
     else stream_error p (''bad attribute '' @ tick attr @ '' for table '' @ name))"
| "table_attrs p name r alias filebase = Inr (alias, filebase)"

definition Table_new :: "string \<Rightarrow> string \<Rightarrow> string \<Rightarrow> ssx_line" where
  "Table_new name alias filebase = Table name (if alias = [] then name else alias) (if filebase = [] then name else filebase)"

definition Table_parse :: "place \<Rightarrow> bool \<Rightarrow> string list \<Rightarrow> ssx_line res" where
  "Table_parse p sub ts = (if length ts < 2 then parse_error p (tick ''table'' @ '' directive requires at least one argument'')
     else if sub then parse_error p (tick ''table'' @ '' cannot be a subdirective'')
     else rbind (table_attrs p (ts ! 1) (drop 2 ts) [] []) (\<lambda>(alias, filebase). Inr (Table_new (ts ! 1) alias filebase)))"

definition Include_parse :: "place \<Rightarrow> bool \<Rightarrow> string list \<Rightarrow> ssx_item res" where
  "Include_parse p sub ts = (if length ts \<noteq> 2 then parse_error p (tick ''include'' @ '' directive requires one argument'')
     else if sub then parse_error p (tick ''include'' @ '' cannot be a subdirective'')
     else Inr (Include (ts ! 1)))"

definition parse_type :: "place \<Rightarrow> string \<Rightarrow> accessor_style res" where
  "parse_type p style = (if style = ''getX'' then Inr camel_case_lower
     else if style = ''GetX'' then Inr camel_case_upper
     else if style = ''get_x'' then Inr stroustrup
     else if style = ''x'' then Inr overloaded_style
     else stream_error p (''unknown accessor style '' @ tick style))"

definition parse_bool :: "string \<Rightarrow> bool" where
  "parse_bool value = (let b = str_to_lwr value in b \<notin> {''0'', ''false'', ''no'', ''off''})"

definition Option_parse :: "place \<Rightarrow> bool \<Rightarrow> string list \<Rightarrow> ssx_line res" where
  "Option_parse p sub ts = (if length ts \<noteq> 3 then parse_error p (tick ''option'' @ '' directive requires two arguments'')
     else if sub then parse_error p (tick ''option'' @ '' cannot be a subdirective'')
     else let name = ts ! 1; v = ts ! 2 in
       if name = ''accessor_style'' then rbind (parse_type p v) (\<lambda>t. Inr (Accessor_Style_Option t))
       else if name = ''exception_on_schema_mismatch'' then Inr (Exception_On_Schema_Mismatch_Option (parse_bool v))
       else if name = ''header_extension'' then Inr (Header_Extension_Option v)
       else if name = ''implementation_extension'' then Inr (Implementation_Extension_Option v)
       else stream_error p (''unknown option '' @ tick name))"

text \<open>A field needs a table as the last directive that was not indented, in whatever file that was.\<close>

definition Line_parse :: "place \<Rightarrow> bool \<Rightarrow> string list \<Rightarrow> ssx_state \<Rightarrow> (ssx_item \<times> ssx_state) res" where
  "Line_parse p sub ts st = (if ts = [] then Inl (UB AssertFailed) else
     let directive = str_to_lwr (hd ts) in
     if directive = ''table'' then
       rbind (Table_parse p sub ts) (\<lambda>l. Inr (Parsed l, if sub then st else st\<lparr>last_tld_was_table := True\<rparr>))
     else let st' = (if sub then st else st\<lparr>last_tld_was_table := False\<rparr>) in
       if directive = ''field'' then
         if last_tld_was_table st' then rbind (Field_parse p sub ts) (\<lambda>l. Inr (Parsed l, st'))
         else parse_error p (tick ''field'' @ '' directive must follow '' @ tick ''table'')
       else if directive = ''include'' then rbind (Include_parse p sub ts) (\<lambda>i. Inr (i, st'))
       else if directive = ''option'' then rbind (Option_parse p sub ts) (\<lambda>l. Inr (Parsed l, st'))
       else stream_error p (''unrecognized directive '' @ tick directive))"

section \<open>Files\<close>

text \<open>
  \<open>getline\<close> with room for 99 characters and a terminator. A longer line sets the fail bit, and
  nothing is read after that. The comment is cut off, and the rest tells whether it was indented.
\<close>

definition read_line :: "string \<Rightarrow> (string \<times> string) option" where
  "read_line s = (let l = takeWhile (\<lambda>c. c \<noteq> CHR 0x0A) s in
     if s = [] \<or> 99 < length l then None
     else Some (takeWhile (\<lambda>c. c \<noteq> CHR ''#'') (takeWhile (\<lambda>c. c \<noteq> CHR 0x00) l), drop (Suc (length l)) s))"

text \<open>One step of the loops that cut a text at runs of separators.\<close>

lemma cut_shorter: "length (dropWhile P (dropWhile (\<lambda>c. \<not> P c) (c # s))) < length (c # s)"
proof (cases "P c")
  case True
  then show ?thesis by (simp add: le_imp_less_Suc length_dropWhile_le)
next
  case False
  then show ?thesis
    using length_dropWhile_le [of "\<lambda>c. \<not> P c" s] length_dropWhile_le [of P "dropWhile (\<lambda>c. \<not> P c) s"] by simp
qed

function split_at :: "(char \<Rightarrow> bool) \<Rightarrow> string \<Rightarrow> string list" where
  "split_at P [] = []"
| "split_at P (c # s) = takeWhile (\<lambda>c. \<not> P c) (c # s) # split_at P (dropWhile P (dropWhile (\<lambda>c. \<not> P c) (c # s)))"
  by pat_completeness auto
termination
  by (relation "measure (\<lambda>(P, s). length s)") (simp, simp only: in_measure prod.case cut_shorter)

definition split_path :: "string \<Rightarrow> string list" where
  "split_path path = split_at (\<lambda>c. c = CHR ''/'') path"

text \<open>The parts but the last, joined again.\<close>

fun join_path :: "string list \<Rightarrow> string" where
  "join_path [] = []"
| "join_path [p] = p"
| "join_path (p # ps) = p @ ''/'' @ join_path ps"

definition add_directory_to_search_path :: "string \<Rightarrow> ssx_state \<Rightarrow> ssx_state" where
  "add_directory_to_search_path filepath st = (let parts = split_path filepath in
     if 1 < length parts \<and> (length parts \<noteq> 2 \<or> hd parts \<noteq> ''.'') then
       (let path = join_path (butlast parts) in
        if path \<in> set (search_path st) then st else st\<lparr>search_path := search_path st @ [path]\<rparr>)
     else st)"

text \<open>The path as given, then each directory of the search path in front of it.\<close>

fun first_open :: "(string \<rightharpoonup> string) \<Rightarrow> string list \<Rightarrow> string option" where
  "first_open FS [] = None"
| "first_open FS (path # paths) = (case FS path of Some text \<Rightarrow> Some text | None \<Rightarrow> first_open FS paths)"

definition File_new :: "(string \<rightharpoonup> string) \<Rightarrow> string \<Rightarrow> ssx_state \<Rightarrow> (string \<times> ssx_state) res" where
  "File_new FS name st = (case first_open FS (name # map (\<lambda>d. d @ ''/'' @ name) (search_path st)) of
       Some text \<Rightarrow> Inr (text, add_directory_to_search_path name st)
     | None \<Rightarrow> Inl (Throw (FileException (''Failed to open '' @ tick name @ '' for reading''))))"

text \<open>The words of a line.\<close>

definition tokenize :: "string \<Rightarrow> string list" where
  "tokenize line = split_at is_space (dropWhile is_space line)"

section \<open>The parser\<close>

text \<open>
  The lines of a file from a point on; \<open>sub_parse\<close> parses an included file. The number of the line
  is counted up when it has been read.
\<close>

lemma read_line_shorter: "read_line s = Some (l, r) \<Longrightarrow> length r < length s"
  by (cases s) (auto simp: read_line_def Let_def split: if_splits)

function parse_lines ::
  "(string \<Rightarrow> ssx_state \<Rightarrow> (ssx_line list \<times> ssx_state) res) \<Rightarrow> string \<Rightarrow> nat \<Rightarrow> string \<Rightarrow> ssx_line list \<Rightarrow> ssx_state \<Rightarrow>
   (ssx_line list \<times> ssx_state) res" where
  "parse_lines sub_parse file n rest acc st = (case read_line rest of
       None \<Rightarrow> Inr (acc, st)
     | Some (line, rest') \<Rightarrow>
         if line = [] \<or> tokenize line = [] then parse_lines sub_parse file (Suc n) rest' acc st
         else (case Line_parse \<lparr>pl_file = file, pl_line = Suc n\<rparr> (is_space (hd line)) (tokenize line) st of
             Inl e \<Rightarrow> Inl e
           | Inr (Parsed l, st') \<Rightarrow> parse_lines sub_parse file (Suc n) rest' (acc @ [l]) st'
           | Inr (Include name, st') \<Rightarrow> (case sub_parse name st' of
               Inl e \<Rightarrow> Inl e
             | Inr (ls, st'') \<Rightarrow> parse_lines sub_parse file (Suc n) rest' (acc @ ls) st'')))"
  by pat_completeness auto
termination
  by (relation "measure (\<lambda>(sub_parse, file, n, rest, acc, st). length rest)") (auto dest: read_line_shorter)

declare parse_lines.simps [simp del]

text \<open>A file, with includes nested up to a depth.\<close>

fun ParseV2_new :: "(string \<rightharpoonup> string) \<Rightarrow> nat \<Rightarrow> string \<Rightarrow> ssx_state \<Rightarrow> (ssx_line list \<times> ssx_state) res" where
  "ParseV2_new FS 0 name st = Inl Diverge"
| "ParseV2_new FS (Suc depth) name st = rbind (File_new FS name st) (\<lambda>(text, st').
     parse_lines (ParseV2_new FS depth) name 1 text [] st')"

section \<open>Writing\<close>

fun type_name :: "ft_value \<Rightarrow> string" where
  "type_name ft_bigint = ''bigint''"
| "type_name ft_blob = ''blob''"
| "type_name ft_date = ''date''"
| "type_name ft_datetime = ''datetime''"
| "type_name ft_double = ''double''"
| "type_name ft_float = ''float''"
| "type_name ft_mediumint = ''mediumint''"
| "type_name ft_set = ''set''"
| "type_name ft_smallint = ''smallint''"
| "type_name ft_string = ''string''"
| "type_name ft_time = ''time''"
| "type_name ft_tinyint = ''tinyint''"

definition Type_print :: "ft_value \<Rightarrow> string" where
  "Type_print t = ''type '' @ type_name t"

definition Field_print :: "ssx_field \<Rightarrow> string" where
  "Field_print f = ''field '' @ fd_name f @ '' '' @ Type_print (fd_type f) @
     (if fd_autoinc f then '' is autoinc'' else []) @ (if fd_key f then '' is key'' else []) @
     (if fd_null f then '' is null'' else []) @ (if fd_unsigned f then '' is unsigned'' else []) @
     (if fd_alias f \<noteq> [] then '' alias '' @ fd_alias f else [])"

fun style_name :: "accessor_style \<Rightarrow> string" where
  "style_name camel_case_lower = ''getX''"
| "style_name camel_case_upper = ''GetX''"
| "style_name overloaded_style = ''x''"
| "style_name stroustrup = ''get_x''"

definition Table_print :: "string \<Rightarrow> string \<Rightarrow> string \<Rightarrow> string" where
  "Table_print name alias filebase = ''table '' @ name @ (if alias \<noteq> [] then '' alias '' @ alias else []) @
     (if filebase \<noteq> [] then '' filebase '' @ filebase else [])"

fun Line_print :: "ssx_line \<Rightarrow> string" where
  "Line_print (Field f) = Field_print f"
| "Line_print (Accessor_Style_Option t) = ''option accessor_style '' @ style_name t"
| "Line_print (Exception_On_Schema_Mismatch_Option b) = ''option exception_on_schema_mismatch '' @ (if b then ''true'' else ''false'')"
| "Line_print (Header_Extension_Option v) = ''option header_extension '' @ v"
| "Line_print (Implementation_Extension_Option v) = ''option implementation_extension '' @ v"
| "Line_print (Table name alias filebase) = Table_print name alias filebase"

definition indented :: "ssx_line \<Rightarrow> string" where
  "indented l = (case l of Field f \<Rightarrow> [CHR 0x09] | _ \<Rightarrow> []) @ Line_print l"

definition generate_ssqls2 :: "ssx_line list \<Rightarrow> string" where
  "generate_ssqls2 ls = concat (map (\<lambda>l. indented l @ [CHR 0x0A]) ls)"

section \<open>Words\<close>

definition word_char :: "char \<Rightarrow> bool" where
  "word_char c \<longleftrightarrow> \<not> is_space c \<and> c \<noteq> CHR ''#'' \<and> c \<noteq> CHR 0x00"

definition is_word :: "string \<Rightarrow> bool" where
  "is_word w \<longleftrightarrow> w \<noteq> [] \<and> list_all word_char w"

text \<open>A text that survives as a line: no end of line, no comment, no terminator.\<close>

definition clean :: "string \<Rightarrow> bool" where
  "clean s \<longleftrightarrow> list_all (\<lambda>c. c \<noteq> CHR 0x0A \<and> c \<noteq> CHR ''#'' \<and> c \<noteq> CHR 0x00) s"

fun unwords :: "string list \<Rightarrow> string" where
  "unwords [] = []"
| "unwords [w] = w"
| "unwords (w # ws) = w @ '' '' @ unwords ws"

lemma blank_space: "is_space (CHR '' '')" "is_space (CHR 0x09)" "is_space (CHR 0x0A)"
  by (simp_all add: is_space_def)

lemma word_clean: "is_word w \<Longrightarrow> clean w"
  using blank_space by (auto simp: is_word_def word_char_def clean_def list_all_iff)

lemma clean_append: "clean (s @ t) \<longleftrightarrow> clean s \<and> clean t"
  by (simp add: clean_def)

lemma clean_blank: "clean []" "clean (CHR '' '' # s) = clean s" "clean (CHR 0x09 # s) = clean s"
  by (simp_all add: clean_def)

lemma clean_unwords: "list_all is_word ws \<Longrightarrow> clean (unwords ws)"
  by (induction ws rule: unwords.induct) (auto simp: clean_append word_clean clean_blank)

lemma split_word:
  assumes "is_word w" and "r = [] \<or> is_space (hd r)"
  shows "split_at is_space (w @ r) = w # split_at is_space (dropWhile is_space r)"
proof -
  obtain c s where w: "w = c # s" using assms(1) by (cases w) (auto simp: is_word_def)
  have all: "takeWhile (\<lambda>c. \<not> is_space c) (w @ r) = w" "dropWhile (\<lambda>c. \<not> is_space c) (w @ r) = r"
    using assms by (cases r; auto simp: is_word_def word_char_def list_all_iff)+
  have "split_at is_space (w @ r) = takeWhile (\<lambda>c. \<not> is_space c) (w @ r) #
      split_at is_space (dropWhile is_space (dropWhile (\<lambda>c. \<not> is_space c) (w @ r)))"
    unfolding w append_Cons by (rule split_at.simps)
  then show ?thesis unfolding all .
qed

lemma word_start: "is_word w \<Longrightarrow> dropWhile is_space (w @ r) = w @ r"
  by (cases w) (auto simp: is_word_def word_char_def)

lemma split_unwords: "list_all is_word ws \<Longrightarrow> split_at is_space (dropWhile is_space (unwords ws)) = ws"
proof (induction ws rule: unwords.induct)
  case (2 w)
  then show ?case using split_word [of w "[]"] word_start [of w "[]"] by simp
next
  case (3 w v ws)
  then show ?case
    using split_word [of w "'' '' @ unwords (v # ws)"] word_start [of w "'' '' @ unwords (v # ws)"] blank_space by simp
qed simp

lemma tokenize_unwords: "list_all is_word ws \<Longrightarrow> tokenize (unwords ws) = ws \<and> tokenize (CHR 0x09 # unwords ws) = ws"
  using split_unwords blank_space by (simp add: tokenize_def)

text \<open>The words of any line that was read.\<close>

lemma split_at_words:
  assumes "clean s" and "s = [] \<or> \<not> is_space (hd s)"
  shows "list_all is_word (split_at is_space s)"
  using assms
proof (induction "is_space :: char \<Rightarrow> bool" s rule: split_at.induct)
  case (2 c s)
  let ?w = "takeWhile (\<lambda>c. \<not> is_space c) (c # s)" and ?r = "dropWhile is_space (dropWhile (\<lambda>c. \<not> is_space c) (c # s))"
  have "clean ?r" using 2(2) by (auto simp: clean_def list_all_iff dest!: set_dropWhileD)
  moreover have "?r = [] \<or> \<not> is_space (hd ?r)" using hd_dropWhile [of is_space "dropWhile (\<lambda>c. \<not> is_space c) (c # s)"] by blast
  moreover have "is_word ?w"
    using 2(2,3) by (auto simp: is_word_def word_char_def clean_def list_all_iff dest!: set_takeWhileD)
  ultimately show ?case using 2(1) unfolding split_at.simps by simp
qed simp

lemma read_line_words:
  assumes "read_line s = Some (line, r)"
  shows "list_all is_word (tokenize line)"
proof -
  have "clean line"
    using assms by (auto simp: read_line_def Let_def clean_def list_all_iff split: if_splits dest!: set_takeWhileD)
  then have "clean (dropWhile is_space line)" by (auto simp: clean_def list_all_iff dest!: set_dropWhileD)
  moreover have "dropWhile is_space line = [] \<or> \<not> is_space (hd (dropWhile is_space line))"
    using hd_dropWhile [of is_space line] by blast
  ultimately show ?thesis unfolding tokenize_def by (rule split_at_words)
qed

section \<open>Printed lines\<close>

definition flag_words :: "bool \<Rightarrow> string \<Rightarrow> string list" where
  "flag_words b s = (if b then [''is'', s] else [])"

definition alias_words :: "string \<Rightarrow> string \<Rightarrow> string list" where
  "alias_words a s = (if s = [] then [] else [a, s])"

fun line_words :: "ssx_line \<Rightarrow> string list" where
  "line_words (Field f) = [''field'', fd_name f, ''type'', type_name (fd_type f)] @ flag_words (fd_autoinc f) ''autoinc'' @
     flag_words (fd_key f) ''key'' @ flag_words (fd_null f) ''null'' @ flag_words (fd_unsigned f) ''unsigned'' @
     alias_words ''alias'' (fd_alias f)"
| "line_words (Accessor_Style_Option t) = [''option'', ''accessor_style'', style_name t]"
| "line_words (Exception_On_Schema_Mismatch_Option b) =
     [''option'', ''exception_on_schema_mismatch'', if b then ''true'' else ''false'']"
| "line_words (Header_Extension_Option v) = [''option'', ''header_extension'', v]"
| "line_words (Implementation_Extension_Option v) = [''option'', ''implementation_extension'', v]"
| "line_words (Table name alias filebase) = [''table'', name] @ alias_words ''alias'' alias @ alias_words ''filebase'' filebase"

fun line_ok :: "ssx_line \<Rightarrow> bool" where
  "line_ok (Field f) = (is_word (fd_name f) \<and> (fd_alias f = [] \<or> is_word (fd_alias f)))"
| "line_ok (Accessor_Style_Option t) = True"
| "line_ok (Exception_On_Schema_Mismatch_Option b) = True"
| "line_ok (Header_Extension_Option v) = is_word v"
| "line_ok (Implementation_Extension_Option v) = is_word v"
| "line_ok (Table name alias filebase) = (is_word name \<and> is_word alias \<and> is_word filebase)"

lemma print_words: "Line_print l = unwords (line_words l)"
  by (cases l) (auto simp: Field_print_def Type_print_def Table_print_def flag_words_def alias_words_def)

lemma directive_words:
  "is_word ''field''" "is_word ''type''" "is_word ''is''" "is_word ''autoinc''" "is_word ''key''" "is_word ''null''"
  "is_word ''unsigned''" "is_word ''alias''" "is_word ''option''" "is_word ''accessor_style''"
  "is_word ''exception_on_schema_mismatch''" "is_word ''true''" "is_word ''false''" "is_word ''header_extension''"
  "is_word ''implementation_extension''" "is_word ''table''" "is_word ''filebase''"
  by code_simp+

lemma lower_type: "str_to_lwr (type_name t) = type_name t"
  by (cases t) (simp_all add: str_to_lwr_def to_lower_def)

lemma type_words: "is_word (type_name t)" "Type_of (type_name t) = t"
  unfolding Type_of_def lower_type
  by (cases t; simp add: is_word_def word_char_def is_space_def starts_def Let_def)+

lemma style_words: "is_word (style_name t)" "parse_type p (style_name t) = Inr t"
  by (cases t; simp add: parse_type_def is_word_def word_char_def is_space_def)+

lemma words_ok: "line_ok l \<Longrightarrow> list_all is_word (line_words l)"
  using directive_words type_words(1) style_words(1) by (cases l) (auto simp: flag_words_def alias_words_def)

lemma lower_words:
  "str_to_lwr ''field'' = ''field''" "str_to_lwr ''type'' = ''type''" "str_to_lwr ''is'' = ''is''"
  "str_to_lwr ''alias'' = ''alias''" "str_to_lwr ''option'' = ''option''" "str_to_lwr ''table'' = ''table''"
  "str_to_lwr ''filebase'' = ''filebase''" "str_to_lwr ''include'' = ''include''" "parse_bool ''true''" "\<not> parse_bool ''false''"
  by code_simp+

lemma field_attrs_words:
  "field_attrs p ([''type'', t] @ flag_words a ''autoinc'' @ flag_words k ''key'' @ flag_words n ''null'' @
     flag_words u ''unsigned'' @ alias_words ''alias'' s) x
     \<lparr>fd_name = name, fd_type = y, fd_autoinc = False, fd_key = False, fd_null = False, fd_unsigned = False, fd_alias = []\<rparr> =
   Inr (t, \<lparr>fd_name = name, fd_type = y, fd_autoinc = a, fd_key = k, fd_null = n, fd_unsigned = u, fd_alias = s\<rparr>)"
  by (cases a; cases k; cases n; cases u) (simp_all add: flag_words_def alias_words_def lower_words)

text \<open>What the last directive was, after a line.\<close>

fun flag_after :: "ssx_line \<Rightarrow> bool \<Rightarrow> bool" where
  "flag_after (Field f) b = b"
| "flag_after (Table name alias filebase) b = True"
| "flag_after l b = False"

lemma parse_words:
  assumes "line_ok l" and "\<And>f. l = Field f \<Longrightarrow> last_tld_was_table st"
  shows "Line_parse p (case l of Field f \<Rightarrow> True | _ \<Rightarrow> False) (line_words l) st =
    Inr (Parsed l, st\<lparr>last_tld_was_table := flag_after l (last_tld_was_table st)\<rparr>)"
proof (cases l)
  case (Field f)
  then show ?thesis
    using assms(2) field_attrs_words [of p "type_name (fd_type f)" "fd_autoinc f" "fd_key f" "fd_null f" "fd_unsigned f"
        "fd_alias f" "[]" "fd_name f" ft_string]
    by (simp add: Line_parse_def Field_parse_def lower_words type_words)
next
  case (Table name a base)
  then show ?thesis
    using assms(1) by (auto simp: Line_parse_def Table_parse_def lower_words alias_words_def Table_new_def is_word_def)
qed (simp_all add: Line_parse_def Option_parse_def lower_words style_words Let_def)

section \<open>Reading what was written\<close>

definition short :: "ssx_line \<Rightarrow> bool" where
  "short l \<longleftrightarrow> length (indented l) \<le> 99"

text \<open>Fields come under a table, with only fields between.\<close>

fun placed :: "bool \<Rightarrow> ssx_line list \<Rightarrow> bool" where
  "placed b [] = True"
| "placed b (l # ls) = ((case l of Field f \<Rightarrow> b | _ \<Rightarrow> True) \<and> placed (flag_after l b) ls)"

lemma indented_start:
  assumes "line_ok l"
  shows "indented l \<noteq> []" and "is_space (hd (indented l)) = (case l of Field f \<Rightarrow> True | _ \<Rightarrow> False)"
    and "clean (indented l)" and "tokenize (indented l) = line_words l"
proof -
  have start: "unwords (line_words l) \<noteq> [] \<and> \<not> is_space (hd (unwords (line_words l)))"
    by (cases l) (auto simp: is_space_def flag_words_def alias_words_def)
  show "indented l \<noteq> []" "is_space (hd (indented l)) = (case l of Field f \<Rightarrow> True | _ \<Rightarrow> False)"
    using start blank_space by (auto simp: indented_def print_words split: ssx_line.splits)
  show "clean (indented l)" "tokenize (indented l) = line_words l"
    using clean_unwords [OF words_ok [OF assms]] tokenize_unwords [OF words_ok [OF assms]]
    by (auto simp: indented_def print_words clean_blank split: ssx_line.splits)
qed

lemma read_written:
  assumes "clean s" and "length s \<le> 99"
  shows "read_line (s @ CHR 0x0A # r) = Some (s, r)"
proof -
  have "takeWhile (\<lambda>c. c \<noteq> CHR 0x0A) (s @ CHR 0x0A # r) = s"
    using assms(1) by (simp add: clean_def list_all_iff)
  moreover have "takeWhile (\<lambda>c. c \<noteq> CHR 0x00) s = s" "takeWhile (\<lambda>c. c \<noteq> CHR ''#'') s = s"
    using assms(1) by (auto simp: clean_def list_all_iff takeWhile_eq_all_conv)
  ultimately show ?thesis
    using assms(2) by (simp add: read_line_def Let_def takeWhile_eq_all_conv [THEN iffD2])
qed

lemma parse_generated:
  assumes "list_all line_ok ls" and "list_all short ls" and "placed (last_tld_was_table st) ls"
  shows "\<exists>st'. parse_lines sub file n (generate_ssqls2 ls) acc st = Inr (acc @ ls, st')"
  using assms
proof (induction ls arbitrary: n acc st)
  case Nil
  show ?case by (subst parse_lines.simps) (simp add: generate_ssqls2_def read_line_def)
next
  case (Cons l ls)
  then have ok: "line_ok l" and "length (indented l) \<le> 99" by (simp_all add: short_def)
  then have read: "read_line (generate_ssqls2 (l # ls)) = Some (indented l, generate_ssqls2 ls)"
    using read_written [OF indented_start(3)] by (simp add: generate_ssqls2_def)
  let ?st = "st\<lparr>last_tld_was_table := flag_after l (last_tld_was_table st)\<rparr>"
  have parse: "Line_parse \<lparr>pl_file = file, pl_line = Suc n\<rparr> (is_space (hd (indented l))) (tokenize (indented l)) st = Inr (Parsed l, ?st)"
    unfolding indented_start [OF ok] using Cons.prems(3) by (intro parse_words [OF ok]) auto
  have "line_words l \<noteq> []" by (cases l) simp_all
  moreover obtain st' where "parse_lines sub file (Suc n) (generate_ssqls2 ls) (acc @ [l]) ?st = Inr ((acc @ [l]) @ ls, st')"
    using Cons.IH [of ?st "Suc n" "acc @ [l]"] Cons.prems by auto
  ultimately show ?case
    using parse indented_start(1,4) [OF ok] by (subst parse_lines.simps) (simp add: read)
qed

section \<open>What a parse returns\<close>

lemma field_attrs_ok:
  assumes "field_attrs p ts x f = Inr (t, g)" and "list_all is_word ts" and "line_ok (Field f)"
  shows "line_ok (Field g)"
  using assms by (induction p ts x f rule: field_attrs.induct) (auto simp: Let_def stream_error_def split: if_splits)

lemma table_attrs_ok:
  assumes "table_attrs p name ts a b = Inr (a', b')" and "list_all is_word ts"
    and "a = [] \<or> is_word a" and "b = [] \<or> is_word b"
  shows "(a' = [] \<or> is_word a') \<and> (b' = [] \<or> is_word b')"
  using assms by (induction p name ts a b rule: table_attrs.induct) (auto simp: Let_def stream_error_def split: if_splits)

lemma nth_word: "list_all is_word ts \<Longrightarrow> i < length ts \<Longrightarrow> is_word (ts ! i)"
  by (simp add: list_all_length)

lemma drop_words: "list_all is_word ts \<Longrightarrow> list_all is_word (drop n ts)"
  by (auto simp: list_all_iff dest: in_set_dropD)

lemma Field_parse_ok: "Field_parse p sub ts = Inr l \<Longrightarrow> list_all is_word ts \<Longrightarrow> line_ok l \<and> (\<exists>f. l = Field f)"
  using nth_word [of ts 1] drop_words [of ts 2]
  by (auto simp: Field_parse_def parse_error_def rbind_eq_Inr_iff dest!: field_attrs_ok split: if_splits)

lemma Table_parse_ok:
  assumes "Table_parse p sub ts = Inr l" and "list_all is_word ts"
  shows "\<not> sub \<and> line_ok l \<and> (\<exists>n a b. l = Table n a b)"
proof -
  from assms(1) obtain a b where l: "l = Table_new (ts ! 1) a b" and sub: "\<not> sub" "2 \<le> length ts"
    and attrs: "table_attrs p (ts ! 1) (drop 2 ts) [] [] = Inr (a, b)"
    by (auto simp: Table_parse_def parse_error_def rbind_eq_Inr_iff split: if_splits)
  have "(a = [] \<or> is_word a) \<and> (b = [] \<or> is_word b)"
    using table_attrs_ok [OF attrs drop_words [OF assms(2)]] by simp
  moreover have "is_word (ts ! 1)" using nth_word [OF assms(2), of 1] sub(2) by simp
  ultimately show ?thesis using sub(1) by (auto simp: l Table_new_def)
qed

lemma Option_parse_ok:
  "Option_parse p sub ts = Inr l \<Longrightarrow> list_all is_word ts \<Longrightarrow> \<not> sub \<and> line_ok l \<and> flag_after l b = False \<and> (\<forall>f. l \<noteq> Field f)"
  using nth_word [of ts 2]
  by (auto simp: Option_parse_def parse_error_def stream_error_def parse_type_def Let_def rbind_eq_Inr_iff split: if_splits)

lemma Line_parse_ok:
  assumes "Line_parse p sub ts st = Inr (i, st')" and "list_all is_word ts"
  shows "case i of Parsed l \<Rightarrow> line_ok l \<and> last_tld_was_table st' = flag_after l (last_tld_was_table st) \<and>
      (\<forall>f. l = Field f \<longrightarrow> last_tld_was_table st) | Include name \<Rightarrow> \<not> last_tld_was_table st'"
  using assms
  by (auto simp: Line_parse_def Let_def parse_error_def stream_error_def Include_parse_def rbind_eq_Inr_iff
      split: if_splits ssx_item.splits dest!: Field_parse_ok Table_parse_ok Option_parse_ok [of _ _ _ _ "last_tld_was_table st"])

text \<open>
  The list that a parse returns can be appended to the lines that came before it: the state's flag
  is set only when the last directive in the list was a table.
\<close>

fun flag_of :: "bool \<Rightarrow> ssx_line list \<Rightarrow> bool" where
  "flag_of b [] = b"
| "flag_of b (l # ls) = flag_of (flag_after l b) ls"

definition good_lines :: "bool \<Rightarrow> ssx_line list \<Rightarrow> bool \<Rightarrow> bool" where
  "good_lines b ls b' \<longleftrightarrow> list_all line_ok ls \<and> placed b ls \<and> (b' \<longrightarrow> flag_of b ls)"

lemma flag_of_mono: "flag_of False ls \<longrightarrow> flag_of True ls"
proof (induction ls)
  case (Cons l ls)
  then show ?case by (cases l) auto
qed simp

lemma placed_mono: "placed False ls \<Longrightarrow> placed b ls"
proof (induction ls)
  case (Cons l ls)
  then show ?case by (cases l; cases b) auto
qed simp

lemma placed_append: "placed b (xs @ ys) \<longleftrightarrow> placed b xs \<and> placed (flag_of b xs) ys"
  by (induction xs arbitrary: b) auto

lemma flag_of_append: "flag_of b (xs @ ys) = flag_of (flag_of b xs) ys"
  by (induction xs arbitrary: b) auto

lemma good_weaken: "good_lines False ls b' \<Longrightarrow> good_lines b ls b'"
  using placed_mono flag_of_mono by (cases b) (auto simp: good_lines_def)

lemma good_append: "good_lines b xs c \<Longrightarrow> good_lines c ys d \<Longrightarrow> good_lines b (xs @ ys) d"
  using placed_mono [of ys] flag_of_mono [of ys]
  by (cases c; cases "flag_of b xs") (auto simp: good_lines_def placed_append flag_of_append)

lemma good_line: "line_ok l \<Longrightarrow> (\<forall>f. l = Field f \<longrightarrow> b) \<Longrightarrow> good_lines b [l] (flag_after l b)"
  by (auto simp: good_lines_def split: ssx_line.split)

lemma parse_lines_good:
  assumes "\<And>name st ls st'. sub name st = Inr (ls, st') \<Longrightarrow> good_lines (last_tld_was_table st) ls (last_tld_was_table st')"
    and "parse_lines sub file n rest acc st = Inr (ls, st')" and "good_lines b acc (last_tld_was_table st)"
  shows "good_lines b ls (last_tld_was_table st')"
  using assms(2,3)
proof (induction "length rest" arbitrary: rest n acc st rule: less_induct)
  case less
  show ?case
  proof (cases "read_line rest")
    case None
    then show ?thesis using less.prems by (subst (asm) parse_lines.simps) simp
  next
    case (Some q)
    then obtain line rest' where q: "read_line rest = Some (line, rest')" by (cases q) auto
    note IH = less.hyps [OF read_line_shorter [OF q]]
    show ?thesis
    proof (cases "line = [] \<or> tokenize line = []")
      case True
      then show ?thesis using less.prems IH q by (subst (asm) parse_lines.simps) auto
    next
      case False
      let ?p = "\<lparr>pl_file = file, pl_line = Suc n\<rparr>"
      from False less.prems(1) q obtain i st1 where i:
        "Line_parse ?p (is_space (hd line)) (tokenize line) st = Inr (i, st1)"
        by (subst (asm) parse_lines.simps) (auto split: sum.splits)
      note ok = Line_parse_ok [OF i read_line_words [OF q]]
      show ?thesis
      proof (cases i)
        case (Parsed l)
        then have "parse_lines sub file (Suc n) rest' (acc @ [l]) st1 = Inr (ls, st')"
          using False less.prems(1) q i by (subst (asm) parse_lines.simps) auto
        moreover have "good_lines b (acc @ [l]) (last_tld_was_table st1)"
          using ok Parsed good_append [OF less.prems(2) good_line [of l]] by auto
        ultimately show ?thesis by (rule IH)
      next
        case (Include name)
        then obtain xs st2 where xs: "sub name st1 = Inr (xs, st2)"
          "parse_lines sub file (Suc n) rest' (acc @ xs) st2 = Inr (ls, st')"
          using False less.prems(1) q i by (subst (asm) parse_lines.simps) (auto split: sum.splits)
        have "good_lines (last_tld_was_table st) xs (last_tld_was_table st2)"
          using assms(1) [OF xs(1)] ok Include by (auto intro: good_weaken)
        from good_append [OF less.prems(2) this] show ?thesis by (rule IH [OF xs(2)])
      qed
    qed
  qed
qed

lemma File_new_flag: "File_new FS name st = Inr (text, st') \<Longrightarrow> last_tld_was_table st' = last_tld_was_table st"
  by (auto simp: File_new_def add_directory_to_search_path_def Let_def split: option.splits if_splits)

lemma ParseV2_good:
  "ParseV2_new FS depth name st = Inr (ls, st') \<Longrightarrow> good_lines (last_tld_was_table st) ls (last_tld_was_table st')"
proof (induction depth arbitrary: name st ls st')
  case (Suc depth)
  then obtain content st1 where "File_new FS name st = Inr (content, st1)"
    "parse_lines (ParseV2_new FS depth) name 1 content [] st1 = Inr (ls, st')"
    by (auto simp: rbind_eq_Inr_iff)
  then show ?case
    using parse_lines_good [of "ParseV2_new FS depth" name 1 content "[]" st1 ls st' "last_tld_was_table st"] Suc.IH File_new_flag
    by (auto simp: good_lines_def)
qed simp

section \<open>Includes\<close>

text \<open>The names a text includes, and how deep the includes go.\<close>

function included :: "string \<Rightarrow> string list" where
  "included rest = (case read_line rest of None \<Rightarrow> []
     | Some (line, rest') \<Rightarrow> (case tokenize line of
         [d, name] \<Rightarrow> if str_to_lwr d = ''include'' then name # included rest' else included rest'
       | _ \<Rightarrow> included rest'))"
  by pat_completeness auto
termination
  by (relation "measure length") (auto dest: read_line_shorter)

declare included.simps [simp del]

fun include_depth :: "(string \<rightharpoonup> string) \<Rightarrow> nat \<Rightarrow> string \<Rightarrow> bool" where
  "include_depth FS 0 s = (included s = [])"
| "include_depth FS (Suc n) s = (\<forall>name \<in> set (included s). \<forall>path t.
     (path = name \<or> (\<exists>d. path = d @ ''/'' @ name)) \<longrightarrow> FS path = Some t \<longrightarrow> include_depth FS n t)"

lemma first_open_Some: "first_open FS paths = Some t \<Longrightarrow> \<exists>path \<in> set paths. FS path = Some t"
  by (induction paths) (auto split: option.splits)

lemma first_open_path:
  "first_open FS (name # map (\<lambda>d. d @ ''/'' @ name) ds) = Some t \<Longrightarrow>
     \<exists>path. (path = name \<or> (\<exists>d. path = d @ ''/'' @ name)) \<and> FS path = Some t"
  by (drule first_open_Some) auto

lemma field_attrs_error: "field_attrs p ts x f = Inl e \<Longrightarrow> \<exists>m. e = Throw (FileException m)"
  by (induction p ts x f rule: field_attrs.induct) (auto simp: Let_def stream_error_def split: if_splits)

lemma table_attrs_error: "table_attrs p name ts a b = Inl e \<Longrightarrow> \<exists>m. e = Throw (FileException m)"
  by (induction p name ts a b rule: table_attrs.induct) (auto simp: Let_def stream_error_def split: if_splits)

lemma directives_return:
  "Table_parse p sub ts \<noteq> Inl Diverge" "Field_parse p sub ts \<noteq> Inl Diverge"
  "Include_parse p sub ts \<noteq> Inl Diverge" "Option_parse p sub ts \<noteq> Inl Diverge"
  subgoal
    by (cases "table_attrs p (ts ! 1) (drop 2 ts) [] []")
      (auto simp: Table_parse_def parse_error_def dest: table_attrs_error split: prod.split)
  subgoal
    by (cases "field_attrs p (drop 2 ts) [] \<lparr>fd_name = ts ! 1, fd_type = ft_string, fd_autoinc = False, fd_key = False,
         fd_null = False, fd_unsigned = False, fd_alias = []\<rparr>")
      (auto simp: Field_parse_def parse_error_def dest: field_attrs_error split: prod.split)
  subgoal by (simp add: Include_parse_def parse_error_def)
  subgoal by (simp add: Option_parse_def parse_type_def parse_error_def stream_error_def Let_def)
  done

lemma Line_parse_returns: "Line_parse p sub ts st \<noteq> Inl Diverge"
  using directives_return by (simp add: Line_parse_def Let_def parse_error_def stream_error_def rbind_eq_Inl_iff)

lemma Include_read:
  assumes "Line_parse p sub ts st = Inr (Include name, st')"
  shows "\<exists>d. ts = [d, name] \<and> str_to_lwr d = ''include''"
proof -
  have "str_to_lwr (hd ts) = ''include'' \<and> length ts = 2 \<and> name = ts ! 1"
    using assms by (auto simp: Line_parse_def Let_def rbind_eq_Inr_iff Include_parse_def parse_error_def stream_error_def
        split: if_splits)
  then show ?thesis by (cases ts; cases "tl ts") auto
qed

lemma parse_lines_returns:
  assumes "\<forall>name \<in> set (included rest). \<forall>st. sub name st \<noteq> Inl Diverge"
  shows "parse_lines sub file n rest acc st \<noteq> Inl Diverge"
  using assms
proof (induction "length rest" arbitrary: rest n acc st rule: less_induct)
  case less
  show ?case
  proof (cases "read_line rest")
    case None
    then show ?thesis by (subst parse_lines.simps) simp
  next
    case (Some q)
    then obtain line rest' where q: "read_line rest = Some (line, rest')" by (cases q) auto
    have "set (included rest') \<subseteq> set (included rest)"
      by (subst (2) included.simps) (auto simp: q split: list.split)
    then have "\<forall>name \<in> set (included rest'). \<forall>st. sub name st \<noteq> Inl Diverge" using less.prems by blast
    note IH = less.hyps [OF read_line_shorter [OF q] this]
    let ?run = "Line_parse \<lparr>pl_file = file, pl_line = Suc n\<rparr> (is_space (hd line)) (tokenize line) st"
    have "sub name st' \<noteq> Inl Diverge" if "?run = Inr (Include name, st')" for name st'
    proof -
      from Include_read [OF that] obtain d where "tokenize line = [d, name]" "str_to_lwr d = ''include''" by blast
      then have "name \<in> set (included rest)" by (subst included.simps) (simp add: q)
      then show ?thesis using less.prems by blast
    qed
    then show ?thesis
      using IH Line_parse_returns
      by (subst parse_lines.simps) (auto simp: q split: sum.split ssx_item.split)
  qed
qed

section \<open>Properties\<close>

lemma written_parses:
  assumes "list_all line_ok ls" and "placed False ls" and "list_all short ls" and "FS out = Some (generate_ssqls2 ls)"
  shows "\<exists>st. ParseV2_new FS (Suc depth) out ssx_start = Inr (ls, st)"
proof -
  have "last_tld_was_table (add_directory_to_search_path out ssx_start) = False"
    by (simp add: add_directory_to_search_path_def Let_def ssx_start_def)
  then show ?thesis
    using parse_generated [OF assms(1,3), of "add_directory_to_search_path out ssx_start" "ParseV2_new FS depth" out 1 "[]"]
      assms(2,4)
    by (simp add: File_new_def ssx_start_def)
qed

definition example_lines :: "ssx_line list" where
  "example_lines = [Header_Extension_Option ''hh'', Table ''stock'' ''stock'' ''st'',
     Field \<lparr>fd_name = ''num'', fd_type = ft_bigint, fd_autoinc = False, fd_key = True, fd_null = False,
       fd_unsigned = True, fd_alias = ''n''\<rparr>]"

lemma example_lines_ok: "list_all line_ok example_lines" "placed False example_lines" "list_all short example_lines"
  by (simp_all add: example_lines_def is_word_def word_char_def is_space_def short_def indented_def Field_print_def
      Type_print_def Table_print_def)

text \<open>C15: what the translator writes from a parsed document, whatever files that came from, is a document
  that it parses to the same lines, as long as no written line has more than 99 characters; a longer
  one, such as that of a table with a long name, the reader drops without a word.\<close>
theorem reparse_generated:
  assumes "ParseV2_new FS depth name ssx_start = Inr (ls, st)" and "list_all short ls"
    and "FS' out = Some (generate_ssqls2 ls)"
  shows "\<exists>st'. ParseV2_new FS' (Suc depth') out ssx_start = Inr (ls, st')"
  using ParseV2_good [OF assms(1)] assms(2,3) by (intro written_parses) (simp_all add: good_lines_def ssx_start_def)

theorem reparse_generated_witness:
  "\<exists>st'. ParseV2_new [''copy'' \<mapsto> generate_ssqls2 example_lines] 1 ''copy'' ssx_start = Inr (example_lines, st')"
proof -
  obtain st where "ParseV2_new [''file'' \<mapsto> generate_ssqls2 example_lines] (Suc 0) ''file'' ssx_start = Inr (example_lines, st)"
    using written_parses [OF example_lines_ok, of "[''file'' \<mapsto> generate_ssqls2 example_lines]" "''file''"] by auto
  from reparse_generated [OF this example_lines_ok(3), of "[''copy'' \<mapsto> generate_ssqls2 example_lines]" "''copy''" 0]
  show ?thesis by simp
qed

text \<open>In a parsed document every field comes under a table, with nothing but fields in between, and
  every name in it is one word, however the directives were spread over included files.\<close>
theorem fields_follow_tables:
  assumes "ParseV2_new FS depth name ssx_start = Inr (ls, st)"
  shows "list_all line_ok ls \<and> placed False ls"
  using ParseV2_good [OF assms] by (simp add: good_lines_def ssx_start_def)

theorem fields_follow_tables_witness:
  "placed False example_lines \<and> \<not> placed False (drop 2 example_lines)"
proof -
  obtain st where "ParseV2_new [''file'' \<mapsto> generate_ssqls2 example_lines] (Suc 0) ''file'' ssx_start = Inr (example_lines, st)"
    using written_parses [OF example_lines_ok, of "[''file'' \<mapsto> generate_ssqls2 example_lines]" "''file''"] by auto
  from fields_follow_tables [OF this] show ?thesis by (simp add: example_lines_def)
qed

lemma takeWhile_shorter: "\<exists>x \<in> set xs. \<not> P x \<Longrightarrow> length (takeWhile P xs) < length xs"
  by (induction xs) auto

text \<open>A line of more than 99 characters ends the reading: what comes from it on is dropped without an
  error.\<close>
theorem long_line_ends_file:
  assumes "99 < length (takeWhile (\<lambda>c. c \<noteq> CHR 0x0A) s)" and "p = [] \<or> last p = CHR 0x0A"
  shows "parse_lines sub file n (p @ s) acc st = parse_lines sub file n p acc st"
  using assms(2)
proof (induction "length p" arbitrary: p n acc st rule: less_induct)
  case less
  show ?case
  proof (cases "p = []")
    case True
    then show ?thesis using assms(1) by (subst (1 2) parse_lines.simps) (simp add: read_line_def Let_def)
  next
    case False
    then have nl: "CHR 0x0A \<in> set p" using less.prems last_in_set [of p] by auto
    then have l: "takeWhile (\<lambda>c. c \<noteq> CHR 0x0A) (p @ s) = takeWhile (\<lambda>c. c \<noteq> CHR 0x0A) p"
      by (auto simp: takeWhile_append)
    let ?n = "length (takeWhile (\<lambda>c. c \<noteq> CHR 0x0A) p)"
    have "?n < length p" using nl by (intro takeWhile_shorter) auto
    show ?thesis
    proof (cases "read_line p")
      case None
      then have "99 < ?n" using False by (auto simp: read_line_def Let_def split: if_splits)
      then have "read_line (p @ s) = None" by (simp add: read_line_def Let_def l)
      then show ?thesis using None by (subst (1 2) parse_lines.simps) simp
    next
      case (Some q)
      then obtain line p' where q: "read_line p = Some (line, p')" by (cases q) auto
      have p': "p' = drop (Suc ?n) p" using q by (auto simp: read_line_def Let_def split: if_splits)
      have "read_line (p @ s) = Some (line, p' @ s)"
        using q p' \<open>?n < length p\<close> by (auto simp: read_line_def Let_def l split: if_splits)
      moreover have "p' = [] \<or> last p' = CHR 0x0A"
        using less.prems False p' by (cases "Suc ?n < length p") (auto simp: last_drop)
      note less.hyps [OF read_line_shorter [OF q] this]
      ultimately show ?thesis using q by (subst (1 2) parse_lines.simps) (simp split: sum.split ssx_item.split)
    qed
  qed
qed

theorem long_line_ends_file_witness:
  "parse_lines (ParseV2_new [''f'' \<mapsto> []] 1) ''f'' 1 (generate_ssqls2 example_lines @ replicate 100 CHR ''x'' @ ''garbage'') [] ssx_start =
   parse_lines (ParseV2_new [''f'' \<mapsto> []] 1) ''f'' 1 (generate_ssqls2 example_lines) [] ssx_start"
proof -
  have "takeWhile (\<lambda>c. c \<noteq> CHR 0x0A) (replicate 100 CHR ''x'' @ ''garbage'') = replicate 100 CHR ''x'' @ ''garbage''"
    by (rule takeWhile_eq_all_conv [THEN iffD2]) auto
  then have "99 < length (takeWhile (\<lambda>c. c \<noteq> CHR 0x0A) (replicate 100 CHR ''x'' @ ''garbage''))"
    by (simp only: length_append length_replicate)
  moreover have "last (generate_ssqls2 example_lines) = CHR 0x0A" by (simp add: generate_ssqls2_def example_lines_def)
  ultimately show ?thesis by (intro long_line_ends_file) auto
qed

lemma depth_returns: "include_depth FS n s \<Longrightarrow> parse_lines (ParseV2_new FS n) f k s acc st \<noteq> Inl Diverge"
proof (induction n arbitrary: s f k acc st)
  case 0
  then show ?case by (intro parse_lines_returns) simp
next
  case (Suc n)
  show ?case
  proof (rule parse_lines_returns, intro ballI allI)
    fix name st
    assume name: "name \<in> set (included s)"
    show "ParseV2_new FS (Suc n) name st \<noteq> Inl Diverge"
    proof (cases "File_new FS name st")
      case (Inl e)
      then show ?thesis by (auto simp: File_new_def split: option.splits)
    next
      case (Inr q)
      then obtain t st' where q: "File_new FS name st = Inr (t, st')" by (cases q) auto
      then obtain path where "path = name \<or> (\<exists>d. path = d @ ''/'' @ name)" "FS path = Some t"
        using first_open_path [of FS name "search_path st" t]
        by (auto simp: File_new_def simp del: first_open.simps split: option.splits)
      then have "include_depth FS n t" using Suc.prems name by auto
      then show ?thesis using q Suc.IH by simp
    qed
  qed
qed

lemma include_first:
  assumes "is_word name" and "length name \<le> 90"
  shows "parse_lines sub file n (''include '' @ name @ CHR 0x0A # rest) acc st =
    (case sub name (st\<lparr>last_tld_was_table := False\<rparr>) of Inl e \<Rightarrow> Inl e
     | Inr (ls, st'') \<Rightarrow> parse_lines sub file (Suc n) rest (acc @ ls) st'')"
proof -
  have word: "is_word ''include''" by code_simp
  then have words: "list_all is_word [''include'', name]" using assms(1) by simp
  have line: "''include '' @ name = unwords [''include'', name]" by simp
  have "read_line ((''include '' @ name) @ CHR 0x0A # rest) = Some (''include '' @ name, rest)"
    using clean_unwords [OF words] assms(2) by (intro read_written) (simp_all only: line, simp_all)
  moreover have "tokenize (''include '' @ name) = [''include'', name]"
    unfolding line using tokenize_unwords [OF words] by blast
  moreover have "\<not> is_space (CHR ''i'')" by (simp add: is_space_def)
  ultimately show ?thesis
    by (subst parse_lines.simps)
      (simp add: Line_parse_def lower_words Include_parse_def Let_def split: sum.split prod.split)
qed

text \<open>C40: a document whose includes nest to a bounded depth is parsed: the result is a list of lines or an
  error, and one that includes itself in its first line is never done.\<close>
theorem includes_bounded:
  assumes "FS name = Some s"
  shows "(include_depth FS n s \<longrightarrow> ParseV2_new FS (Suc n) name ssx_start \<noteq> Inl Diverge) \<and>
    (is_word name \<and> length name \<le> 90 \<and> s = ''include '' @ name @ CHR 0x0A # rest \<longrightarrow>
      ParseV2_new FS depth name st = Inl Diverge)"
proof (intro conjI impI)
  assume "include_depth FS n s"
  then show "ParseV2_new FS (Suc n) name ssx_start \<noteq> Inl Diverge"
    using depth_returns assms by (simp add: File_new_def)
next
  assume loop: "is_word name \<and> length name \<le> 90 \<and> s = ''include '' @ name @ CHR 0x0A # rest"
  then show "ParseV2_new FS depth name st = Inl Diverge"
  proof (induction depth arbitrary: st)
    case (Suc depth)
    then show ?case
      using include_first [of name "ParseV2_new FS depth" name 1 rest "[]"] assms by (simp add: File_new_def)
  qed simp
qed

theorem includes_bounded_witness:
  "ParseV2_new [''f'' \<mapsto> ''table t''] 1 ''f'' ssx_start \<noteq> Inl Diverge \<and>
   ParseV2_new [''g'' \<mapsto> ''include g'' @ [CHR 0x0A]] 7 ''g'' ssx_start = Inl Diverge"
proof -
  have "included ''table t'' = []" by code_simp
  then have "include_depth [''f'' \<mapsto> ''table t''] 0 ''table t''" by simp
  moreover have "is_word ''g''" by code_simp
  ultimately show ?thesis
    using includes_bounded [of "[''f'' \<mapsto> ''table t'']" "''f''" "''table t''" 0]
      includes_bounded [of "[''g'' \<mapsto> ''include g'' @ [CHR 0x0A]]" "''g''" "''include g'' @ [CHR 0x0A]" 0 "[]" 7 ssx_start]
    by simp
qed

text \<open>The place of an error is lost or wrong: an unknown directive is reported as a file error, without
  the file and the line, and an error in the first line of a file is reported for line 2.\<close>
theorem error_places:
  assumes "FS name = Some s" and "is_word w" and "length w \<le> 90"
    and "str_to_lwr w \<notin> {''table'', ''field'', ''include'', ''option''}"
  shows "(s = w @ CHR 0x0A # rest \<longrightarrow>
      ParseV2_new FS (Suc depth) name st = Inl (Throw (FileException (''unrecognized directive '' @ tick (str_to_lwr w))))) \<and>
    (s = ''table'' @ CHR 0x0A # rest \<longrightarrow>
      ParseV2_new FS (Suc depth) name st = Inl (Throw (ParseException (tick ''table'' @ '' directive requires at least one argument'') name 2)))"
proof -
  have first: "ParseV2_new FS (Suc depth) name st = Inl e"
    if "s = v @ CHR 0x0A # rest" "is_word v" "length v \<le> 90"
      "\<And>st. Line_parse \<lparr>pl_file = name, pl_line = 2\<rparr> False [v] st = Inl e" for v e
  proof -
    have words: "list_all is_word [v]" and v: "v \<noteq> []" "\<not> is_space (hd v)"
      using that(2) by (cases v; simp add: is_word_def word_char_def)+
    have "read_line s = Some (v, rest)"
      unfolding that(1) using word_clean [OF that(2)] that(3) by (intro read_written) simp_all
    moreover have "tokenize v = [v]" using tokenize_unwords [OF words] by simp
    ultimately have "parse_lines sub name 1 s [] st' = Inl e" for sub st'
      using that(4) v by (subst parse_lines.simps) (simp add: numeral_2_eq_2)
    then show ?thesis using assms(1) by (simp add: File_new_def)
  qed
  have "is_word ''table''" by code_simp
  then show ?thesis
    using first [of w] first [of "''table''"] assms(2-4)
    by (simp add: Line_parse_def Table_parse_def lower_words stream_error_def parse_error_def Let_def)
qed

theorem error_places_witness:
  "ParseV2_new [''f'' \<mapsto> ''tabel'' @ [CHR 0x0A]] 1 ''f'' ssx_start =
     Inl (Throw (FileException (''unrecognized directive '' @ tick ''tabel''))) \<and>
   ParseV2_new [''f'' \<mapsto> ''table'' @ [CHR 0x0A]] 1 ''f'' ssx_start =
     Inl (Throw (ParseException (tick ''table'' @ '' directive requires at least one argument'') ''f'' 2))"
proof -
  have w: "is_word ''tabel''" "str_to_lwr ''tabel'' = ''tabel''" by code_simp+
  with error_places [of "[''f'' \<mapsto> ''table'' @ [CHR 0x0A]]" "''f''" "''table'' @ [CHR 0x0A]" "''tabel''" "[]" 0 ssx_start]
    error_places [of "[''f'' \<mapsto> ''tabel'' @ [CHR 0x0A]]" "''f''" "''tabel'' @ [CHR 0x0A]" "''tabel''" "[]" 0 ssx_start]
  show ?thesis by simp
qed

text \<open>An attribute without a value at the end of a field is ignored.\<close>

lemma leftover_word_ignored:
  assumes "even (length ts)"
  shows "field_attrs p (ts @ [w]) x f = field_attrs p ts x f"
  using assms by (induction ts arbitrary: x f rule: induct_list012) (simp_all add: Let_def)

end
