(* ===== verification/Sql_Null.thy ===== *)
theory Sql_Null
  imports Sql_DateTime "HOL-Library.Signed_Division" "HOL-Library.Option_ord"
begin

text \<open>
  Two wrappers of MySQL++ for values of columns: integers of one byte, which are no characters
  (\<open>mysqlpp/lib/tiny_int.h\<close>), and values that can be null (\<open>mysqlpp/lib/null.h\<close>).
\<close>

section \<open>Tiny integers\<close>

text \<open>
  The class template is used with the signed and the unsigned type of eight bits; \<open>sg\<close> says which.
  A value takes part in an operation as an \<open>int\<close>, and the result is cut down to eight bits. What the
  language leaves undefined is a division by zero and a shift by a negative number or too far.
\<close>

definition ti_int :: "bool \<Rightarrow> byte \<Rightarrow> int" where
  "ti_int sg a = (if sg then sint a else uint a)"

definition ti_bool :: "byte \<Rightarrow> bool" where
  "ti_bool a \<longleftrightarrow> a \<noteq> 0"

definition ti_of_int :: "32 word \<Rightarrow> byte" where
  "ti_of_int v = ucast v"

datatype ti_operator = Add | Subtract | Multiply | Divide | Modulo | Bit_And | Bit_Or | Bit_Xor | Shift_Left | Shift_Right

fun int_operation :: "ti_operator \<Rightarrow> int \<Rightarrow> int \<Rightarrow> int res" where
  "int_operation Add x y = Inr (x + y)"
| "int_operation Subtract x y = Inr (x - y)"
| "int_operation Multiply x y = Inr (x * y)"
| "int_operation Divide x y = (if y = 0 then Inl (UB NotRepresentable) else Inr (x sdiv y))"
| "int_operation Modulo x y = (if y = 0 then Inl (UB NotRepresentable) else Inr (x smod y))"
| "int_operation Bit_And x y = Inr (x AND y)"
| "int_operation Bit_Or x y = Inr (x OR y)"
| "int_operation Bit_Xor x y = Inr (x XOR y)"
| "int_operation Shift_Left x y =
     (if y < 0 \<or> 32 \<le> y \<or> x < 0 \<or> 2 ^ 32 \<le> push_bit (nat y) x then Inl (UB BadShift) else Inr (push_bit (nat y) x))"
| "int_operation Shift_Right x y = (if y < 0 \<or> 32 \<le> y then Inl (UB BadShift) else Inr (drop_bit (nat y) x))"

definition ti_binary :: "bool \<Rightarrow> ti_operator \<Rightarrow> byte \<Rightarrow> byte \<Rightarrow> byte res" where
  "ti_binary sg opr a i = rbind (int_operation opr (ti_int sg a) (ti_int sg i)) (\<lambda>n. Inr (word_of_int n))"

text \<open>The assigning operators convert their \<open>int\<close> argument first.\<close>

definition ti_assign :: "bool \<Rightarrow> ti_operator \<Rightarrow> byte \<Rightarrow> 32 word \<Rightarrow> byte res" where
  "ti_assign sg opr a v = ti_binary sg opr a (ti_of_int v)"

text \<open>Increment and decrement: the value left behind and the value of the expression.\<close>

definition ti_pre_inc :: "byte \<Rightarrow> byte \<times> byte" where "ti_pre_inc a = (a + 1, a + 1)"
definition ti_pre_dec :: "byte \<Rightarrow> byte \<times> byte" where "ti_pre_dec a = (a - 1, a - 1)"
definition ti_post_inc :: "byte \<Rightarrow> byte \<times> byte" where "ti_post_inc a = (a + 1, a)"
definition ti_post_dec :: "byte \<Rightarrow> byte \<times> byte" where "ti_post_dec a = (a - 1, a)"

definition ti_eq :: "byte \<Rightarrow> byte \<Rightarrow> bool" where "ti_eq a i \<longleftrightarrow> a = i"
definition ti_less :: "bool \<Rightarrow> byte \<Rightarrow> byte \<Rightarrow> bool" where "ti_less sg a i \<longleftrightarrow> ti_int sg a < ti_int sg i"
definition ti_le :: "bool \<Rightarrow> byte \<Rightarrow> byte \<Rightarrow> bool" where "ti_le sg a i \<longleftrightarrow> ti_int sg a \<le> ti_int sg i"

definition ti_show :: "bool \<Rightarrow> byte \<Rightarrow> string" where
  "ti_show sg a = show_int (ti_int sg a)"

lemma word_of_ti_int [simp]: "word_of_int (ti_int sg a) = a"
  by (simp add: ti_int_def)

lemma ti_int_eq_iff: "ti_int sg a = ti_int sg b \<longleftrightarrow> a = b"
  by (metis word_of_ti_int)

lemma ti_int_range: "ti_int sg a \<in> (if sg then {- 128..127} else {0..255})"
  using sint_greater_eq [of a] sint_less [of a] uint_bounded [of a] by (simp add: ti_int_def)

lemma ti_int_of_int: "n \<in> (if sg then {- 128..127} else {0..255}) \<Longrightarrow> ti_int sg (word_of_int n) = n"
  by (auto simp: ti_int_def signed_of_int signed_take_bit_int_eq_self_iff unsigned_of_int take_bit_int_eq_self_iff)

lemma quotient_range:
  assumes "x \<in> (if sg then {- 128..127} else {0..255 :: int})" and "y \<in> (if sg then {- 128..127} else {0..255})" and "y \<noteq> 0"
  shows "x smod y \<in> (if sg then {- 128..127} else {0..255})"
    and "sg \<and> x = - 128 \<and> y = - 1 \<and> x sdiv y = 128 \<or> x sdiv y \<in> (if sg then {- 128..127} else {0..255})"
proof -
  show "x smod y \<in> (if sg then {- 128..127} else {0..255})"
    using smod_int_range [OF assms(3), of x] smod_int_compares [of x y] assms by (auto split: if_splits)
  consider "y = 1" | "y = - 1" | "2 \<le> \<bar>y\<bar>" using assms(3) by linarith
  then show "sg \<and> x = - 128 \<and> y = - 1 \<and> x sdiv y = 128 \<or> x sdiv y \<in> (if sg then {- 128..127} else {0..255})"
  proof cases
    case 3
    have "\<bar>x\<bar> div \<bar>y\<bar> \<le> \<bar>x\<bar> div 2" using 3 by (intro zdiv_mono2) auto
    moreover have "\<bar>x sdiv y\<bar> = \<bar>x\<bar> div \<bar>y\<bar>"
      by (cases "x = 0") (simp_all add: signed_divide_int_def abs_mult abs_sgn_eq pos_imp_zdiv_nonneg_iff assms(3))
    ultimately have "\<bar>x sdiv y\<bar> \<le> \<bar>x\<bar> div 2" by simp
    moreover have "0 \<le> x sdiv y" if "\<not> sg"
      using assms that by (simp add: signed_divide_int_def sgn_if pos_imp_zdiv_nonneg_iff)
    ultimately show ?thesis using assms by (auto split: if_splits)
  qed (use assms in \<open>auto split: if_splits\<close>)
qed

text \<open>
  C1: the arithmetic and bit operators of tiny integers are those of eight-bit words; division and
  remainder round towards zero, fail for a zero divisor only, and the one quotient that does not fit,
  of the least value and minus one, wraps to the least value.
\<close>
theorem tiny_arithmetic:
  "ti_binary sg Add a i = Inr (a + i) \<and> ti_binary sg Subtract a i = Inr (a - i) \<and> ti_binary sg Multiply a i = Inr (a * i) \<and>
   ti_binary sg Bit_And a i = Inr (a AND i) \<and> ti_binary sg Bit_Or a i = Inr (a OR i) \<and> ti_binary sg Bit_Xor a i = Inr (a XOR i) \<and>
   (ti_binary sg Divide a 0 = Inl (UB NotRepresentable) \<and> ti_binary sg Modulo a 0 = Inl (UB NotRepresentable)) \<and>
   (i \<noteq> 0 \<longrightarrow> (\<exists>q r. ti_binary sg Divide a i = Inr q \<and> ti_binary sg Modulo a i = Inr r \<and> a = q * i + r \<and>
      \<bar>ti_int sg r\<bar> < \<bar>ti_int sg i\<bar> \<and>
      ti_int sg q = (if sg \<and> a = - 128 \<and> i = - 1 then - 128 else ti_int sg a sdiv ti_int sg i)))"
proof -
  define x y where "x = ti_int sg a" and "y = ti_int sg i"
  have a: "a = word_of_int x" and i: "i = word_of_int y" by (simp_all add: x_def y_def)
  have yi: "y = 0 \<longleftrightarrow> i = 0" using ti_int_eq_iff [of sg i 0] by (cases sg) (simp_all add: y_def ti_int_def)
  have range: "x \<in> (if sg then {- 128..127} else {0..255})" "y \<in> (if sg then {- 128..127} else {0..255})"
    unfolding x_def y_def by (rule ti_int_range)+
  have "\<exists>q r. ti_binary sg Divide a i = Inr q \<and> ti_binary sg Modulo a i = Inr r \<and> a = q * i + r \<and>
      \<bar>ti_int sg r\<bar> < \<bar>ti_int sg i\<bar> \<and>
      ti_int sg q = (if sg \<and> a = - 128 \<and> i = - 1 then - 128 else ti_int sg a sdiv ti_int sg i)" if "i \<noteq> 0"
  proof (intro exI conjI)
    have "y \<noteq> 0" using that yi by simp
    then show "ti_binary sg Divide a i = Inr (word_of_int (x sdiv y))" "ti_binary sg Modulo a i = Inr (word_of_int (x smod y))"
      by (simp_all add: ti_binary_def flip: x_def y_def)
    have "x = x sdiv y * y + x smod y" by (simp add: sdiv_mult_smod_eq)
    then show "a = word_of_int (x sdiv y) * i + word_of_int (x smod y)"
      unfolding a i by (metis wi_hom_add wi_hom_mult)
    have small: "\<bar>x smod y\<bar> < \<bar>y\<bar>" using \<open>y \<noteq> 0\<close> smod_int_range [of y x] by auto
    show "\<bar>ti_int sg (word_of_int (x smod y))\<bar> < \<bar>ti_int sg i\<bar>"
      using small ti_int_of_int [OF quotient_range(1) [OF range \<open>y \<noteq> 0\<close>]] by (simp flip: y_def)
    have least: "sg \<and> a = - 128 \<and> i = - 1 \<longleftrightarrow> sg \<and> x = - 128 \<and> y = - 1"
      using ti_int_eq_iff [of True a "- 128"] ti_int_eq_iff [of True i "- 1"] by (auto simp: x_def y_def ti_int_def)
    show "ti_int sg (word_of_int (x sdiv y)) = (if sg \<and> a = - 128 \<and> i = - 1 then - 128 else ti_int sg a sdiv ti_int sg i)"
      unfolding least using quotient_range(2) [OF range \<open>y \<noteq> 0\<close>] ti_int_of_int [of "x sdiv y" sg]
      by (auto simp flip: x_def y_def) (auto simp: ti_int_def)
  qed
  then show ?thesis
    by (simp add: ti_binary_def wi_hom_add [symmetric] wi_hom_sub [symmetric] wi_hom_mult [symmetric] of_int_and_eq of_int_or_eq of_int_xor_eq)
       (simp add: ti_int_def)
qed

text \<open>The differences of two values that the type can hold are computed as such.\<close>

lemma ti_difference:
  "sint (a - i :: byte) = sint a - sint i \<longleftrightarrow> - 128 \<le> sint a - sint i \<and> sint a - sint i \<le> 127"
  "uint (a - i) = uint a - uint i \<longleftrightarrow> uint i \<le> uint a"
proof -
  have "sint (a - i) = signed_take_bit 7 (sint a - sint i)" by (simp add: sint_word_ariths)
  then show "sint (a - i :: byte) = sint a - sint i \<longleftrightarrow> - 128 \<le> sint a - sint i \<and> sint a - sint i \<le> 127"
    using signed_take_bit_int_eq_self_iff [of 7 "sint a - sint i"] by auto
  show "uint (a - i) = uint a - uint i \<longleftrightarrow> uint i \<le> uint a"
    using uint_nonnegative [of "a - i"] by (metis diff_ge_0_iff_ge uint_minus_simple_alt word_le_def)
qed

section \<open>Values that can be null\<close>

text \<open>
  The data keeps its last value while the null flag is set. What a null converts to and how it is
  printed is a policy; there is no conversion of the null itself, so the policy of that name has none.
\<close>

record 'a nullable =
  n_data :: 'a
  n_null :: bool

datatype null_policy = NullIsNull | NullIsZero | NullIsBlank

definition Null_default :: "'a \<Rightarrow> 'a nullable" where
  "Null_default initial = \<lparr>n_data = initial, n_null = False\<rparr>"

definition Null_value :: "'a \<Rightarrow> 'a nullable" where
  "Null_value x = \<lparr>n_data = x, n_null = False\<rparr>"

definition Null_null :: "'a \<Rightarrow> 'a nullable" where
  "Null_null initial = \<lparr>n_data = initial, n_null = True\<rparr>"

text \<open>The conversion to the type; \<open>zero\<close> and \<open>blank\<close> are what \<open>0\<close> and \<open>""\<close> convert to.\<close>

definition Null_get :: "null_policy \<Rightarrow> 'a \<Rightarrow> 'a \<Rightarrow> 'a nullable \<Rightarrow> 'a option" where
  "Null_get pol zero blank x = (if n_null x
     then (case pol of NullIsNull \<Rightarrow> None | NullIsZero \<Rightarrow> Some zero | NullIsBlank \<Rightarrow> Some blank)
     else Some (n_data x))"

definition Null_assign :: "'a \<Rightarrow> 'a nullable \<Rightarrow> 'a nullable" where
  "Null_assign v x = x\<lparr>n_data := v, n_null := False\<rparr>"

definition Null_assign_null :: "'a nullable \<Rightarrow> 'a nullable" where
  "Null_assign_null x = x\<lparr>n_null := True\<rparr>"

definition Null_eq :: "('a \<Rightarrow> 'a \<Rightarrow> bool) \<Rightarrow> 'a nullable \<Rightarrow> 'a nullable \<Rightarrow> bool" where
  "Null_eq eq x rhs = (if n_null x \<and> n_null rhs then True
     else if n_null x \<noteq> n_null rhs then False
     else eq (n_data x) (n_data rhs))"

definition Null_less :: "('a \<Rightarrow> 'a \<Rightarrow> bool) \<Rightarrow> 'a nullable \<Rightarrow> 'a nullable \<Rightarrow> bool" where
  "Null_less lt x rhs = (if n_null x then \<not> n_null rhs
     else if n_null rhs then False
     else lt (n_data x) (n_data rhs))"

definition Null_equals_null :: "'a nullable \<Rightarrow> bool" where "Null_equals_null x \<longleftrightarrow> n_null x"
definition Null_less_null :: "'a nullable \<Rightarrow> bool" where "Null_less_null x \<longleftrightarrow> False"

definition null_ostr :: "null_policy \<Rightarrow> string" where
  "null_ostr pol = (case pol of NullIsNull \<Rightarrow> ''(NULL)'' | NullIsZero \<Rightarrow> ''0'' | NullIsBlank \<Rightarrow> [])"

definition Null_insert :: "null_policy \<Rightarrow> ('a \<Rightarrow> string) \<Rightarrow> 'a nullable \<Rightarrow> string" where
  "Null_insert pol shown x = (if n_null x then null_ostr pol else shown (n_data x))"

text \<open>The specialisation for \<open>void\<close> has only the flag.\<close>

definition Null_void_default :: "unit nullable" where "Null_void_default = Null_default ()"
definition Null_void_null :: "unit nullable" where "Null_void_null = Null_null ()"
definition Null_void_assign_null :: "unit nullable \<Rightarrow> unit nullable" where "Null_void_assign_null = Null_assign_null"

text \<open>The value seen from outside.\<close>

definition contents :: "'a nullable \<Rightarrow> 'a option" where
  "contents x = (if n_null x then None else Some (n_data x))"

lemma contents_simps [simp]:
  "contents (Null_default i) = Some i" "contents (Null_value v) = Some v" "contents (Null_null i) = None"
  "contents (Null_assign v x) = Some v" "contents (Null_assign_null x) = None"
  by (simp_all add: contents_def Null_default_def Null_value_def Null_null_def Null_assign_def Null_assign_null_def)

text \<open>The three-way comparison that the operators of null values give (\<open>sql_cmp\<close> of \<open>ssqls.h\<close>).\<close>

definition Null_cmp :: "('a \<Rightarrow> 'a \<Rightarrow> bool) \<Rightarrow> ('a \<Rightarrow> 'a \<Rightarrow> bool) \<Rightarrow> 'a nullable \<Rightarrow> 'a nullable \<Rightarrow> int" where
  "Null_cmp eq lt a b = (if Null_eq eq a b then 0 else if Null_less lt a b then - 1 else 1)"

text \<open>
  A type whose operators come from a linear order of keys gives a null type with the same property,
  whose keys have the null below everything else.
\<close>

locale ordered_operators =
  fixes eq lt :: "'a \<Rightarrow> 'a \<Rightarrow> bool" and key :: "'a \<Rightarrow> 'k::linorder"
  assumes eq_iff: "eq x y \<longleftrightarrow> key x = key y" and less_iff: "lt x y \<longleftrightarrow> key x < key y"
begin

lemma null_operators:
  "Null_eq eq x y \<longleftrightarrow> map_option key (contents x) = map_option key (contents y)"
  "Null_less lt x y \<longleftrightarrow> map_option key (contents x) < map_option key (contents y)"
  by (auto simp: Null_eq_def Null_less_def contents_def eq_iff less_iff less_option_None less_option_None_is_Some)

end

sublocale ordered_operators \<subseteq> three_way: comparable "Null_cmp eq lt" "\<lambda>x. map_option key (contents x)"
  by unfold_locales (auto simp: Null_cmp_def null_operators)

interpretation signed_tiny: ordered_operators ti_eq "ti_less True" "ti_int True"
  by unfold_locales (simp_all add: ti_eq_def ti_less_def ti_int_eq_iff)

interpretation unsigned_tiny: ordered_operators ti_eq "ti_less False" "ti_int False"
  by unfold_locales (simp_all add: ti_eq_def ti_less_def ti_int_eq_iff)

end
