(* ===== verification/Ssqls.thy ===== *)
theory Ssqls
  imports Sql_Insert Sql_Result Sql_Null "HOL-Library.List_Lexorder"
begin

text \<open>
  Specialised SQL structures (\<open>mysqlpp/lib/ssqls.h\<close>): a macro defines a structure with up to 25
  members, each with the name of a column, that compares itself, reads itself from a row and writes
  itself into statements. The macros for the different numbers of members have the same text, with a
  line for each member; here a structure is a class with a list of names and types, and a list of
  values. Members of floating-point types and sets are left out.
\<close>

section \<open>Members\<close>

datatype scalar =
    V_tiny byte | V_utiny byte | V_short "16 word" | V_ushort "16 word" | V_int "32 word" | V_uint "32 word"
  | V_long "64 word" | V_ulong "64 word" | V_longlong "64 word" | V_ulonglong "64 word"
  | V_string string | V_String mstring | V_Date date | V_Time time | V_DateTime datetime

datatype member = Of scalar | Or_Null cxx_type "scalar option"

fun value_type :: "scalar \<Rightarrow> cxx_type" where
  "value_type (V_tiny a) = T_tiny"
| "value_type (V_utiny a) = T_utiny"
| "value_type (V_short a) = T_short"
| "value_type (V_ushort a) = T_ushort"
| "value_type (V_int a) = T_int"
| "value_type (V_uint a) = T_uint"
| "value_type (V_long a) = T_long"
| "value_type (V_ulong a) = T_ulong"
| "value_type (V_longlong a) = T_longlong"
| "value_type (V_ulonglong a) = T_ulonglong"
| "value_type (V_string s) = T_string"
| "value_type (V_String s) = T_String"
| "value_type (V_Date d) = T_Date"
| "value_type (V_Time t) = T_Time"
| "value_type (V_DateTime dt) = T_DateTime"

fun member_type :: "member \<Rightarrow> type_id" where
  "member_type (Of v) = Plain (value_type v)"
| "member_type (Or_Null ty v) = Nullable ty"

fun member_ok :: "member \<Rightarrow> bool" where
  "member_ok (Or_Null ty (Some v)) \<longleftrightarrow> value_type v = ty"
| "member_ok m \<longleftrightarrow> True"

text \<open>The value of a query that a member converts to.\<close>

fun value_text :: "scalar \<Rightarrow> string" where
  "value_text (V_tiny a) = show_int (sint a)"
| "value_text (V_utiny a) = show_int (uint a)"
| "value_text (V_short a) = show_int (sint a)"
| "value_text (V_ushort a) = show_int (uint a)"
| "value_text (V_int a) = show_int (sint a)"
| "value_text (V_uint a) = show_int (uint a)"
| "value_text (V_long a) = show_int (sint a)"
| "value_text (V_ulong a) = show_int (uint a)"
| "value_text (V_longlong a) = show_int (sint a)"
| "value_text (V_ulonglong a) = show_int (uint a)"
| "value_text (V_string s) = s"
| "value_text (V_String s) = to_string s"
| "value_text (V_Date d) = Date_text d"
| "value_text (V_Time t) = Time_text t"
| "value_text (V_DateTime dt) = DateTime_text dt"

fun member_adapter :: "platform \<Rightarrow> member \<Rightarrow> adapter res" where
  "member_adapter pl (Of (V_tiny a)) = STA_tiny pl a"
| "member_adapter pl (Of (V_utiny a)) = STA_utiny pl a"
| "member_adapter pl (Of (V_short a)) = STA_short pl a"
| "member_adapter pl (Of (V_ushort a)) = STA_ushort pl a"
| "member_adapter pl (Of (V_int a)) = STA_int pl a"
| "member_adapter pl (Of (V_uint a)) = STA_unsigned pl a"
| "member_adapter pl (Of (V_long a)) = STA_long pl a"
| "member_adapter pl (Of (V_ulong a)) = STA_ulong pl a"
| "member_adapter pl (Of (V_longlong a)) = STA_longlong pl a"
| "member_adapter pl (Of (V_ulonglong a)) = STA_ulonglong pl a"
| "member_adapter pl (Of (V_string s)) = Inr (STA_string pl s False)"
| "member_adapter pl (Of (V_String s)) = Inr (cell_adapter s)"
| "member_adapter pl (Of (V_Date d)) = STA_date pl (Date_text d)"
| "member_adapter pl (Of (V_Time t)) = STA_time pl (Time_text t)"
| "member_adapter pl (Of (V_DateTime dt)) = STA_datetime pl (DateTime_text dt)"
| "member_adapter pl (Or_Null ty v) = null_adapter pl (map_option value_text v) ty"

section \<open>Comparison\<close>

text \<open>
  The overloads of \<open>sql_cmp\<close>. Differences of tiny integers are tiny integers again; those of wider
  types are computed in the type, or in \<open>int\<close>, and converted to \<open>int\<close>. \<open>std::string\<close> compares
  its characters as unsigned; only the sign of its result is known. Values of different types are
  never compared.
\<close>

definition three_way :: "'a::linorder \<Rightarrow> 'a \<Rightarrow> int" where
  "three_way a b = (if a = b then 0 else if a < b then - 1 else 1)"

definition char_codes :: "string \<Rightarrow> nat list" where
  "char_codes s = map of_char s"

definition sql_cmp_schar :: "byte \<Rightarrow> byte \<Rightarrow> int" where "sql_cmp_schar a b = sint a - sint b"
definition sql_cmp_uchar :: "byte \<Rightarrow> byte \<Rightarrow> int" where "sql_cmp_uchar a b = uint a - uint b"

definition int_of_long :: "64 word \<Rightarrow> int" where
  "int_of_long a = sint (ucast a :: 32 word)"

definition mixed :: "int res" where "mixed = Inl (UB NotRepresentable)"

fun sql_cmp :: "scalar \<Rightarrow> scalar \<Rightarrow> int res" where
  "sql_cmp (V_tiny a) v = (case v of V_tiny b \<Rightarrow> rbind (ti_binary True Subtract a b) (\<lambda>c. Inr (ti_int True c)) | _ \<Rightarrow> mixed)"
| "sql_cmp (V_utiny a) v = (case v of V_utiny b \<Rightarrow> rbind (ti_binary False Subtract a b) (\<lambda>c. Inr (ti_int False c)) | _ \<Rightarrow> mixed)"
| "sql_cmp (V_short a) v = (case v of V_short b \<Rightarrow> Inr (sint a - sint b) | _ \<Rightarrow> mixed)"
| "sql_cmp (V_ushort a) v = (case v of V_ushort b \<Rightarrow> Inr (uint a - uint b) | _ \<Rightarrow> mixed)"
| "sql_cmp (V_int a) v = (case v of V_int b \<Rightarrow> (let d = sint a - sint b in
     if - (2 ^ 31) \<le> d \<and> d < 2 ^ 31 then Inr d else Inl (UB NotRepresentable)) | _ \<Rightarrow> mixed)"
| "sql_cmp (V_uint a) v = (case v of V_uint b \<Rightarrow> Inr (sint (a - b)) | _ \<Rightarrow> mixed)"
| "sql_cmp (V_long a) v = (case v of V_long b \<Rightarrow> (let d = sint a - sint b in
     if - (2 ^ 63) \<le> d \<and> d < 2 ^ 63 then Inr (int_of_long (a - b)) else Inl (UB NotRepresentable)) | _ \<Rightarrow> mixed)"
| "sql_cmp (V_ulong a) v = (case v of V_ulong b \<Rightarrow> Inr (int_of_long (a - b)) | _ \<Rightarrow> mixed)"
| "sql_cmp (V_longlong a) v = (case v of V_longlong b \<Rightarrow> Inr (three_way (sint a) (sint b)) | _ \<Rightarrow> mixed)"
| "sql_cmp (V_ulonglong a) v = (case v of V_ulonglong b \<Rightarrow> Inr (three_way a b) | _ \<Rightarrow> mixed)"
| "sql_cmp (V_string s) v = (case v of V_string t \<Rightarrow> Inr (three_way (char_codes s) (char_codes t)) | _ \<Rightarrow> mixed)"
| "sql_cmp (V_String s) v = (case v of V_String t \<Rightarrow> String_compare s t | _ \<Rightarrow> mixed)"
| "sql_cmp (V_Date d) v = (case v of V_Date e \<Rightarrow> Inr (Date_compare d e) | _ \<Rightarrow> mixed)"
| "sql_cmp (V_Time t) v = (case v of V_Time u \<Rightarrow> Inr (Time_compare t u) | _ \<Rightarrow> mixed)"
| "sql_cmp (V_DateTime d) v = (case v of V_DateTime e \<Rightarrow> Inr (DateTime_compare d e) | _ \<Rightarrow> mixed)"

text \<open>
  The operators \<open>==\<close> and \<open><\<close> of the types, which the comparison of nullable values uses. \<open>String\<close> has no
  \<open><\<close>, so that a structure whose compared members include a nullable one is not compiled.
\<close>

fun value_eq :: "scalar \<Rightarrow> scalar \<Rightarrow> bool" where
  "value_eq (V_tiny a) v = (case v of V_tiny b \<Rightarrow> ti_eq a b | _ \<Rightarrow> False)"
| "value_eq (V_utiny a) v = (case v of V_utiny b \<Rightarrow> ti_eq a b | _ \<Rightarrow> False)"
| "value_eq (V_Date d) v = (case v of V_Date e \<Rightarrow> cmp_eq Date_compare d e | _ \<Rightarrow> False)"
| "value_eq (V_Time t) v = (case v of V_Time u \<Rightarrow> cmp_eq Time_compare t u | _ \<Rightarrow> False)"
| "value_eq (V_DateTime d) v = (case v of V_DateTime e \<Rightarrow> cmp_eq DateTime_compare d e | _ \<Rightarrow> False)"
| "value_eq (V_String s) v = (case v of V_String t \<Rightarrow> String_compare s t = Inr 0 | _ \<Rightarrow> False)"
| "value_eq a v = (a = v)"

fun value_less :: "scalar \<Rightarrow> scalar \<Rightarrow> bool" where
  "value_less (V_tiny a) v = (case v of V_tiny b \<Rightarrow> ti_less True a b | _ \<Rightarrow> False)"
| "value_less (V_utiny a) v = (case v of V_utiny b \<Rightarrow> ti_less False a b | _ \<Rightarrow> False)"
| "value_less (V_short a) v = (case v of V_short b \<Rightarrow> (a <s b) | _ \<Rightarrow> False)"
| "value_less (V_ushort a) v = (case v of V_ushort b \<Rightarrow> (a < b) | _ \<Rightarrow> False)"
| "value_less (V_int a) v = (case v of V_int b \<Rightarrow> (a <s b) | _ \<Rightarrow> False)"
| "value_less (V_uint a) v = (case v of V_uint b \<Rightarrow> (a < b) | _ \<Rightarrow> False)"
| "value_less (V_long a) v = (case v of V_long b \<Rightarrow> (a <s b) | _ \<Rightarrow> False)"
| "value_less (V_ulong a) v = (case v of V_ulong b \<Rightarrow> (a < b) | _ \<Rightarrow> False)"
| "value_less (V_longlong a) v = (case v of V_longlong b \<Rightarrow> (a <s b) | _ \<Rightarrow> False)"
| "value_less (V_ulonglong a) v = (case v of V_ulonglong b \<Rightarrow> (a < b) | _ \<Rightarrow> False)"
| "value_less (V_string s) v = (case v of V_string t \<Rightarrow> (char_codes s < char_codes t) | _ \<Rightarrow> False)"
| "value_less (V_String s) v = False"
| "value_less (V_Date d) v = (case v of V_Date e \<Rightarrow> cmp_less Date_compare d e | _ \<Rightarrow> False)"
| "value_less (V_Time t) v = (case v of V_Time u \<Rightarrow> cmp_less Time_compare t u | _ \<Rightarrow> False)"
| "value_less (V_DateTime d) v = (case v of V_DateTime e \<Rightarrow> cmp_less DateTime_compare d e | _ \<Rightarrow> False)"

definition as_nullable :: "'a option \<Rightarrow> 'a option nullable" where
  "as_nullable v = \<lparr>n_data = v, n_null = (v = None)\<rparr>"

definition sql_cmp_null :: "scalar option \<Rightarrow> scalar option \<Rightarrow> int" where
  "sql_cmp_null a b = Null_cmp (\<lambda>x y. value_eq (the x) (the y)) (\<lambda>x y. value_less (the x) (the y))
     (as_nullable a) (as_nullable b)"

fun member_cmp :: "member \<Rightarrow> member \<Rightarrow> int res" where
  "member_cmp (Of a) (Of b) = sql_cmp a b"
| "member_cmp (Or_Null ty a) (Or_Null ty' b) = Inr (sql_cmp_null a b)"
| "member_cmp a b = mixed"

text \<open>The first members decide, as many as the class compares; a difference ends the comparison.\<close>

fun compare_members :: "member list \<Rightarrow> member list \<Rightarrow> int res" where
  "compare_members (x # xs) (y # ys) = rbind (member_cmp x y) (\<lambda>c.
     if c \<noteq> 0 \<or> xs = [] then Inr c else compare_members xs ys)"
| "compare_members xs ys = Inr 0"

section \<open>Structures\<close>

text \<open>
  The static part of a structure: the name of the table, which a program can change, the names and
  types of the columns, and the number of members that take part in comparisons.
\<close>

record ssqls_class =
  sc_table :: string
  sc_names :: "string list"
  sc_types :: "type_id list"
  sc_compare :: nat

record ssqls =
  ss_values :: "member list"
  ss_override :: "string option"

definition ss_compare :: "ssqls_class \<Rightarrow> ssqls \<Rightarrow> ssqls \<Rightarrow> int res" where
  "ss_compare C x y = compare_members (take (sc_compare C) (ss_values x)) (take (sc_compare C) (ss_values y))"

definition ss_operator :: "(int \<Rightarrow> bool) \<Rightarrow> ssqls_class \<Rightarrow> ssqls \<Rightarrow> ssqls \<Rightarrow> bool res" where
  "ss_operator sign C x y = rbind (ss_compare C x y) (\<lambda>c. Inr (sign c))"

text \<open>
  Constructors and \<open>set\<close>. Members that are not given keep what their default initialisation, or their
  earlier life, left in them: the argument \<open>initial\<close>.
\<close>

definition ss_default :: "member list \<Rightarrow> ssqls" where
  "ss_default initial = \<lparr>ss_values = initial, ss_override = None\<rparr>"

definition ss_construct :: "member list \<Rightarrow> member list \<Rightarrow> ssqls" where
  "ss_construct initial ps = \<lparr>ss_values = ps @ drop (length ps) initial, ss_override = None\<rparr>"

definition ss_set :: "member list \<Rightarrow> ssqls \<Rightarrow> ssqls" where
  "ss_set ps s = \<lparr>ss_values = ps @ drop (length ps) (ss_values s), ss_override = None\<rparr>"

definition set_class_table :: "string \<Rightarrow> ssqls_class \<Rightarrow> ssqls_class" where
  "set_class_table t C = C\<lparr>sc_table := t\<rparr>"

definition instance_table :: "string option \<Rightarrow> ssqls \<Rightarrow> ssqls" where
  "instance_table t s = s\<lparr>ss_override := t\<rparr>"

definition ss_table :: "ssqls_class \<Rightarrow> ssqls \<Rightarrow> string" where
  "ss_table C s = (case ss_override s of Some t \<Rightarrow> t | None \<Rightarrow> sc_table C)"

section \<open>Reading from a row\<close>

text \<open>
  \<open>row[name].conv(T())\<close>. A tiny integer is no signed type for \<open>numeric_limits\<close>, so it is read as an
  unsigned number and cut down.
\<close>

fun conv_value :: "cxx_type \<Rightarrow> mstring \<Rightarrow> scalar res" where
  "conv_value T_tiny s = rbind (conv_tiny s) (\<lambda>n. Inr (V_tiny n))"
| "conv_value T_utiny s = rbind (conv_utiny s) (\<lambda>n. Inr (V_utiny n))"
| "conv_value T_short s = rbind (conv_short s) (\<lambda>n. Inr (V_short n))"
| "conv_value T_ushort s = rbind (conv_ushort s) (\<lambda>n. Inr (V_ushort n))"
| "conv_value T_int s = rbind (conv_int s) (\<lambda>n. Inr (V_int n))"
| "conv_value T_uint s = rbind (conv_uint s) (\<lambda>n. Inr (V_uint n))"
| "conv_value T_long s = rbind (conv_long s) (\<lambda>n. Inr (V_long n))"
| "conv_value T_ulong s = rbind (conv_ulong s) (\<lambda>n. Inr (V_ulong n))"
| "conv_value T_longlong s = rbind (conv_longlong s) (\<lambda>n. Inr (V_longlong n))"
| "conv_value T_ulonglong s = rbind (conv_ulonglong s) (\<lambda>n. Inr (V_ulonglong n))"
| "conv_value T_string s = rbind (conv_string s) (\<lambda>t. Inr (V_string t))"
| "conv_value T_String s = Inr (V_String s)"
| "conv_value T_Date s = rbind (conv_date s) (\<lambda>d. Inr (V_Date d))"
| "conv_value T_Time s = rbind (conv_time s) (\<lambda>t. Inr (V_Time t))"
| "conv_value T_DateTime s = rbind (conv_datetime s) (\<lambda>d. Inr (V_DateTime d))"
| "conv_value ty s = Inl (UB NotRepresentable)"

fun conv_member :: "type_id \<Rightarrow> mstring \<Rightarrow> member res" where
  "conv_member (Plain ty) s = rbind (conv_value ty s) (\<lambda>v. Inr (Of v))"
| "conv_member (Nullable ty) s = rbind (conv_nullable (conv_value ty) s) (\<lambda>v. Inr (Or_Null ty v))"

text \<open>The guard object that switches the exceptions of a row off and restores the setting.\<close>

definition NoExceptions_begin :: "sql_row \<Rightarrow> bool \<times> sql_row" where
  "NoExceptions_begin row = (row_throw row, row\<lparr>row_throw := False\<rparr>)"

definition NoExceptions_end :: "bool \<Rightarrow> sql_row \<Rightarrow> sql_row" where
  "NoExceptions_end were_enabled row = row\<lparr>row_throw := were_enabled\<rparr>"

fun populate_from :: "string list \<Rightarrow> type_id list \<Rightarrow> nat \<Rightarrow> sql_row \<Rightarrow> member list \<Rightarrow> unit res \<times> member list" where
  "populate_from (n # ns) (t # ts) i row vs = (case rbind (Row_named row n) (conv_member t) of
       Inl e \<Rightarrow> (Inl e, vs)
     | Inr m \<Rightarrow> populate_from ns ts (Suc i) row (vs[i := m]))"
| "populate_from ns ts i row vs = (Inr (), vs)"

definition populate :: "ssqls_class \<Rightarrow> sql_row \<Rightarrow> member list \<Rightarrow> unit res \<times> member list \<times> sql_row" where
  "populate C row vs = (case NoExceptions_begin row of (were_enabled, quiet_row) \<Rightarrow>
     case populate_from (sc_names C) (sc_types C) 0 quiet_row vs of (r, vs') \<Rightarrow>
       (r, vs', if leaves_scope r then NoExceptions_end were_enabled quiet_row else quiet_row))"

definition ss_of_row :: "ssqls_class \<Rightarrow> member list \<Rightarrow> sql_row \<Rightarrow> ssqls res \<times> sql_row" where
  "ss_of_row C initial row = (case populate C row initial of (r, vs, row') \<Rightarrow>
     (rbind r (\<lambda>_. Inr \<lparr>ss_values = vs, ss_override = None\<rparr>), row'))"

definition ss_set_row :: "ssqls_class \<Rightarrow> sql_row \<Rightarrow> ssqls \<Rightarrow> unit res \<times> ssqls \<times> sql_row" where
  "ss_set_row C row s = (case populate C row (ss_values s) of (r, vs, row') \<Rightarrow>
     (r, \<lparr>ss_values = vs, ss_override = None\<rparr>, row'))"

section \<open>Writing lists\<close>

text \<open>
  What is written for each member: its value through a manipulator, the back quoted name of its
  column, whose first back quote goes through the manipulator too, or an equation.
\<close>

definition put_value :: "manip_env \<Rightarrow> manip \<Rightarrow> string \<times> member \<Rightarrow> stream \<Rightarrow> stream res" where
  "put_value M m nv o1 = rbind (member_adapter (e_platform (m_sql M)) (snd nv)) (\<lambda>a. manipulate M m a o1)"

definition put_name :: "manip_env \<Rightarrow> manip \<Rightarrow> string \<times> member \<Rightarrow> stream \<Rightarrow> stream res" where
  "put_name M m nv o1 = rbind (manipulate M m (STA_char (e_platform (m_sql M)) (CHR 0x60)) o1) (\<lambda>o2.
     Inr (formatted [CHR 0x60] (formatted (fst nv) o2)))"

definition put_equation :: "manip_env \<Rightarrow> manip \<Rightarrow> string \<Rightarrow> string \<times> member \<Rightarrow> stream \<Rightarrow> stream res" where
  "put_equation M m c nv o1 =
     put_value M m nv (formatted c (formatted [CHR 0x60] (formatted (fst nv) (formatted [CHR 0x60] o1))))"

text \<open>A whole list, with the delimiter between its elements, and a list of the elements that are included.\<close>

fun put_all :: "('x \<Rightarrow> stream \<Rightarrow> stream res) \<Rightarrow> string \<Rightarrow> 'x list \<Rightarrow> stream \<Rightarrow> stream res" where
  "put_all put d [] o1 = Inr o1"
| "put_all put d (x # xs) o1 = rbind (put x o1) (\<lambda>o2.
     if xs = [] then Inr o2 else put_all put d xs (formatted d o2))"

fun put_included ::
  "('x \<Rightarrow> stream \<Rightarrow> stream res) \<Rightarrow> string \<Rightarrow> 'x list \<Rightarrow> bool list \<Rightarrow> bool \<Rightarrow> stream \<Rightarrow> stream res" where
  "put_included put d [] bs prev o1 = Inr o1"
| "put_included put d (x # xs) [] prev o1 = Inl (UB OutOfBounds)"
| "put_included put d (x # xs) (b # bs) prev o1 =
     (if b then rbind (put x (if prev then formatted d o1 else o1)) (put_included put d xs bs True)
      else put_included put d xs bs prev o1)"

definition columns :: "ssqls_class \<Rightarrow> ssqls \<Rightarrow> (string \<times> member) list" where
  "columns C s = zip (sc_names C) (ss_values s)"

definition value_list :: "manip_env \<Rightarrow> manip \<Rightarrow> string \<Rightarrow> ssqls_class \<Rightarrow> ssqls \<Rightarrow> stream \<Rightarrow> stream res" where
  "value_list M m d C s = put_all (put_value M m) d (columns C s)"

definition field_list :: "manip_env \<Rightarrow> manip \<Rightarrow> string \<Rightarrow> ssqls_class \<Rightarrow> ssqls \<Rightarrow> stream \<Rightarrow> stream res" where
  "field_list M m d C s = put_all (put_name M m) d (columns C s)"

definition equal_list :: "manip_env \<Rightarrow> manip \<Rightarrow> string \<Rightarrow> string \<Rightarrow> ssqls_class \<Rightarrow> ssqls \<Rightarrow> stream \<Rightarrow> stream res" where
  "equal_list M m d c C s = put_all (put_equation M m c) d (columns C s)"

text \<open>The forms without a manipulator.\<close>

definition value_list_default :: "manip_env \<Rightarrow> string option \<Rightarrow> ssqls_class \<Rightarrow> ssqls \<Rightarrow> stream \<Rightarrow> stream res" where
  "value_list_default M d = value_list M Quote (case d of None \<Rightarrow> '','' | Some d \<Rightarrow> d)"

definition field_list_default :: "manip_env \<Rightarrow> string option \<Rightarrow> ssqls_class \<Rightarrow> ssqls \<Rightarrow> stream \<Rightarrow> stream res" where
  "field_list_default M d = field_list M Do_nothing (case d of None \<Rightarrow> '','' | Some d \<Rightarrow> d)"

definition equal_list_default ::
  "manip_env \<Rightarrow> string option \<Rightarrow> string option \<Rightarrow> ssqls_class \<Rightarrow> ssqls \<Rightarrow> stream \<Rightarrow> stream res" where
  "equal_list_default M d c = equal_list M Quote (case d of None \<Rightarrow> '','' | Some d \<Rightarrow> d)
     (case c of None \<Rightarrow> '' = '' | Some e \<Rightarrow> e)"

text \<open>
  The choice of members: by flags, of which the missing ones are false; by their enumerators, where
  the enumerator \<open>NULL\<close>, which is also the default, ends the list, except in a structure of one member,
  which does not look for it; by a vector of the caller; or the members that are compared.
\<close>

datatype choice = By_flags "bool list" | By_enums "nat list" | By_vector "bool list" | Use_compare

definition include_flags :: "nat \<Rightarrow> bool list \<Rightarrow> bool list" where
  "include_flags n bs = take n (bs @ replicate n False)"

fun include_enums :: "nat \<Rightarrow> nat list \<Rightarrow> bool list \<Rightarrow> bool list res" where
  "include_enums n [] v = Inr v"
| "include_enums n (i # is) v =
     (if i = n \<and> n \<noteq> 1 then Inr v
      else if length v \<le> i then Inl (UB OutOfBounds)
      else include_enums n is (v[i := True]))"

definition inclusion :: "ssqls_class \<Rightarrow> choice \<Rightarrow> bool list res" where
  "inclusion C ch = (let n = length (sc_names C) in case ch of
       By_flags bs \<Rightarrow> Inr (include_flags n bs)
     | By_enums is \<Rightarrow> include_enums n is (replicate n False)
     | By_vector v \<Rightarrow> Inr v
     | Use_compare \<Rightarrow> Inr (include_flags n (replicate (sc_compare C) True)))"

definition cus_value_list :: "manip_env \<Rightarrow> manip \<Rightarrow> string \<Rightarrow> ssqls_class \<Rightarrow> choice \<Rightarrow> ssqls \<Rightarrow> stream \<Rightarrow> stream res" where
  "cus_value_list M m d C ch s o1 = rbind (inclusion C ch) (\<lambda>v. put_included (put_value M m) d (columns C s) v False o1)"

definition cus_field_list :: "manip_env \<Rightarrow> manip \<Rightarrow> string \<Rightarrow> ssqls_class \<Rightarrow> choice \<Rightarrow> ssqls \<Rightarrow> stream \<Rightarrow> stream res" where
  "cus_field_list M m d C ch s o1 = rbind (inclusion C ch) (\<lambda>v. put_included (put_name M m) d (columns C s) v False o1)"

definition cus_equal_list ::
  "manip_env \<Rightarrow> manip \<Rightarrow> string \<Rightarrow> string \<Rightarrow> ssqls_class \<Rightarrow> choice \<Rightarrow> ssqls \<Rightarrow> stream \<Rightarrow> stream res" where
  "cus_equal_list M m d c C ch s o1 =
     rbind (inclusion C ch) (\<lambda>v. put_included (put_equation M m c) d (columns C s) v False o1)"

definition cus_value_list_default :: "manip_env \<Rightarrow> string option \<Rightarrow> ssqls_class \<Rightarrow> choice \<Rightarrow> ssqls \<Rightarrow> stream \<Rightarrow> stream res" where
  "cus_value_list_default M d = cus_value_list M Quote (case d of None \<Rightarrow> '','' | Some d \<Rightarrow> d)"

definition cus_field_list_default :: "manip_env \<Rightarrow> string option \<Rightarrow> ssqls_class \<Rightarrow> choice \<Rightarrow> ssqls \<Rightarrow> stream \<Rightarrow> stream res" where
  "cus_field_list_default M d = cus_field_list M Do_nothing (case d of None \<Rightarrow> '','' | Some d \<Rightarrow> d)"

definition cus_equal_list_default ::
  "manip_env \<Rightarrow> string option \<Rightarrow> string option \<Rightarrow> ssqls_class \<Rightarrow> choice \<Rightarrow> ssqls \<Rightarrow> stream \<Rightarrow> stream res" where
  "cus_equal_list_default M d c = cus_equal_list M Quote (case d of None \<Rightarrow> '','' | Some d \<Rightarrow> d)
     (case c of None \<Rightarrow> '' = '' | Some e \<Rightarrow> e)"

section \<open>The texts of a structure\<close>

text \<open>The row that the statements of a query write for a structure.\<close>

definition member_text :: "platform \<Rightarrow> (string \<Rightarrow> string) \<Rightarrow> member \<Rightarrow> string" where
  "member_text pl esc m = (case member_adapter pl m of Inl e \<Rightarrow> []
     | Inr a \<Rightarrow> in_quotes (sta_quote_q pl a) (CHR 0x27) (if sta_escape_q pl a then esc (sta_data a) else sta_data a))"

definition equation_text :: "platform \<Rightarrow> (string \<Rightarrow> string) \<Rightarrow> string \<times> member \<Rightarrow> string" where
  "equation_text pl esc nv = backquoted (fst nv) @ '' = '' @ member_text pl esc (snd nv)"

definition row_of :: "platform \<Rightarrow> ssqls_class \<Rightarrow> ssqls \<Rightarrow> row" where
  "row_of pl C s = \<lparr>r_table = ss_table C s,
     r_fields = joined '','' (map backquoted (map fst (columns C s))),
     r_values = (\<lambda>esc. joined '','' (map (member_text pl esc) (map snd (columns C s)))),
     r_equals = (\<lambda>esc. joined '','' (map (equation_text pl esc) (columns C s))),
     r_where = (\<lambda>esc. joined '' AND '' (map (equation_text pl esc) (take (sc_compare C) (columns C s))))\<rparr>"

section \<open>Lists as texts\<close>

lemma put_all_text:
  assumes "\<And>x s. x \<in> set xs \<Longrightarrow> put x (put_text s o1) = Inr (put_text (s @ t x) o1)" and "s_width o1 = 0"
  shows "put_all put d xs (put_text s o1) = Inr (put_text (s @ joined d (map t xs)) o1)"
  using assms(1)
proof (induction xs arbitrary: s)
  case (Cons x xs)
  show ?case using Cons.IH [of "s @ t x @ d"] Cons.prems assms(2) by (simp add: formatted_narrow)
qed simp

lemma put_included_text:
  assumes "\<And>x s. x \<in> set xs \<Longrightarrow> put x (put_text s o1) = Inr (put_text (s @ t x) o1)" and "s_width o1 = 0"
    and "length xs \<le> length bs"
  shows "put_included put d xs bs b (put_text s o1) = Inr (put_text (s @
    (if b then concat (map (\<lambda>x. d @ t x) (selected xs bs)) else joined d (map t (selected xs bs)))) o1)"
  using assms(1,3)
proof (induction xs arbitrary: bs b s)
  case (Cons x xs)
  then obtain c cs where bs: "bs = c # cs" by (cases bs) auto
  show ?case
    using Cons.IH [of cs b s] Cons.IH [of cs True "s @ t x"] Cons.IH [of cs True "s @ d @ t x"] Cons.prems assms(2)
    by (simp add: bs formatted_narrow joined_Cons comp_def del: joined.simps)
qed simp

lemma put_text_whole: "put_text [] o1 = o1"
  by (simp add: put_text_def)

definition adapters_exist :: "platform \<Rightarrow> ssqls \<Rightarrow> bool" where
  "adapters_exist pl s \<longleftrightarrow> list_all (\<lambda>m. \<exists>a. member_adapter pl m = Inr a) (ss_values s)"

fun member_numbered :: "platform \<Rightarrow> member \<Rightarrow> bool" where
  "member_numbered pl (Of (V_string s)) \<longleftrightarrow> True"
| "member_numbered pl (Of (V_String s)) \<longleftrightarrow> True"
| "member_numbered pl (Of v) \<longleftrightarrow> value_type v \<in> numbered pl"
| "member_numbered pl (Or_Null ty v) \<longleftrightarrow> v = None \<or> ty \<in> numbered pl"

lemma member_adapter_found: "(\<exists>a. member_adapter pl m = Inr a) \<longleftrightarrow> member_numbered pl m"
  by (cases "(pl, m)" rule: member_numbered.cases)
    (simp_all add: adapter_found STA_tiny_def STA_utiny_def STA_short_def STA_ushort_def STA_int_def STA_unsigned_def STA_long_def
        STA_ulong_def STA_longlong_def STA_ulonglong_def STA_date_def STA_time_def STA_datetime_def)

lemma adapters_exist_iff: "adapters_exist pl s \<longleftrightarrow> list_all (member_numbered pl) (ss_values s)"
  by (simp add: adapters_exist_def member_adapter_found)

text \<open>A member of any other type can be compared and read, but every attempt to write it throws.\<close>

lemma unnumbered_member_throws:
  assumes "\<not> member_numbered (e_platform (m_sql M)) (snd nv)"
  shows "\<exists>msg. put_value M m nv o1 = Inl (Throw (TypeLookupFailed msg))"
proof -
  have fails: "\<exists>msg. lookup_type pl ti = Inl (Throw (TypeLookupFailed msg))" if "\<nexists>n. lookup_type pl ti = Inr n" for pl ti
    using that by (auto simp: lookup_type_def split: option.splits)
  note plain = unnumbered_throws
  have null: "\<exists>msg. null_adapter pl (Some t) ty = Inl (Throw (TypeLookupFailed msg))" if "ty \<notin> numbered pl" for pl t ty
    using fails that lookup_found by (fastforce simp: null_adapter_def)
  have "\<exists>msg. member_adapter pl mem = Inl (Throw (TypeLookupFailed msg))" if "\<not> member_numbered pl mem" for pl mem
    using that plain null by (cases "(pl, mem)" rule: member_numbered.cases)
      (auto simp: STA_tiny_def STA_utiny_def STA_short_def STA_ushort_def STA_int_def STA_unsigned_def STA_long_def
        STA_ulong_def STA_longlong_def STA_ulonglong_def STA_date_def STA_time_def STA_datetime_def)
  from this [OF assms] show ?thesis by (auto simp: put_value_def)
qed

definition statement_stream :: "manip_env \<Rightarrow> stream \<Rightarrow> bool" where
  "statement_stream M o1 \<longleftrightarrow> is_sql o1 \<and> s_width o1 = 0 \<and> fits_buffer (class_escape M (s_class o1))"

text \<open>What is written for a column, by the manipulator.\<close>

definition value_text_of :: "manip_env \<Rightarrow> stream_class \<Rightarrow> manip \<Rightarrow> string \<times> member \<Rightarrow> string" where
  "value_text_of M cls m nv = (case member_adapter (e_platform (m_sql M)) (snd nv) of Inl e \<Rightarrow> [] | Inr a \<Rightarrow> item_text M cls m a)"

definition name_text_of :: "manip_env \<Rightarrow> stream_class \<Rightarrow> manip \<Rightarrow> string \<times> member \<Rightarrow> string" where
  "name_text_of M cls m nv = item_text M cls m (STA_char (e_platform (m_sql M)) (CHR 0x60)) @ fst nv @ [CHR 0x60]"

definition equation_text_of :: "manip_env \<Rightarrow> stream_class \<Rightarrow> manip \<Rightarrow> string \<Rightarrow> string \<times> member \<Rightarrow> string" where
  "equation_text_of M cls m c nv = backquoted (fst nv) @ c @ value_text_of M cls m nv"

lemma put_text_stream [simp]:
  "statement_stream M (put_text s o1) = statement_stream M o1" "s_class (put_text s o1) = s_class o1"
  by (simp_all add: statement_stream_def is_sql_def)

lemma put_column_text:
  assumes "statement_stream M o1" and "adapters_exist (e_platform (m_sql M)) s" and "nv \<in> set (columns C s)"
  shows "put_value M m nv (put_text t o1) = Inr (put_text (t @ value_text_of M (s_class o1) m nv) o1)"
    and "put_name M m nv (put_text t o1) = Inr (put_text (t @ name_text_of M (s_class o1) m nv) o1)"
    and "put_equation M m c nv (put_text t o1) = Inr (put_text (t @ equation_text_of M (s_class o1) m c nv) o1)"
proof -
  have o1: "is_sql (put_text t o1)" "fits_buffer (class_escape M (s_class (put_text t o1)))" "s_width o1 = 0" for t
    using assms(1) by (simp_all add: statement_stream_def is_sql_def)
  note put = manipulate_sql [OF o1(1,2)]
  have "snd nv \<in> set (ss_values s)" using assms(3) by (metis columns_def prod.collapse set_zip_rightD)
  then obtain a where a: "member_adapter (e_platform (m_sql M)) (snd nv) = Inr a"
    using assms(2) by (auto simp: adapters_exist_def list_all_iff)
  then show "put_value M m nv (put_text t o1) = Inr (put_text (t @ value_text_of M (s_class o1) m nv) o1)" for t
    by (simp add: put_value_def value_text_of_def put)
  then show "put_equation M m c nv (put_text t o1) = Inr (put_text (t @ equation_text_of M (s_class o1) m c nv) o1)"
    using o1(3) by (simp add: put_equation_def equation_text_of_def formatted_narrow backquoted_def)
  show "put_name M m nv (put_text t o1) = Inr (put_text (t @ name_text_of M (s_class o1) m nv) o1)"
    using o1(3) by (simp add: put_name_def name_text_of_def put formatted_narrow)
qed

lemma list_texts:
  assumes "statement_stream M o1" and "adapters_exist (e_platform (m_sql M)) s"
    and "inclusion C ch = Inr v" and "length (columns C s) \<le> length v"
  shows "cus_value_list M m d C ch s o1 =
      Inr (put_text (joined d (map (value_text_of M (s_class o1) m) (selected (columns C s) v))) o1) \<and>
    cus_field_list M m d C ch s o1 =
      Inr (put_text (joined d (map (name_text_of M (s_class o1) m) (selected (columns C s) v))) o1) \<and>
    cus_equal_list M m d c C ch s o1 =
      Inr (put_text (joined d (map (equation_text_of M (s_class o1) m c) (selected (columns C s) v))) o1) \<and>
    value_list M m d C s o1 = Inr (put_text (joined d (map (value_text_of M (s_class o1) m) (columns C s))) o1) \<and>
    field_list M m d C s o1 = Inr (put_text (joined d (map (name_text_of M (s_class o1) m) (columns C s))) o1) \<and>
    equal_list M m d c C s o1 = Inr (put_text (joined d (map (equation_text_of M (s_class o1) m c) (columns C s))) o1)"
proof -
  have w: "s_width o1 = 0" using assms(1) by (simp add: statement_stream_def)
  note put = put_column_text [OF assms(1,2)]
  show ?thesis
    using put_included_text [of "columns C s" "put_value M m" o1 _ v d False "[]", OF put(1) w assms(4)]
      put_included_text [of "columns C s" "put_name M m" o1 _ v d False "[]", OF put(2) w assms(4)]
      put_included_text [of "columns C s" "put_equation M m c" o1 _ v d False "[]", OF put(3) w assms(4)]
      put_all_text [of "columns C s" "put_value M m" o1 _ d "[]", OF put(1) w]
      put_all_text [of "columns C s" "put_name M m" o1 _ d "[]", OF put(2) w]
      put_all_text [of "columns C s" "put_equation M m c" o1 _ d "[]", OF put(3) w]
    by (simp add: cus_value_list_def cus_field_list_def cus_equal_list_def value_list_def field_list_def equal_list_def
        assms(3) put_text_whole)
qed

text \<open>A list of chosen members, of values, of columns or of equations, is the list of the texts of
  the chosen members with the delimiter between them, however they are chosen and whatever the
  manipulator is; a list of all members is the same with every member chosen.\<close>
theorem chosen_members_joined:
  assumes "statement_stream M o1" and "adapters_exist (e_platform (m_sql M)) s"
    and "inclusion C ch = Inr v" and "length (columns C s) \<le> length v"
  shows "cus_value_list M m d C ch s o1 =
      Inr (put_text (joined d (map (value_text_of M (s_class o1) m) (selected (columns C s) v))) o1) \<and>
    cus_field_list M m d C ch s o1 =
      Inr (put_text (joined d (map (name_text_of M (s_class o1) m) (selected (columns C s) v))) o1) \<and>
    cus_equal_list M m d c C ch s o1 =
      Inr (put_text (joined d (map (equation_text_of M (s_class o1) m c) (selected (columns C s) v))) o1) \<and>
    value_list M m d C s o1 = Inr (put_text (joined d (map (value_text_of M (s_class o1) m) (columns C s))) o1) \<and>
    field_list M m d C s o1 = Inr (put_text (joined d (map (name_text_of M (s_class o1) m) (columns C s))) o1) \<and>
    equal_list M m d c C s o1 = Inr (put_text (joined d (map (equation_text_of M (s_class o1) m c) (columns C s))) o1)"
  using assms by (rule list_texts)

lemma value_text_quote: "value_text_of M cls Quote nv = member_text (e_platform (m_sql M)) (class_escape M cls) (snd nv)"
  by (simp add: value_text_of_def member_text_def item_content_def split: sum.split)

lemma equation_text_quote:
  "equation_text_of M cls Quote '' = '' nv = equation_text (e_platform (m_sql M)) (class_escape M cls) nv"
  by (simp add: equation_text_of_def equation_text_def value_text_quote)

lemma name_text_plain: "name_text_of M cls Do_nothing nv = backquoted (fst nv)"
  by (simp add: name_text_of_def backquoted_def STA_char_def adapter_of_def sta_data_def)

lemma selected_flags: "selected xs (take n (replicate k True @ replicate n False)) = take k xs" if "length xs \<le> n"
  using that
proof (induction xs arbitrary: n k)
  case (Cons x xs)
  then obtain m where n: "n = Suc m" by (cases n) auto
  have "selected ys (replicate j False) = []" for ys :: "'a list" and j
    by (auto simp: selected_def filter_empty_conv dest: set_zip_rightD)
  note none = this [of "x # xs" n]
  show ?case
  proof (cases k)
    case 0
    then show ?thesis using none by (simp del: selected_simps)
  next
    case (Suc l)
    have "take m (replicate l True @ replicate (Suc m) False) = take m (replicate l True @ replicate m False)"
      by (auto simp: min_def not_le Suc_diff_Suc simp flip: replicate_Suc)
    then show ?thesis using Cons.IH [of m l] Cons.prems Suc n by simp
  qed
qed (simp add: selected_def)

text \<open>C24: the lists that \<open>Query\<close> asks a structure for, written on a stream of statements, are the texts
  of the row that its statements are made of.\<close>
theorem lists_are_row_texts:
  assumes "statement_stream M o1" and "adapters_exist (e_platform (m_sql M)) s"
    and "row = row_of (e_platform (m_sql M)) C s" and "esc = class_escape M (s_class o1)"
  shows "value_list_default M None C s o1 = Inr (put_text (r_values row esc) o1) \<and>
    field_list_default M None C s o1 = Inr (put_text (r_fields row) o1) \<and>
    equal_list_default M None None C s o1 = Inr (put_text (r_equals row esc) o1) \<and>
    cus_equal_list_default M (Some '' AND '') None C Use_compare s o1 = Inr (put_text (r_where row esc) o1)"
proof -
  let ?n = "length (sc_names C)"
  let ?v = "include_flags ?n (replicate (sc_compare C) True)"
  have v: "inclusion C Use_compare = Inr ?v" by (simp add: inclusion_def Let_def)
  have "length (columns C s) \<le> length ?v" by (simp add: columns_def include_flags_def)
  note lists = list_texts [OF assms(1,2) v this]
  have "selected (columns C s) ?v = take (sc_compare C) (columns C s)"
    unfolding include_flags_def by (intro selected_flags) (simp add: columns_def)
  then show ?thesis
    using lists assms(3,4)
    by (simp add: value_list_default_def field_list_default_def equal_list_default_def cus_equal_list_default_def
        row_of_def value_text_quote [abs_def] equation_text_quote [abs_def] name_text_plain [abs_def] comp_def)
qed

text \<open>Naming members by their enumerators, in any order and up to the first \<open>NULL\<close>, chooses the
  members that the flags would choose; in a structure of one member, \<open>NULL\<close> writes behind the vector.\<close>
theorem enumerators_choose:
  assumes "length (sc_names C) = n" and "n \<noteq> 1" and "\<forall>i \<in> set is. i \<le> n"
  shows "inclusion C (By_enums is) = Inr (map (\<lambda>j. j \<in> set (takeWhile (\<lambda>i. i \<noteq> n) is)) [0..<n]) \<and>
    inclusion (C\<lparr>sc_names := [name]\<rparr>) (By_enums [1]) = Inl (UB OutOfBounds)"
proof -
  have "include_enums n js v = Inr (map (\<lambda>j. v ! j \<or> j \<in> set (takeWhile (\<lambda>i. i \<noteq> n) js)) [0..<n])"
    if "length v = n" and "\<forall>i \<in> set js. i \<le> n" for v js
    using that
  proof (induction js arbitrary: v)
    case Nil
    then show ?case by (simp add: list_eq_iff_nth_eq)
  next
    case (Cons i js)
    show ?case
    proof (cases "i = n")
      case True
      then show ?thesis using Cons.prems assms(2) by (simp add: list_eq_iff_nth_eq)
    next
      case False
      then have "i < n" using Cons.prems by auto
      then show ?thesis
        using Cons.IH [of "v[i := True]"] Cons.prems False by (auto simp: nth_list_update)
    qed
  qed
  from this [OF _ assms(3), of "replicate n False"] show ?thesis
    using assms(1) by (auto simp: inclusion_def Let_def)
qed

section \<open>Reading back\<close>

text \<open>The values whose text is read back: everything but strings of the library, dates and times that
  cannot be written and the current time.\<close>

fun storable_value :: "scalar \<Rightarrow> bool" where
  "storable_value (V_String s) \<longleftrightarrow> False"
| "storable_value (V_Date d) \<longleftrightarrow> date_fits d"
| "storable_value (V_Time t) \<longleftrightarrow> time_fits t"
| "storable_value (V_DateTime dt) \<longleftrightarrow> \<not> dt_now dt \<and> date_fits (Date_of_datetime dt) \<and> time_fits (Time_of_datetime dt)"
| "storable_value v \<longleftrightarrow> True"

fun storable :: "member \<Rightarrow> bool" where
  "storable (Of v) \<longleftrightarrow> storable_value v"
| "storable (Or_Null ty None) \<longleftrightarrow> True"
| "storable (Or_Null ty (Some v)) \<longleftrightarrow> value_type v = ty \<and> storable_value v"

lemma cast_back:
  "ucast (scast (w :: 'a::len word) :: 64 word) = w" "ucast (ucast w :: 64 word) = w" if "LENGTH('a) \<le> 64"
  using narrow_back [OF that, of w] by simp_all

lemma conv_text:
  assumes "storable_value v"
  shows "conv_value (value_type v) (Some \<lparr>str_data = Some (value_text v), str_type = ty, str_null = nul\<rparr>) = Inr v"
proof (cases v)
  case (V_tiny a)
  have "- (2 ^ 64) < sint a" "sint a < 2 ^ 64" using word_range(1) [where w = a] by simp_all
  then show ?thesis
    using conv_shown_any narrow_of_int [where 'a = 8, of "sint a"] by (simp add: V_tiny conv_tiny_def)
next
  case (V_Date d)
  then show ?thesis
    using assms Date_read_written [of d "[CHR 0x00]"] by (simp add: conv_date_def parse_buffer_def)
next
  case (V_Time t)
  then show ?thesis
    using assms Time_read_written [of t "[CHR 0x00]"] by (simp add: conv_time_def parse_buffer_def)
next
  case (V_DateTime dt)
  then show ?thesis
    using assms DateTime_read_written [of dt "[CHR 0x00]"] by (simp add: conv_datetime_def parse_buffer_def)
qed (use assms in \<open>simp_all add: conv_utiny_def conv_short_def conv_ushort_def conv_int_def conv_uint_def conv_long_def
    conv_ulong_def conv_longlong_def conv_ulonglong_def conv_string_def buffer_text_def shown_back cast_back\<close>)

lemma plain_adapter_cell:
  "plain_adapter pl t ty = Inr a \<Longrightarrow> \<exists>n. field_of a = Some \<lparr>str_data = Some t, str_type = n, str_null = False\<rparr>"
  by (auto simp: plain_adapter_def rbind_eq_Inr_iff field_of_def adapter_of_def)

lemma member_cell:
  assumes "member_adapter pl m = Inr a" and "storable m"
  shows "\<exists>n. field_of a = Some (case m of
      Of v \<Rightarrow> \<lparr>str_data = Some (value_text v), str_type = n, str_null = False\<rparr>
    | Or_Null ty v \<Rightarrow> \<lparr>str_data = Some (case v of None \<Rightarrow> null_str | Some v \<Rightarrow> value_text v), str_type = n, str_null = (v = None)\<rparr>)"
proof (cases m)
  case (Of v)
  then show ?thesis
    using assms
    by (cases v)
      (auto simp: STA_tiny_def STA_utiny_def STA_short_def STA_ushort_def STA_int_def STA_unsigned_def STA_long_def
        STA_ulong_def STA_longlong_def STA_ulonglong_def STA_date_def STA_time_def STA_datetime_def STA_string_def
        field_of_def adapter_of_def dest!: plain_adapter_cell)
next
  case (Or_Null ty v)
  then show ?thesis
    using assms by (cases v) (auto simp: null_adapter_def rbind_eq_Inr_iff field_of_def adapter_of_def)
qed

lemma member_read_back:
  assumes "member_adapter pl m = Inr a" and "storable m"
  shows "conv_member (member_type m) (field_of a) = Inr m"
proof -
  from member_cell [OF assms] obtain n where "field_of a = Some (case m of
      Of v \<Rightarrow> \<lparr>str_data = Some (value_text v), str_type = n, str_null = False\<rparr>
    | Or_Null ty v \<Rightarrow> \<lparr>str_data = Some (case v of None \<Rightarrow> null_str | Some v \<Rightarrow> value_text v), str_type = n, str_null = (v = None)\<rparr>)"
    by blast
  then show ?thesis
    using assms(2) conv_text by (cases m rule: storable.cases) (auto simp: conv_nullable_def String_is_null_def)
qed

lemma populate_from_ok:
  assumes "length ts = length ns" and "length ms = length ns" and "i + length ns \<le> length vs"
    and "\<And>k. k < length ns \<Longrightarrow> rbind (Row_named row (ns ! k)) (conv_member (ts ! k)) = Inr (ms ! k)"
  shows "populate_from ns ts i row vs = (Inr (), take i vs @ ms @ drop (i + length ns) vs)"
  using assms
proof (induction ns arbitrary: ts ms i vs)
  case (Cons n ns)
  obtain t ts' m ms' where l: "ts = t # ts'" "ms = m # ms'"
    using Cons.prems(1,2) by (cases ts; cases ms) auto
  have tl: "rbind (Row_named row (ns ! k)) (conv_member (ts' ! k)) = Inr (ms' ! k)" if "k < length ns" for k
    using Cons.prems(4) [of "Suc k"] that l by simp
  have "i < length vs" using Cons.prems(3) by simp
  then have "take (Suc i) (vs[i := m]) = take i vs @ [m]"
    by (simp add: take_Suc_conv_app_nth)
  then show ?case
    using Cons.IH [of ts' ms' "Suc i" "vs[i := m]", OF _ _ _ tl] Cons.prems(1-3) Cons.prems(4) [of 0] l
    by (simp add: drop_update_cancel)
qed simp

text \<open>The cells in which a structure comes back from the database.\<close>

definition holds_cells :: "platform \<Rightarrow> ssqls_class \<Rightarrow> ssqls \<Rightarrow> sql_row \<Rightarrow> bool" where
  "holds_cells pl C s row \<longleftrightarrow> row_names row = Some (sc_names C) \<and>
     list_all2 (\<lambda>m c. \<exists>a. member_adapter pl m = Inr a \<and> c = field_of a) (ss_values s) (row_data row)"

text \<open>C31: a structure without members of the library's string type, and whose dates and times fit their
  texts and whose DateTimes do not stand for the current time, is read back from a row that holds
  its values as they are written into statements under the names of its columns, which differ
  without regard to case, whatever its members were before; the table name of the instance is
  lost, and the row keeps its setting for exceptions.\<close>
theorem structure_read_back:
  assumes "holds_cells pl C s row" and "list_all storable (ss_values s)"
    and "sc_types C = map member_type (ss_values s)" and "distinct (map str_to_lwr (sc_names C))"
    and "length (sc_names C) = length (ss_values s)" and "length initial = length (ss_values s)"
  shows "ss_of_row C initial row = (Inr \<lparr>ss_values = ss_values s, ss_override = None\<rparr>, row) \<and>
    ss_set_row C row \<lparr>ss_values = initial, ss_override = table\<rparr> = (Inr (), \<lparr>ss_values = ss_values s, ss_override = None\<rparr>, row)"
proof -
  let ?ns = "sc_names C" and ?ms = "ss_values s" and ?row = "row\<lparr>row_throw := False\<rparr>"
  have names: "row_names ?row = Some ?ns" "length ?ns = length (row_data ?row)"
    using assms(1,5) by (auto simp: holds_cells_def dest: list_all2_lengthD)
  have cell: "rbind (Row_named ?row (?ns ! k)) (conv_member (sc_types C ! k)) = Inr (?ms ! k)" if k: "k < length ?ns" for k
  proof -
    have "\<forall>j < k. str_to_lwr (?ns ! j) \<noteq> str_to_lwr (?ns ! k)"
      using assms(4) that by (auto simp: distinct_conv_nth dest!: spec [of _ k])
    then have "Row_named ?row (?ns ! k) = Inr (row_data row ! k)"
      using row_lookup [OF names, of "?ns ! k"] that by auto
    moreover obtain a where "member_adapter pl (?ms ! k) = Inr a" "row_data row ! k = field_of a"
      using assms(1,5) k unfolding holds_cells_def list_all2_conv_all_nth by metis
    moreover have "storable (?ms ! k)" using assms(2,5) k by (simp add: list_all_length)
    ultimately have "conv_member (member_type (?ms ! k)) (row_data row ! k) = Inr (?ms ! k)"
      using member_read_back by metis
    then show ?thesis using \<open>Row_named ?row (?ns ! k) = Inr (row_data row ! k)\<close> assms(3,5) k by simp
  qed
  have "length (sc_types C) = length ?ns" "length ?ms = length ?ns" "0 + length ?ns \<le> length initial"
    using assms(3,5,6) by simp_all
  then have "populate_from ?ns (sc_types C) 0 ?row initial = (Inr (), take 0 initial @ ?ms @ drop (0 + length ?ns) initial)"
    by (rule populate_from_ok) (rule cell)
  moreover have "drop (0 + length ?ns) initial = []" using assms(5,6) by simp
  ultimately have "populate_from ?ns (sc_types C) 0 ?row initial = (Inr (), ?ms)" by (simp only: take_0 append_Nil append_Nil2)
  then show ?thesis
    by (simp add: ss_of_row_def ss_set_row_def populate_def NoExceptions_begin_def NoExceptions_end_def)
qed

text \<open>A structure is filled member by member: a field that cannot be converted throws, although
  exceptions are switched off for the row, with the members before it replaced and the others as they
  were, and the row has its setting for exceptions back.\<close>
theorem failing_field_stops:
  assumes "length (sc_types C) = length (sc_names C)" and "k < length (sc_names C)" and "length (sc_names C) \<le> length vs"
    and "\<And>j. j < k \<Longrightarrow> rbind (Row_named (row\<lparr>row_throw := False\<rparr>) (sc_names C ! j)) (conv_member (sc_types C ! j)) = Inr (ms ! j)"
    and "rbind (Row_named (row\<lparr>row_throw := False\<rparr>) (sc_names C ! k)) (conv_member (sc_types C ! k)) = Inl (Throw e)"
    and "length ms = k"
  shows "populate C row vs = (Inl (Throw e), ms @ drop k vs, row)"
proof -
  have "populate_from ns ts i row vs = (Inl (Throw e), take i vs @ ms @ drop (i + k) vs)"
    if "length ts = length ns" "length ms = k" "k < length ns" "i + length ns \<le> length vs"
      "\<forall>j < k. rbind (Row_named row (ns ! j)) (conv_member (ts ! j)) = Inr (ms ! j)"
      "rbind (Row_named row (ns ! k)) (conv_member (ts ! k)) = Inl (Throw e)" for ns ts i row vs ms k
    using that
  proof (induction ns arbitrary: ts ms i vs k)
    case (Cons n ns)
    obtain t ts' where ts: "ts = t # ts'" using Cons.prems(1) by (cases ts) auto
    show ?case
    proof (cases k)
      case 0
      then show ?thesis using Cons.prems ts by simp
    next
      case (Suc l)
      obtain m ms' where ms: "ms = m # ms'" using Cons.prems(2) Suc by (cases ms) auto
      have "i < length vs" using Cons.prems(4) by simp
      then have "take (Suc i) (vs[i := m]) = take i vs @ [m]" by (simp add: take_Suc_conv_app_nth)
      moreover have "\<forall>j < l. rbind (Row_named row (ns ! j)) (conv_member (ts' ! j)) = Inr (ms' ! j)"
        using Cons.prems(5) Suc ts ms by auto
      ultimately show ?thesis
        using Cons.IH [of ts' ms' l "Suc i" "vs[i := m]"] Cons.prems Suc ts ms by (auto simp: drop_update_cancel)
    qed
  qed simp
  from this [of "sc_types C" "sc_names C" ms k 0 vs "row\<lparr>row_throw := False\<rparr>"] show ?thesis
    using assms by (simp add: populate_def NoExceptions_begin_def NoExceptions_end_def)
qed

text \<open>A column that the row does not have is read as zero, and not as null, even into a member that can be
  null.\<close>
theorem missing_column_is_zero:
  assumes "row_names row = Some ns" and "length ns = length (row_data row)" and "str_to_lwr n \<notin> str_to_lwr ` set ns"
  shows "populate \<lparr>sc_table = t, sc_names = [n], sc_types = [Nullable T_int], sc_compare = 1\<rparr> row [v] =
    (Inr (), [Or_Null T_int (Some (V_int 0))], row)"
  using row_lookup [of "row\<lparr>row_throw := False\<rparr>" ns n] assms
  by (simp add: populate_def NoExceptions_begin_def NoExceptions_end_def conv_nullable_def String_is_null_def
      String_default_def conv_int_def do_conv_def)

section \<open>An example\<close>

definition example_class :: ssqls_class where
  "example_class = \<lparr>sc_table = ''stock'', sc_names = [''num'', ''Item'', ''sold''],
     sc_types = [Plain T_int, Nullable T_string, Plain T_Date], sc_compare = 1\<rparr>"

definition example_structure :: ssqls where
  "example_structure = \<lparr>ss_values = [Of (V_int (- 12)), Or_Null T_string (Some (V_string ''nails'')), Of (V_Date (Date 2014 7 3))],
     ss_override = Some ''old''\<rparr>"

definition example_initial :: "member list" where
  "example_initial = [Of (V_int 5), Or_Null T_string None, Of (V_Date (Date 0 0 0))]"

definition cell_of :: "platform \<Rightarrow> member \<Rightarrow> mstring" where
  "cell_of pl m = (case member_adapter pl m of Inl e \<Rightarrow> None | Inr a \<Rightarrow> field_of a)"

definition example_row :: sql_row where
  "example_row = \<lparr>row_data = map (cell_of (e_platform example_env)) (ss_values example_structure),
     row_names = Some [''num'', ''Item'', ''sold''], row_init = True, row_throw = True\<rparr>"

lemma example_adapters: "adapters_exist (e_platform example_env) example_structure"
  by (simp add: adapters_exist_iff example_structure_def numbered_def)

lemma example_cells: "holds_cells (e_platform example_env) example_class example_structure example_row"
proof -
  have "\<exists>a. member_adapter (e_platform example_env) m = Inr a \<and> cell_of (e_platform example_env) m = field_of a"
    if "m \<in> set (ss_values example_structure)" for m
    using example_adapters that by (auto simp: adapters_exist_def list_all_iff cell_of_def)
  then show ?thesis
    by (simp add: holds_cells_def example_row_def example_class_def list.rel_map list.rel_refl_strong)
qed

theorem structure_read_back_witness:
  "ss_of_row example_class example_initial example_row =
    (Inr \<lparr>ss_values = ss_values example_structure, ss_override = None\<rparr>, example_row)"
proof -
  have "list_all storable (ss_values example_structure)" by code_simp
  moreover have "sc_types example_class = map member_type (ss_values example_structure)"
    "distinct (map str_to_lwr (sc_names example_class))"
    "length (sc_names example_class) = length (ss_values example_structure)"
    "length example_initial = length (ss_values example_structure)"
    by code_simp+
  ultimately show ?thesis
    using structure_read_back [OF example_cells] by blast
qed

theorem lists_are_row_texts_witness:
  "value_list_default example_manip None example_class example_structure example_stream =
    Inr (put_text (r_values (row_of (e_platform example_env) example_class example_structure) documented_escape) example_stream)"
proof -
  have "statement_stream example_manip example_stream"
    using example_stream_facts by (simp add: statement_stream_def)
  then show ?thesis
    using lists_are_row_texts [of example_manip example_stream example_structure _ example_class documented_escape, OF _ _ refl]
      example_adapters example_stream_facts(3) by (simp add: example_manip_def)
qed

theorem enumerators_choose_witness:
  "inclusion example_class (By_enums [2, 0, 3, 1]) = Inr [True, False, True]"
proof -
  have "inclusion example_class (By_enums [2, 0, 3, 1]) =
      Inr (map (\<lambda>j. j \<in> set (takeWhile (\<lambda>i. i \<noteq> 3) [2, 0, 3, 1 :: nat])) [0..<3])"
    using enumerators_choose [of example_class 3 "[2, 0, 3, 1]"] by (simp add: example_class_def)
  then show ?thesis by (simp add: upt_rec)
qed

end
