(* ===== verification/Ssqls_Order.thy ===== *)
theory Ssqls_Order
  imports Ssqls
begin

text \<open>
  The order of specialised SQL structures: the overloads of \<open>sql_cmp\<close>, and so the comparison of
  structures, against the order of keys, and the overloads that give no order.
\<close>

section \<open>Order\<close>

text \<open>
  Keys in which values of one type are ordered, for dates and times without the current time. The
  operators of every type but \<open>String\<close> agree with the keys; of the overloads of \<open>sql_cmp\<close>, those do that do
  not subtract wide numbers.
\<close>

fun value_key :: "scalar \<Rightarrow> int list" where
  "value_key (V_tiny a) = [sint a]"
| "value_key (V_utiny a) = [uint a]"
| "value_key (V_short a) = [sint a]"
| "value_key (V_ushort a) = [uint a]"
| "value_key (V_int a) = [sint a]"
| "value_key (V_uint a) = [uint a]"
| "value_key (V_long a) = [sint a]"
| "value_key (V_ulong a) = [uint a]"
| "value_key (V_longlong a) = [sint a]"
| "value_key (V_ulonglong a) = [uint a]"
| "value_key (V_string s) = map int (char_codes s)"
| "value_key (V_String s) = []"
| "value_key (V_Date d) = [uint (d_year d), uint (d_month d), uint (d_day d)]"
| "value_key (V_Time t) = [uint (t_hour t), uint (t_minute t), uint (t_second t)]"
| "value_key (V_DateTime dt) = [uint (dt_year dt), uint (dt_month dt), uint (dt_day dt), uint (dt_hour dt),
     uint (dt_minute dt), uint (dt_second dt)]"

fun ordered_value :: "scalar \<Rightarrow> bool" where
  "ordered_value (V_String s) \<longleftrightarrow> False"
| "ordered_value (V_DateTime dt) \<longleftrightarrow> \<not> dt_now dt"
| "ordered_value v \<longleftrightarrow> True"

definition compared :: "cxx_type \<Rightarrow> bool" where
  "compared ty \<longleftrightarrow> ty \<in> {T_short, T_ushort, T_longlong, T_ulonglong, T_string, T_Date, T_Time, T_DateTime}"

lemma three_way_signs: "three_way a b < 0 \<longleftrightarrow> a < b" "three_way a b = 0 \<longleftrightarrow> a = b"
  by (auto simp: three_way_def)

lemma int_keys: "map int xs < map int ys \<longleftrightarrow> xs < ys" "map int xs = map int ys \<longleftrightarrow> xs = ys"
proof -
  show "map int xs < map int ys \<longleftrightarrow> xs < ys"
    by (induction xs arbitrary: ys) (case_tac ys; simp)+
qed (simp add: inj_map_eq_map)

lemma date_keys:
  "Date_compare d e < 0 \<longleftrightarrow> value_key (V_Date d) < value_key (V_Date e)"
  "Date_compare d e = 0 \<longleftrightarrow> value_key (V_Date d) = value_key (V_Date e)"
  "Time_compare t u < 0 \<longleftrightarrow> value_key (V_Time t) < value_key (V_Time u)"
  "Time_compare t u = 0 \<longleftrightarrow> value_key (V_Time t) = value_key (V_Time u)"
  by (auto simp: Date_compare_def Time_compare_def word_uint_eq_iff)

lemma datetime_keys:
  assumes "\<not> dt_now dt" "\<not> dt_now other"
  shows "DateTime_compare dt other < 0 \<longleftrightarrow> value_key (V_DateTime dt) < value_key (V_DateTime other)"
    and "DateTime_compare dt other = 0 \<longleftrightarrow> value_key (V_DateTime dt) = value_key (V_DateTime other)"
  using assms
  by (auto simp: DateTime_compare_def Let_def Date_of_datetime_def Time_of_datetime_def Date_compare_def Time_compare_def
      word_uint_eq_iff)

lemma sql_cmp_keys:
  assumes "value_type a = value_type b" and "compared (value_type a)" and "ordered_value a" and "ordered_value b"
  shows "\<exists>c. sql_cmp a b = Inr c \<and> (c < 0 \<longleftrightarrow> value_key a < value_key b) \<and> (c = 0 \<longleftrightarrow> value_key a = value_key b)"
  using assms
  by (cases a; cases b)
    (simp_all add: compared_def three_way_signs int_keys date_keys datetime_keys word_uint_eq_iff word_less_def
      del: value_key.simps(13-15))

lemma word_keys:
  "uint a = uint b \<longleftrightarrow> a = b" "sint a = sint b \<longleftrightarrow> a = b" "uint a < uint b \<longleftrightarrow> a < b" "sint a < sint b \<longleftrightarrow> a <s b"
  for a b :: "'a::len word"
  by (simp_all only: word_eq_iff_signed [symmetric] word_uint_eq_iff [symmetric] word_less_def word_sless_alt)

lemma operator_words:
  "ti_eq a b \<longleftrightarrow> a = b" "ti_less True a b \<longleftrightarrow> a <s b" "ti_less False a b \<longleftrightarrow> a < b" "char_codes s = char_codes t \<longleftrightarrow> s = t"
  using inj_map_eq_map [OF injI [of "of_char :: char \<Rightarrow> nat"], of s t]
  by (simp_all add: ti_eq_def ti_less_def ti_int_def word_keys char_codes_def)

lemma same_type_cases:
  assumes "value_type a = value_type b"
  obtains (tiny) x y where "a = V_tiny x" "b = V_tiny y" | (utiny) x y where "a = V_utiny x" "b = V_utiny y"
  | (short) x y where "a = V_short x" "b = V_short y" | (ushort) x y where "a = V_ushort x" "b = V_ushort y"
  | (int) x y where "a = V_int x" "b = V_int y" | (uint) x y where "a = V_uint x" "b = V_uint y"
  | (long) x y where "a = V_long x" "b = V_long y" | (ulong) x y where "a = V_ulong x" "b = V_ulong y"
  | (longlong) x y where "a = V_longlong x" "b = V_longlong y"
  | (ulonglong) x y where "a = V_ulonglong x" "b = V_ulonglong y"
  | (string) x y where "a = V_string x" "b = V_string y" | (mstring) x y where "a = V_String x" "b = V_String y"
  | (date) x y where "a = V_Date x" "b = V_Date y" | (time) x y where "a = V_Time x" "b = V_Time y"
  | (datetime) x y where "a = V_DateTime x" "b = V_DateTime y"
  using assms by (cases a; cases b) simp_all

lemma value_operators:
  assumes "value_type a = value_type b" and "ordered_value a" and "ordered_value b"
  shows "value_eq a b \<longleftrightarrow> value_key a = value_key b" and "value_less a b \<longleftrightarrow> value_key a < value_key b"
  using assms(2,3) unfolding atomize_conj
  by (cases rule: same_type_cases [OF assms(1)])
    (simp_all add: operator_words cmp_eq_def cmp_less_def date_keys datetime_keys word_keys int_keys
      del: value_key.simps(13-15))

section \<open>Structures are ordered lexicographically\<close>

fun member_key :: "member \<Rightarrow> int list option" where
  "member_key (Of v) = Some (value_key v)"
| "member_key (Or_Null ty v) = map_option value_key v"

fun ordered_member :: "member \<Rightarrow> bool" where
  "ordered_member (Of v) \<longleftrightarrow> compared (value_type v) \<and> ordered_value v"
| "ordered_member (Or_Null ty None) \<longleftrightarrow> True"
| "ordered_member (Or_Null ty (Some v)) \<longleftrightarrow> value_type v = ty \<and> ordered_value v"

lemma sql_cmp_null_keys:
  assumes "ordered_member (Or_Null ty a)" and "ordered_member (Or_Null ty b)"
  shows "sql_cmp_null a b < 0 \<longleftrightarrow> map_option value_key a < map_option value_key b"
    and "sql_cmp_null a b = 0 \<longleftrightarrow> map_option value_key a = map_option value_key b"
  using assms value_operators
  by (cases a; cases b; simp add: sql_cmp_null_def Null_cmp_def Null_eq_def Null_less_def as_nullable_def)+

lemma member_cmp_keys:
  assumes "member_type x = member_type y" and "ordered_member x" and "ordered_member y"
  shows "\<exists>c. member_cmp x y = Inr c \<and> (c < 0 \<longleftrightarrow> member_key x < member_key y) \<and> (c = 0 \<longleftrightarrow> member_key x = member_key y)"
proof (cases x)
  case (Of a)
  then obtain b where "y = Of b" "value_type a = value_type b" using assms(1) by (cases y) auto
  then show ?thesis using sql_cmp_keys assms Of by auto
next
  case (Or_Null ty a)
  then obtain b where "y = Or_Null ty b" using assms(1) by (cases y) auto
  then show ?thesis using sql_cmp_null_keys assms Or_Null by auto
qed

lemma compare_members_keys:
  assumes "map member_type xs = map member_type ys" and "list_all ordered_member xs" and "list_all ordered_member ys"
  shows "\<exists>c. compare_members xs ys = Inr c \<and> (c < 0 \<longleftrightarrow> map member_key xs < map member_key ys) \<and>
    (c = 0 \<longleftrightarrow> map member_key xs = map member_key ys)"
  using assms
proof (induction xs arbitrary: ys)
  case (Cons x xs)
  obtain y ys' where ys: "ys = y # ys'" using Cons.prems(1) by (cases ys) auto
  obtain c where c: "member_cmp x y = Inr c" "c < 0 \<longleftrightarrow> member_key x < member_key y" "c = 0 \<longleftrightarrow> member_key x = member_key y"
    using member_cmp_keys [of x y] Cons.prems ys by auto
  have "xs = [] \<longleftrightarrow> ys' = []" using Cons.prems(1) ys by auto
  then show ?case using Cons.IH [of ys'] Cons.prems ys c by auto
qed simp

text \<open>C26: structures are compared by the members that the class compares, in their order, nulls first: the
  operators are those of the lexicographic order of the keys, and never fail, when each compared
  member has the same type in both and is either one that can be null or of one of the types short,
  unsigned short, long long, unsigned long long, string, Date, Time and DateTime, and none holds a
  string of the library or the DateTime that stands for the current time. The other types are
  compared by a subtraction, whose sign is not always the order.\<close>
theorem compare_lexicographic:
  assumes "xs = take (sc_compare C) (ss_values x)" and "ys = take (sc_compare C) (ss_values y)"
    and "map member_type xs = map member_type ys" and "list_all ordered_member xs" and "list_all ordered_member ys"
    and "kx = map member_key xs" and "ky = map member_key ys"
  shows "(\<exists>c. ss_compare C x y = Inr c \<and> (c < 0 \<longleftrightarrow> kx < ky) \<and> (c = 0 \<longleftrightarrow> kx = ky)) \<and>
    ss_operator (\<lambda>c. c = 0) C x y = Inr (kx = ky) \<and> ss_operator (\<lambda>c. c \<noteq> 0) C x y = Inr (kx \<noteq> ky) \<and>
    ss_operator (\<lambda>c. c < 0) C x y = Inr (kx < ky) \<and> ss_operator (\<lambda>c. c \<le> 0) C x y = Inr (kx \<le> ky) \<and>
    ss_operator (\<lambda>c. c > 0) C x y = Inr (ky < kx) \<and> ss_operator (\<lambda>c. c \<ge> 0) C x y = Inr (ky \<le> kx)"
proof -
  obtain c where c: "ss_compare C x y = Inr c" "c < 0 \<longleftrightarrow> kx < ky" "c = 0 \<longleftrightarrow> kx = ky"
    using compare_members_keys [OF assms(3-5)] by (auto simp: ss_compare_def assms(1,2,6,7))
  then have "c \<le> 0 \<longleftrightarrow> kx \<le> ky" "c > 0 \<longleftrightarrow> ky < kx" "c \<ge> 0 \<longleftrightarrow> ky \<le> kx" by (auto simp: le_less not_less)
  with c show ?thesis by (auto simp: ss_operator_def)
qed

lemma tiny_cmp: "sql_cmp (V_tiny a) (V_tiny b) = Inr (sint (a - b))" "sql_cmp (V_utiny a) (V_utiny b) = Inr (uint (a - b))"
  by (simp_all add: ti_binary_def ti_int_def)

text \<open>C35: where a comparison subtracts, its sign is the order only as far as the difference fits: of
  unsigned tiny integers it is never negative; of tiny integers it is right iff the difference is that
  of one byte; of \<open>int\<close> it is undefined when the difference overflows; of \<open>unsigned long\<close>, values that
  differ by a multiple of \<open>2 ^ 32\<close> compare as equal.\<close>
theorem subtraction_breaks_order:
  "(\<exists>c. sql_cmp (V_utiny a) (V_utiny b) = Inr c \<and> 0 \<le> c) \<and>
   (sql_cmp (V_tiny ta) (V_tiny tb) = Inr (sint ta - sint tb) \<longleftrightarrow> sint ta - sint tb \<in> {- 128..127}) \<and>
   (sql_cmp (V_int i) (V_int j) = Inr (sint i - sint j) \<longleftrightarrow> sint i - sint j \<in> {- (2 ^ 31)..< 2 ^ 31}) \<and>
   (sint i - sint j \<notin> {- (2 ^ 31)..< 2 ^ 31} \<longleftrightarrow> sql_cmp (V_int i) (V_int j) = Inl (UB NotRepresentable)) \<and>
   sql_cmp (V_ulong (push_bit 32 m + l)) (V_ulong l) = Inr 0"
proof -
  have "ucast (push_bit 32 m :: 64 word) = (0 :: 32 word)"
    by (rule bit_word_eqI) (simp add: bit_simps)
  then show ?thesis
    unfolding tiny_cmp using ti_difference(1) [of ta tb] by (auto simp: int_of_long_def Let_def)
qed

theorem compare_lexicographic_witness:
  "ss_operator (\<lambda>c. c < 0) \<lparr>sc_table = [], sc_names = [''a'', ''b''], sc_types = [Nullable T_int, Plain T_string], sc_compare = 2\<rparr>
      \<lparr>ss_values = [Or_Null T_int None, Of (V_string ''b'')], ss_override = None\<rparr>
      \<lparr>ss_values = [Or_Null T_int None, Of (V_string ''ba'')], ss_override = None\<rparr> = Inr True"
proof -
  have "map member_key [Or_Null T_int None, Of (V_string ''b'')] < map member_key [Or_Null T_int None, Of (V_string ''ba'')]"
    by (simp add: char_codes_def)
  moreover have "list_all ordered_member [Or_Null T_int None, Of (V_string ''b'')]"
    "list_all ordered_member [Or_Null T_int None, Of (V_string ''ba'')]"
    by (simp_all add: compared_def)
  ultimately show ?thesis
    using compare_lexicographic [of _ "\<lparr>sc_table = [], sc_names = [''a'', ''b''], sc_types = [Nullable T_int, Plain T_string], sc_compare = 2\<rparr>"
        "\<lparr>ss_values = [Or_Null T_int None, Of (V_string ''b'')], ss_override = None\<rparr>" _
        "\<lparr>ss_values = [Or_Null T_int None, Of (V_string ''ba'')], ss_override = None\<rparr>", OF refl refl _ _ _ refl refl]
    by simp
qed

end
