(* ===== verification/Ssx_Main.thy ===== *)
theory Ssx_Main
  imports Ssx_Parser
begin

text \<open>
  Command lines (\<open>mysqlpp/lib/cmdline.cpp\<close>, \<open>cmdline.h\<close>) and the program around the translator
  (\<open>mysqlpp/ssx/main.cpp\<close>). The library brings a \<open>getopt\<close> of its own for systems without one; it is
  the one modelled. Messages to the user are left out.
\<close>

section \<open>getopt\<close>

text \<open>
  The static variables of \<open>getopt\<close>: the index of the next argument, the position in it, and the
  argument of the last option. Arguments are texts that end at their zero character.
\<close>

record getopt_state =
  go_optind :: nat
  go_sp :: nat
  go_optarg :: "string option"

definition getopt_start :: getopt_state where
  "getopt_start = \<lparr>go_optind = 1, go_sp = 1, go_optarg = None\<rparr>"

definition char_at :: "string \<Rightarrow> nat \<Rightarrow> char" where
  "char_at s i = (if i < length s then s ! i else CHR 0x00)"

definition needs_argument :: "string \<Rightarrow> char \<Rightarrow> bool" where
  "needs_argument opts c \<longleftrightarrow> char_at (dropWhile (\<lambda>d. d \<noteq> c) opts) 1 = CHR '':''"

text \<open>\<open>None\<close> is the end of the options; an error is the option \<open>?\<close>.\<close>

definition getopt :: "string list \<Rightarrow> string \<Rightarrow> getopt_state \<Rightarrow> (char option \<times> getopt_state) res" where
  "getopt argv opts st = (let optind = go_optind st; sp = go_sp st; arg = argv ! optind; c = char_at arg sp in
     if sp = 1 \<and> (length argv \<le> optind \<or> char_at arg 0 \<noteq> CHR ''-'' \<or> char_at arg 1 = CHR 0x00) then Inr (None, st)
     else if length argv \<le> optind \<or> length arg < sp then Inl (UB OutOfBounds)
     else if sp \<noteq> 1 \<and> arg = ''--'' then Inr (None, st\<lparr>go_optind := Suc optind\<rparr>)
     else if c = CHR '':'' \<or> c \<notin> set opts then
       (if c = CHR 0x00 then Inl (UB OutOfBounds)
        else if char_at arg (Suc sp) = CHR 0x00 then Inr (Some (CHR ''?''), st\<lparr>go_optind := Suc optind, go_sp := 1\<rparr>)
        else Inr (Some (CHR ''?''), st\<lparr>go_sp := Suc sp\<rparr>))
     else if needs_argument opts c then
       (if char_at arg (Suc sp) \<noteq> CHR 0x00 then
          Inr (Some c, \<lparr>go_optind = Suc optind, go_sp = 1, go_optarg = Some (drop (Suc sp) arg)\<rparr>)
        else if length argv \<le> Suc optind then Inr (Some (CHR ''?''), st\<lparr>go_optind := Suc optind, go_sp := 1\<rparr>)
        else Inr (Some c, \<lparr>go_optind = Suc (Suc optind), go_sp = 1, go_optarg = Some (argv ! Suc optind)\<rparr>))
     else if char_at arg (Suc sp) = CHR 0x00 then Inr (Some c, \<lparr>go_optind = Suc optind, go_sp = 1, go_optarg = None\<rparr>)
     else Inr (Some c, \<lparr>go_optind = optind, go_sp = Suc sp, go_optarg = None\<rparr>))"

text \<open>Every option uses up characters of the arguments.\<close>

definition unread :: "string list \<Rightarrow> getopt_state \<Rightarrow> nat" where
  "unread argv st = sum_list (map (\<lambda>a. Suc (length a)) (drop (go_optind st) argv)) - go_sp st"

lemma unread_arg:
  "i < length argv \<Longrightarrow> sum_list (map (\<lambda>a. Suc (length a)) (drop i argv)) =
    Suc (length (argv ! i)) + sum_list (map (\<lambda>a. Suc (length a)) (drop (Suc i) argv))"
  by (simp flip: Cons_nth_drop_Suc)

lemma getopt_unread: "getopt argv opts st = Inr (Some c, st') \<Longrightarrow> unread argv st' < unread argv st"
  using unread_arg [of "go_optind st" argv] unread_arg [of "Suc (go_optind st)" argv]
  by (auto simp: getopt_def Let_def unread_def char_at_def split: if_splits)

section \<open>The base class\<close>

text \<open>
  The loop of the constructors: as long as the object is in order, the next option is handled. The
  arguments behind the options are kept when it still is in order at the end.
\<close>

function option_loop ::
  "string list \<Rightarrow> string \<Rightarrow> ('a \<Rightarrow> bool) \<Rightarrow> (char \<Rightarrow> string option \<Rightarrow> 'a \<Rightarrow> 'a res) \<Rightarrow> getopt_state \<Rightarrow> 'a \<Rightarrow> ('a \<times> getopt_state) res" where
  "option_loop argv opts successful handle st x = (if \<not> successful x then Inr (x, st) else
     case getopt argv opts st of
       Inl e \<Rightarrow> Inl e
     | Inr (None, st') \<Rightarrow> Inr (x, st')
     | Inr (Some c, st') \<Rightarrow> (case handle c (go_optarg st') x of
         Inl e \<Rightarrow> Inl e
       | Inr x' \<Rightarrow> option_loop argv opts successful handle st' x'))"
  by pat_completeness auto
termination
  by (relation "measure (\<lambda>(argv, opts, successful, handle, st, x). unread argv st)") (auto dest: getopt_unread)

declare option_loop.simps [simp del]

definition finish_parse :: "bool \<Rightarrow> string list \<Rightarrow> getopt_state \<Rightarrow> string list" where
  "finish_parse successful argv st = (if successful then drop (go_optind st) argv else [])"

section \<open>The examples\<close>

record example_line =
  xl_successful :: bool
  xl_dtest_mode :: bool
  xl_run_mode :: int
  xl_server :: "string option"
  xl_user :: "string option"
  xl_pass :: "string option"
  xl_extra :: "string list"

text \<open>\<open>atoi\<close>, undefined when the number does not fit.\<close>

definition atoi :: "string \<Rightarrow> int res" where
  "atoi s = (let t = dropWhile is_space s; neg = (t \<noteq> [] \<and> hd t = CHR ''-'');
       digits = takeWhile is_digit (if t \<noteq> [] \<and> hd t \<in> {CHR ''-'', CHR ''+''} then tl t else t);
       n = (if neg then - int (decimal digits) else int (decimal digits)) in
     if n < - (2 ^ 31) \<or> 2 ^ 31 \<le> n then Inl (UB NotRepresentable) else Inr n)"

definition example_option :: "char \<Rightarrow> string option \<Rightarrow> example_line \<Rightarrow> example_line res" where
  "example_option c arg x =
     (if c = CHR ''m'' then rbind (atoi (the arg)) (\<lambda>n. Inr (x\<lparr>xl_run_mode := n\<rparr>))
      else if c = CHR ''p'' then Inr (x\<lparr>xl_pass := arg\<rparr>)
      else if c = CHR ''s'' then Inr (x\<lparr>xl_server := arg\<rparr>)
      else if c = CHR ''u'' then Inr (x\<lparr>xl_user := arg\<rparr>)
      else if c = CHR ''D'' then Inr (x\<lparr>xl_dtest_mode := True\<rparr>)
      else Inr (x\<lparr>xl_successful := False\<rparr>))"

definition example_CommandLine ::
  "string list \<Rightarrow> string option \<Rightarrow> string option \<Rightarrow> getopt_state \<Rightarrow> (example_line \<times> getopt_state) res" where
  "example_CommandLine argv user pass st = rbind (option_loop argv ''hm:p:s:u:D?'' xl_successful example_option st
       \<lparr>xl_successful = True, xl_dtest_mode = False, xl_run_mode = 0, xl_server = None,
        xl_user = (if user = Some [] then None else user),
        xl_pass = (case pass of None \<Rightarrow> Some [] | Some p \<Rightarrow> Some p), xl_extra = []\<rparr>)
     (\<lambda>(x, st'). Inr (x\<lparr>xl_extra := finish_parse (xl_successful x) argv st'\<rparr>, st'))"

section \<open>The translator\<close>

datatype source_sink = ss_unknown | ss_ssqls1 | ss_ssqls2 | ss_table

record command_line =
  cl_successful :: bool
  cl_input :: "string option"
  cl_output :: "string option"
  cl_pass :: "string option"
  cl_server :: "string option"
  cl_user :: "string option"
  cl_source :: source_sink
  cl_sink :: source_sink
  cl_extra :: "string list"

definition cl_start :: command_line where
  "cl_start = \<lparr>cl_successful = True, cl_input = None, cl_output = None, cl_pass = Some [], cl_server = None,
     cl_user = None, cl_source = ss_unknown, cl_sink = ss_unknown, cl_extra = []\<rparr>"

definition cl_option :: "char \<Rightarrow> string option \<Rightarrow> command_line \<Rightarrow> command_line res" where
  "cl_option c arg x =
     (if c \<in> {CHR ''i'', CHR ''t'', CHR ''1''} then
        Inr (x\<lparr>cl_input := arg, cl_source := (if c = CHR ''1'' then ss_ssqls1 else if c = CHR ''i'' then ss_ssqls2 else ss_table)\<rparr>)
      else if c = CHR ''o'' then Inr (x\<lparr>cl_output := arg, cl_sink := ss_ssqls2\<rparr>)
      else if c = CHR ''p'' then Inr (x\<lparr>cl_pass := arg\<rparr>)
      else if c = CHR ''s'' then Inr (x\<lparr>cl_server := arg\<rparr>)
      else if c = CHR ''u'' then Inr (x\<lparr>cl_user := arg\<rparr>)
      else Inr (x\<lparr>cl_successful := False\<rparr>))"

definition cl_opts :: string where "cl_opts = ''hi:o:p:s:t:u:1:?''"

text \<open>Whether the options make sense together.\<close>

definition cl_sensible :: "command_line \<Rightarrow> bool" where
  "cl_sensible x \<longleftrightarrow> cl_source x \<noteq> ss_unknown \<and> (cl_source x = ss_ssqls2 \<or> cl_output x \<noteq> None)"

definition CommandLine_new :: "string list \<Rightarrow> getopt_state \<Rightarrow> (command_line \<times> getopt_state) res" where
  "CommandLine_new argv st = rbind (option_loop argv cl_opts cl_successful cl_option st cl_start) (\<lambda>(x, st').
     Inr (x\<lparr>cl_extra := finish_parse (cl_successful x) argv st', cl_successful := cl_successful x \<and> cl_sensible x\<rparr>, st'))"

section \<open>The program\<close>

text \<open>
  The file system: what can be read, and which files can be opened for writing. The program returns a
  number and what it has written: to a file, or to the standard output for the name \<open>-\<close>.
\<close>

datatype ssx_output = Nothing_Written | Standard_Output string | File_Written string string

definition generate_ssqls2_file :: "(string \<Rightarrow> bool) \<Rightarrow> string \<Rightarrow> ssx_line list option \<Rightarrow> bool \<times> ssx_output" where
  "generate_ssqls2_file writable file_name pparse = (case pparse of
       None \<Rightarrow> (False, Nothing_Written)
     | Some ls \<Rightarrow>
         if file_name = ''-'' then (True, Standard_Output (generate_ssqls2 ls))
         else if writable file_name then (True, File_Written file_name (generate_ssqls2 ls))
         else (False, Nothing_Written))"

definition parse_ssqls2 :: "(string \<rightharpoonup> string) \<Rightarrow> nat \<Rightarrow> string \<Rightarrow> ssx_line list option res" where
  "parse_ssqls2 FS depth file_name = (case ParseV2_new FS depth file_name ssx_start of
       Inr (ls, st) \<Rightarrow> Inr (Some ls)
     | Inl (Throw e) \<Rightarrow> Inr None
     | Inl e \<Rightarrow> Inl e)"

definition ssx_main :: "(string \<rightharpoonup> string) \<Rightarrow> (string \<Rightarrow> bool) \<Rightarrow> nat \<Rightarrow> string list \<Rightarrow> (nat \<times> ssx_output) res" where
  "ssx_main FS writable depth argv = rbind (CommandLine_new argv getopt_start) (\<lambda>(x, st).
     if cl_successful x then
       (if cl_source x = ss_ssqls2 then rbind (parse_ssqls2 FS depth (the (cl_input x))) (\<lambda>ptree.
          if cl_sink x \<noteq> ss_unknown then
            (case ptree of
               None \<Rightarrow> Inr (2, Nothing_Written)
             | Some ls \<Rightarrow> (if cl_sink x = ss_ssqls2 then
                  (case generate_ssqls2_file writable (the (cl_output x)) ptree of (ok, out) \<Rightarrow>
                     Inr (if ok then 0 else 2, out))
                else Inr (2, Nothing_Written)))
          else Inr (2, Nothing_Written))
        else Inr (2, Nothing_Written))
     else Inr (1, Nothing_Written))"

section \<open>No argument is read outside its bounds\<close>

definition getopt_ok :: "string list \<Rightarrow> getopt_state \<Rightarrow> bool" where
  "getopt_ok argv st \<longleftrightarrow> (\<forall>a \<in> set argv. CHR 0x00 \<notin> set a) \<and>
     (go_sp st = 1 \<or> go_optind st < length argv \<and> 1 < go_sp st \<and> go_sp st < length (argv ! go_optind st))"

lemma char_at_end: "CHR 0x00 \<notin> set a \<Longrightarrow> char_at a i = CHR 0x00 \<longleftrightarrow> length a \<le> i"
  by (metis char_at_def linorder_not_le nth_mem)

lemma getopt_total:
  assumes "getopt_ok argv st"
  shows "\<exists>c st'. getopt argv opts st = Inr (c, st') \<and> getopt_ok argv st'"
proof (cases "go_optind st < length argv")
  case True
  then have "argv ! go_optind st \<in> set argv" by simp
  then have "\<And>i. char_at (argv ! go_optind st) i = CHR 0x00 \<longleftrightarrow> length (argv ! go_optind st) \<le> i"
    using assms char_at_end by (auto simp: getopt_ok_def)
  then show ?thesis using assms True by (auto simp: getopt_def Let_def getopt_ok_def)
qed (use assms in \<open>auto simp: getopt_def Let_def getopt_ok_def\<close>)

lemma option_loop_total:
  assumes "getopt_ok argv st" and "\<And>c a x. \<exists>x'. handle c a x = Inr x'"
  shows "\<exists>x' st'. option_loop argv opts successful handle st x = Inr (x', st')"
  using assms
proof (induction argv opts successful handle st x rule: option_loop.induct)
  case (1 argv opts successful handle st x)
  show ?case
  proof (cases "successful x")
    case True
    obtain c st' where g: "getopt argv opts st = Inr (c, st')" "getopt_ok argv st'" using getopt_total "1.prems"(1) by blast
    show ?thesis
    proof (cases c)
      case (Some o')
      obtain x' where "handle o' (go_optarg st') x = Inr x'" using "1.prems"(2) by blast
      then show ?thesis using "1.IH" True g Some "1.prems"(2) by (subst option_loop.simps) simp
    qed (use g True in \<open>simp add: option_loop.simps\<close>)
  qed (simp add: option_loop.simps)
qed

lemma cl_option_total: "\<exists>x'. cl_option c arg x = Inr x'"
  by (simp add: cl_option_def)

lemma getopt_start_ok: "(\<forall>a \<in> set argv. CHR 0x00 \<notin> set a) \<Longrightarrow> getopt_ok argv getopt_start"
  by (simp add: getopt_ok_def getopt_start_def)

text \<open>For every command line the program ends with one of its three numbers, unless its file includes
  itself; it is 0 exactly when the translated document has been written.\<close>
theorem main_outcome:
  assumes "\<forall>a \<in> set argv. CHR 0x00 \<notin> set a" and "\<And>f. ParseV2_new FS depth f ssx_start \<noteq> Inl Diverge"
    and "\<And>f k. ParseV2_new FS depth f ssx_start \<noteq> Inl (UB k)"
  shows "\<exists>n out. ssx_main FS writable depth argv = Inr (n, out) \<and> n \<le> 2 \<and> (n = 0 \<longleftrightarrow> out \<noteq> Nothing_Written)"
proof -
  obtain x st where "CommandLine_new argv getopt_start = Inr (x, st)"
    using option_loop_total [OF getopt_start_ok [OF assms(1)], of cl_option cl_opts cl_successful cl_start] cl_option_total
    by (auto simp: CommandLine_new_def)
  moreover have "\<exists>t. parse_ssqls2 FS depth (the (cl_input x)) = Inr t"
    using assms(2,3) by (auto simp: parse_ssqls2_def split: sum.split fault.split)
  ultimately show ?thesis
    by (auto simp: ssx_main_def generate_ssqls2_file_def split: option.splits)
qed

section \<open>Options are read as they are written\<close>

text \<open>An option with its argument, in one argument of the program or in two.\<close>

datatype written_option = Joined char string | Separate char string

fun option_args :: "written_option \<Rightarrow> string list" where
  "option_args (Joined c a) = [CHR ''-'' # c # a]"
| "option_args (Separate c a) = [[CHR ''-'', c], a]"

fun option_given :: "written_option \<Rightarrow> char \<times> string" where
  "option_given (Joined c a) = (c, a)"
| "option_given (Separate c a) = (c, a)"

fun option_ok :: "string \<Rightarrow> written_option \<Rightarrow> bool" where
  "option_ok opts (Joined c a) \<longleftrightarrow> c \<in> set opts - {CHR '':'', CHR 0x00} \<and> needs_argument opts c \<and> a \<noteq> [] \<and> hd a \<noteq> CHR 0x00"
| "option_ok opts (Separate c a) \<longleftrightarrow> c \<in> set opts - {CHR '':'', CHR 0x00} \<and> needs_argument opts c"

definition no_option :: "string list \<Rightarrow> bool" where
  "no_option rest \<longleftrightarrow> rest = [] \<or> char_at (hd rest) 0 \<noteq> CHR ''-'' \<or> char_at (hd rest) 1 = CHR 0x00"

lemma drop_Cons_facts:
  assumes "drop i xs = y # ys"
  shows "i < length xs" and "xs ! i = y" and "drop (Suc i) xs = ys"
proof -
  show i: "i < length xs" using assms by (metis drop_eq_Nil linorder_not_le list.distinct(1))
  from Cons_nth_drop_Suc [OF this] show "xs ! i = y" "drop (Suc i) xs = ys" using assms by simp_all
qed

lemma getopt_written:
  assumes "option_ok opts w" and "drop i argv = option_args w @ rest" and "go_optind st = i" and "go_sp st = 1"
  shows "\<exists>j. getopt argv opts st = Inr (Some (fst (option_given w)), \<lparr>go_optind = j, go_sp = 1, go_optarg = Some (snd (option_given w))\<rparr>) \<and>
    drop j argv = rest"
proof (cases w)
  case (Joined c a)
  then have "drop i argv = (CHR ''-'' # c # a) # rest" using assms(2) by simp
  from drop_Cons_facts [OF this] show ?thesis
    using assms(1,3,4) Joined by (cases a) (auto simp: getopt_def Let_def char_at_def)
next
  case (Separate c a)
  then have "drop i argv = [CHR ''-'', c] # a # rest" using assms(2) by simp
  note i = drop_Cons_facts [OF this]
  show ?thesis
    using assms(1,3,4) Separate i(1,2) drop_Cons_facts [OF i(3)] by (auto simp: getopt_def Let_def char_at_def)
qed

lemma getopt_no_option:
  assumes "no_option (drop i argv)" and "go_optind st = i" and "go_sp st = 1"
  shows "getopt argv opts st = Inr (None, st)"
proof -
  have "length argv \<le> i \<or> char_at (argv ! i) 0 \<noteq> CHR ''-'' \<or> char_at (argv ! i) 1 = CHR 0x00"
    using assms(1) by (cases "i < length argv") (auto simp: no_option_def hd_drop_conv_nth)
  then show ?thesis using assms(2,3) by (simp add: getopt_def Let_def)
qed

lemma option_loop_prefix:
  assumes "list_all (option_ok opts) ws" and "drop i argv = concat (map option_args ws) @ rest"
    and "go_optind st = i" and "go_sp st = 1" and "successful x"
    and "\<And>w y. w \<in> set ws \<Longrightarrow> successful y \<Longrightarrow>
      handle (fst (option_given w)) (Some (snd (option_given w))) y = Inr (h (option_given w) y) \<and> successful (h (option_given w) y)"
  shows "\<exists>st'. option_loop argv opts successful handle st x =
      option_loop argv opts successful handle st' (fold h (map option_given ws) x) \<and>
    drop (go_optind st') argv = rest \<and> go_sp st' = 1 \<and> successful (fold h (map option_given ws) x)"
  using assms
proof (induction ws arbitrary: i st x)
  case (Cons w ws)
  obtain j where j: "getopt argv opts st = Inr (Some (fst (option_given w)), \<lparr>go_optind = j, go_sp = 1, go_optarg = Some (snd (option_given w))\<rparr>)"
    "drop j argv = concat (map option_args ws) @ rest"
    using getopt_written [of opts w i argv "concat (map option_args ws) @ rest" st] Cons.prems by auto
  show ?case
    using Cons.IH [of j "\<lparr>go_optind = j, go_sp = 1, go_optarg = Some (snd (option_given w))\<rparr>" "h (option_given w) x"] j Cons.prems
    by (subst option_loop.simps) simp
qed auto

text \<open>The last of some options.\<close>

fun last_given :: "char set \<Rightarrow> (char \<times> string) list \<Rightarrow> (char \<times> string) option" where
  "last_given cs [] = None"
| "last_given cs (g # gs) = (case last_given cs gs of Some r \<Rightarrow> Some r | None \<Rightarrow> if fst g \<in> cs then Some g else None)"

definition source_of :: "char \<Rightarrow> source_sink" where
  "source_of c = (if c = CHR ''1'' then ss_ssqls1 else if c = CHR ''i'' then ss_ssqls2 else ss_table)"

definition cl_effect :: "char \<times> string \<Rightarrow> command_line \<Rightarrow> command_line" where
  "cl_effect g x = projr (cl_option (fst g) (Some (snd g)) x)"

definition input_options :: "char set" where "input_options = {CHR ''i'', CHR ''t'', CHR ''1''}"

lemma fold_last_given:
  assumes "\<And>g x. f (cl_effect g x) = (if fst g \<in> cs then v g else f x)"
  shows "f (fold cl_effect gs x) = (case last_given cs gs of None \<Rightarrow> f x | Some g \<Rightarrow> v g)"
  by (induction gs arbitrary: x) (simp_all add: assms split: option.splits)

lemma cl_effects:
  "cl_input (fold cl_effect gs x) = (case last_given input_options gs of None \<Rightarrow> cl_input x | Some g \<Rightarrow> Some (snd g))"
  "cl_source (fold cl_effect gs x) = (case last_given input_options gs of None \<Rightarrow> cl_source x | Some g \<Rightarrow> source_of (fst g))"
  "cl_output (fold cl_effect gs x) = (case last_given {CHR ''o''} gs of None \<Rightarrow> cl_output x | Some g \<Rightarrow> Some (snd g))"
  "cl_sink (fold cl_effect gs x) = (case last_given {CHR ''o''} gs of None \<Rightarrow> cl_sink x | Some g \<Rightarrow> ss_ssqls2)"
  "cl_pass (fold cl_effect gs x) = (case last_given {CHR ''p''} gs of None \<Rightarrow> cl_pass x | Some g \<Rightarrow> Some (snd g))"
  "cl_server (fold cl_effect gs x) = (case last_given {CHR ''s''} gs of None \<Rightarrow> cl_server x | Some g \<Rightarrow> Some (snd g))"
  "cl_user (fold cl_effect gs x) = (case last_given {CHR ''u''} gs of None \<Rightarrow> cl_user x | Some g \<Rightarrow> Some (snd g))"
  by (rule fold_last_given; simp add: cl_effect_def cl_option_def input_options_def source_of_def)+

lemma cl_options_known:
  "list_all (\<lambda>c. needs_argument cl_opts c \<longrightarrow> c = CHR '':'' \<or> c \<in> set ''it1opsu'') cl_opts"
  by code_simp

lemma cl_option_written:
  assumes "option_ok cl_opts w"
  shows "cl_option (fst (option_given w)) (Some (snd (option_given w))) y = Inr (cl_effect (option_given w) y) \<and>
    cl_successful (cl_effect (option_given w) y) = cl_successful y"
proof -
  have "fst (option_given w) \<in> set ''it1opsu''"
    using assms cl_options_known by (cases w) (auto simp: list_all_iff simp del: list.set)
  then show ?thesis by (simp add: cl_effect_def cl_option_def) auto
qed

lemma CommandLine_prefix:
  assumes "list_all (option_ok cl_opts) ws" and "argv = prog # concat (map option_args ws) @ rest"
  obtains st where "option_loop argv cl_opts cl_successful cl_option getopt_start cl_start =
      option_loop argv cl_opts cl_successful cl_option st (fold cl_effect (map option_given ws) cl_start)"
    and "drop (go_optind st) argv = rest" and "go_sp st = 1" and "cl_successful (fold cl_effect (map option_given ws) cl_start)"
proof -
  have "\<exists>st'. option_loop argv cl_opts cl_successful cl_option getopt_start cl_start =
      option_loop argv cl_opts cl_successful cl_option st' (fold cl_effect (map option_given ws) cl_start) \<and>
    drop (go_optind st') argv = rest \<and> go_sp st' = 1 \<and> cl_successful (fold cl_effect (map option_given ws) cl_start)"
    by (rule option_loop_prefix [where i = 1, OF assms(1)])
      (use assms cl_option_written in \<open>auto simp: getopt_start_def cl_start_def list_all_iff\<close>)
  then show thesis using that by blast
qed

lemma CommandLine_written:
  assumes "list_all (option_ok cl_opts) ws" and "no_option rest" and "gs = map option_given ws"
    and "y = fold cl_effect gs cl_start"
  shows "\<exists>st. CommandLine_new (prog # concat (map option_args ws) @ rest) getopt_start =
    Inr (y\<lparr>cl_extra := rest, cl_successful := cl_sensible y\<rparr>, st)"
proof -
  obtain st where st: "option_loop (prog # concat (map option_args ws) @ rest) cl_opts cl_successful cl_option getopt_start cl_start =
      option_loop (prog # concat (map option_args ws) @ rest) cl_opts cl_successful cl_option st y"
    "drop (go_optind st) (prog # concat (map option_args ws) @ rest) = rest" "go_sp st = 1" "cl_successful y"
    using CommandLine_prefix [OF assms(1) refl] unfolding assms(3,4) by metis
  have "getopt (prog # concat (map option_args ws) @ rest) cl_opts st = Inr (None, st)"
    using getopt_no_option [OF _ refl st(3)] assms(2) st(2) by simp
  then have "option_loop (prog # concat (map option_args ws) @ rest) cl_opts cl_successful cl_option st y = Inr (y, st)"
    by (subst option_loop.simps) simp
  then show ?thesis using st by (simp add: CommandLine_new_def finish_parse_def)
qed

text \<open>A command line of options with their arguments, joined or apart, and further arguments is read as
  it was written: the last option of each kind decides, and the further arguments are kept.\<close>
theorem command_line_read:
  assumes "list_all (option_ok cl_opts) ws" and "no_option rest" and "gs = map option_given ws"
  shows "\<exists>x st. CommandLine_new (prog # concat (map option_args ws) @ rest) getopt_start = Inr (x, st) \<and>
    cl_input x = map_option snd (last_given input_options gs) \<and> cl_output x = map_option snd (last_given {CHR ''o''} gs) \<and>
    cl_server x = map_option snd (last_given {CHR ''s''} gs) \<and> cl_user x = map_option snd (last_given {CHR ''u''} gs) \<and>
    cl_pass x = Some (case last_given {CHR ''p''} gs of None \<Rightarrow> [] | Some g \<Rightarrow> snd g) \<and> cl_extra x = rest \<and>
    cl_source x = (case last_given input_options gs of None \<Rightarrow> ss_unknown | Some g \<Rightarrow> source_of (fst g)) \<and>
    (cl_successful x \<longleftrightarrow> (case last_given input_options gs of None \<Rightarrow> False
       | Some g \<Rightarrow> fst g = CHR ''i'' \<or> last_given {CHR ''o''} gs \<noteq> None))"
proof -
  have "fst g \<in> input_options" if "last_given input_options gs' = Some g" for g gs'
    using that by (induction gs') (auto split: option.splits if_splits)
  then show ?thesis
    using CommandLine_written [OF assms(1,2,3) refl, of prog]
    by (auto simp: cl_effects cl_start_def cl_sensible_def source_of_def input_options_def split: option.splits)
qed

text \<open>C25: on a command line of legal options, with or without further arguments behind them, when the
  last option that names the input is \<open>-i\<close> with a file that parses, and the last \<open>-o\<close> names a
  file that can be written, other than \<open>-\<close>, the program answers 0 and has written the document of
  the parsed lines. When moreover no written line has more than 99 characters, parsing what was
  written gives the same lines; a longer one, such as that of a table with a long name, the reader
  would drop without a word.\<close>
theorem main_translates:
  assumes "list_all (option_ok cl_opts) ws" and "no_option rest" and "gs = map option_given ws"
    and "last_given input_options gs = Some (CHR ''i'', src)" and "last_given {CHR ''o''} gs = Some (CHR ''o'', out)" and "out \<noteq> ''-''"
    and "ParseV2_new FS depth src ssx_start = Inr (ls, st)" and "writable out"
  shows "ssx_main FS writable depth (prog # concat (map option_args ws) @ rest) = Inr (0, File_Written out (generate_ssqls2 ls)) \<and>
    (list_all short ls \<longrightarrow>
      (\<exists>st'. ParseV2_new (FS(out \<mapsto> generate_ssqls2 ls)) (Suc depth') out ssx_start = Inr (ls, st')))"
proof
  show "ssx_main FS writable depth (prog # concat (map option_args ws) @ rest) = Inr (0, File_Written out (generate_ssqls2 ls))"
    using CommandLine_written [OF assms(1,2,3) refl, of prog] assms(4-)
    by (auto simp: ssx_main_def parse_ssqls2_def generate_ssqls2_file_def cl_effects cl_start_def cl_sensible_def source_of_def)
  show "list_all short ls \<longrightarrow>
      (\<exists>st'. ParseV2_new (FS(out \<mapsto> generate_ssqls2 ls)) (Suc depth') out ssx_start = Inr (ls, st'))"
    using ParseV2_good [OF assms(7)] by (intro impI written_parses) (simp_all add: good_lines_def ssx_start_def)
qed

text \<open>Two hyphens, which the comment in the source takes for the end of the options, are an illegal
  option: the program shows its usage and ends with 1, whatever stands before and behind.\<close>
theorem double_dash_is_illegal:
  assumes "list_all (option_ok cl_opts) ws"
  shows "ssx_main FS writable depth (prog # concat (map option_args ws) @ ''--'' # rest) = Inr (1, Nothing_Written)"
proof -
  let ?argv = "prog # concat (map option_args ws) @ ''--'' # rest"
  obtain st where st: "option_loop ?argv cl_opts cl_successful cl_option getopt_start cl_start =
      option_loop ?argv cl_opts cl_successful cl_option st (fold cl_effect (map option_given ws) cl_start)"
    "drop (go_optind st) ?argv = ''--'' # rest" "go_sp st = 1" "cl_successful (fold cl_effect (map option_given ws) cl_start)"
    using CommandLine_prefix [OF assms refl] by metis
  have "getopt ?argv cl_opts st = Inr (Some (CHR ''?''), st\<lparr>go_optind := Suc (go_optind st), go_sp := 1\<rparr>)"
    using drop_Cons_facts [OF st(2)] st(3) by (simp add: getopt_def Let_def char_at_def cl_opts_def)
  then have "\<exists>x st'. option_loop ?argv cl_opts cl_successful cl_option getopt_start cl_start = Inr (x, st') \<and> \<not> cl_successful x"
    using st(4) unfolding st(1) by (subst option_loop.simps) (simp add: cl_option_def option_loop.simps)
  then show ?thesis by (auto simp: ssx_main_def CommandLine_new_def)
qed

section \<open>Examples\<close>

lemma example_options_ok:
  "list_all (option_ok cl_opts) [Separate (CHR ''i'') ''old'', Joined (CHR ''i'') ''file'', Separate (CHR ''o'') ''copy'']"
  by code_simp

lemma example_options_last:
  "last_given input_options (map option_given [Separate (CHR ''i'') ''old'', Joined (CHR ''i'') ''file'', Separate (CHR ''o'') ''copy'']) =
    Some (CHR ''i'', ''file'')"
  "last_given {CHR ''o''} (map option_given [Separate (CHR ''i'') ''old'', Joined (CHR ''i'') ''file'', Separate (CHR ''o'') ''copy'']) =
    Some (CHR ''o'', ''copy'')"
  by (simp_all add: input_options_def)

theorem command_line_read_witness:
  "\<exists>x st. CommandLine_new [''ssx'', ''-i'', ''old'', ''-ifile'', ''-o'', ''copy'', ''more'', ''-x''] getopt_start = Inr (x, st) \<and>
    cl_input x = Some ''file'' \<and> cl_output x = Some ''copy'' \<and> cl_extra x = [''more'', ''-x''] \<and> cl_successful x"
proof -
  have rest: "no_option [''more'', ''-x'']" by (simp add: no_option_def char_at_def)
  show ?thesis
    using command_line_read [OF example_options_ok rest refl, of "''ssx''"] unfolding example_options_last by (auto simp: source_of_def)
qed

theorem main_translates_witness:
  "ssx_main [''file'' \<mapsto> generate_ssqls2 example_lines] (\<lambda>_. True) 1 [''ssx'', ''-i'', ''old'', ''-ifile'', ''-o'', ''copy''] =
    Inr (0, File_Written ''copy'' (generate_ssqls2 example_lines)) \<and>
   (\<exists>st'. ParseV2_new [''file'' \<mapsto> generate_ssqls2 example_lines, ''copy'' \<mapsto> generate_ssqls2 example_lines]
      (Suc 0) ''copy'' ssx_start = Inr (example_lines, st'))"
proof -
  obtain st where "ParseV2_new [''file'' \<mapsto> generate_ssqls2 example_lines] (Suc 0) ''file'' ssx_start = Inr (example_lines, st)"
    using written_parses [OF example_lines_ok, of "[''file'' \<mapsto> generate_ssqls2 example_lines]" "''file''"] by auto
  from main_translates [OF example_options_ok _ refl example_options_last _ this, of "[]" "\<lambda>_. True" "''ssx''" 0]
  show ?thesis using example_lines_ok(3) by (simp add: no_option_def)
qed

theorem main_outcome_witness:
  "\<exists>n out. ssx_main Map.empty (\<lambda>_. True) 1 [''ssx'', ''-i'', ''missing''] = Inr (n, out) \<and> n \<le> 2 \<and> (n = 0 \<longleftrightarrow> out \<noteq> Nothing_Written)"
proof -
  have "\<exists>e. ParseV2_new Map.empty 1 f ssx_start = Inl (Throw e)" for f
    by (simp add: File_new_def ssx_start_def)
  then have no: "ParseV2_new Map.empty 1 f ssx_start \<noteq> Inl Diverge" "ParseV2_new Map.empty 1 f ssx_start \<noteq> Inl (UB k)" for f k
    by (metis fault.distinct(1,3) sum.inject(1))+
  show ?thesis by (rule main_outcome) (use no in auto)
qed

theorem double_dash_is_illegal_witness:
  "ssx_main Map.empty (\<lambda>_. True) 1 [''ssx'', ''-i'', ''file'', ''--'', ''extra''] = Inr (1, Nothing_Written)"
proof -
  have "list_all (option_ok cl_opts) [Separate (CHR ''i'') ''file'']" by code_simp
  from double_dash_is_illegal [OF this, of Map.empty "\<lambda>_. True" 1 "''ssx''" "[''extra'']"] show ?thesis by simp
qed

end
