(* ===== verification/Pool_Threads.thy ===== *)
theory Pool_Threads
  imports Conn_Pool
begin

text \<open>
  The connection pool between threads: the mutex (\<open>mysqlpp/lib/beemutex.cpp\<close>, \<open>beemutex.h\<close>), the
  scoped connection (\<open>scopedconnection.cpp\<close>), and the operations of \<open>cpool.cpp\<close> as critical sections
  that threads enter one after another.
\<close>

section \<open>The mutex\<close>

text \<open>
  On a POSIX system each function returns what the function of \<open>pthread\<close> returned, the argument \<open>rc\<close>;
  \<open>strerror\<close> is a parameter.
\<close>

definition EBUSY :: nat where "EBUSY = 16"

definition BeecryptMutex_new :: "(nat \<Rightarrow> string) \<Rightarrow> nat \<Rightarrow> unit res" where
  "BeecryptMutex_new strerror rc = (if rc \<noteq> 0 then Inl (Throw (MutexFailed (strerror rc))) else Inr ())"

definition BeecryptMutex_lock :: "(nat \<Rightarrow> string) \<Rightarrow> nat \<Rightarrow> unit res" where
  "BeecryptMutex_lock strerror rc = (if rc \<noteq> 0 then Inl (Throw (MutexFailed (strerror rc))) else Inr ())"

definition BeecryptMutex_trylock :: "(nat \<Rightarrow> string) \<Rightarrow> nat \<Rightarrow> bool res" where
  "BeecryptMutex_trylock strerror rc = (if rc = 0 then Inr True else if rc = EBUSY then Inr False
     else Inl (Throw (MutexFailed (strerror rc))))"

definition BeecryptMutex_unlock :: "(nat \<Rightarrow> string) \<Rightarrow> nat \<Rightarrow> unit res" where
  "BeecryptMutex_unlock strerror rc = (if rc \<noteq> 0 then Inl (Throw (MutexFailed (strerror rc))) else Inr ())"

section \<open>Threads\<close>

text \<open>
  What a thread can ask of the pool. \<open>safe_grab\<close> and \<open>exchange\<close> do not lock; they are sequences of
  these calls, with the ping of a connection between them. A thread gives a connection back, or asks
  for its removal, only when it holds it, and does not use it afterwards. A thread waits for the mutex
  in \<open>ScopedLock\<close>'s constructor, runs the body while it owns it, and unlocks it in the destructor.
\<close>

datatype pool_call = Grab_Call | Release_Call address | Remove_Call address | Shrink_Call

datatype phase = Outside | Waiting pool_call | Inside pool_call | Leaving "address option"

record pool_system =
  sy_owner :: "nat option"
  sy_phase :: "nat \<Rightarrow> phase"
  sy_held :: "nat \<Rightarrow> address set"
  sy_pool :: pool

fun given :: "pool_call \<Rightarrow> address set" where
  "given (Release_Call a) = {a}"
| "given (Remove_Call a) = {a}"
| "given c = {}"

fun run_call :: "pool_env \<Rightarrow> pool_call \<Rightarrow> pool \<Rightarrow> address option \<times> pool" where
  "run_call env Grab_Call p = (case grab env p of (a, p') \<Rightarrow> (Some a, p'))"
| "run_call env (Release_Call a) p = (None, release env a p)"
| "run_call env (Remove_Call a) p = (None, remove a p)"
| "run_call env Shrink_Call p = (None, shrink p)"

text \<open>A new connection is an object of its own: its address is not that of another in the pool.\<close>

inductive pool_step :: "pool_system \<Rightarrow> pool_system \<Rightarrow> bool" where
  call: "sy_phase s t = Outside \<Longrightarrow> given c \<subseteq> sy_held s t \<Longrightarrow>
    pool_step s (s\<lparr>sy_phase := (sy_phase s)(t := Waiting c), sy_held := (sy_held s)(t := sy_held s t - given c)\<rparr>)"
| acquire: "sy_phase s t = Waiting c \<Longrightarrow> sy_owner s = None \<Longrightarrow>
    pool_step s (s\<lparr>sy_owner := Some t, sy_phase := (sy_phase s)(t := Inside c)\<rparr>)"
| body: "sy_phase s t = Inside c \<Longrightarrow> create env (created (sy_pool s)) \<notin> conn ` set (conns (sy_pool s)) \<Longrightarrow>
    run_call env c (sy_pool s) = (r, p) \<Longrightarrow>
    pool_step s (s\<lparr>sy_phase := (sy_phase s)(t := Leaving r), sy_pool := p\<rparr>)"
| leave: "sy_phase s t = Leaving r \<Longrightarrow>
    pool_step s (s\<lparr>sy_owner := None, sy_phase := (sy_phase s)(t := Outside),
      sy_held := (sy_held s)(t := sy_held s t \<union> set_option r)\<rparr>)"

definition pool_start :: pool_system where
  "pool_start = \<lparr>sy_owner = None, sy_phase = (\<lambda>_. Outside), sy_held = (\<lambda>_. {}),
     sy_pool = \<lparr>conns = [], created = 0, destroyed = []\<rparr>\<rparr>"

definition pool_reachable :: "pool_system \<Rightarrow> bool" where
  "pool_reachable s \<longleftrightarrow> pool_step\<^sup>*\<^sup>* pool_start s"

section \<open>The operations and the connections in use\<close>

lemma grab_busy:
  assumes "pool_ok p" and "create env (created p) \<notin> conn ` set (conns p)" and "grab env p = (a, p')"
  shows "pool_ok p' \<and> a \<notin> busy p \<and> busy p' = insert a (busy p)"
proof -
  note g = grab_spec_holds [OF assms]
  have "a \<notin> busy p"
  proof (cases "current env p = Map.empty")
    case True
    then show ?thesis using g assms(2) by (auto simp: grab_spec_def busy_def)
  next
    case False
    then obtain t where "idle p a = Some t" using g by (auto simp: grab_spec_def current_iff)
    then show ?thesis using assms(1) conn_inject by (fastforce simp: idle_iff busy_def)
  qed
  then show ?thesis using g by (simp add: grab_spec_def)
qed

lemma in_use_Cons: "conn ` {d \<in> set (c # cs). in_use d} = (if in_use c then {conn c} else {}) \<union> conn ` {d \<in> set cs. in_use d}"
  by auto

lemma release_in_set:
  "distinct (map conn cs) \<Longrightarrow> conn ` {c \<in> set (release_in env a cs). in_use c} = conn ` {c \<in> set cs. in_use c} - {a}"
proof (induction cs)
  case (Cons c cs)
  have "conn c \<notin> conn ` {d \<in> set cs. in_use d}" using Cons.prems by auto
  then show ?case using Cons by (cases "conn c = a") (auto simp: in_use_Cons simp del: set_simps)
qed simp

lemma release_busy: "pool_ok p \<Longrightarrow> pool_ok (release env a p) \<and> busy (release env a p) = busy p - {a}"
  using release_in_set by (simp add: pool_ok_def release_def release_in_map busy_image)

lemma remove_busy: "pool_ok p \<Longrightarrow> pool_ok (remove a p) \<and> busy (remove a p) = busy p - {a}"
  using pool_ok_remove [of p a] set_remove [of p a] by (auto simp: busy_def)

lemma shrink_busy: "pool_ok p \<Longrightarrow> pool_ok (shrink p) \<and> busy (shrink p) = busy p"
  by (auto simp: shrink_def clear_def conns_remove_from busy_def pool_ok_def distinct_map_filter)

lemma run_call_busy:
  assumes "pool_ok p" and "create env (created p) \<notin> conn ` set (conns p)" and "run_call env c p = (r, p')"
  shows "pool_ok p' \<and> set_option r \<inter> busy p = {} \<and> busy p' = busy p - given c \<union> set_option r"
proof (cases c)
  case Grab_Call
  obtain a where "grab env p = (a, p')" "r = Some a" using assms(3) Grab_Call by (auto split: prod.splits)
  then show ?thesis using grab_busy [OF assms(1,2)] Grab_Call by simp
qed (use assms release_busy remove_busy shrink_busy in auto)

section \<open>The invariant\<close>

text \<open>The connections a thread has, those on their way from or to the pool included.\<close>

fun on_the_way :: "phase \<Rightarrow> address set" where
  "on_the_way Outside = {}"
| "on_the_way (Waiting c) = given c"
| "on_the_way (Inside c) = given c"
| "on_the_way (Leaving r) = set_option r"

fun critical :: "phase \<Rightarrow> bool" where
  "critical (Inside c) \<longleftrightarrow> True"
| "critical (Leaving r) \<longleftrightarrow> True"
| "critical ph \<longleftrightarrow> False"

definition carried :: "pool_system \<Rightarrow> nat \<Rightarrow> address set" where
  "carried s t = sy_held s t \<union> on_the_way (sy_phase s t)"

definition pool_inv :: "pool_system \<Rightarrow> bool" where
  "pool_inv s \<longleftrightarrow> (\<forall>t. critical (sy_phase s t) \<longleftrightarrow> sy_owner s = Some t) \<and> pool_ok (sy_pool s) \<and>
     (\<forall>t. sy_held s t \<inter> on_the_way (sy_phase s t) = {}) \<and> (\<forall>t u. t \<noteq> u \<longrightarrow> carried s t \<inter> carried s u = {}) \<and>
     busy (sy_pool s) = (\<Union>t. carried s t)"

lemma pool_invD:
  assumes "pool_inv s"
  shows "critical (sy_phase s t) \<longleftrightarrow> sy_owner s = Some t" and "sy_held s t \<inter> on_the_way (sy_phase s t) = {}"
    and "t \<noteq> u \<Longrightarrow> carried s t \<inter> carried s u = {}" and "carried s t \<subseteq> busy (sy_pool s)"
  using assms by (auto simp: pool_inv_def)

lemma pool_inv_step: "pool_step s s' \<Longrightarrow> pool_inv s \<Longrightarrow> pool_inv s'"
proof (induction rule: pool_step.induct)
  case (call s t c)
  let ?s = "s\<lparr>sy_phase := (sy_phase s)(t := Waiting c), sy_held := (sy_held s)(t := sy_held s t - given c)\<rparr>"
  have "carried ?s = carried s" using call(1,2) by (auto simp: carried_def fun_eq_iff)
  moreover have "sy_owner s \<noteq> Some t" using pool_invD(1) [OF call(3), of t] call(1) by simp
  ultimately show ?case using call by (auto simp: pool_inv_def)
next
  case (acquire s t c)
  let ?s = "s\<lparr>sy_owner := Some t, sy_phase := (sy_phase s)(t := Inside c)\<rparr>"
  have "carried ?s = carried s" using acquire(1) by (auto simp: carried_def fun_eq_iff)
  moreover have "sy_held s t \<inter> given c = {}" using pool_invD(2) [OF acquire(3), of t] acquire(1) by simp
  ultimately show ?case using acquire by (auto simp: pool_inv_def)
next
  case (body s t c env r p)
  let ?s = "s\<lparr>sy_phase := (sy_phase s)(t := Leaving r), sy_pool := p\<rparr>"
  note run = run_call_busy [OF _ body(2,3)]
  have c: "carried ?s = (carried s)(t := sy_held s t \<union> set_option r)" by (auto simp: carried_def fun_eq_iff)
  have parts: "carried s t = sy_held s t \<union> given c" "sy_held s t \<inter> given c = {}"
    using pool_invD(2) [OF body(4), of t] body(1) by (simp_all add: carried_def)
  note apart = pool_invD(3) [OF body(4)]
  have new: "set_option r \<inter> carried s u = {}" for u using run body(4) by (auto simp: pool_inv_def)
  have "busy p = (\<Union>u. ((carried s)(t := sy_held s t \<union> set_option r)) u)"
  proof -
    have "(\<Union>u. carried s u) - given c = sy_held s t \<union> (\<Union>u \<in> - {t}. carried s u)"
    proof -
      have "given c \<inter> carried s u = {}" if "u \<noteq> t" for u using apart [of t u] parts(1) that by auto
      moreover have "(\<Union>u. carried s u) = carried s t \<union> (\<Union>u \<in> - {t}. carried s u)" by auto
      ultimately show ?thesis using parts by auto
    qed
    moreover have "(\<Union>u. ((carried s)(t := sy_held s t \<union> set_option r)) u) = sy_held s t \<union> set_option r \<union> (\<Union>u \<in> - {t}. carried s u)"
      by auto
    ultimately show ?thesis using run body(4) by (auto simp: pool_inv_def)
  qed
  moreover have "((carried s)(t := sy_held s t \<union> set_option r)) u \<inter> ((carried s)(t := sy_held s t \<union> set_option r)) v = {}" if "u \<noteq> v" for u v
    using apart [OF that] new [of u] new [of v] parts(1) that by auto
  ultimately show ?case
    using body(1,4) run c new [of t] parts(1) by (auto simp: pool_inv_def)
next
  case (leave s t r)
  let ?s = "s\<lparr>sy_owner := None, sy_phase := (sy_phase s)(t := Outside), sy_held := (sy_held s)(t := sy_held s t \<union> set_option r)\<rparr>"
  have "carried ?s = carried s" using leave(1) by (auto simp: carried_def fun_eq_iff)
  then show ?case using leave by (auto simp: pool_inv_def)
qed

lemma pool_inv_reachable: "pool_reachable s \<Longrightarrow> pool_inv s"
  unfolding pool_reachable_def
  by (induction rule: rtranclp_induct)
    (auto simp: pool_inv_step, simp add: pool_inv_def pool_start_def carried_def busy_def pool_ok_def)

section \<open>Properties\<close>

text \<open>C4: whatever the threads do and however their calls interleave, no connection is held by two threads,
  every connection a thread holds is in the pool and marked as in use, at most one thread is in the
  critical sections, and when no call is under way the connections in use are exactly the held ones.\<close>
theorem pool_threads_safe:
  assumes "pool_reachable s"
  shows "(t \<noteq> u \<longrightarrow> sy_held s t \<inter> sy_held s u = {}) \<and>
    (a \<in> sy_held s t \<longrightarrow> (\<exists>c \<in> set (conns (sy_pool s)). conn c = a \<and> in_use c)) \<and>
    (critical (sy_phase s t) \<and> critical (sy_phase s u) \<longrightarrow> t = u) \<and>
    ((\<forall>v. sy_phase s v = Outside) \<longrightarrow> busy (sy_pool s) = (\<Union>v. sy_held s v))"
proof -
  note inv = pool_inv_reachable [OF assms]
  have "t \<noteq> u \<longrightarrow> sy_held s t \<inter> sy_held s u = {}" using pool_invD(3) [OF inv, of t u] by (auto simp: carried_def)
  moreover have "sy_held s t \<subseteq> busy (sy_pool s)" using pool_invD(4) [OF inv, of t] by (auto simp: carried_def)
  then have "a \<in> sy_held s t \<longrightarrow> (\<exists>c \<in> set (conns (sy_pool s)). conn c = a \<and> in_use c)" by (auto simp: busy_def)
  moreover have "critical (sy_phase s t) \<and> critical (sy_phase s u) \<longrightarrow> t = u" using pool_invD(1) [OF inv] by (metis option.inject)
  moreover have "(\<forall>v. sy_phase s v = Outside) \<longrightarrow> busy (sy_pool s) = (\<Union>v. sy_held s v)"
    using inv by (simp add: pool_inv_def carried_def)
  ultimately show ?thesis by blast
qed

text \<open>The threads are never stuck: as long as a call is under way, one that is can go on.\<close>
theorem pool_threads_progress:
  assumes "pool_reachable s" and "sy_phase s t \<noteq> Outside"
  shows "\<exists>u s'. sy_phase s u \<noteq> Outside \<and> pool_step s s' \<and> sy_phase s' u \<noteq> sy_phase s u"
proof -
  note inv = pool_inv_reachable [OF assms(1)]
  have "\<exists>u. sy_phase s u \<noteq> Outside \<and> (critical (sy_phase s u) \<or> sy_owner s = None)"
  proof (cases "sy_owner s")
    case (Some v)
    then have "critical (sy_phase s v)" using pool_invD(1) [OF inv] by simp
    then show ?thesis by (intro exI [of _ v]) auto
  qed (use assms(2) in blast)
  then obtain u where u: "sy_phase s u \<noteq> Outside" "critical (sy_phase s u) \<or> sy_owner s = None" by blast
  show ?thesis
  proof (cases "sy_phase s u")
    case (Waiting c)
    then show ?thesis using u pool_step.acquire [of s u c] by (intro exI [of _ u] exI conjI) auto
  next
    case (Inside c)
    obtain n where "n \<notin> conn ` set (conns (sy_pool s))" using ex_new_if_finite [of "conn ` set (conns (sy_pool s))"] by auto
    then show ?thesis
      using u Inside pool_step.body [of s u c "\<lparr>now = 0, max_idle_time = 0, create = (\<lambda>_. n), pings = (\<lambda>_. True)\<rparr>"]
      by (cases "run_call \<lparr>now = 0, max_idle_time = 0, create = (\<lambda>_. n), pings = (\<lambda>_. True)\<rparr> c (sy_pool s)")
        (intro exI [of _ u] exI conjI, auto)
  next
    case (Leaving r)
    then show ?thesis using u pool_step.leave [of s u r] by (intro exI [of _ u] exI conjI) auto
  qed (use u in simp)
qed

section \<open>Scoped connections\<close>

definition ScopedConnection_new :: "pool_env \<Rightarrow> bool \<Rightarrow> pool \<Rightarrow> (address \<times> pool) option" where
  "ScopedConnection_new env safe p = (if safe then safe_grab env p else Some (grab env p))"

definition ScopedConnection_destroy :: "pool_env \<Rightarrow> address \<Rightarrow> pool \<Rightarrow> pool" where
  "ScopedConnection_destroy env a p = release env a p"

lemma grab_created:
  assumes "grab env p = (a, p')"
  shows "created p' = created p \<and> a \<in> conn ` set (conns p) \<or> created p' = Suc (created p) \<and> a = create env (created p)"
proof (cases "find_mru (remove_old_connections env p)")
  case None
  then show ?thesis using assms by (auto simp: grab_def Let_def remove_old_connections_def)
next
  case (Some r)
  let ?q = "remove_old_connections env p"
  have "conns ?q \<noteq> []" using Some by (auto simp: find_mru_def)
  then have "conns ?q ! max_element_from (conns ?q) 0 1 \<in> set (conns p)"
    using max_element_spec(1) [of "conns ?q"] nth_mem [of _ "conns ?q"] by (auto simp: conns_remove_old)
  then show ?thesis
    using assms Some by (auto simp: grab_def Let_def find_mru_def remove_old_connections_def split: if_splits)
qed

lemma grab_unborn:
  assumes "pool_ok p" and "unborn env p" and "grab env p = (a, p')"
  shows "unborn env p'"
proof -
  have "conn ` set (conns p') \<subseteq> insert a (conn ` set (conns p))"
    using grab_spec_holds [OF assms(1) unborn_fresh [OF assms(2)] assms(3)] by simp
  moreover have "create env n \<notin> insert a (conn ` set (conns p))" if n: "created p' \<le> n" for n
  proof -
    have new: "create env m \<notin> conn ` set (conns p)" if "created p \<le> m" for m
      using assms(2) that unfolding unborn_def by blast
    from grab_created [OF assms(3)] show ?thesis
    proof
      assume "created p' = created p \<and> a \<in> conn ` set (conns p)"
      then show ?thesis using new [of n] n by auto
    next
      assume c: "created p' = Suc (created p) \<and> a = create env (created p)"
      then have "create env n \<noteq> a" using n assms(2) by (auto simp: unborn_def dest: injD)
      then show ?thesis using new [of n] n c by auto
    qed
  qed
  ultimately show ?thesis using assms(2) unfolding unborn_def by blast
qed

lemma safe_grab_busy:
  "safe_grab env p = Some r \<Longrightarrow> pool_ok p \<longrightarrow> unborn env p \<longrightarrow>
    pool_ok (snd r) \<and> fst r \<notin> busy p \<and> busy (snd r) = insert (fst r) (busy p)"
proof (erule safe_grab.raw_induct [rotated])
  fix f and env and p :: pool and r
  assume IH: "\<And>env p r. f env p = Some r \<Longrightarrow> pool_ok p \<longrightarrow> unborn env p \<longrightarrow>
      pool_ok (snd r) \<and> fst r \<notin> busy p \<and> busy (snd r) = insert (fst r) (busy p)"
    and run: "(let (pc, p') = grab env p in if pings env pc then Some (pc, p') else f env (remove pc p')) = Some r"
  show "pool_ok p \<longrightarrow> unborn env p \<longrightarrow> pool_ok (snd r) \<and> fst r \<notin> busy p \<and> busy (snd r) = insert (fst r) (busy p)"
  proof (intro impI)
    assume ok: "pool_ok p" and ub: "unborn env p"
    obtain a p' where g: "grab env p = (a, p')" by (cases "grab env p")
    note b = grab_busy [OF ok unborn_fresh [OF ub] g]
    show "pool_ok (snd r) \<and> fst r \<notin> busy p \<and> busy (snd r) = insert (fst r) (busy p)"
    proof (cases "pings env a")
      case False
      have "unborn env (remove a p')"
        using grab_unborn [OF ok ub g] set_remove [of p' a] b by (auto simp: unborn_def)
      moreover have "busy (remove a p') = busy p" "pool_ok (remove a p')" using remove_busy [of p' a] b by auto
      moreover have "f env (remove a p') = Some r" using run g False by simp
      ultimately show ?thesis using IH [of env "remove a p'" r] by simp
    qed (use run g b in auto)
  qed
qed

text \<open>A scoped connection is handed out to nobody else, and when its scope ends, the connections in use
  are those in use before it.\<close>
theorem scope_gives_back:
  assumes "pool_ok p" and "unborn env p" and "ScopedConnection_new env safe p = Some (a, p')"
  shows "a \<notin> busy p \<and> a \<in> busy p' \<and> busy (ScopedConnection_destroy env' a p') = busy p"
proof -
  have "pool_ok p' \<and> a \<notin> busy p \<and> busy p' = insert a (busy p)"
    using assms safe_grab_busy [of env p "(a, p')"] grab_busy [OF assms(1) unborn_fresh [OF assms(2)], of a p']
    by (auto simp: ScopedConnection_new_def split: if_splits)
  then show ?thesis using release_busy [of p' env' a] by (auto simp: ScopedConnection_destroy_def)
qed

section \<open>Examples\<close>

theorem scope_gives_back_witness:
  "\<exists>a p'. ScopedConnection_new example_env False example_pool = Some (a, p') \<and> a \<notin> busy example_pool \<and>
    busy (ScopedConnection_destroy example_env a p') = busy example_pool"
proof -
  obtain a p' where "ScopedConnection_new example_env False example_pool = Some (a, p')"
    by (cases "grab example_env example_pool") (simp add: ScopedConnection_new_def)
  with scope_gives_back [OF example_ok this, of example_env] show ?thesis by blast
qed

definition example_system :: pool_system where
  "example_system = \<lparr>sy_owner = None, sy_phase = (\<lambda>_. Outside), sy_held = (\<lambda>_. {})(3 := {7}),
     sy_pool = \<lparr>conns = [\<lparr>conn = 7, last_used = 100, in_use = True\<rparr>], created = 1, destroyed = []\<rparr>\<rparr>"

lemma example_first:
  "grab example_env \<lparr>conns = [], created = 0, destroyed = []\<rparr> =
    (7, \<lparr>conns = [\<lparr>conn = 7, last_used = 100, in_use = True\<rparr>], created = 1, destroyed = []\<rparr>)"
  by (simp add: grab_def remove_old_connections_def remove_from.simps find_mru_def Let_def example_env_def ConnectionInfo_new_def)

lemma example_reachable: "pool_reachable example_system"
proof -
  let ?p = "\<lparr>conns = [\<lparr>conn = 7, last_used = 100, in_use = True\<rparr>], created = 1, destroyed = []\<rparr>"
  let ?s1 = "pool_start\<lparr>sy_phase := (\<lambda>_. Outside)(3 := Waiting Grab_Call)\<rparr>"
  let ?s2 = "?s1\<lparr>sy_owner := Some 3, sy_phase := (\<lambda>_. Outside)(3 := Inside Grab_Call)\<rparr>"
  let ?s3 = "?s2\<lparr>sy_phase := (\<lambda>_. Outside)(3 := Leaving (Some 7)), sy_pool := ?p\<rparr>"
  have s1: "pool_step pool_start ?s1"
    using pool_step.call [of pool_start 3 Grab_Call] by (simp add: pool_start_def fun_upd_def)
  have s2: "pool_step ?s1 ?s2"
    using pool_step.acquire [of ?s1 3 Grab_Call] by (simp add: pool_start_def)
  have s3: "pool_step ?s2 ?s3"
    using pool_step.body [of ?s2 3 Grab_Call example_env "Some 7" ?p] by (simp add: pool_start_def example_first)
  have s4: "pool_step ?s3 example_system"
  proof -
    have eq: "example_system = ?s3\<lparr>sy_owner := None, sy_phase := (sy_phase ?s3)(3 := Outside),
        sy_held := (sy_held ?s3)(3 := sy_held ?s3 3 \<union> set_option (Some 7))\<rparr>"
      by (simp add: example_system_def pool_start_def fun_eq_iff)
    show ?thesis unfolding eq by (rule pool_step.leave) simp
  qed
  show ?thesis
    unfolding pool_reachable_def
    by (rule converse_rtranclp_into_rtranclp [OF s1 converse_rtranclp_into_rtranclp [OF s2
        converse_rtranclp_into_rtranclp [OF s3 r_into_rtranclp [of pool_step, OF s4]]]])
qed

theorem pool_threads_safe_witness:
  "sy_held example_system 3 \<inter> sy_held example_system 4 = {} \<and>
   (\<exists>c \<in> set (conns (sy_pool example_system)). conn c = 7 \<and> in_use c)"
  using pool_threads_safe [OF example_reachable, of 3 4 7] by (simp add: example_system_def)

end
