(* ===== verification/Sql_Calls.thy ===== *)
theory Sql_Calls
  imports Sql_Connection Sql_Result
begin

text \<open>
  The calls of MySQL++ that stand on top of the others: the overloads of \<open>str\<close>, \<open>execute\<close>,
  \<open>store\<close>, \<open>use\<close> and \<open>storein\<close> that take the parameters of a template query one by one
  (\<open>mysqlpp/lib/querydef.h\<close>), the calls that ask the C library for a number or a text
  (\<open>dbdriver.h\<close>, \<open>connection.cpp\<close>, \<open>query.cpp\<close>), \<open>count_rows\<close>, and the texts of the exceptions
  (\<open>exceptions.h\<close>).
\<close>

section \<open>Parameters one by one\<close>

text \<open>
  \<open>SQLQueryParms() << arg0 << arg1 ...\<close>: a list without a parent query. The overloads that the macros
  declare take two to twenty-five values, so that a call with another number of them has no meaning
  here (\<open>None\<close>); a call with one value is \<open>execute_value\<close> and its like of the theory of
  templates.
\<close>

definition parms_of :: "adapter list \<Rightarrow> parms" where
  "parms_of args = Given False (set_params args)"

definition arguments :: "adapter list \<Rightarrow> parms option" where
  "arguments args = (if 2 \<le> length args \<and> length args \<le> 25 then Some (parms_of args) else None)"

definition str_args :: "sql_env \<Rightarrow> adapter list \<Rightarrow> string qry option" where
  "str_args E args = map_option (str_of_query E) (arguments args)"

definition execute_args :: "sql_env \<Rightarrow> adapter list \<Rightarrow> bool qry option" where
  "execute_args E args = map_option (execute_parms E) (arguments args)"

definition store_args ::
  "sql_env \<Rightarrow> 'r result_api \<Rightarrow> (db_call list \<Rightarrow> 'r) \<Rightarrow> adapter list \<Rightarrow> store_result qry option" where
  "store_args E A handle args = map_option (\<lambda>p. query_store E A handle (store_parms E p)) (arguments args)"

definition use_args ::
  "sql_env \<Rightarrow> 'r result_api \<Rightarrow> (db_call list \<Rightarrow> 'r) \<Rightarrow> adapter list \<Rightarrow> 'r use_result qry option" where
  "use_args E A handle args = map_option (\<lambda>p. query_use E A handle (use_parms E p)) (arguments args)"

definition storein_sequence_args where
  "storein_sequence_args E A handle result_empty value_type con args =
     map_option (storein_sequence_parms E A handle result_empty value_type con) (arguments args)"

definition storein_set_args where
  "storein_set_args E A handle result_empty value_type con args =
     map_option (storein_set_parms E A handle result_empty value_type con) (arguments args)"

section \<open>Numbers and texts of the library\<close>

text \<open>What the C library answers after the calls made so far.\<close>

record library_info =
  i_affected_rows :: "api_call list \<Rightarrow> 64 word"
  i_insert_id :: "api_call list \<Rightarrow> 64 word"
  i_field_count :: "api_call list \<Rightarrow> 32 word"
  i_errno :: "api_call list \<Rightarrow> 32 word"
  i_thread_id :: "api_call list \<Rightarrow> 64 word"
  i_more_results :: "api_call list \<Rightarrow> bool"
  i_info :: "api_call list \<Rightarrow> string option"
  i_stat :: "api_call list \<Rightarrow> string"
  i_host_info :: "api_call list \<Rightarrow> string"
  i_server_info :: "api_call list \<Rightarrow> string"
  i_proto_info :: "api_call list \<Rightarrow> 32 word"
  i_thread_safe :: bool
  i_thread_init :: bool

text \<open>The driver's own error text is cleared before the library is asked.\<close>

definition ask :: "(api_call list \<Rightarrow> 'a) \<Rightarrow> 'a drv" where
  "ask answer = bind clear_error (\<lambda>_. gets (\<lambda>d. answer (d_calls d)))"

definition affected_rows :: "library_info \<Rightarrow> 64 word drv" where
  "affected_rows I = ask (i_affected_rows I)"

definition driver_client_version :: "mysql_api \<Rightarrow> string drv" where
  "driver_client_version A = ask (\<lambda>_. client_version A)"

definition driver_errnum :: "library_info \<Rightarrow> 32 word drv" where
  "driver_errnum I = gets (\<lambda>d. i_errno I (d_calls d))"

definition ipc_info :: "library_info \<Rightarrow> string drv" where
  "ipc_info I = ask (i_host_info I)"

definition insert_id :: "library_info \<Rightarrow> 64 word drv" where
  "insert_id I = ask (i_insert_id I)"

definition more_results :: "mysql_api \<Rightarrow> library_info \<Rightarrow> bool drv" where
  "more_results A I = (if 41000 < version_id A then ask (i_more_results I) else ask (\<lambda>_. False))"

definition protocol_version :: "library_info \<Rightarrow> 32 word drv" where
  "protocol_version I = ask (i_proto_info I)"

definition query_info :: "library_info \<Rightarrow> string drv" where
  "query_info I = bind (ask (i_info I)) (\<lambda>i. ret (case i of Some s \<Rightarrow> s | None \<Rightarrow> []))"

definition refresh :: "mysql_api \<Rightarrow> 32 word \<Rightarrow> bool drv" where
  "refresh A options = wrap A (Mysql_refresh options)"

definition result_empty :: "library_info \<Rightarrow> bool drv" where
  "result_empty I = bind (ask (i_field_count I)) (\<lambda>n. ret (n = 0))"

definition server_version :: "library_info \<Rightarrow> string drv" where
  "server_version I = ask (i_server_info I)"

text \<open>
  \<open>mysql_stat\<close> talks to the server, and returns a null pointer when that fails; a \<open>std::string\<close>
  must not be made of one.
\<close>

definition server_status :: "mysql_api \<Rightarrow> library_info \<Rightarrow> string drv" where
  "server_status A I = bind (wrap A Mysql_stat) (\<lambda>ok. if ok
     then gets (\<lambda>d. i_stat I (d_calls d)) else fault (UB NullDeref))"

definition thread_id :: "library_info \<Rightarrow> 64 word drv" where
  "thread_id I = ask (i_thread_id I)"

text \<open>
  The calls on a statement and on a result set: the error text is cleared and the library's answer is
  handed through, with the result set as the library leaves it. \<open>fetch_field\<close> takes the next field
  when its index is the largest \<open>unsigned\<close>, and otherwise the field of that number in 32 bits.
\<close>

definition driver_execute :: "mysql_api \<Rightarrow> string \<Rightarrow> bool drv" where
  "driver_execute A s = wrap A (Mysql_query s)"

definition hand_through :: "'a \<Rightarrow> 'a drv" where
  "hand_through x = ask (\<lambda>_. x)"

definition driver_num_fields :: "'r result_api \<Rightarrow> 'r \<Rightarrow> int32 drv" where
  "driver_num_fields A r = hand_through (of_nat (api_num_fields A r))"

definition driver_num_rows :: "'r result_api \<Rightarrow> 'r \<Rightarrow> 64 word drv" where
  "driver_num_rows A r = hand_through (of_nat (api_num_rows A r))"

definition driver_fetch_row :: "'r result_api \<Rightarrow> 'r \<Rightarrow> (raw_row option \<times> 'r) drv" where
  "driver_fetch_row A r = hand_through (api_fetch_row A r)"

definition driver_fetch_lengths :: "'r result_api \<Rightarrow> 'r \<Rightarrow> nat list option drv" where
  "driver_fetch_lengths A r = hand_through (api_fetch_lengths A r)"

definition driver_fetch_field ::
  "'r result_api \<Rightarrow> ('r \<Rightarrow> 32 word \<Rightarrow> mysql_field option) \<Rightarrow> 'r \<Rightarrow> 64 word \<Rightarrow> (mysql_field option \<times> 'r) drv" where
  "driver_fetch_field A direct r i = hand_through (if i = 2 ^ 32 - 1 then api_fetch_field A r
     else (direct r (ucast i), r))"

definition driver_field_seek :: "'r result_api \<Rightarrow> 'r \<Rightarrow> nat \<Rightarrow> 'r drv" where
  "driver_field_seek A r field = hand_through (api_field_seek A r field)"

definition driver_data_seek :: "('r \<Rightarrow> 64 word \<Rightarrow> 'r) \<Rightarrow> 'r \<Rightarrow> 64 word \<Rightarrow> 'r drv" where
  "driver_data_seek seek r offset = hand_through (seek r offset)"

definition driver_result :: "(api_call list \<Rightarrow> 'r option) \<Rightarrow> 'r option drv" where
  "driver_result fetch = ask fetch"

text \<open>Whether the program was built for threads is an argument.\<close>

definition thread_aware :: "bool \<Rightarrow> library_info \<Rightarrow> bool" where
  "thread_aware built I \<longleftrightarrow> built \<and> i_thread_safe I"

definition thread_start :: "mysql_api \<Rightarrow> library_info \<Rightarrow> bool" where
  "thread_start A I \<longleftrightarrow> 40000 < version_id A \<and> i_thread_init I"

text \<open>The calls of the connection, and those of a query, which ask the driver of their connection.\<close>

definition conn_client_version :: "conn_env \<Rightarrow> string cn" where
  "conn_client_version E = on_driver (driver_client_version (ce_api E))"

definition conn_errnum :: "library_info \<Rightarrow> 32 word cn" where
  "conn_errnum I = on_driver (driver_errnum I)"

definition conn_ipc_info :: "library_info \<Rightarrow> string cn" where
  "conn_ipc_info I = on_driver (ipc_info I)"

definition conn_protocol_version :: "library_info \<Rightarrow> 32 word cn" where
  "conn_protocol_version I = on_driver (protocol_version I)"

definition conn_server_status :: "conn_env \<Rightarrow> library_info \<Rightarrow> string cn" where
  "conn_server_status E I = on_driver (server_status (ce_api E) I)"

definition conn_server_version :: "library_info \<Rightarrow> string cn" where
  "conn_server_version I = on_driver (server_version I)"

definition conn_thread_id :: "library_info \<Rightarrow> 64 word cn" where
  "conn_thread_id I = on_driver (thread_id I)"

definition conn_assign :: "conn_env \<Rightarrow> connection \<Rightarrow> string option list \<Rightarrow> 32 word \<Rightarrow> unit cn" where
  "conn_assign E rhs args port = conn_copy E rhs args port"

definition query_affected_rows :: "library_info \<Rightarrow> 64 word cn" where
  "query_affected_rows I = on_driver (affected_rows I)"

definition query_error :: "conn_env \<Rightarrow> string cn" where
  "query_error E = gets (conn_error (ce_api E))"

definition query_bool :: "connection \<Rightarrow> query \<Rightarrow> bool" where
  "query_bool conn q \<longleftrightarrow> c_copacetic conn \<and> q_copacetic q"

definition query_errnum :: "library_info \<Rightarrow> 32 word cn" where
  "query_errnum I = conn_errnum I"

definition query_info_text :: "library_info \<Rightarrow> string cn" where
  "query_info_text I = on_driver (query_info I)"

definition query_insert_id :: "library_info \<Rightarrow> 64 word cn" where
  "query_insert_id I = on_driver (insert_id I)"

definition query_more_results :: "conn_env \<Rightarrow> library_info \<Rightarrow> bool cn" where
  "query_more_results E I = on_driver (more_results (ce_api E) I)"

definition query_result_empty :: "library_info \<Rightarrow> bool cn" where
  "query_result_empty I = on_driver (result_empty I)"

text \<open>
  The result of \<open>execute\<close>: the pointer to the connection converts to true, and the three answers are
  asked for in an order the language leaves open; each of them only clears the error text.
\<close>

record simple_result =
  sr_copacetic :: bool
  sr_insert_id :: "64 word"
  sr_rows :: "64 word"
  sr_info :: string

definition SimpleResult_default :: simple_result where
  "SimpleResult_default = \<lparr>sr_copacetic = False, sr_insert_id = 0, sr_rows = 0, sr_info = []\<rparr>"

definition SimpleResult_new :: "bool \<Rightarrow> 64 word \<Rightarrow> 64 word \<Rightarrow> string \<Rightarrow> simple_result" where
  "SimpleResult_new copacetic i rows info =
     \<lparr>sr_copacetic = copacetic, sr_insert_id = i, sr_rows = rows, sr_info = info\<rparr>"

definition execute_result :: "library_info \<Rightarrow> bool \<Rightarrow> simple_result cn" where
  "execute_result I ok = (if ok then
     bind (query_insert_id I) (\<lambda>i. bind (query_affected_rows I) (\<lambda>n.
     bind (query_info_text I) (\<lambda>t. ret (SimpleResult_new True i n t))))
     else ret SimpleResult_default)"

section \<open>Counting rows\<close>

text \<open>The first row of the answer is taken without looking whether there is one.\<close>

definition first_cell :: "store_result \<Rightarrow> 64 word res" where
  "first_cell res = (case st_rows res of [] \<Rightarrow> Inl (UB OutOfBounds)
     | row # _ \<Rightarrow> rbind (Row_index row 0) conv_ulong)"

definition count_query ::
  "sql_env \<Rightarrow> 'r result_api \<Rightarrow> (db_call list \<Rightarrow> 'r) \<Rightarrow> string \<Rightarrow> store_result qry" where
  "count_query E A handle table =
     bind (block (map insert_text [''SELECT COUNT(*) FROM `'', table, ''`''])) (\<lambda>_.
       query_store E A handle (store_default E))"

definition count_rows ::
  "conn_env \<Rightarrow> 'r result_api \<Rightarrow> (db_call list \<Rightarrow> 'r) \<Rightarrow> string \<Rightarrow> 64 word cn" where
  "count_rows E A handle table = bind (set_c_error []) (\<lambda>_ c.
     case query_on (c_throw c) (c_sent c) [] (count_query (ce_sql E) A handle table) of
       (r, h) \<Rightarrow> (rbind r (\<lambda>res. if st_copacetic res then first_cell res else Inr 0), c\<lparr>c_sent := h\<rparr>))"

section \<open>Texts of exceptions\<close>

text \<open>
  \<open>BadConversion\<close> copies the data into a \<open>std::string\<close> before it asks whether the pointer is null.
\<close>

definition BadConversion_what :: "string \<Rightarrow> string option \<Rightarrow> string res" where
  "BadConversion_what tn d = (case d of None \<Rightarrow> Inl (UB NullDeref)
     | Some s \<Rightarrow> Inr (''Bad type conversion: '' @ [CHR 0x22] @ s @ [CHR 0x22] @ '' incompatible with '' @
         [CHR 0x22] @ tn @ [CHR 0x22] @ '' type''))"

definition BadFieldName_what :: "string \<Rightarrow> string" where
  "BadFieldName_what bad_field = ''Unknown field name: '' @ bad_field"

definition BadIndex_what :: "string \<Rightarrow> int32 \<Rightarrow> int32 \<Rightarrow> string" where
  "BadIndex_what what bad_index max_index = ''Index '' @ show_int (sint bad_index) @ '' on '' @ what @
     '' out of range, max legal index is '' @ show_int (sint max_index)"

definition Row_at_message :: "sql_row \<Rightarrow> nat \<Rightarrow> string" where
  "Row_at_message r i = BadIndex_what ''Row'' (of_nat i) (of_nat (length (row_data r)))"

text \<open>
  \<open>SQLTypeAdapter::at\<close> may throw nothing but \<open>std::out_of_range\<close>, which \<open>BadIndex\<close> is not, so that the
  exception ends the program. The byte behind the text is its zero byte.
\<close>

definition STA_at :: "adapter \<Rightarrow> nat \<Rightarrow> char res" where
  "STA_at a i = (case ad_buffer a of None \<Rightarrow> Inl (UB Terminated)
     | Some b \<Rightarrow> if i \<le> length (sta_data a) then Inr ((buf_data b @ [CHR 0x00]) ! i)
         else Inl (UB Terminated))"

section \<open>Templates filled in by arguments and defaults\<close>

lemma set_params_copies: "set_params as = map STA_copy as"
proof -
  have "fold push_param as acc = acc @ map STA_copy as" for acc
    by (induction as arbitrary: acc) (simp_all add: push_param_def)
  then show ?thesis by (simp add: set_params_def)
qed

lemma insertion_either_way:
  assumes "insertion E opt S False = Inr (t, S0)"
  shows "\<exists>S'. insertion E opt S True = Inr (t, S')"
proof -
  have "fst (pprepare E opt S True) = fst (pprepare E opt S False)" by (simp add: pprepare_def Let_def)
  then show ?thesis
    using assms by (cases "sta_is_null S") (auto simp: insertion_def prod_eq_iff split: if_splits)
qed

lemma expand_piece_cong: "l ! p_num p = l' ! p_num p \<Longrightarrow> expand_piece E l p = expand_piece E l' p"
  by (simp add: expand_piece_def)

text \<open>The values of the parameters: the arguments, and the defaults behind them.\<close>

definition values_of :: "adapter list \<Rightarrow> adapter list \<Rightarrow> adapter list" where
  "values_of l d = l @ drop (length l) d"

lemma values_of_nth:
  "n < length l \<Longrightarrow> values_of l d ! n = l ! n"
  "length l \<le> n \<Longrightarrow> n < length d \<Longrightarrow> values_of l d ! n = d ! n"
  by (auto simp: values_of_def nth_append)

definition behind :: "nat \<Rightarrow> piece list \<Rightarrow> nat list" where
  "behind k ps = filter ((\<le>) k) (map p_num ps)"

definition fillable :: "adapter list \<Rightarrow> adapter list \<Rightarrow> piece \<Rightarrow> bool" where
  "fillable l d p \<longleftrightarrow> piece_ok p \<and> p_num p < length (values_of l d) \<and> ad_buffer (values_of l d ! p_num p) \<noteq> None"

lemma one_piece:
  assumes "fillable l (q_defaults q) p"
  shows "\<exists>S. (proc_elems E (elem_of p # es) (Given False l) q =
      proc_elems E es (Given False l)
        (q\<lparr>q_defaults := (if p_num p < length l then q_defaults q else (q_defaults q)[p_num p := S]),
           q_sbuffer := q_sbuffer q @ expand_piece E (values_of l (q_defaults q)) p\<rparr>))"
proof -
  let ?S = "values_of l (q_defaults q) ! p_num p"
  have p: "p_opt p \<in> {CHR '' '', CHR ''q'', CHR ''Q''}" "ad_buffer ?S \<noteq> None"
    using assms by (simp_all add: fillable_def piece_ok_def)
  obtain t where t: "insertion E (p_opt p) ?S False = Inr (t, ?S)"
    "p_before p @ t = expand_piece E (values_of l (q_defaults q)) p"
    using insertion_given [OF p(2), of E p "values_of l (q_defaults q)"] p(1) by auto
  show ?thesis
  proof (cases "p_num p < length l")
    case True
    then show ?thesis
      using t by (simp add: values_of_nth elem_of_def insert_text_def proc_param_def bind_assoc)
  next
    case False
    then have n: "p_num p < length (q_defaults q)" using assms by (auto simp: fillable_def values_of_def)
    then have "?S = q_defaults q ! p_num p" using False by (simp add: values_of_nth)
    moreover obtain S' where "insertion E (p_opt p) ?S True = Inr (t, S')"
      using insertion_either_way [OF t(1)] by blast
    ultimately show ?thesis
      using t(2) False n
      by (intro exI [of _ S']) (simp add: elem_of_def insert_text_def proc_param_def default_param_def bind_assoc)
  qed
qed

lemma filled:
  assumes "list_all (fillable l (q_defaults q)) ps" and "distinct (behind (length l) ps)"
  shows "\<exists>d. length d = length (q_defaults q) \<and>
    (\<forall>n. n \<notin> set (behind (length l) ps) \<longrightarrow> d ! n = q_defaults q ! n) \<and>
    proc_elems E (map elem_of ps @ es) (Given False l) q = proc_elems E es (Given False l)
      (q\<lparr>q_defaults := d, q_sbuffer := q_sbuffer q @ concat (map (expand_piece E (values_of l (q_defaults q))) ps)\<rparr>)"
  using assms
proof (induction ps arbitrary: q)
  case Nil
  then show ?case by (intro exI [of _ "q_defaults q"]) simp
next
  case (Cons p ps)
  obtain S where S: "proc_elems E (elem_of p # map elem_of ps @ es) (Given False l) q =
      proc_elems E (map elem_of ps @ es) (Given False l)
        (q\<lparr>q_defaults := (if p_num p < length l then q_defaults q else (q_defaults q)[p_num p := S]),
           q_sbuffer := q_sbuffer q @ expand_piece E (values_of l (q_defaults q)) p\<rparr>)"
    using one_piece [of l q p E "map elem_of ps @ es"] Cons.prems(1) by auto
  define d where "d = (if p_num p < length l then q_defaults q else (q_defaults q)[p_num p := S])"
  have d: "length d = length (q_defaults q)"
    "\<And>n. n < length l \<or> n \<noteq> p_num p \<Longrightarrow> values_of l d ! n = values_of l (q_defaults q) ! n"
    by (auto simp: d_def values_of_def nth_append drop_update_swap)
  have other: "values_of l d ! p_num p' = values_of l (q_defaults q) ! p_num p'" if "p' \<in> set ps" for p'
    using Cons.prems(2) that by (intro d(2)) (auto simp: behind_def image_iff split: if_splits)
  have len: "length (values_of l d) = length (values_of l (q_defaults q))" using d(1) by (simp add: values_of_def)
  have ok: "list_all (fillable l d) ps"
    using Cons.prems(1) other len by (auto simp: list_all_iff fillable_def)
  have same: "map (expand_piece E (values_of l d)) ps = map (expand_piece E (values_of l (q_defaults q))) ps"
    using other by (auto intro: expand_piece_cong)
  have rest: "distinct (behind (length l) ps)" using Cons.prems(2) by (auto simp: behind_def split: if_splits)
  let ?q = "q\<lparr>q_defaults := d, q_sbuffer := q_sbuffer q @ expand_piece E (values_of l (q_defaults q)) p\<rparr>"
  obtain d' where d': "length d' = length d" "\<forall>n. n \<notin> set (behind (length l) ps) \<longrightarrow> d' ! n = d ! n"
    "proc_elems E (map elem_of ps @ es) (Given False l) ?q = proc_elems E es (Given False l)
      (?q\<lparr>q_defaults := d', q_sbuffer := q_sbuffer ?q @ concat (map (expand_piece E (values_of l d)) ps)\<rparr>)"
    using Cons.IH [of ?q] ok rest by auto
  have "\<forall>n. n \<notin> set (behind (length l) (p # ps)) \<longrightarrow> d' ! n = q_defaults q ! n"
    using d'(2) by (auto simp: behind_def d_def split: if_splits)
  then show ?case
    using d' d(1) S same by (intro exI [of _ d']) (simp add: d_def [symmetric])
qed

lemma parsed_with_defaults:
  assumes "list_all piece_ok ps" and "CHR 0x00 \<notin> set tail"
  shows "\<exists>q. parse (Query_new te (Some (render ps tail))) = Inr q \<and>
    q_elems q = map elem_of ps @ [last_elem tail] \<and> q_sent q = [] \<and> q_throw q = te"
  using parse_text [OF assms, of "Query_new te (Some (render ps tail))"] by (auto simp: Query_new_def)

lemma text_of_elems:
  assumes "q_elems q \<noteq> []"
  shows "str_of_query E (parms_of args) q = bind (proc_elems E (q_elems q) (Given False (map STA_copy args)))
    (\<lambda>_ q. (Inr (q_sbuffer q), q)) (q\<lparr>q_sbuffer := []\<rparr>)"
  using assms
  by (simp add: parms_of_def set_params_copies str_of_query_def proc_def bind_assoc)

lemma macro_run:
  "2 \<le> length args \<Longrightarrow> length args \<le> 25 \<Longrightarrow> execute_args E args = Some (execute_parms E (parms_of args))"
  by (simp add: execute_args_def arguments_def)

lemma text_filled:
  assumes "q_elems q = map elem_of ps @ [last_elem tail]" and "distinct (behind (length args) ps)"
    and "list_all (fillable (map STA_copy args) (q_defaults q)) ps"
  shows "\<exists>d. length d = length (q_defaults q) \<and>
    (\<forall>n. n \<notin> set (behind (length args) ps) \<longrightarrow> d ! n = q_defaults q ! n) \<and>
    str_of_query E (parms_of args) q = (let t = expand E (values_of (map STA_copy args) (q_defaults q)) ps tail in
      (Inr t, q\<lparr>q_defaults := d, q_sbuffer := t\<rparr>))"
proof -
  have "list_all (fillable (map STA_copy args) (q_defaults (q\<lparr>q_sbuffer := []\<rparr>))) ps"
    "distinct (behind (length (map STA_copy args)) ps)"
    using assms(2,3) by simp_all
  from filled [OF this, of E "[last_elem tail]"] obtain d where
    d: "length d = length (q_defaults q)" "\<forall>n. n \<notin> set (behind (length args) ps) \<longrightarrow> d ! n = q_defaults q ! n"
    "proc_elems E (map elem_of ps @ [last_elem tail]) (Given False (map STA_copy args)) (q\<lparr>q_sbuffer := []\<rparr>) =
      proc_elems E [last_elem tail] (Given False (map STA_copy args)) (q\<lparr>q_defaults := d,
        q_sbuffer := concat (map (expand_piece E (values_of (map STA_copy args) (q_defaults q))) ps)\<rparr>)"
    by auto
  have "str_of_query E (parms_of args) q = (let t = expand E (values_of (map STA_copy args) (q_defaults q)) ps tail in
      (Inr t, q\<lparr>q_defaults := d, q_sbuffer := t\<rparr>))"
    using d(3) assms(1)
    by (subst text_of_elems) (simp_all add: Let_def last_elem_def insert_text_def bind_def expand_def)
  then show ?thesis using d by blast
qed

lemma missing_stops:
  assumes "piece_ok p" and "length l \<le> p_num p" and "length (q_defaults q) \<le> p_num p"
  shows "proc_elems E (elem_of p # es) (Given False l) q =
    (Inl (Throw (BadParamCount ''Not enough parameters to fill the template.'')),
     q\<lparr>q_sbuffer := q_sbuffer q @ p_before p @ '' ERROR''\<rparr>)"
  using assms by (simp add: elem_of_def insert_text_def proc_param_def default_param_def bind_assoc bind_def)

lemma asked: "on_driver (ask f) c = (Inr (f (d_calls (c_driver c))), c\<lparr>c_driver := (c_driver c)\<lparr>d_error := []\<rparr>\<rparr>)"
  by (simp add: on_driver_def ask_def clear_error_def)

lemma on_driver_bind: "on_driver (bind m f) c = bind (on_driver m) (\<lambda>x. on_driver (f x)) c"
  by (simp add: on_driver_def bind_def split: prod.split sum.split)

lemma on_driver_ret: "on_driver (ret x) = ret x" "on_driver (gets f) = gets (\<lambda>c. f (c_driver c))"
  by (auto simp: on_driver_def)

section \<open>Properties\<close>

text \<open>C13: a template that is executed with two to twenty-five parameters one by one sends exactly one
  statement, the template with the arguments in their places and the query's default values in the places behind
  them. Only the defaults that were used are changed, the elements stay, and the call answers or
  throws as the server does.\<close>
theorem arguments_then_defaults:
  assumes "2 \<le> length args" and "length args \<le> 25" and "CHR 0x00 \<notin> set tail" and "distinct (behind (length args) ps)"
    and "list_all (fillable (map STA_copy args) d) ps"
  shows "\<exists>q. parse (Query_new te (Some (render ps tail))) = Inr q \<and>
    (\<exists>call. execute_args E args = Some call \<and> (case call (q\<lparr>q_defaults := d\<rparr>) of (r, q') \<Rightarrow>
      q_sent q' = [Db_Query (expand E (values_of (map STA_copy args) d) ps tail)] \<and>
      r = (if e_ok E (q_sent q') then Inr True
           else if te then Inl (Throw (BadQuery (e_error E))) else Inr False) \<and>
      q_elems q' = q_elems q \<and> length (q_defaults q') = length d \<and>
      (\<forall>n. n \<notin> set (behind (length args) ps) \<longrightarrow> q_defaults q' ! n = d ! n)))"
proof -
  have "list_all piece_ok ps" using assms(5) by (auto simp: list_all_iff fillable_def)
  from parsed_with_defaults [OF this assms(3), of te] obtain q where
    q: "parse (Query_new te (Some (render ps tail))) = Inr q" "q_sent q = []" "q_throw q = te"
    "q_elems q = map elem_of ps @ [last_elem tail]"
    by blast
  obtain d' where d': "length d' = length d" "\<forall>n. n \<notin> set (behind (length args) ps) \<longrightarrow> d' ! n = d ! n"
    "str_of_query E (parms_of args) (q\<lparr>q_defaults := d, q_processing := True\<rparr>) =
      (let t = expand E (values_of (map STA_copy args) d) ps tail in
       (Inr t, q\<lparr>q_defaults := d, q_processing := True\<rparr>\<lparr>q_defaults := d', q_sbuffer := t\<rparr>))"
    using text_filled [of "q\<lparr>q_defaults := d, q_processing := True\<rparr>" ps tail args E] q(4) assms(4,5) by auto
  show ?thesis
    using d' q assms(1,2)
    by (simp add: macro_run execute_parms_def with_parms_def with_flag_def at_exit_def
        execute_statement_def run_statement_def driver_call_def after_success_def complain_def bind_assoc
        bind_Inr Let_def)
qed

text \<open>When a place of the template has neither one of two to twenty-five arguments nor a default,
  the call throws, nothing is sent, and the text so far stays in the query with the word ERROR behind it.\<close>
theorem missing_argument_stops:
  assumes "2 \<le> length args" and "length args \<le> 25" and "CHR 0x00 \<notin> set tail" and "distinct (behind (length args) ps)"
    and "list_all (fillable (map STA_copy args) d) ps"
    and "piece_ok p" and "length args \<le> p_num p" and "length d \<le> p_num p" and "list_all piece_ok ps'"
  shows "\<exists>q. parse (Query_new te (Some (render (ps @ p # ps') tail))) = Inr q \<and>
    (\<exists>call. execute_args E args = Some call \<and> (case call (q\<lparr>q_defaults := d\<rparr>) of (r, q') \<Rightarrow>
      r = Inl (Throw (BadParamCount ''Not enough parameters to fill the template.'')) \<and> q_sent q' = [] \<and>
      q_sbuffer q' = expand E (values_of (map STA_copy args) d) ps (p_before p @ '' ERROR'') \<and>
      \<not> q_processing q'))"
proof -
  have "list_all piece_ok (ps @ p # ps')" using assms(5,6,9) by (auto simp: list_all_iff fillable_def)
  from parsed_with_defaults [OF this assms(3), of te] obtain q where
    q: "parse (Query_new te (Some (render (ps @ p # ps') tail))) = Inr q" "q_sent q = []"
    "q_elems q = map elem_of ps @ elem_of p # map elem_of ps' @ [last_elem tail]"
    by auto
  let ?q = "q\<lparr>q_defaults := d, q_processing := True, q_sbuffer := []\<rparr>"
  obtain d' where d': "length d' = length d"
    "proc_elems E (q_elems q) (Given False (map STA_copy args)) ?q =
      proc_elems E (elem_of p # map elem_of ps' @ [last_elem tail]) (Given False (map STA_copy args))
        (?q\<lparr>q_defaults := d', q_sbuffer := concat (map (expand_piece E (values_of (map STA_copy args) d)) ps)\<rparr>)"
    using filled [of "map STA_copy args" ?q ps E "elem_of p # map elem_of ps' @ [last_elem tail]"] q(3) assms(4,5)
    by auto
  have "proc_elems E (q_elems q) (Given False (map STA_copy args)) ?q =
      (Inl (Throw (BadParamCount ''Not enough parameters to fill the template.'')),
       ?q\<lparr>q_defaults := d', q_sbuffer := expand E (values_of (map STA_copy args) d) ps (p_before p @ '' ERROR'')\<rparr>)"
    unfolding d'(2) using d'(1) assms(6-8) by (subst missing_stops) (simp_all add: expand_def)
  then have "str_of_query E (parms_of args) (q\<lparr>q_defaults := d, q_processing := True\<rparr>) =
      (Inl (Throw (BadParamCount ''Not enough parameters to fill the template.'')),
       ?q\<lparr>q_defaults := d', q_sbuffer := expand E (values_of (map STA_copy args) d) ps (p_before p @ '' ERROR'')\<rparr>)"
    using q(3) by (subst text_of_elems) (simp_all add: bind_Inl)
  then show ?thesis
    using q assms(1,2)
    by (simp add: macro_run execute_parms_def with_parms_def with_flag_def at_exit_def
        bind_Inl)
qed

text \<open>The calls that ask the library leave a connection as it is but for the error text of its driver,
  which is lost: the connection then reports its own complaint if it has one, and the library's
  otherwise. Only the error number can be read without that.\<close>
theorem asking_loses_driver_error:
  shows "snd (conn_client_version E c) = c\<lparr>c_driver := (c_driver c)\<lparr>d_error := []\<rparr>\<rparr> \<and>
    snd (conn_ipc_info I c) = c\<lparr>c_driver := (c_driver c)\<lparr>d_error := []\<rparr>\<rparr> \<and>
    snd (conn_protocol_version I c) = c\<lparr>c_driver := (c_driver c)\<lparr>d_error := []\<rparr>\<rparr> \<and>
    snd (conn_server_version I c) = c\<lparr>c_driver := (c_driver c)\<lparr>d_error := []\<rparr>\<rparr> \<and>
    snd (conn_thread_id I c) = c\<lparr>c_driver := (c_driver c)\<lparr>d_error := []\<rparr>\<rparr> \<and>
    snd (execute_result I True c) = c\<lparr>c_driver := (c_driver c)\<lparr>d_error := []\<rparr>\<rparr> \<and>
    snd (query_more_results E I c) = c\<lparr>c_driver := (c_driver c)\<lparr>d_error := []\<rparr>\<rparr> \<and>
    snd (query_result_empty I c) = c\<lparr>c_driver := (c_driver c)\<lparr>d_error := []\<rparr>\<rparr> \<and>
    snd (query_errnum I c) = c \<and>
    conn_error A (c\<lparr>c_driver := (c_driver c)\<lparr>d_error := []\<rparr>\<rparr>) =
      (if c_error c \<noteq> [] then c_error c else last_error A (d_calls (c_driver c)))"
  by (simp add: asked conn_client_version_def driver_client_version_def conn_ipc_info_def ipc_info_def
      conn_protocol_version_def protocol_version_def conn_server_version_def server_version_def
      conn_thread_id_def thread_id_def execute_result_def query_insert_id_def insert_id_def
      query_affected_rows_def affected_rows_def query_info_text_def query_info_def query_more_results_def
      more_results_def query_result_empty_def result_empty_def query_errnum_def conn_errnum_def
      driver_errnum_def on_driver_bind on_driver_ret bind_Inr bind_assoc conn_error_def driver_error_def)

text \<open>The result of an executed statement has the library's answers after the statement, in whatever
  order they are asked for.\<close>
theorem execute_result_answers:
  "execute_result I True c = (Inr \<lparr>sr_copacetic = True, sr_insert_id = i_insert_id I (d_calls (c_driver c)),
      sr_rows = i_affected_rows I (d_calls (c_driver c)),
      sr_info = (case i_info I (d_calls (c_driver c)) of Some s \<Rightarrow> s | None \<Rightarrow> [])\<rparr>,
     c\<lparr>c_driver := (c_driver c)\<lparr>d_error := []\<rparr>\<rparr>) \<and>
   execute_result I True c = bind (query_info_text I) (\<lambda>t. bind (query_affected_rows I) (\<lambda>n.
     bind (query_insert_id I) (\<lambda>i. ret (SimpleResult_new True i n t)))) c"
  by (simp add: execute_result_def query_insert_id_def insert_id_def query_affected_rows_def affected_rows_def
      query_info_text_def query_info_def on_driver_bind on_driver_ret asked bind_Inr bind_assoc SimpleResult_new_def)

text \<open>Asking for the server's status when the server does not answer makes a string of a null pointer.\<close>
theorem status_of_lost_server:
  "fst (conn_server_status E I c) = Inl (UB NullDeref) \<longleftrightarrow>
    \<not> succeeds (ce_api E) (d_calls (c_driver c)) Mysql_stat"
  by (simp add: conn_server_status_def server_status_def on_driver_def wrap_def call_def clear_error_def
      bind_assoc split: prod.split)


definition count_statement :: "string \<Rightarrow> string" where
  "count_statement table = ''SELECT COUNT(*) FROM `'' @ table @ ''`''"

lemma count_text: "block (map insert_text [''SELECT COUNT(*) FROM `'', table, ''`'']) q =
    (Inr (), q\<lparr>q_sbuffer := q_sbuffer q @ count_statement table\<rparr>)"
  by (simp add: insert_text_def count_statement_def)

lemma count_run:
  fixes h :: "db_call list" and table :: string
  defines "h1 \<equiv> h @ [Db_Query (count_statement table)]"
  shows "query_on te h [] (count_query E A handle table) =
    (if e_ok E h1 then
       (if e_result E (h1 @ [Db_Store]) then
          (StoreQueryResult_new A (e_platform E) (Some (handle (h1 @ [Db_Store]))) True te, h1 @ [Db_Store])
        else (if e_errnum E (h1 @ [Db_Store]) = 0 \<or> \<not> te then Inr StoreQueryResult_default
              else Inl (Throw (BadQuery (e_error E))), h1 @ [Db_Store]))
     else (if e_errnum E h1 = 0 \<or> \<not> te then Inr StoreQueryResult_default
           else Inl (Throw (BadQuery (e_error E))), h1))"
  unfolding h1_def query_on_def count_query_def bind_Inr [OF count_text]
  by (simp add: query_store_def store_default_def with_parms_def
      with_flag_def at_exit_def bind_def str_of_query_def Query_new_def store_statement_def result_statement_def
      run_statement_def driver_call_def after_success_def complain_def reset_def)

lemma first_cell_number:
  assumes "n < 2 ^ 64" and "row_data row = [String_string (show_nat n) ty False]"
  shows "first_cell \<lparr>st_base = rb, st_rows = row # rows, st_copacetic = ok\<rparr> = Inr (of_nat n)"
proof -
  have "show_int (uint (of_nat n :: 64 word)) = show_nat n"
    using assms(1) by (simp add: show_int_def unat_of_nat uint_nat)
  then have "conv_ulong (String_string (show_nat n) ty False) = Inr (of_nat n)"
    using conv_back(8) [of "of_nat n" ty] by (simp add: String_string_def SQLBuffer_new_def)
  then show ?thesis using assms(2) by (simp add: first_cell_def Row_index_def Row_at_def)
qed

text \<open>\<open>count_rows\<close> sends one statement, fetches its result and answers the number in its one cell; an
  answer without rows is read behind the end of the vector of rows.\<close>
theorem count_rows_reads:
  assumes "h = c_sent c @ [Db_Query (count_statement table), Db_Store]"
    and "e_ok (ce_sql E) (butlast h)" and "e_result (ce_sql E) h"
    and "rows = [] \<or> rows = [[Some (show_nat n)]]" and "n < 2 ^ 64"
    and "result_set A (e_platform (ce_sql E)) (handle h) rows"
    and "api_num_rows A (handle_after A (e_platform (ce_sql E)) (handle h)) = length rows"
  shows "count_rows E A handle table c =
    (if rows = [] then Inl (UB OutOfBounds) else Inr (of_nat n), c\<lparr>c_error := [], c_sent := h\<rparr>)"
proof -
  have h: "h = (c_sent c @ [Db_Query (count_statement table)]) @ [Db_Store]"
    using assms(1) by simp
  have ok: "e_ok (ce_sql E) (c_sent c @ [Db_Query (count_statement table)])"
    using assms(2) unfolding h butlast_snoc .
  let ?pl = "e_platform (ce_sql E)"
  have run: "query_on (c_throw c) (c_sent c) [] (count_query (ce_sql E) A handle table) =
      (StoreQueryResult_new A ?pl (Some (handle h)) True (c_throw c), h)"
    using count_run [of "c_throw c" "c_sent c" "ce_sql E" A handle table] ok assms(1,3) by simp
  have one: "length (rb_fields (base_of A ?pl (handle h) (c_throw c))) = 1" if "rows \<noteq> []"
    using that assms(4) result_setD(2) [OF assms(6), of "c_throw c"] by (auto simp: wide_def)
  have cell: "row_data (Row_assign Row_default (the_row (base_of A ?pl (handle h) (c_throw c)) (c_throw c) [Some (show_nat n)])) =
      [String_string (show_nat n) (f_type (rb_fields (base_of A ?pl (handle h) (c_throw c)) ! 0)) False]" if "rows \<noteq> []"
    using one [OF that] by (simp add: Row_assign_def the_row_def the_cell_def)
  show ?thesis
    using run stored [OF assms(6,7), of "c_throw c"] assms(4) first_cell_number [OF assms(5) cell]
    by (auto simp: count_rows_def set_c_error_def) (simp add: first_cell_def)
qed

text \<open>When the server refuses to count, the call throws or answers zero as the connection is set, and
  fetches nothing; zero is also the answer when the library names no error.\<close>
theorem count_rows_refused:
  assumes "h = c_sent c @ [Db_Query (count_statement table)]" and "\<not> e_ok (ce_sql E) h"
  shows "count_rows E A handle table c =
    (if c_throw c \<and> e_errnum (ce_sql E) h \<noteq> 0 then Inl (Throw (BadQuery (e_error (ce_sql E)))) else Inr 0,
     c\<lparr>c_error := [], c_sent := h\<rparr>)"
  using assms count_run [of "c_throw c" "c_sent c" "ce_sql E" A handle table]
  by (auto simp: count_rows_def set_c_error_def StoreQueryResult_default_def)

text \<open>The index that the text of a row's exception calls the largest legal one is refused.\<close>
theorem bad_index_message:
  assumes "length (row_data r) < 2 ^ 31" and "i < 2 ^ 31" and "length (row_data r) \<le> i"
  shows "Row_at r i = Inl (Throw BadIndex) \<and> Row_at r (length (row_data r)) = Inl (Throw BadIndex) \<and>
    Row_at_message r i = ''Index '' @ show_nat i @ '' on Row out of range, max legal index is '' @
      show_nat (length (row_data r))"
proof -
  have "sint (of_nat n :: int32) = int n" if "n < 2 ^ 31" for n
    using that by (simp add: signed_of_nat signed_take_bit_int_eq_self)
  then show ?thesis using assms by (simp add: Row_at_def Row_at_message_def BadIndex_what_def show_int_def)
qed

text \<open>\<open>at\<close> of a value answers its bytes and the zero byte behind them, and ends the program for any
  other index.\<close>
theorem value_at:
  "STA_at a i = (if ad_buffer a = None \<or> length (sta_data a) < i then Inl (UB Terminated)
     else Inr (if i = length (sta_data a) then CHR 0x00 else sta_data a ! i))"
  by (auto simp: STA_at_def sta_data_def nth_append split: option.split)

section \<open>Examples\<close>

definition three_places :: "piece list" where
  "three_places = [Piece ''a='' CHR '' '' 0 ''a'', Piece '' b='' CHR '' '' 1 ''b'', Piece '' c='' CHR ''q'' 2 ''c'']"

definition two_values :: "adapter list" where
  "two_values = [example_text ''x'', example_text ''y'']"

definition three_defaults :: "adapter list" where
  "three_defaults = [example_text ''d'', example_text ''e'', example_text ''f'']"

lemma three_places_ok: "list_all piece_ok three_places"
  by (simp add: three_places_def piece_ok_def name_char_def is_alnum_def is_digit_def)

lemma three_places_fillable:
  "list_all (fillable (map STA_copy two_values) three_defaults) three_places"
  "distinct (behind (length two_values) three_places)"
  using three_places_ok
  by (simp_all add: three_places_def two_values_def three_defaults_def fillable_def values_of_def STA_copy_def
      example_text_def STA_string_def adapter_of_def behind_def)

lemma two_values_count: "2 \<le> length two_values" "length two_values \<le> 25"
  by (simp_all add: two_values_def)

lemma three_places_expanded:
  "expand example_env (values_of (map STA_copy two_values) three_defaults) three_places [] =
    ''a=x b=y c='' @ [CHR 0x27] @ ''f'' @ [CHR 0x27]"
proof -
  have "sta_escape_q (e_platform example_env) (example_text ''f'')" "sta_quote_q (e_platform example_env) (example_text ''f'')"
    by (simp_all add: example_text_quoted)
  then show ?thesis
    by (simp add: expand_def three_places_def two_values_def three_defaults_def values_of_def expand_piece_def
        Let_def quoted_def STA_copy_def example_text_def STA_string_def adapter_of_def sta_is_null_def sta_data_def)
      (simp add: example_env_def)
qed

theorem arguments_then_defaults_witness:
  "\<exists>q call. parse (Query_new True (Some (render three_places []))) = Inr q \<and>
    execute_args example_env two_values = Some call \<and>
    q_sent (snd (call (q\<lparr>q_defaults := three_defaults\<rparr>))) =
      [Db_Query (''a=x b=y c='' @ [CHR 0x27] @ ''f'' @ [CHR 0x27])]"
  using arguments_then_defaults [OF two_values_count _ three_places_fillable(2,1), of "[]" True example_env]
  unfolding three_places_expanded by (auto simp: case_prod_beta)

theorem missing_argument_stops_witness:
  "\<exists>q call. parse (Query_new True (Some (render (three_places @ [Piece '' d='' CHR '' '' 3 ''d'']) []))) = Inr q \<and>
    execute_args example_env two_values = Some call \<and>
    q_sent (snd (call (q\<lparr>q_defaults := three_defaults\<rparr>))) = []"
proof -
  have "piece_ok (Piece '' d='' CHR '' '' 3 ''d'')"
    by (simp add: piece_ok_def name_char_def is_alnum_def is_digit_def)
  moreover have "length two_values \<le> p_num (Piece '' d='' CHR '' '' 3 ''d'')"
    "length three_defaults \<le> p_num (Piece '' d='' CHR '' '' 3 ''d'')"
    by (simp_all add: two_values_def three_defaults_def)
  ultimately show ?thesis
    using missing_argument_stops [OF two_values_count _ three_places_fillable(2,1), of "[]"
        "Piece '' d='' CHR '' '' 3 ''d''" "[]" True example_env]
    by (auto simp: case_prod_beta)
qed

text \<open>A server whose answers have one column, and a connection to it.\<close>

definition one_column :: "cursor result_api" where
  "one_column = (example_api True id)\<lparr>api_num_fields := (\<lambda>_. 1)\<rparr>"

definition counting_env :: "bool \<Rightarrow> conn_env" where
  "counting_env ok = \<lparr>ce_host = \<lparr>he_file = (\<lambda>_. None), he_service = (\<lambda>_. None)\<rparr>,
     ce_api = \<lparr>version_id = 50000, have_ssl_set = True, client_version = ''5'', flag_value = (\<lambda>_. 0),
       init_flags = 0, succeeds = (\<lambda>_ _. ok), last_error = (\<lambda>_. [])\<rparr>,
     ce_sql = example_env\<lparr>e_ok := (\<lambda>_. ok), e_errnum := (\<lambda>_. if ok then 0 else 1146)\<rparr>\<rparr>"

definition new_connection :: connection where
  "new_connection = Connection_new True (DBDriver_new Map.empty)"

lemma one_column_handle: "handle_after one_column pl (0, [], rows) = (0, [], rows)"
  by (simp add: handle_after_def one_column_def example_api_def)

lemma one_column_serves: "serves one_column rows (i, c, rows)"
  by (induction rows arbitrary: c) (simp_all add: serves_def one_column_def example_api_def)

lemma one_column_set: "list_all (\<lambda>row. length row = 1) rows \<Longrightarrow> result_set one_column pl (0, [], rows) rows"
  by (simp add: result_set_def one_column_handle one_column_serves) (simp add: one_column_def)

theorem count_rows_reads_witness:
  "fst (count_rows (counting_env True) one_column (\<lambda>_. (0, [], [[Some ''42'']])) ''t'' new_connection) = Inr 42 \<and>
   fst (count_rows (counting_env True) one_column (\<lambda>_. (0, [], [])) ''t'' new_connection) = Inl (UB OutOfBounds)"
proof -
  have shown: "show_nat 42 = ''42''" by code_simp
  note reads = count_rows_reads [OF refl, of "counting_env True" new_connection "''t''" _ 42 one_column]
  have env: "e_ok (ce_sql (counting_env True)) h" "e_result (ce_sql (counting_env True)) h" for h
    by (simp_all add: counting_env_def example_env_def)
  have num: "api_num_rows one_column (0, [], rows) = length rows" for rows
    by (simp add: one_column_def example_api_def)
  have sets: "result_set one_column pl (0, [], [[Some ''42'']]) [[Some ''42'']]" "result_set one_column pl (0, [], []) []" for pl
    by (simp_all add: one_column_set)
  show ?thesis
    using reads [of "[[Some ''42'']]" "\<lambda>_. (0, [], [[Some ''42'']])"] reads [of "[]" "\<lambda>_. (0, [], [])"] sets
    by (simp add: env one_column_handle num shown)
qed

theorem count_rows_refused_witness:
  "fst (count_rows (counting_env False) one_column (\<lambda>_. (0, [], [])) ''t'' new_connection) =
    Inl (Throw (BadQuery []))"
proof -
  have "\<not> e_ok (ce_sql (counting_env False)) h" "e_errnum (ce_sql (counting_env False)) h \<noteq> 0"
    "e_error (ce_sql (counting_env False)) = []" for h
    by (simp_all add: counting_env_def example_env_def)
  then show ?thesis
    using count_rows_refused [OF refl, of "counting_env False" new_connection "''t''" one_column "\<lambda>_. (0, [], [])"]
    by (simp add: new_connection_def Connection_new_def)
qed

theorem bad_index_message_witness:
  "Row_at Row_default 0 = Inl (Throw BadIndex) \<and>
    Row_at_message Row_default 0 = ''Index 0 on Row out of range, max legal index is 0''"
proof -
  have "show_nat 0 = ''0''" by code_simp
  then show ?thesis using bad_index_message [of Row_default 0] by (simp add: Row_default_def)
qed

end
