(* ===== verification/Spec2Isabelle.thy ===== *)
theory Spec2Isabelle
  imports Bit_Fields Packet_Facts Internal_Comms Gateway_Text Gateway_Properties Game_Node
    Conn_Pool Sql_Driver Sql_Types Sql_Template Sql_DateTime Sql_Connection Sql_Transaction
    Sql_Manip Sql_Insert Ref_Counted Sql_String Sql_Result Ssx_Parser Sql_Null Ssqls Ssqls_Order Ssx_Main Pool_Threads
    Sql_Calls
begin

text \<open>
  \<^bold>\<open>Verification of CeriosCluster\<close>, a Minecraft server made of a gateway and game nodes.

  \<^bold>\<open>The program.\<close> Clients connect to the gateway (\<open>Client Gateway/\<close>), which speaks the Minecraft
  protocol of the packet library (\<open>MCPacket/\<close>), authenticates players and keeps the tables of
  pending and playing connections. It exchanges datagrams (\<open>InternalComms/\<close>) with the game nodes
  (\<open>Client Server/\<close>), and stores players in a MySQL database through its own copy of MySQL++
  (\<open>mysqlpp/lib/\<close>).

  \<^bold>\<open>Conventions.\<close> \<open>Cerios_Base\<close> names the ways a C++ function can end:
  it returns (\<open>Inr\<close>), throws (\<open>Inl (Throw e)\<close>), breaks a rule of the language
  (\<open>Inl (UB k)\<close>) or never returns (\<open>Diverge\<close>). Integers have their width, as
  words; a container's size is compared at 64 bits. A left shift of an int is defined as in C++ before
  2020: by less than the width, and when the result fits in an unsigned int; otherwise it is \<open>UB
  BadShift\<close> (what the oversized shifts of the bit fields give is a parameter instead). \<open>UB
  Terminated\<close> is the end of the program by an exception that nothing catches. \<open>Effects\<close>
  has the state transformers for code with state, which give the state back also when the code throws,
  and the triples in which invariants are proved. A scope with a destructor is \<open>at_exit\<close>:
  the destructor runs when the scope is left by a return or an exception, and not after undefined
  behaviour, the end of the program or in a scope that is never left. \<open>Codec\<close> is the
  contract of formats: a decoder that inverts an encoder and leaves what follows. It is interpreted by
  VarInts, plain-old-data fields, blobs, the datagram header, the texts of dates and times, and string
  literals.

  \<^bold>\<open>Packets.\<close> \<open>Bit_Fields\<close> models \<open>Bitfield.hpp\<close> and the union \<open>Position\<close>. \<open>VarInt\<close> has the readers,
  writers and the framing of \<open>Packet.cpp\<close>; \<open>Packet_Base\<close> the class \<open>Packet\<close>; \<open>Packets\<close> the thirteen
  packet classes; \<open>Compression\<close> the loops around zlib, whose functions are parameters; \<open>Registry\<close>
  the table of classes and the two factories of \<open>Packet.hpp\<close>. \<open>Packet_Facts\<close> shows which packets
  survive a round trip, which constructors are safe on any input, and what the compressed path
  can deliver. The lengths of round trips are bounded by \<open>2 ^ 31\<close> and those of frames by \<open>2 ^ 21\<close>,
  the ranges of \<open>int32_t\<close> and of three length bytes.

  \<^bold>\<open>Datagrams and game nodes.\<close> \<open>Internal_Comms\<close> models \<open>InternalComms.cpp\<close>: header, constructors,
  \<open>serializeData\<close> and \<open>fromData\<close>. \<open>Game_Node\<close> models the state types and the event loop of
  \<open>Client Server/\<close>: what asio delivers for each wait is an \<open>arrival\<close>, and \<open>listen\<close> runs through a
  list of them.

  \<^bold>\<open>The gateway.\<close> \<open>Gateway_Text\<close> has the text routines (hexadecimal, uuids, the session digest, the
  HTTP header, the console). \<open>Gateway_State\<close> is the state: connection objects in an explicit store,
  so that destroying one makes later uses of its address undefined behaviour; the tables of
  \<open>Login\<close> and \<open>ClientServer\<close>, which are owning maps (\<open>Owning_Map\<close>); the pending asynchronous
  operations; and the trace of outputs. Sockets, clock, OpenSSL, database and rapidjson are the
  record \<open>world\<close>. \<open>Gateway_Send\<close>, \<open>Gateway_Client\<close> and \<open>Gateway_Servers\<close> hold the handlers of
  \<open>Client.cpp\<close>, \<open>ClientServer.cpp\<close> and \<open>LoginServer.cpp\<close>, one definition per function.
  \<open>Gateway_System\<close> is the process as a step relation: a worker takes one completed operation and
  runs its handler. \<open>Gateway_Invariant\<close> and \<open>Gateway_Admission\<close> prove the invariant of the tables,
  and who can become a player, in every reachable state; \<open>Gateway_Facts\<close> evaluates the handlers on
  the inputs of a session; \<open>Gateway_Properties\<close> states the properties.

  \<^bold>\<open>The database library.\<close> \<open>Conn_Pool\<close> models the pool of connections (\<open>cpool.cpp\<close>) and the abstract
  pool it refines; \<open>Pool_Threads\<close> threads that call the pool at the same time, as a step relation in which
  they wait for its mutex (\<open>beemutex.cpp\<close>), and scoped connections. \<open>Sql_Driver\<close> models \<open>dbdriver.cpp\<close> and the options of \<open>options.cpp\<close>, with the
  options in a heap, so that deleting one twice or using a deleted one shows; the C library is
  the record \<open>mysql_api\<close>, which says what succeeds after which calls. \<open>Sql_Types\<close> has the table of
  types (\<open>type_info.cpp\<close>) and the values put into statements (\<open>stadapter.cpp\<close>, \<open>sql_buffer.cpp\<close>);
  \<open>Sql_Template\<close> the template queries (\<open>query.cpp\<close>, \<open>qparms.cpp\<close>): parsing, expansion and the entries
  of \<open>exec\<close>, \<open>execute\<close>, \<open>store\<close> and \<open>use\<close>, with the calls on the connection as a history;
  \<open>Sql_DateTime\<close> dates and times; \<open>Sql_Connection\<close> connections and server addresses;
  \<open>Sql_Transaction\<close> transactions. \<open>Sql_Manip\<close> has the ways a statement is put together from values:
  the manipulators (\<open>manip.cpp\<close>), escaping, lists (\<open>vallist.h\<close>) and sets (\<open>myset.h\<close>); \<open>Sql_Insert\<close> the
  statements that write rows, and \<open>insertfrom\<close> and \<open>replacefrom\<close> (\<open>query.h\<close>, \<open>insertpolicy.h\<close>), which
  spread rows over statements inside a transaction.

  \<^bold>\<open>Results.\<close> \<open>Ref_Counted\<close> models the reference-counted pointer (\<open>refcounted.h\<close>) over a heap of
  objects and counters, as a library of operations and as the states a client can reach with them.
  \<open>Sql_String\<close> is \<open>mystring.h\<close>: what reads a string is a function of its buffer, what shares or marks
  the buffer is an operation of \<open>Ref_Counted\<close>. \<open>Sql_Result\<close> has fields, rows and the two kinds of
  results (\<open>field_names.cpp\<close>, \<open>row.cpp\<close>, \<open>result.cpp\<close>), with the C library as the record \<open>result_api\<close>,
  and the loops of \<open>Query\<close> over them. \<open>Sql_Calls\<close> has what stands on top: templates filled in by
  two to twenty-five parameters given one by one (\<open>querydef.h\<close>), the calls that ask the library for a number or a text,
  \<open>count_rows\<close>, and the texts of exceptions (\<open>exceptions.h\<close>). \<open>Ssx_Parser\<close> is the translator of structure declarations
  (\<open>ssx/parsev2.cpp\<close>, \<open>ssx/genv2.cpp\<close>); the file system is a function from paths to contents.
  \<open>Ssx_Main\<close> is the program around it: command lines (\<open>cmdline.cpp\<close>), with the library's own \<open>getopt\<close>, and
  \<open>main\<close>.

  \<^bold>\<open>Specialised structures.\<close> \<open>Sql_Null\<close> has the integers of one byte (\<open>tiny_int.h\<close>) and the values that
  can be null (\<open>null.h\<close>). \<open>Ssqls\<close> models the structures that the macros of \<open>ssqls.h\<close> define, for any
  number of members: what the macros repeat for each member is a recursion over the members, so one
  definition stands for the 25 copies of each macro. It shows that the lists a structure writes are the
  texts \<open>Sql_Insert\<close> makes statements of, that choices of members by flags and by enumerators agree,
  and that a structure is read back from the cells its values are written as. \<open>Ssqls_Order\<close> compares
  the operators of structures with a lexicographic order.

  \<^bold>\<open>How the parts meet.\<close> The gateway's handlers parse and build packets through \<open>Registry\<close>; its
  datagrams and the node's are those of \<open>Internal_Comms\<close>; \<open>Sql_Connection\<close> calls \<open>Sql_Driver\<close> and,
  for its own statements, \<open>Sql_Template\<close>, as \<open>Sql_Transaction\<close> does; \<open>Sql_Template\<close> quotes and escapes
  by the types of \<open>Sql_Types\<close>; \<open>Sql_Insert\<close> writes rows through \<open>Sql_Manip\<close> inside the scopes of
  \<open>Sql_Transaction\<close>; rows hold the strings of \<open>Sql_String\<close>, which read dates by \<open>Sql_DateTime\<close>;
  the structures of \<open>Ssqls\<close> read their members from those rows and write them through \<open>Sql_Manip\<close>.
  Contracts between parts are locales: \<open>codec\<close>, \<open>pointer_table\<close> (the
  owning maps), \<open>local_invariant\<close>, \<open>server_invariant\<close>, \<open>client_owner\<close> and \<open>login_owner\<close> (what a handler
  may rely on in its owner), \<open>driver_frame\<close> (what setting an option leaves alone), \<open>insert_policy\<close> (what \<open>insertfrom\<close> may rely on in
  its policy), \<open>comparable\<close> and \<open>ordered_operators\<close>, which gives \<open>comparable\<close> for values that can be null.

  \<^bold>\<open>What the lemmas show.\<close> Round trips of VarInts, packets, datagrams, templates, addresses, dates and
  times, quoted values, integers in fields, and translated documents; soundness of the reference
  counts; rows inserted all or not at all; stored and used results that agree; safety of the guarded constructors and of the tables of the gateway; the outcome of the
  handlers on every branch, the failing ones included; refinement of the abstract pool;
  equivalence of template expansion with direct substitution; termination of the loops, or the
  inputs on which they do not end. Loops that may not end (\<open>varint_front_loop\<close>, \<open>inflate_loop\<close>,
  \<open>deflate_loop\<close>, \<open>safe_grab\<close>, \<open>store_loop\<close>, \<open>rows_loop\<close>, \<open>storein_loop\<close>) are partial functions whose
  value is \<open>None\<close> when they run forever. Only the translator has a bound, on the depth of nested
  includes: \<open>includes_bounded\<close> shows that a depth above that of the files is enough, and that no depth is
  for a file that includes itself. Several properties state defects: what the code does where it does not do what it
  means to.

  \<^bold>\<open>Not modelled.\<close> Data races between worker threads of the gateway (handlers run one at a time); the contents of
  third-party libraries (asio, OpenSSL, zlib, rapidjson, the MySQL client), which are parameters;
  the keys and sockets made at start-up; generated code (\<open>packets.pb.cc\<close>); of MySQL++
  the conversions of strings to floating point and the operators built on them, and so the members of
  structures of such types; sets as members; \<open>storein\<close>, which picks an
  overload by the type of its container; the stubs of \<open>ssqls2.cpp\<close>; and what its tools print for the user.
\<close>

end
